(* ===== verification/Prelude.thy ===== *)
theory Prelude
  imports
    Main
    "HOL-Library.Sublist"
    "HOL-Library.AList"
    "HOL-Library.Char_ord"
    "HOL-Library.List_Lexorder"
begin

section \<open>Prelude: Rust values, strings and results\<close>

text \<open>
  What the components share. Rust's \<open>str\<close> is the byte sequence of its UTF-8 encoding, a
  \<^typ>\<open>string\<close> whose elements are bytes: \<open>len\<close> is \<^term>\<open>length\<close>, \<open>bytes\<close> is the list itself, and
  \<open>chars\<close> groups the bytes into characters (a lead byte with its continuation bytes).
  \<open>Result\<close> is a sum with \<open>Inl\<close> for the error, the \<open>?\<close> operator is \<open>bind_res\<close>, and for code that
  changes state \<open>bind_st\<close>. A \<open>HashMap\<close> is an association list: its order is the unspecified
  iteration order, and every lemma holds for each of them. The collections of lemmas are
  \<open>str_simps\<close> (string predicates) and \<open>res_simps\<close> (results).
\<close>

named_theorems str_simps
named_theorems res_simps

type_synonym str = string

subsection \<open>Bytes and ASCII classes\<close>

definition byte :: "char \<Rightarrow> nat" where
  "byte c = of_char c"

definition is_ascii_digit :: "char \<Rightarrow> bool" where
  "is_ascii_digit c \<longleftrightarrow> 48 \<le> byte c \<and> byte c \<le> 57"

definition is_ascii_lower :: "char \<Rightarrow> bool" where
  "is_ascii_lower c \<longleftrightarrow> 97 \<le> byte c \<and> byte c \<le> 122"

definition is_ascii_upper :: "char \<Rightarrow> bool" where
  "is_ascii_upper c \<longleftrightarrow> 65 \<le> byte c \<and> byte c \<le> 90"

definition is_ascii_alphanumeric :: "char \<Rightarrow> bool" where
  "is_ascii_alphanumeric c \<longleftrightarrow> is_ascii_digit c \<or> is_ascii_lower c \<or> is_ascii_upper c"

definition is_ascii_hexdigit :: "char \<Rightarrow> bool" where
  "is_ascii_hexdigit c \<longleftrightarrow>
     is_ascii_digit c \<or> (97 \<le> byte c \<and> byte c \<le> 102) \<or> (65 \<le> byte c \<and> byte c \<le> 70)"

definition to_lower_byte :: "char \<Rightarrow> char" where
  "to_lower_byte c = (if is_ascii_upper c then char_of (byte c + 32) else c)"

definition to_upper_byte :: "char \<Rightarrow> char" where
  "to_upper_byte c = (if is_ascii_lower c then char_of (byte c - 32) else c)"

definition to_ascii_lowercase :: "str \<Rightarrow> str" where
  "to_ascii_lowercase s = map to_lower_byte s"

definition to_ascii_uppercase :: "str \<Rightarrow> str" where
  "to_ascii_uppercase s = map to_upper_byte s"

definition eq_ignore_ascii_case :: "str \<Rightarrow> str \<Rightarrow> bool" where
  "eq_ignore_ascii_case a b \<longleftrightarrow> to_ascii_lowercase a = to_ascii_lowercase b"

subsection \<open>Characters of a UTF-8 string\<close>

definition is_cont :: "char \<Rightarrow> bool" where
  "is_cont c \<longleftrightarrow> 128 \<le> byte c \<and> byte c < 192"

function chars :: "str \<Rightarrow> str list" where
  "chars [] = []"
| "chars (b # bs) =
     (if byte b < 128 then [b] # chars bs
      else (b # takeWhile is_cont bs) # chars (dropWhile is_cont bs))"
  by pat_completeness auto
termination
  by (relation "measure length") (simp_all add: length_dropWhile_le less_Suc_eq_le)

text \<open>An ASCII byte is always a character of its own, also in a malformed string.\<close>

text \<open>\<open>char::is_control\<close> (general category Cc) and \<open>char::is_whitespace\<close> (White_Space), on the
  UTF-8 encoding of one character.\<close>

fun is_control :: "str \<Rightarrow> bool" where
  "is_control [a] \<longleftrightarrow> byte a < 32 \<or> byte a = 127"
| "is_control [a, b] \<longleftrightarrow> byte a = 194 \<and> 128 \<le> byte b \<and> byte b \<le> 159"
| "is_control _ \<longleftrightarrow> False"

fun is_whitespace :: "str \<Rightarrow> bool" where
  "is_whitespace [a] \<longleftrightarrow> (9 \<le> byte a \<and> byte a \<le> 13) \<or> byte a = 32"
| "is_whitespace [a, b] \<longleftrightarrow> byte a = 194 \<and> (byte b = 133 \<or> byte b = 160)"
| "is_whitespace [a, b, c] \<longleftrightarrow>
     (byte a = 225 \<and> byte b = 154 \<and> byte c = 128) \<or>
     (byte a = 226 \<and> byte b = 128 \<and> (128 \<le> byte c \<and> byte c \<le> 138 \<or> byte c \<in> {168, 169, 175})) \<or>
     (byte a = 226 \<and> byte b = 129 \<and> byte c = 159) \<or>
     (byte a = 227 \<and> byte b = 128 \<and> byte c = 128)"
| "is_whitespace _ \<longleftrightarrow> False"

definition trim_start :: "str \<Rightarrow> str" where
  "trim_start s = concat (dropWhile is_whitespace (chars s))"

definition trim_end :: "str \<Rightarrow> str" where
  "trim_end s = concat (rev (dropWhile is_whitespace (rev (chars s))))"

definition trim :: "str \<Rightarrow> str" where
  "trim s = trim_end (trim_start s)"

text \<open>\<open>split_whitespace\<close>: the maximal runs of characters that are not white space.\<close>

fun ws_words :: "str list \<Rightarrow> str \<Rightarrow> str list" where
  "ws_words [] acc = (if acc = [] then [] else [acc])"
| "ws_words (c # cs) acc =
     (if is_whitespace c then (if acc = [] then ws_words cs [] else acc # ws_words cs [])
      else ws_words cs (acc @ c))"

definition split_whitespace :: "str \<Rightarrow> str list" where
  "split_whitespace s = ws_words (chars s) []"

subsection \<open>Searching and splitting\<close>

definition starts_with :: "str \<Rightarrow> str \<Rightarrow> bool" where
  "starts_with s p \<longleftrightarrow> take (length p) s = p"

definition ends_with :: "str \<Rightarrow> str \<Rightarrow> bool" where
  "ends_with s p \<longleftrightarrow> take (length p) (rev s) = rev p"

definition strip_prefix :: "str \<Rightarrow> str \<Rightarrow> str option" where
  "strip_prefix s p = (if starts_with s p then Some (drop (length p) s) else None)"

fun contains_str :: "str \<Rightarrow> str \<Rightarrow> bool" where
  "contains_str [] p \<longleftrightarrow> p = []"
| "contains_str (c # cs) p \<longleftrightarrow> starts_with (c # cs) p \<or> contains_str cs p"

definition contains_char :: "str \<Rightarrow> char \<Rightarrow> bool" where
  "contains_char s c \<longleftrightarrow> c \<in> set s"

fun split_on :: "char \<Rightarrow> str \<Rightarrow> str list" where
  "split_on d [] = [[]]"
| "split_on d (c # cs) =
     (if c = d then [] # split_on d cs
      else (case split_on d cs of [] \<Rightarrow> [[c]] | w # ws \<Rightarrow> (c # w) # ws))"

fun split_once :: "char \<Rightarrow> str \<Rightarrow> (str \<times> str) option" where
  "split_once d [] = None"
| "split_once d (c # cs) =
     (if c = d then Some ([], cs)
      else map_option (\<lambda>(a, b). (c # a, b)) (split_once d cs))"

definition rsplit_once :: "char \<Rightarrow> str \<Rightarrow> (str \<times> str) option" where
  "rsplit_once d s = map_option (\<lambda>(a, b). (rev b, rev a)) (split_once d (rev s))"

fun join :: "str \<Rightarrow> str list \<Rightarrow> str" where
  "join sep [] = []"
| "join sep [w] = w"
| "join sep (w # ws) = w @ sep @ join sep ws"

text \<open>\<open>str::lines\<close>: pieces ended by a newline, a final empty piece dropped, one trailing
  carriage return of each piece removed.\<close>

definition strip_cr :: "str \<Rightarrow> str" where
  "strip_cr l = (if l \<noteq> [] \<and> last l = CHR 0x0D then butlast l else l)"

definition lines :: "str \<Rightarrow> str list" where
  "lines s = (let ps = split_on (CHR 0x0A) s;
                  body = map strip_cr (butlast ps)
              in if last ps = [] then body else body @ [last ps])"

text \<open>Decimal rendering of a natural number (\<open>Display\<close> of the unsigned integers).\<close>

fun show_nat :: "nat \<Rightarrow> str" where
  "show_nat n = (if n < 10 then [char_of (48 + n)] else show_nat (n div 10) @ [char_of (48 + n mod 10)])"

declare show_nat.simps [simp del]

text \<open>\<open>Debug\<close> of a string: quoted, with the escapes of the ASCII range.\<close>

definition hex_digit :: "nat \<Rightarrow> char" where
  "hex_digit n = (if n < 10 then char_of (48 + n) else char_of (87 + n))"

definition debug_escape :: "char \<Rightarrow> str" where
  "debug_escape c =
     (if c = CHR 0x22 then [CHR 0x5C, CHR 0x22]
      else if c = CHR 0x5C then [CHR 0x5C, CHR 0x5C]
      else if byte c = 0 then [CHR 0x5C, CHR ''0'']
      else if byte c = 9 then [CHR 0x5C, CHR ''t'']
      else if byte c = 10 then [CHR 0x5C, CHR ''n'']
      else if byte c = 13 then [CHR 0x5C, CHR ''r'']
      else if byte c < 16 then [CHR 0x5C] @ ''u{'' @ [hex_digit (byte c)] @ ''}''
      else if byte c < 32 \<or> byte c = 127
        then [CHR 0x5C] @ ''u{'' @ [hex_digit (byte c div 16), hex_digit (byte c mod 16)] @ ''}''
      else [c])"

definition debug_str :: "str \<Rightarrow> str" where
  "debug_str s = [CHR 0x22] @ concat (map debug_escape s) @ [CHR 0x22]"

subsection \<open>Results\<close>

definition bind_res :: "'e + 'a \<Rightarrow> ('a \<Rightarrow> 'e + 'b) \<Rightarrow> 'e + 'b" where
  "bind_res r f = (case r of Inl e \<Rightarrow> Inl e | Inr a \<Rightarrow> f a)"

definition bind_st :: "('e + 'a) \<times> 's \<Rightarrow> ('a \<Rightarrow> 's \<Rightarrow> ('e + 'b) \<times> 's) \<Rightarrow> ('e + 'b) \<times> 's" where
  "bind_st r f = (case r of (Inl e, s) \<Rightarrow> (Inl e, s) | (Inr a, s) \<Rightarrow> f a s)"

definition ok_or :: "'a option \<Rightarrow> 'e \<Rightarrow> 'e + 'a" where
  "ok_or x e = (case x of None \<Rightarrow> Inl e | Some a \<Rightarrow> Inr a)"

definition ensure :: "bool \<Rightarrow> 'e \<Rightarrow> 'e + unit" where
  "ensure c e = (if c then Inr () else Inl e)"

definition is_ok :: "'e + 'a \<Rightarrow> bool" where
  "is_ok r = (case r of Inl _ \<Rightarrow> False | Inr _ \<Rightarrow> True)"

fun for_each :: "('a \<Rightarrow> 'e + unit) \<Rightarrow> 'a list \<Rightarrow> 'e + unit" where
  "for_each f [] = Inr ()"
| "for_each f (x # xs) = bind_res (f x) (\<lambda>_. for_each f xs)"

definition nth_opt :: "'a list \<Rightarrow> nat \<Rightarrow> 'a option" where
  "nth_opt xs i = (if i < length xs then Some (xs ! i) else None)"

text \<open>A stable descending sort, as \<open>sort_by (|a, b| key(b).cmp(key(a)))\<close>.\<close>

definition sort_desc :: "('a \<Rightarrow> 'k::linorder) \<Rightarrow> 'a list \<Rightarrow> 'a list" where
  "sort_desc f xs = rev (sort_key f (rev xs))"


section \<open>Lemmas of the prelude\<close>

subsection \<open>Results\<close>

lemma bind_res_Inr [res_simps, simp]: "bind_res (Inr a) f = f a"
  by (simp add: bind_res_def)

lemma bind_res_Inl [res_simps, simp]: "bind_res (Inl e) f = Inl e"
  by (simp add: bind_res_def)

lemma bind_res_eq_Inr [res_simps]:
  "bind_res r f = Inr b \<longleftrightarrow> (\<exists>a. r = Inr a \<and> f a = Inr b)"
  by (cases r) auto

lemma bind_res_eq_Inl [res_simps]:
  "bind_res r f = Inl e \<longleftrightarrow> r = Inl e \<or> (\<exists>a. r = Inr a \<and> f a = Inl e)"
  by (cases r) auto

lemma ensure_eq_Inr [res_simps]: "ensure c e = Inr u \<longleftrightarrow> c"
  by (simp add: ensure_def)

lemma ensure_eq_Inl [res_simps]: "ensure c e = Inl e' \<longleftrightarrow> \<not> c \<and> e = e'"
  by (simp add: ensure_def)

lemma ensure_True [simp]: "ensure True e = Inr ()"
  by (simp add: ensure_def)

lemma ensure_False [simp]: "ensure False e = Inl e"
  by (simp add: ensure_def)

lemma ok_or_eq_Inr [res_simps]: "ok_or x e = Inr a \<longleftrightarrow> x = Some a"
  by (cases x) (auto simp: ok_or_def)

lemma ok_or_eq_Inl [res_simps]: "ok_or x e = Inl e' \<longleftrightarrow> x = None \<and> e = e'"
  by (cases x) (auto simp: ok_or_def)

lemma ok_or_Some [simp]: "ok_or (Some a) e = Inr a"
  by (simp add: ok_or_def)

lemma ok_or_None [simp]: "ok_or None e = Inl e"
  by (simp add: ok_or_def)

lemma is_ok_iff [res_simps]: "is_ok r \<longleftrightarrow> (\<exists>a. r = Inr a)"
  by (cases r) (auto simp: is_ok_def)

lemma for_each_eq_Inr [res_simps]:
  "for_each f xs = Inr u \<longleftrightarrow> (\<forall>x \<in> set xs. f x = Inr ())"
  by (induction xs) (auto simp: res_simps)

lemma bind_st_Inr [res_simps, simp]: "bind_st (Inr a, s) f = f a s"
  by (simp add: bind_st_def)

lemma bind_st_Inl [res_simps, simp]: "bind_st (Inl e, s) f = (Inl e, s)"
  by (simp add: bind_st_def)

lemma bind_st_eq_Inr [res_simps]:
  "bind_st r f = (Inr b, s') \<longleftrightarrow> (\<exists>a s. r = (Inr a, s) \<and> f a s = (Inr b, s'))"
  by (auto simp: bind_st_def split: prod.splits sum.splits)

lemma bind_st_cases:
  assumes "bind_st r f = (x, s')"
  obtains (err) e where "r = (Inl e, s')" "x = Inl e"
    | (ok) a s where "r = (Inr a, s)" "f a s = (x, s')"
  using assms by (cases r) (auto simp: bind_st_def split: sum.splits)

subsection \<open>Bytes\<close>

lemma byte_less [simp]: "byte c < 256"
proof -
  have "(of_char c :: nat) mod 256 = of_char c"
    by (rule of_char_mod_256)
  then show ?thesis
    by (metis byte_def mod_less_divisor zero_less_numeral)
qed

lemma byte_char_of [simp]: "n < 256 \<Longrightarrow> byte (char_of n) = n"
  by (simp add: byte_def)

lemma byte_of_char_of: "byte (char_of n) = n mod 256"
  by (simp add: byte_def)

lemma byte_inject [simp]: "byte a = byte b \<longleftrightarrow> a = b"
  by (metis byte_def char_of_char)

lemma hexdigit_alphanumeric: "is_ascii_hexdigit c \<Longrightarrow> is_ascii_alphanumeric c"
  by (auto simp: is_ascii_hexdigit_def is_ascii_alphanumeric_def is_ascii_lower_def
      is_ascii_upper_def)

lemma alphanumeric_ascii: "is_ascii_alphanumeric c \<Longrightarrow> 48 \<le> byte c \<and> byte c \<le> 122"
  by (auto simp: is_ascii_alphanumeric_def is_ascii_digit_def is_ascii_lower_def is_ascii_upper_def)

lemma to_lower_byte_idem [simp]: "to_lower_byte (to_lower_byte c) = to_lower_byte c"
  by (simp add: to_lower_byte_def is_ascii_upper_def)

lemma to_ascii_lowercase_idem [simp]:
  "to_ascii_lowercase (to_ascii_lowercase s) = to_ascii_lowercase s"
  by (simp add: to_ascii_lowercase_def)

lemma eq_ignore_case_refl [simp]: "eq_ignore_ascii_case s s"
  by (simp add: eq_ignore_ascii_case_def)

lemma eq_ignore_case_sym: "eq_ignore_ascii_case a b \<Longrightarrow> eq_ignore_ascii_case b a"
  by (simp add: eq_ignore_ascii_case_def)

lemma eq_ignore_case_trans:
  "eq_ignore_ascii_case a b \<Longrightarrow> eq_ignore_ascii_case b c \<Longrightarrow> eq_ignore_ascii_case a c"
  by (simp add: eq_ignore_ascii_case_def)

subsection \<open>Characters\<close>

lemma concat_chars [simp]: "concat (chars s) = s"
  by (induction s rule: chars.induct) auto

lemma chars_eq_Nil [simp]: "chars s = [] \<longleftrightarrow> s = []"
  by (cases s) auto

lemma chars_ascii: "\<forall>c \<in> set s. byte c < 128 \<Longrightarrow> chars s = map (\<lambda>c. [c]) s"
  by (induction s) auto

lemma ascii_char_mem:
  assumes "c \<in> set s" and "byte c < 128"
  shows "[c] \<in> set (chars s)"
  using assms
proof (induction s rule: chars.induct)
  case (2 b bs)
  show ?case
  proof (cases "byte b < 128")
    case True
    with 2 show ?thesis by auto
  next
    case False
    with "2.prems" have "c \<in> set (takeWhile is_cont bs @ dropWhile is_cont bs)" by auto
    moreover have "c \<notin> set (takeWhile is_cont bs)"
      using "2.prems"(2) by (auto dest!: set_takeWhileD simp: is_cont_def)
    ultimately have "c \<in> set (dropWhile is_cont bs)" unfolding set_append by blast
    with False 2 show ?thesis by simp
  qed
qed simp

lemma chars_append_ascii: "byte c < 128 \<Longrightarrow> chars (a @ c # b) = chars a @ [c] # chars b"
proof (induction a rule: chars.induct)
  case (2 x xs)
  have nc: "\<not> is_cont c" using "2.prems" by (simp add: is_cont_def)
  show ?case
  proof (cases "byte x < 128")
    case False
    have "takeWhile is_cont (xs @ c # b) = takeWhile is_cont xs"
      "dropWhile is_cont (xs @ c # b) = dropWhile is_cont xs @ c # b"
      using nc by (induction xs) auto
    with False 2 show ?thesis by simp
  qed (use 2 in simp)
qed simp

lemma no_control_bytes:
  assumes "\<forall>ch \<in> set (chars s). \<not> is_control ch" and "c \<in> set s"
  shows "32 \<le> byte c \<and> byte c \<noteq> 127"
proof (cases "byte c < 128")
  case True
  with assms have "\<not> is_control [c]" by (blast dest: ascii_char_mem)
  then show ?thesis by auto
next
  case False
  then show ?thesis by simp
qed

subsection \<open>Prefixes, suffixes and substrings\<close>

lemma starts_with_prefix [str_simps]: "starts_with s p \<longleftrightarrow> prefix p s"
  by (metis append_eq_conv_conj prefix_def starts_with_def append_take_drop_id)

lemma ends_with_suffix [str_simps]: "ends_with s p \<longleftrightarrow> suffix p s"
  using starts_with_prefix [of "rev s" "rev p"]
  by (simp add: ends_with_def starts_with_def suffix_to_prefix)

lemma contains_sublist [str_simps]: "contains_str s p \<longleftrightarrow> sublist p s"
  by (induction s) (auto simp: starts_with_prefix sublist_Cons_right)

lemma strip_prefix_Some [str_simps]: "strip_prefix s p = Some r \<longleftrightarrow> s = p @ r"
  by (auto simp: strip_prefix_def starts_with_def)
    (metis append_take_drop_id)

lemma strip_prefix_None [str_simps]: "strip_prefix s p = None \<longleftrightarrow> \<not> prefix p s"
  by (simp add: strip_prefix_def starts_with_prefix)

subsection \<open>Splitting\<close>

lemma split_on_not_Nil [simp]: "split_on d s \<noteq> []"
  by (induction s) (auto split: list.splits)

lemma split_on_no_sep: "w \<in> set (split_on d s) \<Longrightarrow> d \<notin> set w"
  by (induction s arbitrary: w) (auto split: list.splits if_splits)

lemma split_on_Cons_eq:
  "c \<noteq> d \<Longrightarrow> split_on d (c # cs) = (c # hd (split_on d cs)) # tl (split_on d cs)"
  by (cases "split_on d cs") auto

lemma split_on_append_sep: "split_on d (a @ d # b) = split_on d a @ split_on d b"
  by (induction a) (auto split: list.splits)

lemma split_on_simple: "d \<notin> set a \<Longrightarrow> split_on d a = [a]"
  by (induction a) auto

lemma split_on_first: "d \<notin> set a \<Longrightarrow> split_on d (a @ d # b) = a # split_on d b"
  by (simp add: split_on_append_sep split_on_simple)

lemma split_join: "list_all (\<lambda>w. d \<notin> set w) (w # ws) \<Longrightarrow> split_on d (join [d] (w # ws)) = w # ws"
proof (induction ws arbitrary: w)
  case Nil
  then show ?case by (simp add: split_on_simple)
next
  case (Cons v ws)
  then show ?case by (simp add: split_on_first)
qed

lemma join_split_on: "join [d] (split_on d s) = s"
proof (induction s)
  case (Cons c cs)
  obtain w ws where w: "split_on d cs = w # ws"
    by (cases "split_on d cs") auto
  with Cons show ?case by (cases ws) auto
qed simp

lemma split_on_pieces_subset: "w \<in> set (split_on d s) \<Longrightarrow> set w \<subseteq> set s"
proof (induction s arbitrary: w)
  case (Cons c cs)
  obtain v vs where v: "split_on d cs = v # vs"
    by (cases "split_on d cs") auto
  show ?case
  proof (cases "c = d \<or> w \<in> set vs")
    case True
    with Cons v show ?thesis by (fastforce split: if_splits)
  next
    case False
    with Cons.prems v have "w = c # v" by simp
    with Cons.IH [of v] v show ?thesis by auto
  qed
qed simp

text \<open>Where a component of a split string can stand: it is the whole string, its first or last
  component, or between two separators. This turns substring tests such as \<open>contains("/../")\<close>
  into statements on components.\<close>

lemma split_on_cases:
  assumes "w \<in> set (split_on d s)"
  shows "s = w \<or> prefix (w @ [d]) s \<or> suffix (d # w) s \<or> sublist (d # w @ [d]) s"
  using assms
proof (induction s arbitrary: w rule: length_induct)
  case (1 s)
  show ?case
  proof (cases "d \<in> set s")
    case False
    with 1 show ?thesis by (simp add: split_on_simple)
  next
    case True
    then obtain a b where s: "s = a @ d # b" and a: "d \<notin> set a"
      by (meson split_list_first)
    from 1 s a consider "w = a" | "w \<in> set (split_on d b)"
      by (auto simp: split_on_first)
    then show ?thesis
    proof cases
      case 1
      with s show ?thesis by simp
    next
      case 2
      have "length b < length s" using s by simp
      with 2 "1.IH" have "b = w \<or> prefix (w @ [d]) b \<or> suffix (d # w) b \<or> sublist (d # w @ [d]) b"
        by blast
      then show ?thesis
      proof (elim disjE)
        assume "b = w"
        with s show ?thesis by (simp add: suffix_def)
      next
        assume "prefix (w @ [d]) b"
        then obtain z where "b = (w @ [d]) @ z" by (rule prefixE)
        with s have "s = a @ (d # w @ [d]) @ z" by simp
        then show ?thesis by (metis sublist_appendI)
      next
        assume "suffix (d # w) b"
        with s show ?thesis by (metis suffix_order.order_trans suffix_appendI suffix_ConsI)
      next
        assume "sublist (d # w @ [d]) b"
        with s show ?thesis by (metis sublist_append_leftI sublist_append_rightI
            sublist_order.order_trans sublist_Cons_right)
      qed
    qed
  qed
qed

lemma split_once_Some [str_simps]:
  "split_once d s = Some (a, b) \<longleftrightarrow> s = a @ d # b \<and> d \<notin> set a"
  by (induction s arbitrary: a b) (auto simp: Cons_eq_append_conv)

lemma split_once_None [str_simps]: "split_once d s = None \<longleftrightarrow> d \<notin> set s"
  by (induction s) auto

lemma nth_opt_Some [simp]: "nth_opt xs i = Some x \<longleftrightarrow> i < length xs \<and> xs ! i = x"
  by (auto simp: nth_opt_def)

lemma nth_opt_None [simp]: "nth_opt xs i = None \<longleftrightarrow> length xs \<le> i"
  by (auto simp: nth_opt_def)

subsection \<open>Sorting and numbers\<close>

lemma set_sort_desc [simp]: "set (sort_desc f xs) = set xs"
  by (simp add: sort_desc_def)

lemma length_sort_desc [simp]: "length (sort_desc f xs) = length xs"
  by (simp add: sort_desc_def)

lemma sorted_sort_desc: "sorted (rev (map f (sort_desc f xs)))"
  by (simp add: sort_desc_def rev_map [symmetric])

lemma length_show_nat: "n < 10 ^ k \<Longrightarrow> 0 < k \<Longrightarrow> length (show_nat n) \<le> k"
proof (induction k arbitrary: n)
  case (Suc k)
  show ?case
  proof (cases "n < 10")
    case False
    with Suc.prems have "0 < k" by (cases k) auto
    moreover have "n div 10 < 10 ^ k" using Suc.prems(1) by (simp add: div_less_iff_less_mult)
    ultimately have "length (show_nat (n div 10)) \<le> k" by (rule Suc.IH [rotated])
    with False show ?thesis by (simp add: show_nat.simps [of n])
  qed (simp add: show_nat.simps [of n])
qed simp

lemma show_nat_digits: "c \<in> set (show_nat n) \<Longrightarrow> is_ascii_digit c"
proof (induction n rule: show_nat.induct)
  case (1 n)
  show ?case
  proof (cases "n < 10")
    case True
    with "1.prems" show ?thesis
      by (simp add: show_nat.simps [of n] is_ascii_digit_def)
  next
    case False
    with 1 show ?thesis
      by (auto simp: show_nat.simps [of n] is_ascii_digit_def)
  qed
qed

end
