(* ===== verification/Broker_Protocol.thy ===== *)
theory Broker_Protocol
  imports Prelude "HOL-Library.Word"
begin

section \<open>The broker's wire contract (src/src/broker/mod.rs)\<close>

text \<open>
  Requests, responses and stream frames exchanged between the backend and the root-owned broker,
  and the length-prefixed framing they travel in. A byte stream is the \<^typ>\<open>str\<close> of the bytes
  that arrive before the end of input; a read past it is the failure of \<open>read_exact\<close>. The JSON
  text of a value is produced by serde, code that is not part of the repository: the functions
  that use it take the encoder and decoder as arguments. The lemmas show that a frame that was
  written is read back with the rest of the stream untouched, and that the size limits hold on
  both sides.
\<close>

type_synonym u8 = "8 word"
type_synonym u32 = "32 word"
type_synonym u64 = "64 word"

definition PROTOCOL_VERSION :: u32 where
  "PROTOCOL_VERSION = 1"

definition CONTROL_FRAME_MAX :: nat where
  "CONTROL_FRAME_MAX = 1024 * 1024"

definition CHUNK_PAYLOAD_MAX :: nat where
  "CHUNK_PAYLOAD_MAX = 256 * 1024"

definition EXEC_TIMEOUT_CAP :: u64 where
  "EXEC_TIMEOUT_CAP = 900"

definition default_timeout_secs :: u64 where
  "default_timeout_secs = 300"

datatype pci_write_kind = Unbind | Override | Bind

datatype op =
    Ping
  | Exec (exec_program: str) (exec_args: "str list") (exec_stream: bool)
      (exec_stdin_stream: bool) (exec_timeout: u64)
  | PciWrite (pci_kind: pci_write_kind) (pci_address: str)
  | LxcConfigAppend (append_name: str) (append_block: str)
  | LxcRootfsSet (rootfs_name: str) (rootfs_dataset: str)
  | ConsoleAttach (console_pty: str) (console_timeout: u64)
  | LxcConsoleAttach (lxc_console_name: str) (lxc_console_timeout: u64)

record request =
  req_v :: u32
  req_id :: str
  req_op :: op

datatype stream_frame =
    Stdin str
  | StdinEof
  | Stdout str
  | Exit (exit_code: int) (exit_stderr: str) (exit_timed_out: bool)

record response =
  resp_ok :: bool
  resp_stdout :: str
  resp_stderr :: str
  resp_code :: "int option"
  resp_error_kind :: "str option"
  resp_error :: "str option"

definition success :: "str \<Rightarrow> str \<Rightarrow> int \<Rightarrow> response" where
  "success out err c =
     \<lparr>resp_ok = True, resp_stdout = out, resp_stderr = err, resp_code = Some c,
      resp_error_kind = None, resp_error = None\<rparr>"

definition failure :: "str \<Rightarrow> response" where
  "failure e =
     \<lparr>resp_ok = False, resp_stdout = [], resp_stderr = [], resp_code = None,
      resp_error_kind = Some ''protocol'', resp_error = Some e\<rparr>"

definition spawn_not_found :: "str \<Rightarrow> response" where
  "spawn_not_found e =
     \<lparr>resp_ok = False, resp_stdout = [], resp_stderr = [], resp_code = None,
      resp_error_kind = Some ''spawn_not_found'', resp_error = Some e\<rparr>"

definition exec_failed :: "str \<Rightarrow> str \<Rightarrow> response" where
  "exec_failed e err =
     \<lparr>resp_ok = False, resp_stdout = [], resp_stderr = err, resp_code = Some (-1),
      resp_error_kind = Some ''exec'', resp_error = Some e\<rparr>"

subsection \<open>Framing\<close>

datatype frame_error =
    ReadLengthPrefix
  | ZeroLengthFrame
  | FrameTooBig nat
  | ReadFrameBody
  | FrameBodyTooLarge
  | ParseFrame str

fun frame_error_msg :: "frame_error \<Rightarrow> str" where
  "frame_error_msg ReadLengthPrefix = ''read length prefix: early eof''"
| "frame_error_msg ZeroLengthFrame = ''zero-length frame''"
| "frame_error_msg (FrameTooBig n) =
     ''frame of '' @ show_nat n @ '' bytes exceeds the '' @ show_nat CONTROL_FRAME_MAX
       @ '' byte limit''"
| "frame_error_msg ReadFrameBody = ''read frame body: early eof''"
| "frame_error_msg FrameBodyTooLarge = ''frame body too large''"
| "frame_error_msg (ParseFrame e) = ''parse frame: '' @ e"

text \<open>\<open>u32::to_le_bytes\<close> and \<open>u32::from_le_bytes\<close>.\<close>

definition to_le_bytes :: "u32 \<Rightarrow> str" where
  "to_le_bytes w = map (\<lambda>i. char_of (unat w div 256 ^ i mod 256)) [0, 1, 2, 3]"

fun le_value :: "str \<Rightarrow> nat" where
  "le_value [] = 0"
| "le_value (b # bs) = byte b + 256 * le_value bs"

definition from_le_bytes :: "str \<Rightarrow> u32" where
  "from_le_bytes bs = of_nat (le_value bs)"

definition read_exact :: "nat \<Rightarrow> str \<Rightarrow> (str \<times> str) option" where
  "read_exact n inp = (if length inp < n then None else Some (take n inp, drop n inp))"

definition read_frame :: "str \<Rightarrow> frame_error + str \<times> str" where
  "read_frame inp =
     (case read_exact 4 inp of
        None \<Rightarrow> Inl ReadLengthPrefix
      | Some (len_buf, rest) \<Rightarrow>
          (let len = from_le_bytes len_buf in
           if len = 0 then Inl ZeroLengthFrame
           else if CONTROL_FRAME_MAX < unat len then Inl (FrameTooBig (unat len))
           else (case read_exact (unat len) rest of
                   None \<Rightarrow> Inl ReadFrameBody
                 | Some (buf, rest') \<Rightarrow> Inr (buf, rest'))))"

definition read_json :: "(str \<Rightarrow> str + 'a) \<Rightarrow> str \<Rightarrow> frame_error + 'a \<times> str" where
  "read_json of_json inp =
     bind_res (read_frame inp) (\<lambda>(body, rest).
       case of_json body of Inl e \<Rightarrow> Inl (ParseFrame e) | Inr v \<Rightarrow> Inr (v, rest))"

text \<open>\<open>write_frame\<close> gives the bytes handed to the transport.\<close>

definition write_frame :: "str \<Rightarrow> frame_error + str" where
  "write_frame body =
     (if 2 ^ 32 \<le> length body then Inl FrameBodyTooLarge
      else let len = (of_nat (length body) :: u32) in
        if CONTROL_FRAME_MAX < unat len then Inl FrameBodyTooLarge
        else Inr (to_le_bytes len @ body))"

definition write_json :: "('a \<Rightarrow> str) \<Rightarrow> 'a \<Rightarrow> frame_error + str" where
  "write_json to_json v = write_frame (to_json v)"

subsection \<open>Lemmas on framing\<close>

lemma length_to_le_bytes [simp]: "length (to_le_bytes w) = 4"
  by (simp add: to_le_bytes_def)

lemma base256_digits:
  fixes n :: nat
  shows "n mod 256 + 256 * (n div 256 mod 256 + 256 * (n div 65536 mod 256
           + 256 * (n div 16777216))) = n"
proof -
  have a: "n div 65536 = n div 256 div 256" and b: "n div 16777216 = n div 256 div 256 div 256"
    by (simp_all add: div_mult2_eq [symmetric])
  show ?thesis
    unfolding a b by (simp add: mod_div_mult_eq mult.commute)
qed

lemma from_to_le_bytes [simp]: "from_le_bytes (to_le_bytes w) = w"
proof -
  have "unat w < 2 ^ LENGTH(32)"
    by (rule unsigned_less)
  then have "le_value (to_le_bytes w) = unat w"
    using base256_digits [of "unat w"]
    by (simp add: to_le_bytes_def byte_of_char_of)
  then show ?thesis by (simp add: from_le_bytes_def)
qed

lemma read_exact_append [simp]: "read_exact (length a) (a @ b) = Some (a, b)"
  by (simp add: read_exact_def)

lemma read_frame_Inr:
  assumes "read_frame inp = Inr (body, rest)"
  shows "0 < length body \<and> length body \<le> CONTROL_FRAME_MAX \<and>
         (\<exists>len_buf. length len_buf = 4 \<and> inp = len_buf @ body @ rest \<and>
            unat (from_le_bytes len_buf) = length body)"
proof -
  from assms have len: "\<not> length inp < 4" "from_le_bytes (take 4 inp) \<noteq> 0"
      "unat (from_le_bytes (take 4 inp)) \<le> CONTROL_FRAME_MAX"
      "\<not> length (drop 4 inp) < unat (from_le_bytes (take 4 inp))"
    and body: "body = take (unat (from_le_bytes (take 4 inp))) (drop 4 inp)"
    and rest: "rest = drop (unat (from_le_bytes (take 4 inp))) (drop 4 inp)"
    by (auto simp: read_frame_def read_exact_def Let_def split: if_splits)
  have "inp = take 4 inp @ body @ rest"
    unfolding body rest by (simp only: append_take_drop_id)
  moreover have "length (take 4 inp) = 4" using len by simp
  moreover have "length body = unat (from_le_bytes (take 4 inp))"
    using len by (simp add: body)
  moreover have "0 < unat (from_le_bytes (take 4 inp))"
    using len(2) by (simp add: unat_gt_0)
  ultimately show ?thesis using len(3) by metis
qed

lemma read_json_Inr:
  assumes "read_json of_json inp = Inr (v, rest)"
  shows "\<exists>body. read_frame inp = Inr (body, rest) \<and> of_json body = Inr v"
proof -
  from assms obtain body r where rf: "read_frame inp = Inr (body, r)"
    and "(case of_json body of Inl e \<Rightarrow> Inl (ParseFrame e) | Inr v \<Rightarrow> Inr (v, r)) = Inr (v, rest)"
    by (auto simp: read_json_def bind_res_eq_Inr)
  then have "of_json body = Inr v \<and> r = rest" by (cases "of_json body") simp_all
  with rf show ?thesis by blast
qed

lemma read_json_shorter: "read_json of_json inp = Inr (v, rest) \<Longrightarrow> length rest < length inp"
  by (auto dest!: read_json_Inr read_frame_Inr)

lemma write_frame_cases:
  "write_frame body = (if length body \<le> CONTROL_FRAME_MAX
     then Inr (to_le_bytes (of_nat (length body)) @ body) else Inl FrameBodyTooLarge)"
proof (cases "length body < 2 ^ 32")
  case True
  then have "unat (of_nat (length body) :: u32) = length body"
    by (simp add: unat_of_nat)
  with True show ?thesis by (simp add: write_frame_def)
next
  case False
  then have "CONTROL_FRAME_MAX < length body" by (simp add: CONTROL_FRAME_MAX_def)
  with False show ?thesis by (simp add: write_frame_def)
qed

lemma read_frame_written:
  assumes "body \<noteq> []" and "length body \<le> CONTROL_FRAME_MAX"
  shows "read_frame (to_le_bytes (of_nat (length body)) @ body @ rest) = Inr (body, rest)"
proof -
  have "length body < 2 ^ LENGTH(32)"
    using assms(2) by (simp add: CONTROL_FRAME_MAX_def)
  then have un: "unat (of_nat (length body) :: u32) = length body"
    by (simp add: unat_of_nat)
  with assms(1) have "(of_nat (length body) :: u32) \<noteq> 0"
    by (metis length_greater_0_conv less_numeral_extra(3) unat_0)
  with un assms(2) show ?thesis
    by (simp add: read_frame_def read_exact_def)
qed

lemma read_frame_truncated:
  assumes "length body \<le> CONTROL_FRAME_MAX" and "k < 4 + length body"
  shows "\<exists>e. read_frame (take k (to_le_bytes (of_nat (length body)) @ body)) = Inl e"
proof (rule ccontr)
  let ?w = "to_le_bytes (of_nat (length body))"
  assume "\<not> ?thesis"
  then obtain b r where ok: "read_frame (take k (?w @ body)) = Inr (b, r)"
    by (cases "read_frame (take k (?w @ body))") auto
  from read_frame_Inr [OF ok] obtain l where l: "length l = 4" "take k (?w @ body) = l @ b @ r"
      "unat (from_le_bytes l) = length b" by blast
  have "4 \<le> k" using arg_cong [OF l(2), of length] l(1) by simp
  moreover from l(1,2) have "l = take 4 (take k (?w @ body))" by simp
  ultimately have "l = ?w" by (simp add: min_def)
  moreover have "length body < 2 ^ LENGTH(32)"
    using assms(1) by (simp add: CONTROL_FRAME_MAX_def)
  ultimately have "length b = length body" using l(3) by (simp add: unat_of_nat)
  with l(1) arg_cong [OF l(2), of length] assms(2) show False by simp
qed

text \<open>
  C34. Framing round trip. A non-empty body is refused by \<open>write_frame\<close> exactly when it is larger
  than the control-frame limit. Otherwise the bytes written are read back by \<open>read_frame\<close> as that
  body, with whatever follows on the stream left unread, and every proper prefix of these bytes
  (a connection cut in the middle of a frame) is reported as an error and never as a shorter body.
\<close>

theorem frame_roundtrip:
  assumes "body \<noteq> []"
  shows "case write_frame body of
           Inl e \<Rightarrow> e = FrameBodyTooLarge \<and> CONTROL_FRAME_MAX < length body
         | Inr bytes \<Rightarrow> length body \<le> CONTROL_FRAME_MAX \<and>
             read_frame (bytes @ rest) = Inr (body, rest) \<and>
             (\<forall>k < length bytes. \<not> is_ok (read_frame (take k bytes)))"
proof (cases "length body \<le> CONTROL_FRAME_MAX")
  case True
  have "\<not> is_ok (read_frame (take k (to_le_bytes (of_nat (length body)) @ body)))"
    if "k < 4 + length body" for k
    using read_frame_truncated [OF True that] by (auto simp: is_ok_def)
  with True show ?thesis
    using read_frame_written [OF assms True] by (simp add: write_frame_cases)
qed (simp add: write_frame_cases)

theorem frame_roundtrip_witness:
  "write_frame ''{}'' = Inr ([CHR 0x02, CHR 0x00, CHR 0x00, CHR 0x00] @ ''{}'') \<and>
   read_frame (([CHR 0x02, CHR 0x00, CHR 0x00, CHR 0x00] @ ''{}'') @ ''tail'') = Inr (''{}'', ''tail'')"
proof -
  have c: "char_of (2 :: nat) = CHR 0x02" "char_of (0 :: nat) = CHR 0x00" by code_simp+
  have w: "write_frame ''{}'' = Inr ([CHR 0x02, CHR 0x00, CHR 0x00, CHR 0x00] @ ''{}'')"
    by (simp add: write_frame_cases CONTROL_FRAME_MAX_def to_le_bytes_def c)
  have "''{}'' \<noteq> []" by simp
  from frame_roundtrip [OF this, of "''tail''"] w show ?thesis by simp
qed

end
