(* ===== verification/Broker_Validate.thy ===== *)
theory Broker_Validate
  imports Broker_Protocol
begin

section \<open>The broker's request validation (src/src/broker/mod.rs)\<close>

text \<open>
  The checks the root-owned broker makes on every request before it touches the host. Each Rust
  validator is one definition with the same name; a loop over an index into \<open>args\<close> is a recursion
  over the remaining arguments. A \<open>Result<(), String>\<close> is \<open>reject + unit\<close>, with one constructor
  of \<open>reject\<close> per error return; \<open>reject_msg\<close> is the message the code puts on the wire.
\<close>

datatype (plugins only: code size) reject =
    ProgramNotPermitted str
  | TooManyArguments
  | ArgumentNul
  | ArgumentTooLong
  | ArgumentControl
  | ShapeNotPermitted str
  | OptionRequiresValue str
  | ZfsOptionValueUnsafe
  | ZfsBaseMissing
  | ZfsBaseUnsafe
  | ZfsOptionNotPermitted str
  | ZfsPropertyUnsafe
  | ZfsSnapshotUnsafe
  | ZfsDatasetUnsafe
  | ZpoolCreateName
  | ZpoolNameUnsafe
  | ZpoolCreateDevices
  | ZpoolDeviceUnsafe
  | ZpoolColumnsUnsafe
  | ZpoolOptionNotPermitted str
  | ZpoolArgumentUnsafe
  | SmartctlShape
  | WipefsShape
  | QemuOptionNotPermitted str
  | QemuSourceOutside
  | QemuInfoOneSource
  | QemuFormatValue
  | QemuFormatRaw
  | QemuFormatMissing
  | QemuDestinationUnsafe
  | QemuSourceAndDestination
  | QemuSubcommand
  | VirshUri
  | VirshCommandMissing
  | VirshDeviceShape
  | VirshDomainUnsafe
  | VirshDeviceXmlOutside
  | VirshDefineOutside
  | VirshArgumentUnsafe
  | LxcTargetUnsafe
  | LxcPathOutside
  | NetworkArgumentUnsafe
  | MountMessage str
  | NftMessage str
  | IsoPathOutside
  | DatasetPathUnsafe
  | PciAddressInvalid str
  | LxcNameInvalid str
  | ConfigBlock str
  | MountEntry str
  | RequestMessage str
  | PtyInvalid str

primrec reject_msg :: "reject \<Rightarrow> str" where
  "reject_msg (ProgramNotPermitted p) = ''program `'' @ p @ ''` is not permitted''"
| "reject_msg TooManyArguments = ''too many arguments (max 256)''"
| "reject_msg ArgumentNul = ''invalid argument: argument contains NUL''"
| "reject_msg ArgumentTooLong = ''invalid argument: argument exceeds 4096 bytes''"
| "reject_msg ArgumentControl = ''argument contains a control character''"
| "reject_msg (ShapeNotPermitted p) = ''command shape for `'' @ p @ ''` is not permitted''"
| "reject_msg (OptionRequiresValue a) = a @ '' requires a value''"
| "reject_msg ZfsOptionValueUnsafe = ''ZFS option value is unsafe''"
| "reject_msg ZfsBaseMissing = ''-i requires a base snapshot value''"
| "reject_msg ZfsBaseUnsafe = ''ZFS incremental base snapshot is unsafe''"
| "reject_msg (ZfsOptionNotPermitted a) = ''ZFS option `'' @ a @ ''` is not permitted''"
| "reject_msg ZfsPropertyUnsafe = ''ZFS set requires a constrained property=value argument''"
| "reject_msg ZfsSnapshotUnsafe = ''ZFS snapshot reference is unsafe''"
| "reject_msg ZfsDatasetUnsafe = ''ZFS dataset argument is unsafe''"
| "reject_msg ZpoolCreateName = ''zpool create requires a name''"
| "reject_msg ZpoolNameUnsafe = ''zpool name is unsafe''"
| "reject_msg ZpoolCreateDevices = ''zpool create requires devices''"
| "reject_msg ZpoolDeviceUnsafe = ''zpool device must be a /dev/<disk> path''"
| "reject_msg ZpoolColumnsUnsafe = ''zpool column list is unsafe''"
| "reject_msg (ZpoolOptionNotPermitted a) = ''zpool option `'' @ a @ ''` is not permitted''"
| "reject_msg ZpoolArgumentUnsafe = ''zpool argument contains an unsafe value''"
| "reject_msg SmartctlShape = ''smartctl requires exactly `-j -a /dev/<disk>`''"
| "reject_msg WipefsShape = ''wipefs requires exactly `-a /dev/<disk>`''"
| "reject_msg (QemuOptionNotPermitted a) = ''qemu-img option `'' @ a @ ''` is not permitted''"
| "reject_msg QemuSourceOutside = ''qemu-img source is outside DaygleVE state''"
| "reject_msg QemuInfoOneSource = ''qemu-img info requires exactly one source path''"
| "reject_msg QemuFormatValue = ''qemu-img -O requires a value''"
| "reject_msg QemuFormatRaw = ''qemu-img convert output format must be raw''"
| "reject_msg QemuFormatMissing = ''qemu-img convert requires -O raw''"
| "reject_msg QemuDestinationUnsafe = ''qemu-img destination is not a DaygleVE zvol device''"
| "reject_msg QemuSourceAndDestination = ''qemu-img convert requires a source and destination''"
| "reject_msg QemuSubcommand = ''qemu-img subcommand is not permitted''"
| "reject_msg VirshUri = ''virsh must use qemu:///system''"
| "reject_msg VirshCommandMissing = ''virsh command is missing''"
| "reject_msg VirshDeviceShape =
     ''virsh attach/detach-device expects exactly a domain and an XML file''"
| "reject_msg VirshDomainUnsafe = ''virsh device target domain is unsafe''"
| "reject_msg VirshDeviceXmlOutside = ''virsh device XML path is outside DaygleVE state''"
| "reject_msg VirshDefineOutside = ''virsh define path is outside DaygleVE state''"
| "reject_msg VirshArgumentUnsafe = ''virsh argument contains an unsafe value''"
| "reject_msg LxcTargetUnsafe = ''LXC target name is unsafe''"
| "reject_msg LxcPathOutside = ''LXC path is outside DaygleVE state''"
| "reject_msg NetworkArgumentUnsafe = ''network argument contains an unsafe value''"
| "reject_msg (MountMessage m) = m"
| "reject_msg (NftMessage m) = m"
| "reject_msg IsoPathOutside = ''ISO tool path is outside DaygleVE state''"
| "reject_msg DatasetPathUnsafe = ''ZFS dataset path is unsafe''"
| "reject_msg (PciAddressInvalid a) = ''invalid PCI address `'' @ a @ ''`''"
| "reject_msg (LxcNameInvalid n) = ''invalid container name `'' @ n @ ''`''"
| "reject_msg (ConfigBlock m) = m"
| "reject_msg (MountEntry m) = ''invalid lxc.mount.entry: '' @ m"
| "reject_msg (RequestMessage m) = m"
| "reject_msg (PtyInvalid m) = m"

type_synonym verdict = "reject + unit"

subsection \<open>Allowlist and argument bounds\<close>

definition program_table :: "(str \<times> str) list" where
  "program_table =
    [(''bridge'', ''/usr/sbin/bridge''),
     (''ip'', ''/usr/sbin/ip''),
     (''lxc-cgroup'', ''/usr/bin/lxc-cgroup''),
     (''lxc-console'', ''/usr/bin/lxc-console''),
     (''lxc-create'', ''/usr/bin/lxc-create''),
     (''lxc-destroy'', ''/usr/bin/lxc-destroy''),
     (''lxc-freeze'', ''/usr/bin/lxc-freeze''),
     (''lxc-info'', ''/usr/bin/lxc-info''),
     (''lxc-ls'', ''/usr/bin/lxc-ls''),
     (''lxc-start'', ''/usr/bin/lxc-start''),
     (''lxc-stop'', ''/usr/bin/lxc-stop''),
     (''lxc-unfreeze'', ''/usr/bin/lxc-unfreeze''),
     (''mount'', ''/usr/bin/mount''),
     (''nft'', ''/usr/sbin/nft''),
     (''genisoimage'', ''/usr/bin/genisoimage''),
     (''xorriso'', ''/usr/bin/xorriso''),
     (''qemu-img'', ''/usr/bin/qemu-img''),
     (''smartctl'', ''/usr/sbin/smartctl''),
     (''wipefs'', ''/usr/sbin/wipefs''),
     (''umount'', ''/usr/bin/umount''),
     (''virsh'', ''/usr/bin/virsh''),
     (''zfs'', ''/usr/sbin/zfs''),
     (''zpool'', ''/usr/sbin/zpool'')]"

definition program_path :: "str \<Rightarrow> str option" where
  "program_path program = map_of program_table program"

definition validate_arg :: "str \<Rightarrow> verdict" where
  "validate_arg arg =
     bind_res (ensure (\<not> contains_char arg (CHR 0x00)) ArgumentNul) (\<lambda>_.
       ensure (\<not> 4096 < length arg) ArgumentTooLong)"

definition has_control :: "str \<Rightarrow> bool" where
  "has_control s \<longleftrightarrow> list_ex is_control (chars s)"

definition has_whitespace :: "str \<Rightarrow> bool" where
  "has_whitespace s \<longleftrightarrow> list_ex is_whitespace (chars s)"

subsection \<open>Safe values\<close>

definition safe_zfs_value :: "str \<Rightarrow> bool" where
  "safe_zfs_value value \<longleftrightarrow>
     \<not> starts_with value ''-'' \<and> \<not> contains_str value ''/../'' \<and> \<not> ends_with value ''/..'' \<and>
     \<not> list_ex (\<lambda>c. is_control c \<or> is_whitespace c) (chars value) \<and>
     list_all (\<lambda>b. is_ascii_alphanumeric b \<or> b \<in> set ''._-:/@=,%'') value"

definition safe_zfs_property :: "str \<Rightarrow> bool" where
  "safe_zfs_property value =
     (case split_once (CHR ''='') value of
        None \<Rightarrow> False
      | Some (key, prop) \<Rightarrow>
          (key = ''daygleve:description'' \<or> key = ''quota'') \<and>
          prop \<noteq> [] \<and> length prop \<le> 512 \<and> \<not> has_control prop \<and>
          list_all (\<lambda>b. is_ascii_alphanumeric b \<or> b \<in> set ''._- '') prop)"

definition safe_block_device :: "str \<Rightarrow> bool" where
  "safe_block_device value =
     (case strip_prefix value ''/dev/'' of
        None \<Rightarrow> False
      | Some name \<Rightarrow>
          name \<noteq> [] \<and> \<not> contains_char name (CHR ''/'') \<and> \<not> starts_with name ''-'' \<and>
          list_all (\<lambda>b. is_ascii_alphanumeric b \<or> b \<in> set ''._-'') name)"

definition safe_cli_name :: "str \<Rightarrow> bool" where
  "safe_cli_name value \<longleftrightarrow>
     value \<noteq> [] \<and> length value \<le> 128 \<and> \<not> starts_with value ''-'' \<and>
     list_all (\<lambda>b. is_ascii_alphanumeric b \<or> b \<in> set ''._-/:'') value"

definition safe_dataset :: "str \<Rightarrow> bool" where
  "safe_dataset value \<longleftrightarrow>
     \<not> contains_char value (CHR ''@'') \<and> \<not> starts_with value ''/'' \<and> \<not> starts_with value ''-'' \<and>
     \<not> ends_with value ''/'' \<and>
     list_all (\<lambda>part. part \<noteq> [] \<and> part \<noteq> ''.'' \<and> part \<noteq> ''..'') (split_on (CHR ''/'') value) \<and>
     list_all (\<lambda>b. is_ascii_alphanumeric b \<or> b \<in> set ''._-:/'') value"

definition safe_snapshot_ref :: "str \<Rightarrow> bool" where
  "safe_snapshot_ref value =
     (case split_once (CHR ''@'') value of
        None \<Rightarrow> False
      | Some (dataset, snapshot) \<Rightarrow>
          safe_dataset dataset \<and> snapshot \<noteq> [] \<and>
          list_all (\<lambda>b. is_ascii_alphanumeric b \<or> b \<in> set ''._-:'') snapshot)"

definition validate_zfs_dataset_path :: "str \<Rightarrow> verdict" where
  "validate_zfs_dataset_path value = ensure (safe_dataset value) DatasetPathUnsafe"

definition safe_abs_path :: "str \<Rightarrow> str \<Rightarrow> str option \<Rightarrow> bool" where
  "safe_abs_path value prfx sffx \<longleftrightarrow>
     starts_with value prfx \<and> \<not> contains_str value ''/../'' \<and> \<not> ends_with value ''/..'' \<and>
     (case sffx of None \<Rightarrow> True | Some ending \<Rightarrow> ends_with value ending)"

abbreviation state_dir :: str where
  "state_dir \<equiv> ''/var/lib/daygleve/''"

definition safe_zvol_device :: "str \<Rightarrow> bool" where
  "safe_zvol_device value =
     (case strip_prefix value ''/dev/zvol/'' of None \<Rightarrow> False | Some d \<Rightarrow> safe_dataset d)"

definition safe_mount_source :: "str \<Rightarrow> str \<Rightarrow> bool" where
  "safe_mount_source filesystem src =
     ((if filesystem = ''nfs''
       then (case split_once (CHR '':'') src of
               None \<Rightarrow> False
             | Some (host, export) \<Rightarrow> host \<noteq> [] \<and> export \<noteq> [] \<and> \<not> starts_with export ''-'')
       else if filesystem = ''cifs''
       then starts_with src ''//'' \<and> contains_char (drop 2 src) (CHR ''/'')
       else False) \<and>
      \<not> contains_str src ''..'' \<and> \<not> contains_char src (CHR '','') \<and>
      \<not> list_ex (\<lambda>c. is_control c \<or> is_whitespace c) (chars src) \<and>
      list_all (\<lambda>b. is_ascii_alphanumeric b \<or> b \<in> set ''._-:/'') src)"

subsection \<open>Per-tool argument checks\<close>

text \<open>The loop of \<open>validate_zfs_args\<close> from index 1; \<open>at_one\<close> is \<open>index == 1\<close>.\<close>

fun zfs_args_loop :: "str \<Rightarrow> bool \<Rightarrow> str list \<Rightarrow> verdict" where
  "zfs_args_loop command at_one [] = Inr ()"
| "zfs_args_loop command at_one (arg # rest) =
     (if arg \<in> {''-H'', ''-h'', ''-p'', ''-Hp'', ''-r'', ''-F''} then zfs_args_loop command False rest
      else if arg \<in> {''-o'', ''-t'', ''-d'', ''-V''} then
        (case rest of
           [] \<Rightarrow> Inl (OptionRequiresValue arg)
         | value # rest' \<Rightarrow>
             (if \<not> safe_zfs_value value then Inl ZfsOptionValueUnsafe
              else zfs_args_loop command False rest'))
      else if command = ''send'' \<and> arg = ''-i'' then
        (case rest of
           [] \<Rightarrow> Inl ZfsBaseMissing
         | value # rest' \<Rightarrow>
             (if \<not> safe_snapshot_ref value then Inl ZfsBaseUnsafe
              else zfs_args_loop command False rest'))
      else if starts_with arg ''-'' then Inl (ZfsOptionNotPermitted arg)
      else if command = ''set'' \<and> at_one then
        (if \<not> safe_zfs_property arg then Inl ZfsPropertyUnsafe
         else zfs_args_loop command False rest)
      else if contains_char arg (CHR ''@'') then
        (if \<not> safe_snapshot_ref arg then Inl ZfsSnapshotUnsafe
         else zfs_args_loop command False rest)
      else if \<not> safe_dataset arg then Inl ZfsDatasetUnsafe
      else zfs_args_loop command False rest)"

definition validate_zfs_args :: "str list \<Rightarrow> verdict" where
  "validate_zfs_args args =
     (case args of [] \<Rightarrow> Inr () | command # rest \<Rightarrow> zfs_args_loop command True rest)"

fun zpool_args_loop :: "str list \<Rightarrow> verdict" where
  "zpool_args_loop [] = Inr ()"
| "zpool_args_loop (arg # rest) =
     (if arg \<in> {''-H'', ''-p'', ''-Hp'', ''-L'', ''-P''} then zpool_args_loop rest
      else if arg = ''-o'' then
        (case rest of
           [] \<Rightarrow> Inl (OptionRequiresValue ''zpool -o'')
         | value # rest' \<Rightarrow>
             (if \<not> safe_zfs_value value then Inl ZpoolColumnsUnsafe else zpool_args_loop rest'))
      else if starts_with arg ''-'' then Inl (ZpoolOptionNotPermitted arg)
      else if \<not> safe_dataset arg then Inl ZpoolArgumentUnsafe
      else zpool_args_loop rest)"

definition validate_zpool_args :: "str list \<Rightarrow> verdict" where
  "validate_zpool_args args =
     (let command = (case args of [] \<Rightarrow> [] | c # _ \<Rightarrow> c); rest = drop 1 args in
      if command = ''create'' then
        (let rest = (if rest \<noteq> [] \<and> hd rest = ''-f'' then tl rest else rest) in
         case rest of
           [] \<Rightarrow> Inl ZpoolCreateName
         | name # rest \<Rightarrow>
             (if \<not> safe_cli_name name then Inl ZpoolNameUnsafe
              else let devices =
                     (if rest \<noteq> [] \<and> hd rest \<in> {''mirror'', ''raidz1'', ''raidz2'', ''raidz3''}
                      then tl rest else rest)
                in if devices = [] then Inl ZpoolCreateDevices
                   else for_each (\<lambda>d. ensure (safe_block_device d) ZpoolDeviceUnsafe) devices))
      else zpool_args_loop rest)"

definition validate_smartctl_args :: "str list \<Rightarrow> verdict" where
  "validate_smartctl_args args =
     (case args of
        [json, all, path] \<Rightarrow>
          ensure (json = ''-j'' \<and> all = ''-a'' \<and> safe_block_device path) SmartctlShape
      | _ \<Rightarrow> Inl SmartctlShape)"

definition validate_wipefs_args :: "str list \<Rightarrow> verdict" where
  "validate_wipefs_args args =
     (case args of
        [flag, path] \<Rightarrow> ensure (flag = ''-a'' \<and> safe_block_device path) WipefsShape
      | _ \<Rightarrow> Inl WipefsShape)"

fun qemu_info_positionals :: "str list \<Rightarrow> reject + str list" where
  "qemu_info_positionals [] = Inr []"
| "qemu_info_positionals (arg # rest) =
     (if arg = ''--output=json'' then qemu_info_positionals rest
      else if starts_with arg ''-'' then Inl (QemuOptionNotPermitted arg)
      else bind_res (qemu_info_positionals rest) (\<lambda>ps. Inr (arg # ps)))"

text \<open>The \<open>convert\<close> loop returns whether \<open>-O raw\<close> was seen, and the positional arguments.\<close>

fun qemu_convert_scan :: "str list \<Rightarrow> reject + bool \<times> str list" where
  "qemu_convert_scan [] = Inr (False, [])"
| "qemu_convert_scan (arg # rest) =
     (if arg = ''-O'' then
        (case rest of
           [] \<Rightarrow> Inl QemuFormatValue
         | value # rest' \<Rightarrow>
             (if value \<noteq> ''raw'' then Inl QemuFormatRaw
              else bind_res (qemu_convert_scan rest') (\<lambda>(_, ps). Inr (True, ps))))
      else if arg = ''-p'' \<or> arg = ''-W'' then qemu_convert_scan rest
      else if starts_with arg ''-'' then Inl (QemuOptionNotPermitted arg)
      else bind_res (qemu_convert_scan rest) (\<lambda>(f, ps). Inr (f, arg # ps)))"

definition validate_qemu_img_args :: "str list \<Rightarrow> verdict" where
  "validate_qemu_img_args args =
     (case args of
        [] \<Rightarrow> Inl QemuSubcommand
      | sub # rest \<Rightarrow>
          (if sub = ''info'' then
             bind_res (qemu_info_positionals rest) (\<lambda>ps.
               case ps of
                 [src] \<Rightarrow> ensure (safe_abs_path src state_dir None) QemuSourceOutside
               | _ \<Rightarrow> Inl QemuInfoOneSource)
           else if sub = ''convert'' then
             bind_res (qemu_convert_scan rest) (\<lambda>(format, ps).
               bind_res (ensure format QemuFormatMissing) (\<lambda>_.
                 case ps of
                   [src, dest] \<Rightarrow>
                     bind_res (ensure (safe_abs_path src state_dir None) QemuSourceOutside) (\<lambda>_.
                       ensure (safe_zvol_device dest) QemuDestinationUnsafe)
                 | _ \<Rightarrow> Inl QemuSourceAndDestination))
           else Inl QemuSubcommand))"

definition mount_denied :: "str list" where
  "mount_denied = [''rw'', ''suid'', ''dev'', ''exec'', ''remount'', ''bind'']"

definition mount_option_key :: "str \<Rightarrow> str" where
  "mount_option_key option = to_ascii_lowercase (hd (split_on (CHR ''='') option))"

definition validate_mount_option :: "str \<Rightarrow> verdict" where
  "validate_mount_option option =
     (let key = mount_option_key option in
      if key \<in> set mount_denied then Inl (MountMessage (''mount option `'' @ key @ ''` is not permitted''))
      else if key = ''credentials'' then
        (let value = (case split_once (CHR ''='') option of None \<Rightarrow> [] | Some (_, v) \<Rightarrow> v) in
         ensure (safe_abs_path value state_dir (Some ''.cred''))
           (MountMessage ''credentials file is outside DaygleVE state''))
      else Inr ())"

definition validate_mount_options :: "str \<Rightarrow> verdict" where
  "validate_mount_options options =
     (if options = [] \<or>
         \<not> list_all (\<lambda>b. is_ascii_alphanumeric b \<or> b \<in> set ''=,._-:/'') options
      then Inl (MountMessage ''mount options contain unsafe characters'')
      else for_each validate_mount_option (split_on (CHR '','') options))"

fun arg_after :: "str list \<Rightarrow> str \<Rightarrow> str option" where
  "arg_after (a # b # rest) flag = (if a = flag then Some b else arg_after (b # rest) flag)"
| "arg_after _ flag = None"

fun has_window :: "str \<Rightarrow> str \<Rightarrow> str list \<Rightarrow> bool" where
  "has_window x y (a # b # rest) \<longleftrightarrow> (a = x \<and> b = y) \<or> has_window x y (b # rest)"
| "has_window x y _ \<longleftrightarrow> False"

subsection \<open>Names, devices and configuration blocks\<close>

text \<open>A test on one character: true only of a one-byte character that satisfies \<open>p\<close>.\<close>

definition char_is :: "(char \<Rightarrow> bool) \<Rightarrow> str \<Rightarrow> bool" where
  "char_is p ch = (case ch of [b] \<Rightarrow> p b | _ \<Rightarrow> False)"

definition validate_pci_address :: "str \<Rightarrow> verdict" where
  "validate_pci_address address =
     ensure
       (length address = 12 \<and>
        address ! 4 = CHR '':'' \<and> address ! 7 = CHR '':'' \<and> address ! 10 = CHR ''.'' \<and>
        is_ascii_digit (address ! 11) \<and> byte (address ! 11) \<le> byte (CHR ''7'') \<and>
        list_all (\<lambda>(i, c).
            if i \<in> {4, 7, 10} then c = '':'' \<or> c = ''.''
            else char_is (\<lambda>b. is_ascii_hexdigit b \<and> \<not> is_ascii_upper b) c)
          (List.enumerate 0 (chars address)))
       (PciAddressInvalid address)"

text \<open>A \<open>PathBuf\<close> is its text; \<open>join\<close> with a relative component puts one separator between.\<close>

definition path_join :: "str \<Rightarrow> str \<Rightarrow> str" where
  "path_join a b = (if starts_with b ''/'' then b else a @ ''/'' @ b)"

fun pci_write_target :: "pci_write_kind \<Rightarrow> str \<Rightarrow> str \<times> str" where
  "pci_write_target Unbind address =
     (path_join (path_join (path_join (path_join ''/sys/bus/pci'' ''devices'') address) ''driver'')
        ''unbind'', address)"
| "pci_write_target Override address =
     (path_join (path_join (path_join ''/sys/bus/pci'' ''devices'') address) ''driver_override'',
      ''vfio-pci'')"
| "pci_write_target Bind address =
     (path_join (path_join (path_join ''/sys/bus/pci'' ''drivers'') ''vfio-pci'') ''bind'', address)"

definition lxc_name_char :: "char \<Rightarrow> bool" where
  "lxc_name_char b \<longleftrightarrow> is_ascii_alphanumeric b \<or> b \<in> set ''_-.''"

definition validate_lxc_name :: "str \<Rightarrow> verdict" where
  "validate_lxc_name name =
     ensure
       (name \<noteq> [] \<and> length name \<le> 64 \<and>
        (case chars name of [] \<Rightarrow> False | c # _ \<Rightarrow> char_is is_ascii_alphanumeric c) \<and>
        list_all (char_is lxc_name_char) (chars name))
       (LxcNameInvalid name)"

definition truncate :: "str \<Rightarrow> nat \<Rightarrow> str" where
  "truncate s m = (if m < length (chars s) then concat (take m (chars s)) else s)"

definition no_traversal :: "str \<Rightarrow> bool" where
  "no_traversal p \<longleftrightarrow>
     \<not> list_ex (\<lambda>c. c = ''..'') (split_on (CHR ''/'') p) \<and> \<not> contains_char p (CHR 0x00) \<and>
     list_all (\<lambda>c. \<not> is_control c) (chars p)"

fun mount_entry_options :: "str list \<Rightarrow> bool \<Rightarrow> reject + bool" where
  "mount_entry_options [] saw_bind = Inr saw_bind"
| "mount_entry_options (opt # opts) saw_bind =
     (if opt = ''bind'' then mount_entry_options opts True
      else if opt \<in> {''ro'', ''rw'', ''create=dir'', ''create=file''}
        then mount_entry_options opts saw_bind
      else Inl (MountEntry (''mount option `'' @ opt @ ''` not permitted'')))"

definition validate_lxc_mount_entry :: "str \<Rightarrow> verdict" where
  "validate_lxc_mount_entry value =
     (case split_whitespace value of
        [source, dest, fstype, options, dump, pass] \<Rightarrow>
          bind_res (ensure (starts_with source ''/'' \<and> no_traversal source)
              (MountEntry ''source must be an absolute host path with no `..`'')) (\<lambda>_.
          bind_res (ensure (\<not> (starts_with dest ''/'' \<or> dest = [] \<or> \<not> no_traversal dest))
              (MountEntry ''destination must be a relative path with no `..`'')) (\<lambda>_.
          bind_res (ensure (fstype = ''none'')
              (MountEntry ''filesystem type must be `none` (bind mount)'')) (\<lambda>_.
          bind_res (mount_entry_options (split_on (CHR '','') options) False) (\<lambda>saw_bind.
          bind_res (ensure saw_bind (MountEntry ''options must include `bind`'')) (\<lambda>_.
            ensure (dump = ''0'' \<and> pass = ''0'')
              (MountEntry ''dump/pass fields must be `0 0`''))))))
      | _ \<Rightarrow> Inl (MountEntry ''expected 6 fields''))"

definition config_line_rejected :: "str \<Rightarrow> reject" where
  "config_line_rejected body =
     ConfigBlock (''config line not permitted: `'' @ truncate body 80 @ ''`'')"

text \<open>One line of the loop of \<open>validate_lxc_config_block\<close>.\<close>

definition validate_config_line :: "str \<Rightarrow> verdict" where
  "validate_config_line line =
     (if starts_with (trim_start line) ''#'' then Inr ()
      else let body = trim line in
        if \<not> contains_str body '' = '' then Inl (config_line_rejected body)
        else (case strip_prefix body ''lxc.mount.entry = '' of
                Some value \<Rightarrow> validate_lxc_mount_entry value
              | None \<Rightarrow>
                  ensure (starts_with body ''lxc.cgroup2.'' \<or> starts_with body ''lxc.net.'')
                    (config_line_rejected body)))"

definition validate_lxc_config_block :: "str \<Rightarrow> verdict" where
  "validate_lxc_config_block block =
     (if block = [] then Inl (ConfigBlock ''config block is empty'')
      else if 8192 < length block then Inl (ConfigBlock ''config block exceeds 8192 bytes'')
      else if contains_char block (CHR 0x00) then Inl (ConfigBlock ''config block contains NUL'')
      else for_each validate_config_line (filter (\<lambda>l. trim l \<noteq> []) (lines block)))"

definition validate_console_pty :: "str \<Rightarrow> verdict" where
  "validate_console_pty pty =
     bind_res (ok_or (strip_prefix pty ''/dev/pts/'')
         (PtyInvalid ''console pty must be a /dev/pts/ device'')) (\<lambda>index.
       ensure (index \<noteq> [] \<and> length index \<le> 10 \<and> list_all is_ascii_digit index)
         (PtyInvalid (''invalid console pty: '' @ debug_str pty)))"

subsection \<open>Command shape and arguments\<close>

text \<open>The \<open>virsh\<close> subcommand: \<open>-c\<close> skips two arguments, any other flag one.\<close>

fun virsh_subcommand :: "str list \<Rightarrow> str option" where
  "virsh_subcommand [] = None"
| "virsh_subcommand (a # rest) =
     (if a = ''-c'' then (case rest of [] \<Rightarrow> None | _ # rest' \<Rightarrow> virsh_subcommand rest')
      else if starts_with a ''-'' then virsh_subcommand rest
      else Some a)"

definition virsh_subcommands :: "str list" where
  "virsh_subcommands =
    [''list'', ''domstate'', ''hostname'', ''start'', ''shutdown'', ''destroy'', ''reboot'',
     ''reset'', ''pause'', ''resume'', ''define'', ''undefine'', ''domrename'', ''vncdisplay'',
     ''ttyconsole'', ''domdisplay'', ''qemu-agent-command'', ''domifaddr'', ''domfsfreeze'',
     ''domfsthaw'', ''save'', ''restore'', ''blockresize'', ''attach-disk'', ''detach-disk'',
     ''attach-device'', ''detach-device'']"

definition zfs_subcommands :: "str list" where
  "zfs_subcommands =
    [''list'', ''create'', ''set'', ''destroy'', ''snapshot'', ''clone'', ''promote'',
     ''rollback'', ''send'', ''receive'']"

definition opt_in :: "str option \<Rightarrow> str list \<Rightarrow> bool" where
  "opt_in x xs = (case x of None \<Rightarrow> False | Some s \<Rightarrow> s \<in> set xs)"

definition lxc_tools :: "str list" where
  "lxc_tools =
    [''lxc-create'', ''lxc-destroy'', ''lxc-start'', ''lxc-stop'', ''lxc-freeze'',
     ''lxc-unfreeze'', ''lxc-info'', ''lxc-cgroup'', ''lxc-ls'']"

definition first_arg :: "str list \<Rightarrow> str option" where
  "first_arg args = (case args of [] \<Rightarrow> None | a # _ \<Rightarrow> Some a)"

definition shape_allowed :: "str \<Rightarrow> str list \<Rightarrow> bool" where
  "shape_allowed program args =
     (if program = ''virsh'' then opt_in (virsh_subcommand args) virsh_subcommands
      else if program = ''zfs'' then opt_in (first_arg args) zfs_subcommands
      else if program = ''zpool'' then opt_in (first_arg args) [''list'', ''status'', ''create'']
      else if program \<in> set lxc_tools then True
      else if program = ''ip'' then
        has_window ''link'' ''show'' args \<or> has_window ''addr'' ''show'' args \<or>
        has_window ''link'' ''add'' args \<or> has_window ''link'' ''set'' args \<or>
        has_window ''link'' ''del'' args \<or> has_window ''addr'' ''add'' args
      else if program = ''bridge'' then first_arg args = Some ''vlan''
      else if program = ''mount'' then ''-t'' \<in> set args
      else if program = ''umount'' then args \<noteq> []
      else if program = ''nft'' then ''-f'' \<in> set args
      else if program \<in> {''genisoimage'', ''xorriso''} then True
      else if program = ''qemu-img'' then opt_in (first_arg args) [''info'', ''convert'']
      else if program \<in> {''smartctl'', ''wipefs''} then True
      else False)"

text \<open>The command of \<open>validate_exec_args\<close>: two places after the first \<open>-c\<close>.\<close>

definition virsh_command :: "str list \<Rightarrow> str option" where
  "virsh_command args =
     (case dropWhile (\<lambda>a. a \<noteq> ''-c'') args of _ # _ # command # _ \<Rightarrow> Some command | _ \<Rightarrow> None)"

definition virsh_rest :: "str \<Rightarrow> str list \<Rightarrow> str list" where
  "virsh_rest command args = drop 1 (dropWhile (\<lambda>a. a \<noteq> command) args)"

definition validate_virsh_args :: "str list \<Rightarrow> verdict" where
  "validate_virsh_args args =
     bind_res (ensure (arg_after args ''-c'' = Some ''qemu:///system'') VirshUri) (\<lambda>_.
     bind_res (ok_or (virsh_command args) VirshCommandMissing) (\<lambda>command.
       let rest = virsh_rest command args in
       if command \<in> {''attach-device'', ''detach-device''} then
         (case rest of
            [domain, file] \<Rightarrow>
              bind_res (ensure (safe_cli_name domain) VirshDomainUnsafe) (\<lambda>_.
                ensure (safe_abs_path file state_dir (Some ''.xml'')) VirshDeviceXmlOutside)
          | _ \<Rightarrow> Inl VirshDeviceShape)
       else
         for_each (\<lambda>arg.
           if command = ''define'' \<and> \<not> safe_abs_path arg state_dir (Some ''.xml'')
             then Inl VirshDefineOutside
           else if command \<noteq> ''define'' \<and> \<not> safe_cli_name arg \<and> \<not> starts_with arg ''-''
             then Inl VirshArgumentUnsafe
           else Inr ()) rest))"

definition validate_mount_args :: "str list \<Rightarrow> verdict" where
  "validate_mount_args args =
     bind_res (ok_or (arg_after args ''-t'') (MountMessage ''mount type is required'')) (\<lambda>filesystem.
     bind_res (ensure (filesystem = ''nfs'' \<or> filesystem = ''cifs'')
         (MountMessage ''only nfs and cifs mounts are permitted'')) (\<lambda>_.
     bind_res (ok_or (nth_opt args (length args - 2)) (MountMessage ''mount source is required''))
       (\<lambda>source.
     bind_res (ensure (safe_mount_source filesystem source)
         (MountMessage ''mount source is not a permitted network share'')) (\<lambda>_.
     bind_res (case arg_after args ''-o'' of
           None \<Rightarrow> Inr () | Some options \<Rightarrow> validate_mount_options options) (\<lambda>_.
       let target = (if args = [] then [] else last args) in
       ensure (safe_abs_path target state_dir None)
         (MountMessage ''mount target is outside DaygleVE state''))))))"

definition validate_nft_args :: "str list \<Rightarrow> verdict" where
  "validate_nft_args args =
     bind_res (ok_or (arg_after args ''-f'') (NftMessage ''nft requires -f with a batch file'')) (\<lambda>file.
     bind_res (ensure (safe_abs_path file state_dir None)
         (NftMessage ''nft batch file is outside DaygleVE state'')) (\<lambda>_.
       ensure (\<not> list_ex (\<lambda>a. a = ''flush'' \<or> a = ''delete'') args)
         (NftMessage ''nft flush/delete is not permitted'')))"

definition validate_lxc_args :: "str list \<Rightarrow> verdict" where
  "validate_lxc_args args =
     bind_res (case arg_after args ''-n'' of
           None \<Rightarrow> Inr ()
         | Some container \<Rightarrow> ensure (is_ok (validate_lxc_name container)) LxcTargetUnsafe) (\<lambda>_.
       for_each (\<lambda>arg.
         ensure (\<not> (starts_with arg ''/'' \<and> \<not> safe_abs_path arg state_dir None)) LxcPathOutside)
         args)"

definition validate_exec_args :: "str \<Rightarrow> str list \<Rightarrow> verdict" where
  "validate_exec_args program args =
     (if program = ''virsh'' then validate_virsh_args args
      else if program = ''zfs'' then validate_zfs_args args
      else if program = ''zpool'' then validate_zpool_args args
      else if program = ''smartctl'' then validate_smartctl_args args
      else if program = ''wipefs'' then validate_wipefs_args args
      else if starts_with program ''lxc-'' then validate_lxc_args args
      else if program \<in> {''ip'', ''bridge''} then
        for_each (\<lambda>arg.
          ensure (\<not> (starts_with arg ''/'' \<or> contains_char arg (CHR 0x00) \<or> has_control arg))
            NetworkArgumentUnsafe) args
      else if program = ''mount'' then validate_mount_args args
      else if program = ''umount'' then
        (case args of
           [target] \<Rightarrow> ensure (safe_abs_path target state_dir None)
             (MountMessage ''umount target is outside DaygleVE state'')
         | _ \<Rightarrow> Inl (MountMessage ''umount target is outside DaygleVE state''))
      else if program = ''nft'' then validate_nft_args args
      else if program \<in> {''genisoimage'', ''xorriso''} then
        for_each (\<lambda>arg.
          ensure (\<not> (starts_with arg ''/'' \<and> \<not> safe_abs_path arg state_dir None)) IsoPathOutside) args
      else if program = ''qemu-img'' then validate_qemu_img_args args
      else Inr ())"

definition validate_exec_shape :: "str \<Rightarrow> str list \<Rightarrow> verdict" where
  "validate_exec_shape program args =
     bind_res (ensure (shape_allowed program args) (ShapeNotPermitted program)) (\<lambda>_.
       validate_exec_args program args)"

definition validate_exec :: "str \<Rightarrow> str list \<Rightarrow> verdict" where
  "validate_exec program args =
     bind_res (ensure (program_path program \<noteq> None) (ProgramNotPermitted program)) (\<lambda>_.
     bind_res (ensure (\<not> 256 < length args) TooManyArguments) (\<lambda>_.
     bind_res (for_each (\<lambda>arg. bind_res (validate_arg arg) (\<lambda>_.
         ensure (\<not> has_control arg) ArgumentControl)) args) (\<lambda>_.
       validate_exec_shape program args)))"

subsection \<open>Whole requests\<close>

definition validate_timeout :: "u64 \<Rightarrow> verdict" where
  "validate_timeout t =
     ensure (\<not> (t = 0 \<or> EXEC_TIMEOUT_CAP < t)) (RequestMessage ''timeout_secs out of range'')"

fun validate_op :: "op \<Rightarrow> verdict" where
  "validate_op Ping = Inr ()"
| "validate_op (Exec program args _ _ timeout_secs) =
     bind_res (validate_exec program args) (\<lambda>_. validate_timeout timeout_secs)"
| "validate_op (PciWrite _ address) = validate_pci_address address"
| "validate_op (LxcConfigAppend name block) =
     bind_res (validate_lxc_name name) (\<lambda>_. validate_lxc_config_block block)"
| "validate_op (LxcRootfsSet name dataset) =
     bind_res (validate_lxc_name name) (\<lambda>_. validate_zfs_dataset_path dataset)"
| "validate_op (ConsoleAttach pty timeout_secs) =
     bind_res (validate_console_pty pty) (\<lambda>_. validate_timeout timeout_secs)"
| "validate_op (LxcConsoleAttach name timeout_secs) =
     bind_res (validate_lxc_name name) (\<lambda>_. validate_timeout timeout_secs)"

definition validate_request :: "request \<Rightarrow> verdict" where
  "validate_request req =
     bind_res (ensure (req_v req = PROTOCOL_VERSION)
         (RequestMessage (''unsupported protocol version '' @ show_nat (unat (req_v req))))) (\<lambda>_.
     bind_res (ensure (\<not> (req_id req = [] \<or> 128 < length (req_id req)
           \<or> contains_char (req_id req) (CHR 0x00)))
         (RequestMessage ''invalid request id'')) (\<lambda>_.
       validate_op (req_op req)))"

end
