(* ===== verification/Broker_Safety.thy ===== *)
theory Broker_Safety
  imports Broker_Validate
begin

section \<open>What an accepted request can do\<close>

text \<open>
  Consequences of the broker's validation, stated over what the host sees: a path is read by
  \<open>resolve_path\<close>, the lexical resolution of its components in which \<open>..\<close> leaves a directory, so
  that "inside the state directory" is a statement about the file a tool opens and not about a
  string prefix. The first part holds the lemmas on safe values, the second the properties.
\<close>

subsection \<open>Lexical path resolution\<close>

fun resolve_comps :: "str list \<Rightarrow> str list \<Rightarrow> str list" where
  "resolve_comps st [] = rev st"
| "resolve_comps st (c # cs) =
     (if c = [] \<or> c = ''.'' then resolve_comps st cs
      else if c = ''..'' then resolve_comps (drop 1 st) cs
      else resolve_comps (c # st) cs)"

definition resolve_path :: "str \<Rightarrow> str list" where
  "resolve_path p = resolve_comps [] (split_on (CHR ''/'') p)"

definition inside :: "str list \<Rightarrow> str \<Rightarrow> bool" where
  "inside dir p \<longleftrightarrow> starts_with p ''/'' \<and> prefix dir (resolve_path p)"

abbreviation in_state :: "str \<Rightarrow> bool" where
  "in_state \<equiv> inside [''var'', ''lib'', ''daygleve'']"

lemma resolve_comps_append:
  "resolve_comps st (xs @ ys) = resolve_comps (rev (resolve_comps st xs)) ys"
  by (induction xs arbitrary: st) auto

lemma resolve_comps_no_dotdot:
  "''..'' \<notin> set cs \<Longrightarrow> resolve_comps st cs = rev st @ filter (\<lambda>c. c \<noteq> [] \<and> c \<noteq> ''.'') cs"
  by (induction cs arbitrary: st) auto

lemma resolve_path_no_dotdot:
  "''..'' \<notin> set (split_on (CHR ''/'') p) \<Longrightarrow>
   resolve_path p = filter (\<lambda>c. c \<noteq> [] \<and> c \<noteq> ''.'') (split_on (CHR ''/'') p)"
  by (simp add: resolve_path_def resolve_comps_no_dotdot)

lemma safe_abs_path_no_dotdot:
  assumes "safe_abs_path v pre suf" and "prefix ''/'' pre"
  shows "''..'' \<notin> set (split_on (CHR ''/'') v)"
proof
  assume "''..'' \<in> set (split_on (CHR ''/'') v)"
  then consider "v = ''..''" | "prefix ''../'' v" | "suffix ''/..'' v" | "sublist ''/../'' v"
    using split_on_cases by fastforce
  moreover have "prefix ''/'' v"
    using assms by (auto simp: safe_abs_path_def str_simps intro: prefix_order.order_trans)
  ultimately show False
    using assms(1) by cases (auto simp: safe_abs_path_def str_simps prefix_def)
qed

lemma safe_abs_path_in_state:
  assumes "safe_abs_path v state_dir suf"
  shows "in_state v"
proof -
  have nd: "''..'' \<notin> set (split_on (CHR ''/'') v)"
    using assms by (rule safe_abs_path_no_dotdot) simp
  from assms obtain z where v: "v = ''/var/lib/daygleve/'' @ z"
    by (auto simp: safe_abs_path_def str_simps prefix_def)
  have "split_on (CHR ''/'') v = [[], ''var'', ''lib'', ''daygleve''] @ split_on (CHR ''/'') z"
    unfolding v by (simp split: list.splits)
  with nd show ?thesis
    by (simp add: inside_def resolve_path_no_dotdot v starts_with_def)
qed

subsection \<open>Safe values\<close>

lemma safe_datasetD:
  assumes "safe_dataset d"
  shows "d \<noteq> []" and "CHR ''@'' \<notin> set d" and "\<not> starts_with d ''/''" and "\<not> starts_with d ''-''"
    and "''..'' \<notin> set (split_on (CHR ''/'') d)" and "''.'' \<notin> set (split_on (CHR ''/'') d)"
    and "[] \<notin> set (split_on (CHR ''/'') d)"
    and "\<forall>b \<in> set d. is_ascii_alphanumeric b \<or> b \<in> set ''._-:/''"
  using assms by (auto simp: safe_dataset_def contains_char_def list_all_iff)

lemma resolve_dataset: "safe_dataset d \<Longrightarrow> resolve_path d = split_on (CHR ''/'') d"
  by (frule safe_datasetD(5), drule resolve_path_no_dotdot)
    (auto dest: safe_datasetD(6,7) simp: filter_id_conv)

lemma safe_zvol_device_resolves:
  assumes "safe_zvol_device v"
  obtains d where "v = ''/dev/zvol/'' @ d" and "safe_dataset d"
    and "resolve_path v = [''dev'', ''zvol''] @ split_on (CHR ''/'') d"
proof -
  from assms obtain d where v: "v = ''/dev/zvol/'' @ d" and d: "safe_dataset d"
    by (auto simp: safe_zvol_device_def str_simps split: option.splits)
  have split: "split_on (CHR ''/'') v = [[], ''dev'', ''zvol''] @ split_on (CHR ''/'') d"
    unfolding v by (simp split: list.splits)
  then have "''..'' \<notin> set (split_on (CHR ''/'') v)"
    using safe_datasetD(5) [OF d] by simp
  then have "resolve_path v = [''dev'', ''zvol''] @ split_on (CHR ''/'') d"
    using safe_datasetD(6,7) [OF d] by (auto simp: resolve_path_no_dotdot split filter_id_conv)
  with v d show ?thesis by (rule that)
qed

lemma safe_block_deviceD:
  assumes "safe_block_device v"
  obtains n where "v = ''/dev/'' @ n" and "n \<noteq> []" and "CHR ''/'' \<notin> set n" and "\<not> starts_with n ''-''"
  using assms by (auto simp: safe_block_device_def str_simps contains_char_def split: option.splits)

lemma char_is_concat:
  "list_all (char_is p) cs \<Longrightarrow> list_all p (concat cs) \<and> cs = map (\<lambda>b. [b]) (concat cs)"
proof (induction cs)
  case (Cons ch cs)
  then obtain b where "ch = [b]" and "p b"
    by (cases ch) (auto simp: char_is_def split: list.splits)
  with Cons show ?case by simp
qed simp

lemma char_is_chars:
  assumes "list_all (char_is p) (chars s)"
  shows "list_all p s" and "chars s = map (\<lambda>b. [b]) s"
  using char_is_concat [OF assms] by simp_all

lemma lxc_name_valid:
  assumes "validate_lxc_name n = Inr ()"
  shows "n \<noteq> []" and "length n \<le> 64" and "is_ascii_alphanumeric (hd n)"
    and "\<forall>b \<in> set n. lxc_name_char b" and "CHR ''/'' \<notin> set n" and "n \<noteq> ''.''" and "n \<noteq> ''..''"
proof -
  from assms have n: "n \<noteq> []" "length n \<le> 64" "list_all (char_is lxc_name_char) (chars n)"
    and hd: "char_is is_ascii_alphanumeric (hd (chars n))"
    by (auto simp: validate_lxc_name_def res_simps split: list.splits)
  show "n \<noteq> []" "length n \<le> 64" by fact+
  show all: "\<forall>b \<in> set n. lxc_name_char b"
    using char_is_chars(1) [OF n(3)] by (simp add: list_all_iff)
  then show "CHR ''/'' \<notin> set n"
    by (auto simp: lxc_name_char_def is_ascii_alphanumeric_def is_ascii_digit_def
        is_ascii_lower_def is_ascii_upper_def byte_def)
  obtain c cs where c: "n = c # cs" using n(1) by (cases n) auto
  with hd show *: "is_ascii_alphanumeric (hd n)"
    by (auto simp: char_is_def split: list.splits if_splits)
  have "\<not> is_ascii_alphanumeric (CHR ''.'')"
    by (simp add: is_ascii_alphanumeric_def is_ascii_digit_def is_ascii_lower_def
        is_ascii_upper_def byte_def)
  with * show "n \<noteq> ''.''" "n \<noteq> ''..''" by auto
qed

lemma lxc_config_path_resolves:
  assumes "validate_lxc_name n = Inr ()"
  shows "resolve_path (path_join (path_join ''/var/lib/lxc'' n) ''config'')
         = [''var'', ''lib'', ''lxc'', n, ''config'']"
proof -
  note n = lxc_name_valid [OF assms]
  have "\<not> starts_with n ''/''" using n(1,5) by (cases n) (auto simp: starts_with_def)
  then have p: "path_join (path_join ''/var/lib/lxc'' n) ''config'' = ''/var/lib/lxc/'' @ n @ ''/'' @ ''config''"
    by (simp add: path_join_def starts_with_def)
  have "split_on (CHR ''/'') (n @ ''/config'') = [n, ''config'']"
    using split_on_first [OF n(5), of "''config''"] by simp
  then have "split_on (CHR ''/'') (path_join (path_join ''/var/lib/lxc'' n) ''config'')
      = [[], ''var'', ''lib'', ''lxc'', n, ''config'']"
    by (simp add: p)
  then show ?thesis
    using n(1,6,7) by (simp add: resolve_path_def)
qed

lemma program_path_absolute:
  "program_path program = Some path \<Longrightarrow> prefix ''/usr/bin/'' path \<or> prefix ''/usr/sbin/'' path"
proof -
  assume "program_path program = Some path"
  then have "path \<in> snd ` set program_table"
    unfolding program_path_def by (metis map_of_SomeD image_eqI snd_conv)
  moreover have "list_all (\<lambda>p. starts_with p ''/usr/bin/'' \<or> starts_with p ''/usr/sbin/'') (map snd program_table)"
    by code_simp
  ultimately show ?thesis by (auto simp: list_all_iff str_simps)
qed

lemma validate_execD:
  assumes "validate_exec program args = Inr ()"
  shows "program_path program \<noteq> None" and "length args \<le> 256"
    and "\<forall>a \<in> set args. length a \<le> 4096 \<and> \<not> has_control a"
    and "shape_allowed program args" and "validate_exec_args program args = Inr ()"
  using assms
  by (auto simp: validate_exec_def validate_exec_shape_def validate_arg_def res_simps)

text \<open>
  What \<open>validate_exec\<close> accepts runs a binary of the allowlist, at its fixed path under
  \<open>/usr/bin\<close> or \<open>/usr/sbin\<close> and never \<open>lxc-console\<close> (which is reserved for the console operation), with
  at most 256 arguments of at most 4096 bytes, none of which holds an ASCII control byte: a NUL or a
  newline cannot reach the argument vector of a root process.
\<close>

theorem exec_accepted_bounds:
  assumes "validate_exec program args = Inr ()"
  shows "(\<exists>path. program_path program = Some path \<and>
            (prefix ''/usr/bin/'' path \<or> prefix ''/usr/sbin/'' path)) \<and>
         program \<noteq> ''lxc-console'' \<and> length args \<le> 256 \<and>
         (\<forall>a \<in> set args. length a \<le> 4096 \<and> (\<forall>c \<in> set a. 32 \<le> byte c \<and> byte c \<noteq> 127))"
proof -
  note v = validate_execD [OF assms]
  have "program \<noteq> ''lxc-console''"
  proof
    assume "program = ''lxc-console''"
    then have "\<not> shape_allowed program args"
      by (simp add: shape_allowed_def lxc_tools_def)
    with v(4) show False by simp
  qed
  moreover have "\<forall>a \<in> set args. \<forall>c \<in> set a. 32 \<le> byte c \<and> byte c \<noteq> 127"
    using v(3) no_control_bytes by (auto simp: has_control_def list_ex_iff)
  moreover obtain path where "program_path program = Some path" using v(1) by blast
  ultimately show ?thesis using v(2,3) program_path_absolute by auto
qed

theorem exec_accepted_bounds_witness:
  "validate_exec ''zfs'' [''list'', ''-Hp'', ''tank/vm''] = Inr () \<and>
   program_path ''zfs'' = Some ''/usr/sbin/zfs'' \<and> length [''list'', ''-Hp'', ''tank/vm''] \<le> 256"
proof -
  have h: "validate_exec ''zfs'' [''list'', ''-Hp'', ''tank/vm''] = Inr ()" by code_simp
  have "program_path ''zfs'' = Some ''/usr/sbin/zfs''" by code_simp
  then show ?thesis using h exec_accepted_bounds [OF h] by simp
qed

lemma umount_confined:
  assumes "validate_exec ''umount'' args = Inr ()"
  shows "\<exists>t. args = [t] \<and> in_state t"
  using validate_execD(5) [OF assms]
  by (auto simp: validate_exec_args_def res_simps starts_with_def
      intro: safe_abs_path_in_state split: list.splits)

lemma mount_confined:
  assumes "validate_exec ''mount'' args = Inr ()"
  shows "args \<noteq> [] \<and> in_state (last args) \<and> (\<exists>fs. arg_after args ''-t'' = Some fs \<and>
           fs \<in> {''nfs'', ''cifs''} \<and> safe_mount_source fs (args ! (length args - 2)))"
proof -
  have "validate_mount_args args = Inr ()"
    using validate_execD(5) [OF assms] by (simp add: validate_exec_args_def starts_with_def)
  then show ?thesis
    by (cases "args = []")
      (auto simp: validate_mount_args_def Let_def res_simps intro: safe_abs_path_in_state)
qed

lemma nft_confined:
  assumes "validate_exec ''nft'' args = Inr ()"
  shows "\<exists>f. arg_after args ''-f'' = Some f \<and> in_state f"
  using validate_execD(5) [OF assms]
  by (auto simp: validate_exec_args_def validate_nft_args_def res_simps starts_with_def
      intro: safe_abs_path_in_state)

lemma wipefs_confined:
  assumes "validate_exec ''wipefs'' args = Inr ()"
  shows "\<exists>n. args = [''-a'', ''/dev/'' @ n] \<and> n \<noteq> [] \<and> CHR ''/'' \<notin> set n"
proof -
  obtain path where "args = [''-a'', path]" and "safe_block_device path"
    using validate_execD(5) [OF assms]
    by (auto simp: validate_exec_args_def validate_wipefs_args_def res_simps split: list.splits)
  then show ?thesis by (auto elim!: safe_block_deviceD)
qed

lemma qemu_convert_scan_args:
  "qemu_convert_scan args = Inr (f, ps) \<Longrightarrow>
     set args \<subseteq> {''-O'', ''raw'', ''-p'', ''-W''} \<union> set ps \<and> (f \<longrightarrow> ''-O'' \<in> set args)"
  by (induction args arbitrary: f ps rule: qemu_convert_scan.induct)
    (fastforce simp: res_simps split: if_splits list.splits)+

lemma case_pair_Inr:
  "(case xs of [a, b] \<Rightarrow> f a b | _ \<Rightarrow> Inl e) = Inr u \<longleftrightarrow> (\<exists>a b. xs = [a, b] \<and> f a b = Inr u)"
  by (cases xs; cases "tl xs"; cases "tl (tl xs)") auto

lemma qemu_convert_confined:
  assumes "validate_exec ''qemu-img'' (''convert'' # rest) = Inr ()"
  shows "\<exists>src d. in_state src \<and> safe_dataset d \<and>
           resolve_path (''/dev/zvol/'' @ d) = [''dev'', ''zvol''] @ split_on (CHR ''/'') d \<and>
           set rest \<subseteq> {''-O'', ''raw'', ''-p'', ''-W'', src, ''/dev/zvol/'' @ d}"
proof -
  have "validate_qemu_img_args (''convert'' # rest) = Inr ()"
    using validate_execD(5) [OF assms] by (simp add: validate_exec_args_def starts_with_def)
  then obtain f src dest where scan: "qemu_convert_scan rest = Inr (f, [src, dest])"
    and src: "safe_abs_path src state_dir None" and dest: "safe_zvol_device dest"
    by (auto simp: validate_qemu_img_args_def res_simps case_pair_Inr)
  obtain d where "dest = ''/dev/zvol/'' @ d" and "safe_dataset d"
      "resolve_path dest = [''dev'', ''zvol''] @ split_on (CHR ''/'') d"
    using dest by (rule safe_zvol_device_resolves)
  with qemu_convert_scan_args [OF scan] safe_abs_path_in_state [OF src] show ?thesis by auto
qed

lemma virsh_define_confined:
  assumes "validate_exec ''virsh'' (''-c'' # ''qemu:///system'' # ''define'' # files) = Inr ()"
  shows "\<forall>f \<in> set files. in_state f \<and> suffix ''.xml'' f"
proof -
  have "validate_virsh_args (''-c'' # ''qemu:///system'' # ''define'' # files) = Inr ()"
    using validate_execD(5) [OF assms] by (simp add: validate_exec_args_def)
  then have "\<forall>f \<in> set files. safe_abs_path f state_dir (Some ''.xml'')"
    by (force simp: validate_virsh_args_def virsh_command_def virsh_rest_def Let_def res_simps
        split: if_split_asm)
  then show ?thesis
    using safe_abs_path_in_state by (fastforce simp: safe_abs_path_def ends_with_suffix)
qed



subsection \<open>ZFS arguments\<close>

definition zfs_flags :: "str list" where
  "zfs_flags = [''-H'', ''-h'', ''-p'', ''-Hp'', ''-r'', ''-F'', ''-o'', ''-t'', ''-d'', ''-V'', ''-i'']"

definition zfs_positional :: "str \<Rightarrow> bool" where
  "zfs_positional a \<longleftrightarrow> safe_dataset a \<or> safe_snapshot_ref a"

lemma zfs_args_loop_ok:
  "zfs_args_loop command one args = Inr () \<Longrightarrow>
     \<forall>a \<in> set args. a \<in> set zfs_flags \<or> safe_zfs_value a \<or> zfs_positional a
       \<or> (command = ''set'' \<and> safe_zfs_property a)"
proof (induction command one args rule: zfs_args_loop.induct)
  case (2 command at_one arg rest)
  then show ?case
    by (cases rest) (auto simp: zfs_flags_def zfs_positional_def split: if_splits)
qed simp

lemma safe_snapshot_refD:
  assumes "safe_snapshot_ref v"
  obtains d t where "v = d @ ''@'' @ t" and "safe_dataset d" and "t \<noteq> []"
    and "\<forall>b \<in> set t. is_ascii_alphanumeric b \<or> b \<in> set ''._-:''"
  using assms by (auto simp: safe_snapshot_ref_def str_simps list_all_iff split: option.splits)

lemma safe_positional_no_dash: "zfs_positional a \<Longrightarrow> \<not> starts_with a ''-''"
proof (unfold zfs_positional_def, erule disjE)
  assume "safe_snapshot_ref a"
  then obtain d t where "a = d @ ''@'' @ t" and d: "safe_dataset d"
    by (rule safe_snapshot_refD)
  with safe_datasetD(1,4) [OF d] show ?thesis by (cases d) (auto simp: starts_with_def)
qed (rule safe_datasetD)

lemma safe_property_no_dash: "safe_zfs_property a \<Longrightarrow> \<not> starts_with a ''-''"
  by (auto simp: safe_zfs_property_def str_simps split: option.splits)

text \<open>
  An accepted \<open>zfs\<close> command has an allowed subcommand, and every argument that starts with a
  dash is one of the fixed flags, so no dataset or value can be read as an option; every other
  argument is a safe option value, a dataset or snapshot reference, or, for \<open>zfs set\<close> only, a
  constrained property assignment.
\<close>

theorem zfs_accepted_arguments:
  assumes "validate_exec ''zfs'' (command # args) = Inr ()"
  shows "command \<in> set zfs_subcommands \<and>
         (\<forall>a \<in> set args. starts_with a ''-'' \<longrightarrow> a \<in> set zfs_flags) \<and>
         (\<forall>a \<in> set args. a \<in> set zfs_flags \<or> safe_zfs_value a \<or> zfs_positional a
            \<or> (command = ''set'' \<and> safe_zfs_property a))"
proof -
  have "command \<in> set zfs_subcommands"
    using validate_execD(4) [OF assms] by (simp add: shape_allowed_def first_arg_def opt_in_def)
  moreover have all: "\<forall>a \<in> set args. a \<in> set zfs_flags \<or> safe_zfs_value a \<or> zfs_positional a
      \<or> (command = ''set'' \<and> safe_zfs_property a)"
    using validate_execD(5) [OF assms]
    by (intro zfs_args_loop_ok) (simp add: validate_exec_args_def validate_zfs_args_def)
  moreover have "\<forall>a \<in> set args. starts_with a ''-'' \<longrightarrow> a \<in> set zfs_flags"
    using all safe_positional_no_dash safe_property_no_dash by (auto simp: safe_zfs_value_def)
  ultimately show ?thesis by blast
qed

theorem zfs_accepted_arguments_witness:
  "validate_exec ''zfs'' [''send'', ''-i'', ''tank/vm@base'', ''tank/vm@new''] = Inr () \<and>
   zfs_positional ''tank/vm@base''"
proof -
  have h: "validate_exec ''zfs'' [''send'', ''-i'', ''tank/vm@base'', ''tank/vm@new''] = Inr ()"
    by code_simp
  have "zfs_positional ''tank/vm@base''" by code_simp
  then show ?thesis using h zfs_accepted_arguments [OF h] by simp
qed

subsection \<open>Container configuration\<close>

text \<open>A bind mount that stays inside the container: the destination, resolved below any root
  directory, is still below it.\<close>

definition confined_bind_mount :: "str \<Rightarrow> bool" where
  "confined_bind_mount v \<longleftrightarrow>
     (\<exists>src dest opts.
        split_whitespace v = [src, dest, ''none'', opts, ''0'', ''0''] \<and> prefix ''/'' src \<and>
        ''..'' \<notin> set (split_on (CHR ''/'') src) \<and> \<not> prefix ''/'' dest \<and>
        (\<forall>root. prefix root (resolve_comps (rev root) (split_on (CHR ''/'') dest))) \<and>
        ''bind'' \<in> set (split_on (CHR '','') opts) \<and>
        set (split_on (CHR '','') opts) \<subseteq> {''bind'', ''ro'', ''rw'', ''create=dir'', ''create=file''})"

definition permitted_config_line :: "str \<Rightarrow> bool" where
  "permitted_config_line l \<longleftrightarrow>
     trim l = [] \<or> prefix ''#'' (trim_start l) \<or>
     prefix ''lxc.cgroup2.'' (trim l) \<or> prefix ''lxc.net.'' (trim l) \<or>
     (\<exists>v. trim l = ''lxc.mount.entry = '' @ v \<and> confined_bind_mount v)"

lemma mount_entry_options_ok:
  "mount_entry_options opts b = Inr b' \<Longrightarrow>
     set opts \<subseteq> {''bind'', ''ro'', ''rw'', ''create=dir'', ''create=file''} \<and>
     (b' \<longrightarrow> b \<or> ''bind'' \<in> set opts)"
  by (induction opts b arbitrary: b' rule: mount_entry_options.induct) (auto split: if_splits)

lemma case_six_Inr:
  "(case xs of [a, b, c, d, e, f] \<Rightarrow> g a b c d e f | _ \<Rightarrow> Inl x) = Inr u \<longleftrightarrow>
     (\<exists>a b c d e f. xs = [a, b, c, d, e, f] \<and> g a b c d e f = Inr u)"
  by (cases xs; cases "tl xs"; cases "tl (tl xs)"; cases "tl (tl (tl xs))";
      cases "tl (tl (tl (tl xs)))"; cases "tl (tl (tl (tl (tl xs))))";
      cases "tl (tl (tl (tl (tl (tl xs)))))") auto

lemma mount_entry_confined:
  assumes "validate_lxc_mount_entry v = Inr ()"
  shows "confined_bind_mount v"
proof -
  from assms obtain src dest opts where
      fields: "split_whitespace v = [src, dest, ''none'', opts, ''0'', ''0'']"
    and src: "starts_with src ''/''" "no_traversal src"
    and dest: "\<not> starts_with dest ''/''" "no_traversal dest"
    and opts: "mount_entry_options (split_on (CHR '','') opts) False = Inr True"
    unfolding validate_lxc_mount_entry_def case_six_Inr by (auto simp: res_simps)
  have "''..'' \<notin> set (split_on (CHR ''/'') dest)" "''..'' \<notin> set (split_on (CHR ''/'') src)"
    using src(2) dest(2) by (auto simp: no_traversal_def list_ex_iff)
  then show ?thesis
    using fields src(1) dest(1) mount_entry_options_ok [OF opts]
    by (auto simp: confined_bind_mount_def starts_with_prefix resolve_comps_no_dotdot)
qed

text \<open>
  A configuration block the broker appends to a container holds at most 8192 bytes, and each of
  its lines is blank, a comment, a cgroup or network key, or a bind mount of an absolute host path
  onto a destination that stays below the container's root whatever that root is.
\<close>

theorem lxc_config_block_confined:
  assumes "validate_lxc_config_block block = Inr ()"
  shows "length block \<le> 8192 \<and> (\<forall>l \<in> set (lines block). permitted_config_line l)"
proof -
  from assms have len: "length block \<le> 8192"
    and all: "\<forall>l \<in> set (lines block). trim l \<noteq> [] \<longrightarrow> validate_config_line l = Inr ()"
    by (auto simp: validate_lxc_config_block_def res_simps split: if_splits)
  have "permitted_config_line l" if "l \<in> set (lines block)" for l
  proof (cases "trim l = [] \<or> starts_with (trim_start l) ''#''")
    case True
    then show ?thesis by (auto simp: permitted_config_line_def starts_with_prefix)
  next
    case False
    with all that have v: "validate_config_line l = Inr ()" by blast
    show ?thesis
    proof (cases "strip_prefix (trim l) ''lxc.mount.entry = ''")
      case None
      with v False show ?thesis
        by (auto simp: validate_config_line_def permitted_config_line_def Let_def res_simps
            starts_with_prefix split: if_splits)
    next
      case (Some e)
      with v False have "validate_lxc_mount_entry e = Inr ()"
        by (simp add: validate_config_line_def Let_def split: if_splits)
      moreover have "trim l = ''lxc.mount.entry = '' @ e"
        using Some by (rule strip_prefix_Some [THEN iffD1])
      ultimately show ?thesis
        unfolding permitted_config_line_def using mount_entry_confined by blast
    qed
  qed
  with len show ?thesis by blast
qed

theorem lxc_config_block_confined_witness:
  "validate_lxc_config_block ''lxc.mount.entry = /srv srv none bind,ro,create=dir 0 0'' = Inr () \<and>
   \<not> is_ok (validate_lxc_config_block ''lxc.hook.pre-start = /bin/sh'') \<and>
   permitted_config_line ''lxc.mount.entry = /srv srv none bind,ro,create=dir 0 0''"
proof -
  let ?b = "''lxc.mount.entry = /srv srv none bind,ro,create=dir 0 0''"
  have h: "validate_lxc_config_block ?b = Inr ()" by code_simp
  have "\<not> is_ok (validate_lxc_config_block ''lxc.hook.pre-start = /bin/sh'')" by code_simp
  moreover have "lines ?b = [?b]" by code_simp
  ultimately show ?thesis using h lxc_config_block_confined [OF h] by simp
qed

subsection \<open>PCI writes and consoles\<close>

lemma pci_address_chars:
  assumes "validate_pci_address a = Inr ()"
  shows "length a = 12" and "CHR ''/'' \<notin> set a"
proof -
  let ?ok = "\<lambda>(i, c). if i \<in> {4, 7, 10} then c = '':'' \<or> c = ''.''
      else char_is (\<lambda>b. is_ascii_hexdigit b \<and> \<not> is_ascii_upper b) c"
  from assms show "length a = 12" by (auto simp: validate_pci_address_def res_simps)
  from assms have all: "\<forall>x \<in> set (List.enumerate 0 (chars a)). ?ok x"
    by (simp add: validate_pci_address_def res_simps list_all_iff)
  show "CHR ''/'' \<notin> set a"
  proof
    assume "CHR ''/'' \<in> set a"
    then have "''/'' \<in> set (chars a)" by (rule ascii_char_mem) (simp add: byte_def)
    then obtain i where "i < length (chars a)" and "chars a ! i = ''/''"
      by (auto simp: in_set_conv_nth)
    then have "(i, ''/'') \<in> set (List.enumerate 0 (chars a))"
      by (auto simp: in_set_enumerate_eq)
    with all have "?ok (i, ''/'')" by blast
    then show False
      by (auto simp: char_is_def is_ascii_hexdigit_def is_ascii_digit_def byte_def split: if_splits)
  qed
qed

lemma pci_target_resolves:
  assumes "validate_pci_address address = Inr ()"
  shows "resolve_path (fst (pci_write_target kind address)) =
           (case kind of
              Unbind \<Rightarrow> [''sys'', ''bus'', ''pci'', ''devices'', address, ''driver'', ''unbind'']
            | Override \<Rightarrow> [''sys'', ''bus'', ''pci'', ''devices'', address, ''driver_override'']
            | Bind \<Rightarrow> [''sys'', ''bus'', ''pci'', ''drivers'', ''vfio-pci'', ''bind'']) \<and>
         snd (pci_write_target kind address) \<in> {address, ''vfio-pci''}"
proof -
  note a = pci_address_chars [OF assms]
  have na: "\<not> starts_with address ''/''" "address \<noteq> []" "address \<noteq> ''.''" "address \<noteq> ''..''"
    using a by (cases address; auto simp: starts_with_def)+
  have split: "split_on (CHR ''/'') (address @ CHR ''/'' # r) = address # split_on (CHR ''/'') r" for r
    using a(2) by (rule split_on_first)
  show ?thesis
    using na by (cases kind) (simp_all add: path_join_def starts_with_def resolve_path_def split)
qed

text \<open>
  For a validated PCI address a sysfs write resolves to exactly one of the three files of the
  PCI tree the operation names, and the value written is the address or \<open>vfio-pci\<close>.
\<close>

theorem pci_write_confined:
  assumes "validate_pci_address address = Inr ()"
  shows "resolve_path (fst (pci_write_target kind address)) =
           (case kind of
              Unbind \<Rightarrow> [''sys'', ''bus'', ''pci'', ''devices'', address, ''driver'', ''unbind'']
            | Override \<Rightarrow> [''sys'', ''bus'', ''pci'', ''devices'', address, ''driver_override'']
            | Bind \<Rightarrow> [''sys'', ''bus'', ''pci'', ''drivers'', ''vfio-pci'', ''bind'']) \<and>
         snd (pci_write_target kind address) \<in> {address, ''vfio-pci''}"
  by (rule pci_target_resolves [OF assms])

theorem pci_write_confined_witness:
  "validate_pci_address ''0000:01:00.0'' = Inr () \<and>
   resolve_path (fst (pci_write_target Override ''0000:01:00.0'')) =
     [''sys'', ''bus'', ''pci'', ''devices'', ''0000:01:00.0'', ''driver_override'']"
proof -
  have h: "validate_pci_address ''0000:01:00.0'' = Inr ()" by code_simp
  show ?thesis using h pci_write_confined [OF h, of Override] by simp
qed

text \<open>
  A console device is accepted exactly when it is \<open>/dev/pts/\<close> followed by one to ten decimal
  digits.
\<close>

theorem console_pty_accepted_iff:
  "validate_console_pty pty = Inr () \<longleftrightarrow>
     (\<exists>n. pty = ''/dev/pts/'' @ n \<and> 1 \<le> length n \<and> length n \<le> 10 \<and> (\<forall>c \<in> set n. is_ascii_digit c))"
  by (cases "strip_prefix pty ''/dev/pts/''")
    (auto simp: validate_console_pty_def res_simps str_simps list_all_iff Suc_le_eq prefix_def)


text \<open>
  Only the first \<open>-o\<close> of \<open>mount\<close> is checked: a mount option that
  \<open>validate_mount_options\<close> refuses is accepted in a second \<open>-o\<close>.
\<close>

theorem mount_second_options_unchecked:
  "validate_exec ''mount'' [''-t'', ''nfs'', ''-o'', ''ro'', ''-o'', ''suid'',
       ''nas:/isos'', ''/var/lib/daygleve/mounts/x''] = Inr () \<and>
   \<not> is_ok (validate_mount_options ''suid'')"
proof
  show "validate_exec ''mount'' [''-t'', ''nfs'', ''-o'', ''ro'', ''-o'', ''suid'',
       ''nas:/isos'', ''/var/lib/daygleve/mounts/x''] = Inr ()" by code_simp
  show "\<not> is_ok (validate_mount_options ''suid'')" by code_simp
qed

end
