(* ===== verification/Broker_Server.thy ===== *)
theory Broker_Server
  imports Broker_Safety
begin

section \<open>The broker server (src/src/broker/server.rs)\<close>

text \<open>
  One connection of the root-owned broker. The operating system is the record \<open>host_env\<close> of what
  it answers: the outcome of a child process, the chunks read from a stream, the state of a
  container's configuration file. The model returns the list of host actions performed, in order,
  and the messages sent to the peer. Base64 and JSON are parameters, as code of other crates.
\<close>

record broker_config =
  allowed_uid :: u32

datatype serve_error = Auth str | BadRequest str | ExecError str | SpawnNotFound str

fun to_response :: "serve_error \<Rightarrow> response" where
  "to_response (SpawnNotFound m) = spawn_not_found m"
| "to_response (ExecError m) = exec_failed m []"
| "to_response (Auth m) = failure m"
| "to_response (BadRequest m) = failure m"

fun show_serve_error :: "serve_error \<Rightarrow> str" where
  "show_serve_error (Auth m) = ''authorization failed: '' @ m"
| "show_serve_error (BadRequest m) = ''bad request: '' @ m"
| "show_serve_error (ExecError m) = ''execution failed: '' @ m"
| "show_serve_error (SpawnNotFound m) = ''program not found: '' @ m"

definition show_u32 :: "u32 \<Rightarrow> str" where
  "show_u32 w = show_nat (unat w)"

definition show_u64 :: "u64 \<Rightarrow> str" where
  "show_u64 w = show_nat (unat w)"

text \<open>Peer credentials: \<open>Inl\<close> when the socket cannot report them.\<close>

definition check_peer_uid :: "str + u32 \<Rightarrow> u32 \<Rightarrow> serve_error + unit" where
  "check_peer_uid cred uid_allowed =
     (case cred of
        Inl e \<Rightarrow> Inl (Auth (''could not read peer credentials: '' @ e))
      | Inr uid \<Rightarrow>
          if uid = uid_allowed \<or> uid = 0 then Inr ()
          else Inl (Auth (''peer uid '' @ show_u32 uid @ '' is not authorized (expected ''
                 @ show_u32 uid_allowed @ '')'')))"

subsection \<open>Host actions and answers\<close>

text \<open>\<open>Input\<close> is a chunk the peer sends to the standard input of the child or to the console. These
  chunks are written by a task of their own beside the output loop; they are listed after the action
  that opened their sink, in the order they are written, and a console session that ends first
  writes only a prefix of them.\<close>

datatype host_action =
    Spawn (spawn_exe: str) (spawn_args: "str list") (spawn_timeout: u64)
  | Input str
  | SysfsWrite str str
  | ConfigAppend str str
  | ConfigRewrite str str
  | OpenPty str u64

datatype spawn_result = SpawnMissing str | SpawnFailed str | Spawned

datatype wait_output = WaitTimeout | WaitFailed str | Output str str "int option"

text \<open>A read of at most \<open>CHUNK_PAYLOAD_MAX\<close> bytes; an empty one is the end of the stream.\<close>

datatype read_event = ReadTimeout | ReadFailed str | ReadOk str

datatype file_state =
    OpenFailed str
  | StatFailed str
  | NotRegular
  | Regular (content: str) (read_failure: "str option")

datatype write_stage = AtSeek | AtTruncate | AtWrite | AtSync

datatype pty_state =
    PtyOpenFailed str
  | PtyStatFailed str
  | PtyNotChar
  | PtyReopenFailed str
  | PtyOpen

record host_env =
  spawn :: "str \<Rightarrow> str list \<Rightarrow> spawn_result"
  wait_with_output :: wait_output
  reads :: "read_event list"
  stderr_text :: str
  wait_status :: "str + int option"
  input_ok :: "bool list"
  file_at :: "str \<Rightarrow> file_state"
  write_fault :: "str \<Rightarrow> (write_stage \<times> str) option"
  pty_at :: "str \<Rightarrow> pty_state"
  lxc_pty :: "str option"

text \<open>Serde and base64, by the values they compute.\<close>

record codec =
  dec_request :: "str \<Rightarrow> str + request"
  dec_frame :: "str \<Rightarrow> str + stream_frame"
  b64_encode :: "str \<Rightarrow> str"
  b64_decode :: "str \<Rightarrow> str option"

datatype message = Reply response | Frame stream_frame

definition min_u64 :: "u64 \<Rightarrow> u64 \<Rightarrow> u64" where
  "min_u64 a b = (if a \<le> b then a else b)"

subsection \<open>Unary execution\<close>

definition unary_exec ::
  "host_env \<Rightarrow> str \<Rightarrow> str list \<Rightarrow> u64 \<Rightarrow> host_action list \<times> (serve_error + response)" where
  "unary_exec env program args timeout_secs =
     (case program_path program of
        None \<Rightarrow> ([], Inl (BadRequest (''program `'' @ program @ ''` is not permitted'')))
      | Some executable \<Rightarrow>
          (let timeout = min_u64 timeout_secs EXEC_TIMEOUT_CAP in
           ([Spawn executable args timeout],
            case spawn env executable args of
              SpawnMissing e \<Rightarrow> Inl (SpawnNotFound e)
            | SpawnFailed e \<Rightarrow> Inl (ExecError (''spawn failed: '' @ e))
            | Spawned \<Rightarrow>
                (case wait_with_output env of
                   WaitTimeout \<Rightarrow> Inl (ExecError
                     (''`'' @ program @ ''` timed out after '' @ show_u64 timeout @ ''s''))
                 | WaitFailed e \<Rightarrow> Inl (ExecError (''wait for child: '' @ e))
                 | Output out err status \<Rightarrow>
                     (let code = (case status of None \<Rightarrow> -1 | Some c \<Rightarrow> c) in
                      if code = 0 then Inr (success out err code)
                      else Inr (exec_failed
                        (''`'' @ program @ '' '' @ join '' '' args @ ''` failed: '' @ trim err) err))))))"

subsection \<open>Streams\<close>

text \<open>The read loop of \<open>stream_exec\<close>: one \<open>Stdout\<close> frame per chunk, then one \<open>Exit\<close> frame, or none
  when waiting for the child fails. A write to the peer that fails ends the loop in the code, so
  what the peer gets is a prefix of these frames.\<close>

fun stream_loop ::
  "(str \<Rightarrow> str) \<Rightarrow> str \<Rightarrow> str + int option \<Rightarrow> read_event list \<Rightarrow> stream_frame list" where
  "stream_loop b64 err wait [] = []"
| "stream_loop b64 err wait (ReadTimeout # _) = [Exit (-1) err True]"
| "stream_loop b64 err wait (ReadFailed e # _) =
     [Exit (-1) (''read child stdout: '' @ e @ ''; '' @ err) False]"
| "stream_loop b64 err wait (ReadOk c # evs) =
     (if c = [] then
        (case wait of
           Inl _ \<Rightarrow> []
         | Inr status \<Rightarrow> [Exit (case status of None \<Rightarrow> -1 | Some code \<Rightarrow> code) err False])
      else Stdout (b64 c) # stream_loop b64 err wait evs)"

text \<open>\<open>feed_stdin\<close> and \<open>feed_console\<close>: the chunks written to the sink until the stream ends, a frame
  is refused or a write fails (the list of booleans is the success of each write).\<close>

function feed_stdin ::
  "(str \<Rightarrow> str + stream_frame) \<Rightarrow> (str \<Rightarrow> str option) \<Rightarrow> bool list \<Rightarrow> str \<Rightarrow> str list" where
  "feed_stdin of_json unb64 oks input =
     (case read_json of_json input of
        Inr (Stdin d, rest) \<Rightarrow>
          (case unb64 d of
             None \<Rightarrow> []
           | Some bytes \<Rightarrow>
               (if length bytes \<le> CHUNK_PAYLOAD_MAX then
                  (case oks of
                     True # oks' \<Rightarrow> bytes # feed_stdin of_json unb64 oks' rest
                   | _ \<Rightarrow> [])
                else []))
      | _ \<Rightarrow> [])"
  by pat_completeness auto
termination
  by (relation "measure (\<lambda>(_, _, _, input). length input)") (auto dest: read_json_shorter)

definition feed :: "codec \<Rightarrow> host_env \<Rightarrow> str \<Rightarrow> host_action list" where
  "feed c env rest = map Input (feed_stdin (dec_frame c) (b64_decode c) (input_ok env) rest)"

definition stream_exec ::
  "codec \<Rightarrow> host_env \<Rightarrow> str \<Rightarrow> str list \<Rightarrow> bool \<Rightarrow> u64 \<Rightarrow> str \<Rightarrow> host_action list \<times> message list" where
  "stream_exec c env program args stdin_stream timeout_secs rest =
     (case program_path program of
        None \<Rightarrow> ([], [])
      | Some executable \<Rightarrow>
          (let timeout = min_u64 timeout_secs EXEC_TIMEOUT_CAP;
               start = Spawn executable args timeout in
           case spawn env executable args of
             SpawnMissing e \<Rightarrow>
               ([start], [Frame (Exit (-1) (show_serve_error (SpawnNotFound e)) False)])
           | SpawnFailed e \<Rightarrow>
               ([start], [Frame (Exit (-1) (show_serve_error (ExecError (''spawn failed: '' @ e))) False)])
           | Spawned \<Rightarrow>
               (start # (if stdin_stream then feed c env rest else []),
                map Frame (stream_loop (b64_encode c) (trim (stderr_text env)) (wait_status env)
                  (reads env)))))"

text \<open>The console loops: a time-out or an end of file is a normal exit.\<close>

fun console_loop :: "(str \<Rightarrow> str) \<Rightarrow> str \<Rightarrow> read_event list \<Rightarrow> stream_frame list" where
  "console_loop b64 what [] = []"
| "console_loop b64 what (ReadTimeout # _) = [Exit 0 [] True]"
| "console_loop b64 what (ReadFailed e # _) = [Exit (-1) (''read '' @ what @ '': '' @ e) False]"
| "console_loop b64 what (ReadOk c # evs) =
     (if c = [] then [Exit 0 [] False] else Stdout (b64 c) # console_loop b64 what evs)"

definition exit_frame :: "str \<Rightarrow> message list" where
  "exit_frame reason = [Frame (Exit (-1) reason False)]"

definition stream_console ::
  "codec \<Rightarrow> host_env \<Rightarrow> str \<Rightarrow> u64 \<Rightarrow> str \<Rightarrow> host_action list \<times> message list" where
  "stream_console c env pty timeout_secs rest =
     (case validate_console_pty pty of
        Inl reason \<Rightarrow> ([], exit_frame (reject_msg reason))
      | Inr _ \<Rightarrow>
          (let timeout = min_u64 timeout_secs EXEC_TIMEOUT_CAP in
           case pty_at env pty of
             PtyOpenFailed e \<Rightarrow> ([OpenPty pty timeout], exit_frame (''open '' @ pty @ '': '' @ e))
           | PtyStatFailed e \<Rightarrow> ([OpenPty pty timeout], exit_frame (''stat '' @ pty @ '': '' @ e))
           | PtyNotChar \<Rightarrow> ([OpenPty pty timeout], exit_frame (pty @ '' is not a console device''))
           | PtyReopenFailed e \<Rightarrow> ([OpenPty pty timeout], exit_frame (''open '' @ pty @ '': '' @ e))
           | PtyOpen \<Rightarrow> (OpenPty pty timeout # feed c env rest,
                         map Frame (console_loop (b64_encode c) pty (reads env)))))"

definition stream_lxc_console ::
  "codec \<Rightarrow> host_env \<Rightarrow> str \<Rightarrow> u64 \<Rightarrow> str \<Rightarrow> host_action list \<times> message list" where
  "stream_lxc_console c env name timeout_secs rest =
     (case validate_lxc_name name of
        Inl reason \<Rightarrow> ([], exit_frame (reject_msg reason))
      | Inr _ \<Rightarrow>
          (case program_path ''lxc-console'' of
             None \<Rightarrow> ([], exit_frame ''lxc-console is not permitted'')
           | Some exe \<Rightarrow>
               (case lxc_pty env of
                  Some e \<Rightarrow> ([], exit_frame e)
                | None \<Rightarrow>
                    (let timeout = min_u64 timeout_secs EXEC_TIMEOUT_CAP;
                         args = [''-n'', name, ''-t'', ''0''] in
                     case spawn env exe args of
                       SpawnMissing e \<Rightarrow>
                         ([Spawn exe args timeout], exit_frame (''start lxc-console: '' @ e))
                     | SpawnFailed e \<Rightarrow>
                         ([Spawn exe args timeout], exit_frame (''start lxc-console: '' @ e))
                     | Spawned \<Rightarrow>
                         (Spawn exe args timeout # feed c env rest,
                          map Frame (console_loop (b64_encode c) ''console'' (reads env)))))))"

subsection \<open>Host files\<close>

definition handle_pci_write :: "host_env \<Rightarrow> pci_write_kind \<Rightarrow> str \<Rightarrow> host_action list \<times> (str + unit)" where
  "handle_pci_write env kind address =
     (let (path, value) = pci_write_target kind address in
      ([SysfsWrite path value],
       case write_fault env path of
         None \<Rightarrow> Inr () | Some (_, e) \<Rightarrow> Inl (''write '' @ path @ '': '' @ e)))"

definition lxc_config_path :: "str \<Rightarrow> str" where
  "lxc_config_path name = path_join (path_join ''/var/lib/lxc'' name) ''config''"

fun stage_verb :: "str \<Rightarrow> write_stage \<Rightarrow> str" where
  "stage_verb verb AtSeek = ''seek ''"
| "stage_verb verb AtTruncate = ''truncate ''"
| "stage_verb verb AtWrite = verb"
| "stage_verb verb AtSync = ''sync ''"

definition write_outcome :: "host_env \<Rightarrow> str \<Rightarrow> str \<Rightarrow> str + unit" where
  "write_outcome env verb path =
     (case write_fault env path of
        None \<Rightarrow> Inr ()
      | Some (stage, e) \<Rightarrow> Inl (stage_verb verb stage @ path @ '': '' @ e))"

definition handle_lxc_config_append :: "host_env \<Rightarrow> str \<Rightarrow> str \<Rightarrow> host_action list \<times> (str + unit)" where
  "handle_lxc_config_append env name block =
     (case bind_res (validate_lxc_name name) (\<lambda>_. validate_lxc_config_block block) of
        Inl r \<Rightarrow> ([], Inl (reject_msg r))
      | Inr _ \<Rightarrow>
          (let path = lxc_config_path name in
           case file_at env path of
             OpenFailed e \<Rightarrow> ([], Inl (''open '' @ path @ '': '' @ e))
           | StatFailed e \<Rightarrow> ([], Inl (''stat '' @ path @ '': '' @ e))
           | NotRegular \<Rightarrow> ([], Inl (path @ '' is not a regular file''))
           | Regular _ _ \<Rightarrow> ([ConfigAppend path block], write_outcome env ''append '' path)))"

definition is_rootfs_line :: "str \<Rightarrow> bool" where
  "is_rootfs_line line \<longleftrightarrow>
     starts_with (trim_start line) ''lxc.rootfs.path'' \<or>
     starts_with (trim_start line) ''lxc.rootfs.device''"

definition trim_end_cr :: "str \<Rightarrow> str" where
  "trim_end_cr l = rev (dropWhile (\<lambda>c. c = CHR 0x0D) (rev l))"

text \<open>The line loop of the rewrite; the flag is \<open>replaced\<close>.\<close>

fun rewrite_lines :: "str \<Rightarrow> bool \<Rightarrow> str list \<Rightarrow> str \<times> bool" where
  "rewrite_lines new_line replaced [] = ([], replaced)"
| "rewrite_lines new_line replaced (line # rest) =
     (if is_rootfs_line line then
        (let (out, r) = rewrite_lines new_line True rest in
         (if replaced then (out, r) else (new_line @ [CHR 0x0A] @ out, r)))
      else
        (let (out, r) = rewrite_lines new_line replaced rest in
         (trim_end_cr line @ [CHR 0x0A] @ out, r)))"

definition rootfs_line :: "str \<Rightarrow> str" where
  "rootfs_line dataset = ''lxc.rootfs.path = zfs:'' @ dataset"

definition rewrite_rootfs :: "str \<Rightarrow> str \<Rightarrow> str option" where
  "rewrite_rootfs dataset text =
     (let (out, replaced) = rewrite_lines (rootfs_line dataset) False (split_on (CHR 0x0A) text)
      in if replaced then Some out else None)"

definition handle_lxc_rootfs_set :: "host_env \<Rightarrow> str \<Rightarrow> str \<Rightarrow> host_action list \<times> (str + unit)" where
  "handle_lxc_rootfs_set env name dataset =
     (case bind_res (validate_lxc_name name) (\<lambda>_. validate_zfs_dataset_path dataset) of
        Inl r \<Rightarrow> ([], Inl (reject_msg r))
      | Inr _ \<Rightarrow>
          if \<not> contains_char dataset (CHR ''/'')
          then ([], Inl ''rootfs dataset must include a pool component'')
          else let path = lxc_config_path name in
            (case file_at env path of
               OpenFailed e \<Rightarrow> ([], Inl (''open '' @ path @ '': '' @ e))
             | StatFailed e \<Rightarrow> ([], Inl (''stat '' @ path @ '': '' @ e))
             | NotRegular \<Rightarrow> ([], Inl (path @ '' is not a regular file''))
             | Regular text fault \<Rightarrow>
                 if 1024 * 1024 < length text then ([], Inl (path @ '' exceeds 1 MiB''))
                 else (case fault of
                         Some e \<Rightarrow> ([], Inl (''read '' @ path @ '': '' @ e))
                       | None \<Rightarrow>
                           (case rewrite_rootfs dataset text of
                              None \<Rightarrow> ([], Inl (path @ '' has no lxc.rootfs.path line to replace''))
                            | Some out \<Rightarrow>
                                ([ConfigRewrite path out], write_outcome env ''write '' path)))))"

subsection \<open>A connection\<close>

definition reply_result :: "host_action list \<times> (str + unit) \<Rightarrow> host_action list \<times> message list" where
  "reply_result r =
     (fst r, [Reply (case snd r of Inr _ \<Rightarrow> success [] [] 0 | Inl m \<Rightarrow> exec_failed m [])])"

fun perform :: "codec \<Rightarrow> host_env \<Rightarrow> str \<Rightarrow> op \<Rightarrow> host_action list \<times> message list" where
  "perform c env rest Ping = ([], [Reply (success ''pong'' [] 0)])"
| "perform c env rest (Exec program args stream stdin_stream timeout_secs) =
     (if stream then stream_exec c env program args stdin_stream timeout_secs rest
      else if \<not> stdin_stream then
        (let (acts, r) = unary_exec env program args timeout_secs in
         (acts, [Reply (case r of Inr resp \<Rightarrow> resp | Inl e \<Rightarrow> to_response e)]))
      else ([], [Reply (failure ''stdin_stream requires stream=true'')]))"
| "perform c env rest (PciWrite kind address) = reply_result (handle_pci_write env kind address)"
| "perform c env rest (LxcConfigAppend name block) =
     reply_result (handle_lxc_config_append env name block)"
| "perform c env rest (LxcRootfsSet name dataset) =
     reply_result (handle_lxc_rootfs_set env name dataset)"
| "perform c env rest (ConsoleAttach pty timeout_secs) = stream_console c env pty timeout_secs rest"
| "perform c env rest (LxcConsoleAttach name timeout_secs) =
     stream_lxc_console c env name timeout_secs rest"

definition handle_connection ::
  "codec \<Rightarrow> broker_config \<Rightarrow> host_env \<Rightarrow> str + u32 \<Rightarrow> str \<Rightarrow> host_action list \<times> message list" where
  "handle_connection c config env cred input =
     (case check_peer_uid cred (allowed_uid config) of
        Inl e \<Rightarrow> ([], [Reply (to_response e)])
      | Inr _ \<Rightarrow>
          (case read_json (dec_request c) input of
             Inl e \<Rightarrow> ([], [Reply (failure (frame_error_msg e))])
           | Inr (req, rest) \<Rightarrow>
               (case validate_request req of
                  Inl reason \<Rightarrow>
                    ([], [Reply (failure (''request rejected: '' @ reject_msg reason))])
                | Inr _ \<Rightarrow> perform c env rest (req_op req))))"

text \<open>\<open>reply_response\<close> and the stream writes put messages on the wire one frame at a time; the first
  one that does not fit a control frame ends the connection.\<close>

fun wire :: "(message \<Rightarrow> str) \<Rightarrow> message list \<Rightarrow> str" where
  "wire to_json [] = []"
| "wire to_json (m # ms) =
     (case write_json to_json m of Inl _ \<Rightarrow> [] | Inr bytes \<Rightarrow> bytes @ wire to_json ms)"

text \<open>Before it listens, the broker removes a stale socket and nothing else.\<close>

datatype socket_path_state = SocketFile | OtherFile | NoFile | StatError str

fun remove_stale_socket :: "str \<Rightarrow> socket_path_state \<Rightarrow> str + bool" where
  "remove_stale_socket path SocketFile = Inr True"
| "remove_stale_socket path OtherFile = Inl (''broker socket path is not a Unix socket: '' @ path)"
| "remove_stale_socket path NoFile = Inr False"
| "remove_stale_socket path (StatError e) = Inl e"

declare feed_stdin.simps [simp del]

subsection \<open>What a connection can make the host do\<close>

text \<open>The abstract contract of an action on the host, independent of the request it came from.\<close>

definition timeout_bounded :: "u64 \<Rightarrow> bool" where
  "timeout_bounded t \<longleftrightarrow> 0 < t \<and> t \<le> EXEC_TIMEOUT_CAP"

definition config_of_container :: "str \<Rightarrow> bool" where
  "config_of_container path \<longleftrightarrow>
     (\<exists>n. validate_lxc_name n = Inr () \<and> resolve_path path = [''var'', ''lib'', ''lxc'', n, ''config''])"

fun action_confined :: "host_action \<Rightarrow> bool" where
  "action_confined (Spawn exe args t) \<longleftrightarrow> timeout_bounded t \<and>
     ((\<exists>program. program_path program = Some exe \<and> validate_exec program args = Inr ()) \<or>
      (exe = ''/usr/bin/lxc-console'' \<and>
       (\<exists>n. validate_lxc_name n = Inr () \<and> args = [''-n'', n, ''-t'', ''0''])))"
| "action_confined (Input bytes) \<longleftrightarrow> length bytes \<le> CHUNK_PAYLOAD_MAX"
| "action_confined (SysfsWrite path v) \<longleftrightarrow>
     prefix [''sys'', ''bus'', ''pci''] (resolve_path path) \<and>
     last (resolve_path path) \<in> {''unbind'', ''driver_override'', ''bind''}"
| "action_confined (ConfigAppend path block) \<longleftrightarrow>
     config_of_container path \<and> validate_lxc_config_block block = Inr ()"
| "action_confined (ConfigRewrite path out) \<longleftrightarrow>
     config_of_container path \<and>
     (\<exists>d text. safe_dataset d \<and> contains_char d (CHR ''/'') \<and> rewrite_rootfs d text = Some out)"
| "action_confined (OpenPty pty t) \<longleftrightarrow> timeout_bounded t \<and> validate_console_pty pty = Inr ()"

lemma timeout_bounded_min:
  assumes "validate_timeout t = Inr ()"
  shows "timeout_bounded (min_u64 t EXEC_TIMEOUT_CAP)"
  using assms by (auto simp: validate_timeout_def timeout_bounded_def min_u64_def res_simps
      EXEC_TIMEOUT_CAP_def word_gt_0)

lemma feed_stdin_cases:
  obtains "feed_stdin of_json unb64 oks input = []"
  | d rest bytes oks' where "read_json of_json input = Inr (Stdin d, rest)"
      and "unb64 d = Some bytes" and "length bytes \<le> CHUNK_PAYLOAD_MAX" and "oks = True # oks'"
      and "feed_stdin of_json unb64 oks input = bytes # feed_stdin of_json unb64 oks' rest"
  using feed_stdin.simps [of of_json unb64 oks input]
  by (simp split: sum.split_asm prod.split_asm stream_frame.split_asm option.split_asm
      list.split_asm bool.split_asm if_split_asm)

lemma feed_stdin_bounded:
  "bytes \<in> set (feed_stdin of_json unb64 oks input) \<Longrightarrow> length bytes \<le> CHUNK_PAYLOAD_MAX"
proof (induction "length input" arbitrary: oks input rule: less_induct)
  case less
  show ?case
  proof (cases rule: feed_stdin_cases [of of_json unb64 oks input])
    case (2 d rest b oks')
    with less show ?thesis by (auto dest: read_json_shorter)
  qed (use less.prems in simp)
qed

lemma feed_confined: "a \<in> set (feed c env rest) \<Longrightarrow> action_confined a"
  by (auto simp: feed_def dest: feed_stdin_bounded)

lemma lxc_config_of_container: "validate_lxc_name n = Inr () \<Longrightarrow> config_of_container (lxc_config_path n)"
  unfolding config_of_container_def lxc_config_path_def by (blast intro: lxc_config_path_resolves)

lemma exec_actions_confined:
  assumes "validate_exec program args = Inr ()" and "validate_timeout t = Inr ()"
  shows "a \<in> set (fst (stream_exec c env program args stdin_stream t rest)) \<Longrightarrow> action_confined a"
    and "a \<in> set (fst (unary_exec env program args t)) \<Longrightarrow> action_confined a"
  using assms timeout_bounded_min [OF assms(2)] feed_confined
  by (auto simp: stream_exec_def unary_exec_def Let_def
      split: option.split_asm spawn_result.split_asm if_split_asm)

lemma pci_action_confined:
  assumes "validate_pci_address address = Inr ()"
  shows "a \<in> set (fst (handle_pci_write env kind address)) \<Longrightarrow> action_confined a"
  using pci_target_resolves [OF assms, of kind]
  by (cases kind) (auto simp: handle_pci_write_def simp del: pci_write_target.simps split: prod.split_asm)

lemma append_action_confined:
  "a \<in> set (fst (handle_lxc_config_append env name block)) \<Longrightarrow> action_confined a"
  by (auto simp: handle_lxc_config_append_def Let_def res_simps intro: lxc_config_of_container
      split: sum.split_asm file_state.split_asm)

lemma rootfs_action_confined:
  "a \<in> set (fst (handle_lxc_rootfs_set env name dataset)) \<Longrightarrow> action_confined a"
  by (auto simp: handle_lxc_rootfs_set_def validate_zfs_dataset_path_def Let_def res_simps
      intro: lxc_config_of_container
      split: sum.split_asm file_state.split_asm option.split_asm if_split_asm)

lemma console_action_confined:
  assumes "validate_timeout t = Inr ()"
  shows "a \<in> set (fst (stream_console c env pty t rest)) \<Longrightarrow> action_confined a"
    and "a \<in> set (fst (stream_lxc_console c env name t rest)) \<Longrightarrow> action_confined a"
  using timeout_bounded_min [OF assms] feed_confined
  by (auto simp: stream_console_def stream_lxc_console_def Let_def program_path_def program_table_def
      split: sum.split_asm pty_state.split_asm spawn_result.split_asm option.split_asm)

lemmas op_actions_confined =
  exec_actions_confined pci_action_confined append_action_confined rootfs_action_confined
  console_action_confined

lemma perform_confined:
  assumes "validate_op operation = Inr ()" and "a \<in> set (fst (perform c env rest operation))"
  shows "action_confined a"
  using assms
  by (cases operation)
    (auto simp: res_simps reply_result_def split: if_split_asm prod.split_asm
      dest: op_actions_confined exec_actions_confined(2) [where env = env])

definition request_accepted :: "codec \<Rightarrow> broker_config \<Rightarrow> str + u32 \<Rightarrow> str \<Rightarrow> request \<Rightarrow> str \<Rightarrow> bool" where
  "request_accepted c config cred input req rest \<longleftrightarrow>
     (\<exists>uid. cred = Inr uid \<and> (uid = allowed_uid config \<or> uid = 0)) \<and>
     read_json (dec_request c) input = Inr (req, rest) \<and> validate_request req = Inr ()"

lemma connection_cases:
  "(\<exists>req rest. request_accepted c config cred input req rest \<and>
      handle_connection c config env cred input = perform c env rest (req_op req)) \<or>
   ((\<nexists>req rest. request_accepted c config cred input req rest) \<and>
    (\<exists>m. handle_connection c config env cred input = ([], [Reply (failure m)])))"
  by (cases cred; cases "read_json (dec_request c) input")
    (auto simp: request_accepted_def handle_connection_def check_peer_uid_def
      split: sum.splits)

subsection \<open>The rootfs rewrite\<close>

definition unlines :: "str list \<Rightarrow> str" where
  "unlines ls = concat (map (\<lambda>l. l @ [CHR 0x0A]) ls)"

text \<open>What the rewrite means: the first root file system line is replaced, later ones are dropped,
  every other line is kept in place.\<close>

definition rootfs_spec :: "str \<Rightarrow> str list \<Rightarrow> str list" where
  "rootfs_spec new ls =
     map trim_end_cr (takeWhile (\<lambda>l. \<not> is_rootfs_line l) ls) @ [new] @
     map trim_end_cr (filter (\<lambda>l. \<not> is_rootfs_line l) (dropWhile (\<lambda>l. \<not> is_rootfs_line l) ls))"

lemma rewrite_lines_replaced:
  "rewrite_lines new True ls =
     (unlines (map trim_end_cr (filter (\<lambda>l. \<not> is_rootfs_line l) ls)), True)"
  by (induction ls) (auto simp: unlines_def)

lemma rewrite_lines_spec:
  "rewrite_lines new False ls =
     (if list_ex is_rootfs_line ls then (unlines (rootfs_spec new ls), True)
      else (unlines (map trim_end_cr ls), False))"
  by (induction ls) (auto simp: unlines_def rootfs_spec_def rewrite_lines_replaced)

lemma rewrite_rootfs_eq:
  "rewrite_rootfs dataset text =
     (if list_ex is_rootfs_line (split_on (CHR 0x0A) text)
      then Some (unlines (rootfs_spec (rootfs_line dataset) (split_on (CHR 0x0A) text))) else None)"
  by (simp add: rewrite_rootfs_def rewrite_lines_spec)

lemma split_on_unlines:
  "\<forall>l \<in> set ls. CHR 0x0A \<notin> set l \<Longrightarrow> split_on (CHR 0x0A) (unlines ls) = ls @ [[]]"
  by (induction ls) (auto simp: unlines_def split_on_first)

lemma chars_snoc: "byte c < 128 \<Longrightarrow> chars (s @ [c]) = chars s @ [[c]]"
  by (simp add: chars_append_ascii)

lemma trim_start_snoc:
  assumes "byte c < 128" and "trim_start s \<noteq> []"
  shows "trim_start (s @ [c]) = trim_start s @ [c]"
proof -
  have "dropWhile is_whitespace (chars s) \<noteq> []"
    using assms(2) unfolding trim_start_def by (metis concat.simps(1))
  then obtain x where "x \<in> set (chars s)" and "\<not> is_whitespace x" by (auto simp: dropWhile_eq_Nil_conv)
  then have "dropWhile is_whitespace (chars s @ [[c]]) = dropWhile is_whitespace (chars s) @ [[c]]"
    by (rule dropWhile_append1)
  with assms(1) show ?thesis by (simp add: trim_start_def chars_snoc)
qed

lemma is_rootfs_line_trim_cr: "is_rootfs_line (trim_end_cr l) \<Longrightarrow> is_rootfs_line l"
proof (induction l rule: rev_induct)
  case (snoc c l)
  show ?case
  proof (cases "c = CHR 0x0D")
    case True
    with snoc have r: "is_rootfs_line l" by (simp add: trim_end_cr_def)
    then have "trim_start l \<noteq> []" by (auto simp: is_rootfs_line_def starts_with_def)
    moreover have "byte c < 128" using True by (simp add: byte_def)
    ultimately show ?thesis
      using r by (auto simp: is_rootfs_line_def starts_with_prefix trim_start_snoc)
  qed (use snoc.prems in \<open>simp add: trim_end_cr_def\<close>)
qed (simp add: trim_end_cr_def)

lemma trim_end_cr_idem [simp]: "trim_end_cr (trim_end_cr l) = trim_end_cr l"
  by (simp add: trim_end_cr_def)

lemma trim_end_cr_subset: "set (trim_end_cr l) \<subseteq> set l"
  by (auto simp: trim_end_cr_def dest: set_dropWhileD)

lemma rootfs_line_is_rootfs: "is_rootfs_line (rootfs_line d)"
proof -
  have "\<not> is_whitespace ''l''" by (simp add: byte_def)
  then have "trim_start (rootfs_line d) = rootfs_line d"
    by (simp add: rootfs_line_def trim_start_def byte_def)
  then show ?thesis by (simp add: is_rootfs_line_def rootfs_line_def starts_with_def)
qed

lemma split_at_first:
  assumes "\<forall>l \<in> set a. \<not> P l" and "P x"
  shows "takeWhile (\<lambda>l. \<not> P l) (a @ x # b) = a" and "dropWhile (\<lambda>l. \<not> P l) (a @ x # b) = x # b"
  using assms by (induction a) auto

lemma rootfs_spec_kept:
  assumes "\<forall>l \<in> set (a @ b). \<not> is_rootfs_line l \<and> trim_end_cr l = l"
  shows "rootfs_spec (rootfs_line d) (a @ rootfs_line d # b) = a @ rootfs_line d # b"
proof -
  have "map trim_end_cr a = a" "map trim_end_cr b = b" "filter (\<lambda>l. \<not> is_rootfs_line l) b = b"
    using assms by (auto intro: map_idI simp: filter_id_conv)
  with assms show ?thesis
    by (simp add: rootfs_spec_def split_at_first rootfs_line_is_rootfs)
qed

lemma rootfs_spec_again:
  "rootfs_spec (rootfs_line d) (rootfs_spec (rootfs_line d) ls @ [[]]) =
   rootfs_spec (rootfs_line d) ls @ [[]]"
proof -
  have keep: "\<not> is_rootfs_line (trim_end_cr l)" if "\<not> is_rootfs_line l" for l
    using that is_rootfs_line_trim_cr by blast
  have "\<not> is_rootfs_line []" "trim_end_cr [] = []"
    by (simp_all add: is_rootfs_line_def trim_start_def starts_with_def trim_end_cr_def)
  then have k: "\<forall>l \<in> set (map trim_end_cr (takeWhile (\<lambda>l. \<not> is_rootfs_line l) ls) @
      map trim_end_cr (filter (\<lambda>l. \<not> is_rootfs_line l) (dropWhile (\<lambda>l. \<not> is_rootfs_line l) ls)) @ [[]]).
      \<not> is_rootfs_line l \<and> trim_end_cr l = l"
    using keep set_takeWhileD [of _ "\<lambda>l. \<not> is_rootfs_line l" ls] by (simp add: ball_Un)
  show ?thesis
    using rootfs_spec_kept [OF k, of d]
    unfolding rootfs_spec_def [of "rootfs_line d" ls] by (simp only: append.simps append_assoc)
qed

lemma rootfs_spec_no_newline:
  assumes "CHR 0x0A \<notin> set d" and "l \<in> set (rootfs_spec (rootfs_line d) (split_on (CHR 0x0A) text))"
  shows "CHR 0x0A \<notin> set l"
proof -
  from assms(2) consider "l = rootfs_line d"
    | l' where "l' \<in> set (split_on (CHR 0x0A) text)" and "l = trim_end_cr l'"
    by (auto simp: rootfs_spec_def dest: set_takeWhileD set_dropWhileD)
  then show ?thesis
  proof cases
    case 1
    with assms(1) show ?thesis by (simp add: rootfs_line_def)
  next
    case 2
    with split_on_no_sep trim_end_cr_subset show ?thesis by blast
  qed
qed

lemma safe_dataset_no_newline: "safe_dataset d \<Longrightarrow> CHR 0x0A \<notin> set d"
  using safe_datasetD(8) [of d]
  by (auto simp: is_ascii_alphanumeric_def is_ascii_digit_def is_ascii_lower_def is_ascii_upper_def
      byte_def)

lemma split_on_rewritten:
  assumes "safe_dataset d"
  shows "split_on (CHR 0x0A) (unlines (rootfs_spec (rootfs_line d) (split_on (CHR 0x0A) text))) =
         rootfs_spec (rootfs_line d) (split_on (CHR 0x0A) text) @ [[]]"
  using rootfs_spec_no_newline safe_dataset_no_newline [OF assms] by (intro split_on_unlines) blast

subsection \<open>Properties of the server\<close>

text \<open>A connection to apply the properties to: the peer sends a one-byte frame, decoded as a PCI
  write; the tools start, the child writes one chunk and exits.\<close>

definition sample_codec :: codec where
  "sample_codec = \<lparr>dec_request = (\<lambda>_. Inr \<lparr>req_v = 1, req_id = ''r1'', req_op = PciWrite Override ''0000:01:00.0''\<rparr>),
     dec_frame = (\<lambda>_. Inr StdinEof), b64_encode = (\<lambda>x. x), b64_decode = Some\<rparr>"

definition sample_env :: host_env where
  "sample_env = \<lparr>spawn = (\<lambda>_ _. Spawned), wait_with_output = Output [] [] (Some 0),
     reads = [ReadOk ''data'', ReadOk []], stderr_text = [], wait_status = Inr (Some 0),
     input_ok = [], file_at = (\<lambda>_. NotRegular), write_fault = (\<lambda>_. None),
     pty_at = (\<lambda>_. PtyOpen), lxc_pty = None\<rparr>"

definition sample_input :: str where
  "sample_input = [CHR 0x01, CHR 0x00, CHR 0x00, CHR 0x00, CHR ''x'']"

lemma sample_read: "read_json of_json sample_input =
    (case of_json ''x'' of Inl e \<Rightarrow> Inl (ParseFrame e) | Inr v \<Rightarrow> Inr (v, []))"
  by (simp add: sample_input_def read_json_def read_frame_def read_exact_def from_le_bytes_def
      CONTROL_FRAME_MAX_def byte_def)

text \<open>
  C1. Every action of the broker on the host is authorised and confined: it happens only on a
  connection whose peer has the configured uid or is root, after a request was read and passed
  \<open>validate_request\<close>, and it is one of: a child of an allowlisted program with validated arguments,
  \<open>lxc-console\<close> on a valid container name, an input chunk within the chunk limit, a write to one of the
  PCI binding files, a change of the configuration file of a valid container, or the opening of a
  console device, with each time-out between 1 and 900 seconds.
\<close>

theorem host_actions_authorised_and_confined:
  assumes "a \<in> set (fst (handle_connection c config env cred input))"
  shows "(\<exists>req rest. request_accepted c config cred input req rest) \<and> action_confined a"
proof -
  from assms connection_cases [of c config cred input env] obtain req rest where
      acc: "request_accepted c config cred input req rest"
    and p: "handle_connection c config env cred input = perform c env rest (req_op req)"
    by fastforce
  from acc have "validate_op (req_op req) = Inr ()"
    by (simp add: request_accepted_def validate_request_def res_simps)
  with assms p have "action_confined a" by (simp add: perform_confined)
  with acc show ?thesis by blast
qed

theorem host_actions_authorised_and_confined_witness:
  "SysfsWrite ''/sys/bus/pci/devices/0000:01:00.0/driver_override'' ''vfio-pci''
     \<in> set (fst (handle_connection sample_codec \<lparr>allowed_uid = 1000\<rparr> sample_env (Inr 1000) sample_input)) \<and>
   action_confined (SysfsWrite ''/sys/bus/pci/devices/0000:01:00.0/driver_override'' ''vfio-pci'')"
proof -
  have v: "validate_pci_address ''0000:01:00.0'' = Inr ()" by code_simp
  have m: "SysfsWrite ''/sys/bus/pci/devices/0000:01:00.0/driver_override'' ''vfio-pci''
     \<in> set (fst (handle_connection sample_codec \<lparr>allowed_uid = 1000\<rparr> sample_env (Inr 1000) sample_input))"
    using v by (simp add: handle_connection_def check_peer_uid_def sample_read sample_codec_def
        validate_request_def PROTOCOL_VERSION_def contains_char_def reply_result_def
        handle_pci_write_def path_join_def starts_with_def)
  show ?thesis using m host_actions_authorised_and_confined [OF m] by blast
qed

text \<open>
  A connection that is not accepted, because of the peer's uid, a malformed or oversized frame,
  an undecodable request or a failed validation, makes no change to the host and is answered by
  exactly one failure reply of kind \<open>protocol\<close>.
\<close>

theorem refused_connection_is_inert:
  assumes "\<nexists>req rest. request_accepted c config cred input req rest"
  shows "\<exists>m. handle_connection c config env cred input = ([], [Reply (failure m)])"
  using connection_cases [of c config cred input env] assms by blast

theorem refused_connection_is_inert_witness:
  "\<exists>m. handle_connection sample_codec \<lparr>allowed_uid = 1000\<rparr> sample_env (Inr 1001) sample_input
     = ([], [Reply (failure m)])"
  by (rule refused_connection_is_inert) (simp add: request_accepted_def)


text \<open>
  The rewrite is not idempotent: it ends every line of the split with a newline, also the
  empty piece after a final newline, so that each further rewrite of its own output adds one more
  newline at the end of the file and changes nothing else.
\<close>

theorem rewrite_rootfs_grows:
  assumes "safe_dataset dataset" and "rewrite_rootfs dataset text = Some out"
  shows "rewrite_rootfs dataset out = Some (out @ [CHR 0x0A])"
proof -
  let ?ls = "rootfs_spec (rootfs_line dataset) (split_on (CHR 0x0A) text)"
  from assms(2) have out: "out = unlines ?ls"
    by (simp add: rewrite_rootfs_eq split: if_split_asm)
  have "list_ex is_rootfs_line (?ls @ [[]])"
    by (simp add: rootfs_spec_def rootfs_line_is_rootfs)
  then show ?thesis
    unfolding rewrite_rootfs_eq out split_on_rewritten [OF assms(1)] rootfs_spec_again
    by (simp add: unlines_def)
qed

theorem rewrite_rootfs_grows_witness:
  "rewrite_rootfs ''tank/ct/web'' (''lxc.rootfs.path = dir:/x'' @ [CHR 0x0A]) =
     Some (''lxc.rootfs.path = zfs:tank/ct/web'' @ [CHR 0x0A, CHR 0x0A]) \<and>
   rewrite_rootfs ''tank/ct/web'' (''lxc.rootfs.path = zfs:tank/ct/web'' @ [CHR 0x0A, CHR 0x0A]) =
     Some (''lxc.rootfs.path = zfs:tank/ct/web'' @ [CHR 0x0A, CHR 0x0A, CHR 0x0A])"
proof -
  have d: "safe_dataset ''tank/ct/web''" by code_simp
  have r: "rewrite_rootfs ''tank/ct/web'' (''lxc.rootfs.path = dir:/x'' @ [CHR 0x0A]) =
     Some (''lxc.rootfs.path = zfs:tank/ct/web'' @ [CHR 0x0A, CHR 0x0A])" by code_simp
  show ?thesis using r rewrite_rootfs_grows [OF d r] by simp
qed

lemma stream_loop_exit_0:
  assumes "Exit 0 s t \<in> set (stream_loop b64 err wait evs)"
  shows "\<exists>chunks more. evs = map ReadOk chunks @ ReadOk [] # more \<and> [] \<notin> set chunks \<and>
           wait = Inr (Some 0) \<and>
           stream_loop b64 err wait evs = map (\<lambda>x. Stdout (b64 x)) chunks @ [Exit 0 err False]"
  using assms
proof (induction b64 err wait evs rule: stream_loop.induct)
  case (4 b64 err wait x evs)
  show ?case
  proof (cases "x = []")
    case True
    with "4.prems" have "wait = Inr (Some 0)" by (auto split: sum.split_asm option.split_asm)
    with True show ?thesis by (intro exI [of _ "[]"] exI [of _ evs]) simp
  next
    case False
    with 4 obtain chunks more where c: "evs = map ReadOk chunks @ ReadOk [] # more" "[] \<notin> set chunks"
        "wait = Inr (Some 0)"
        "stream_loop b64 err wait evs = map (\<lambda>x. Stdout (b64 x)) chunks @ [Exit 0 err False]"
      by auto
    with False show ?thesis by (intro exI [of _ "x # chunks"] exI [of _ more]) simp
  qed
qed simp_all

text \<open>
  A streamed execution that reports exit code 0 is complete: the child was started, its output
  was read to the end with no time-out and no read error, it exited with status 0, and the frames
  are exactly the chunks read, in order, followed by that one \<open>Exit\<close> frame. A stream that was cut
  short never looks like a success.
\<close>

theorem stream_success_is_complete:
  assumes "Frame (Exit 0 s t) \<in> set (snd (stream_exec c env program args stdin_stream timeout rest))"
  shows "\<exists>exe chunks more. program_path program = Some exe \<and> spawn env exe args = Spawned \<and>
           reads env = map ReadOk chunks @ ReadOk [] # more \<and> [] \<notin> set chunks \<and>
           wait_status env = Inr (Some 0) \<and>
           snd (stream_exec c env program args stdin_stream timeout rest) =
             map (\<lambda>x. Frame (Stdout (b64_encode c x))) chunks @
             [Frame (Exit 0 (trim (stderr_text env)) False)]"
proof -
  from assms obtain exe where exe: "program_path program = Some exe" "spawn env exe args = Spawned"
    and frames: "snd (stream_exec c env program args stdin_stream timeout rest) = map Frame
        (stream_loop (b64_encode c) (trim (stderr_text env)) (wait_status env) (reads env))"
    by (auto simp: stream_exec_def Let_def split: option.split_asm spawn_result.split_asm)
  with assms have "Exit 0 s t \<in> set (stream_loop (b64_encode c) (trim (stderr_text env))
      (wait_status env) (reads env))" by auto
  from stream_loop_exit_0 [OF this] exe frames show ?thesis by (auto simp: comp_def)
qed

theorem stream_success_is_complete_witness:
  "Frame (Exit 0 [] False) \<in> set (snd (stream_exec sample_codec sample_env ''zfs'' [''list''] False 30 [])) \<and>
   (\<exists>chunks more. reads sample_env = map ReadOk chunks @ ReadOk [] # more \<and>
      wait_status sample_env = Inr (Some 0))"
proof -
  have p: "program_path ''zfs'' = Some ''/usr/sbin/zfs''" by code_simp
  have m: "Frame (Exit 0 [] False) \<in> set (snd (stream_exec sample_codec sample_env ''zfs'' [''list''] False 30 []))"
    by (simp add: stream_exec_def p sample_env_def Let_def trim_def trim_start_def trim_end_def)
  show ?thesis using m stream_success_is_complete [OF m] by blast
qed

end
