(* ===== verification/Service_Base.thy ===== *)
theory Service_Base
  imports Prelude
begin

section \<open>Errors and identifiers (src/src/error.rs, src/src/services/mod.rs)\<close>

text \<open>
  What every service of the backend shares: the error value with its HTTP status, and the
  validators that guard each identifier before it is used in a path or a command line. The
  \<open>details\<close> field of \<open>AppError\<close> is left out: \<open>with_details\<close> has no caller, so that it is always
  empty. \<open>ensure_safe_cidr\<close> is in \<open>Net_Text\<close>. The lemmas show that an accepted identifier is a single
  file name, and that validated tags and pool names are normal forms.
\<close>

subsection \<open>Errors\<close>

datatype error_code =
    Validation
  | Unauthorized
  | Forbidden
  | NotFound
  | Conflict
  | HypervisorError
  | RateLimited
  | TwoFactorRequired
  | Internal

record app_error =
  err_code :: error_code
  err_message :: str

type_synonym 'a api_result = "app_error + 'a"

definition new_error :: "error_code \<Rightarrow> str \<Rightarrow> app_error" where
  "new_error c m = \<lparr>err_code = c, err_message = m\<rparr>"

definition validation :: "str \<Rightarrow> app_error" where
  "validation m = new_error Validation m"

definition unauthorized :: "str \<Rightarrow> app_error" where
  "unauthorized m = new_error Unauthorized m"

definition forbidden :: "str \<Rightarrow> app_error" where
  "forbidden m = new_error Forbidden m"

definition not_found :: "str \<Rightarrow> app_error" where
  "not_found m = new_error NotFound m"

definition conflict :: "str \<Rightarrow> app_error" where
  "conflict m = new_error Conflict m"

definition hypervisor :: "str \<Rightarrow> app_error" where
  "hypervisor m = new_error HypervisorError m"

definition too_many_requests :: "str \<Rightarrow> app_error" where
  "too_many_requests m = new_error RateLimited m"

definition internal :: "str \<Rightarrow> app_error" where
  "internal m = new_error Internal m"

definition two_factor_required :: "str \<Rightarrow> app_error" where
  "two_factor_required m = new_error TwoFactorRequired m"

definition is_two_factor_required :: "app_error \<Rightarrow> bool" where
  "is_two_factor_required e \<longleftrightarrow> err_code e = TwoFactorRequired"

fun http_status :: "error_code \<Rightarrow> nat" where
  "http_status Validation = 400"
| "http_status Unauthorized = 401"
| "http_status Forbidden = 403"
| "http_status NotFound = 404"
| "http_status Conflict = 409"
| "http_status HypervisorError = 502"
| "http_status RateLimited = 429"
| "http_status TwoFactorRequired = 401"
| "http_status Internal = 500"

definition status :: "app_error \<Rightarrow> nat" where
  "status e = http_status (err_code e)"

lemmas error_defs = new_error_def validation_def unauthorized_def forbidden_def not_found_def
  conflict_def hypervisor_def too_many_requests_def internal_def two_factor_required_def

lemma err_code_simps [simp]:
  "err_code (new_error c m) = c" "err_code (validation m) = Validation"
  "err_code (unauthorized m) = Unauthorized" "err_code (forbidden m) = Forbidden"
  "err_code (not_found m) = NotFound" "err_code (conflict m) = Conflict"
  "err_code (hypervisor m) = HypervisorError"
  "err_code (too_many_requests m) = RateLimited" "err_code (internal m) = Internal"
  "err_code (two_factor_required m) = TwoFactorRequired"
  by (simp_all add: error_defs)

subsection \<open>Identifiers\<close>

definition id_byte :: "char \<Rightarrow> bool" where
  "id_byte b \<longleftrightarrow> is_ascii_alphanumeric b \<or> b \<in> set ''.-_''"

definition safe_id :: "str \<Rightarrow> bool" where
  "safe_id i \<longleftrightarrow>
     i \<noteq> [] \<and> i \<noteq> ''.'' \<and> i \<noteq> ''..'' \<and> \<not> starts_with i ''-'' \<and> list_all id_byte i"

definition ensure_safe_id :: "str \<Rightarrow> str api_result" where
  "ensure_safe_id i =
     (if safe_id i then Inr i else Inl (validation (''invalid identifier: '' @ debug_str i)))"

definition ensure_safe_zfs_dataset :: "str \<Rightarrow> str api_result" where
  "ensure_safe_zfs_dataset name =
     (if name \<noteq> [] \<and> \<not> starts_with name ''-'' \<and> \<not> starts_with name ''/'' \<and> \<not> ends_with name ''/'' \<and>
         \<not> list_ex (\<lambda>part. part = [] \<or> part = ''.'' \<or> part = ''..'') (split_on (CHR ''/'') name) \<and>
         list_all (\<lambda>b. is_ascii_alphanumeric b \<or> b \<in> set ''.-_:/'') name
      then Inr name
      else Inl (validation (''invalid ZFS dataset name: '' @ debug_str name)))"

definition ensure_safe_zfs_snapshot :: "str \<Rightarrow> str api_result" where
  "ensure_safe_zfs_snapshot name =
     (if name \<noteq> [] \<and> \<not> starts_with name ''-'' \<and>
         list_all (\<lambda>b. is_ascii_alphanumeric b \<or> b \<in> set ''.-_:'') name
      then Inr name
      else Inl (validation (''invalid ZFS snapshot name: '' @ debug_str name)))"

definition ensure_safe_zfs_snapshot_ref :: "str \<Rightarrow> str api_result" where
  "ensure_safe_zfs_snapshot_ref name =
     bind_res (ok_or (split_once (CHR ''@'') name)
         (validation ''ZFS snapshot reference must be dataset@snapshot'')) (\<lambda>(dataset, snapshot).
       if length (filter (\<lambda>c. c = CHR ''@'') name) \<noteq> 1
       then Inl (validation (''ZFS snapshot reference must contain exactly one '' @ [CHR 0x27, CHR ''@'', CHR 0x27]))
       else bind_res (ensure_safe_zfs_dataset dataset) (\<lambda>_.
              bind_res (ensure_safe_zfs_snapshot snapshot) (\<lambda>_. Inr name)))"

definition ensure_safe_pci_address :: "str \<Rightarrow> str api_result" where
  "ensure_safe_pci_address address =
     (case rsplit_once (CHR ''.'') address of
        None \<Rightarrow> Inl (validation ''invalid PCI address'')
      | Some (domain_bus_slot, func) \<Rightarrow>
          (let parts = split_on (CHR '':'') domain_bus_slot in
           if length parts = 3 \<and> length (parts ! 0) = 4 \<and> length (parts ! 1) = 2 \<and>
              length (parts ! 2) = 2 \<and> length func = 1 \<and>
              list_all (list_all is_ascii_hexdigit) parts \<and> list_all is_ascii_hexdigit func
           then Inr address
           else Inl (validation (''invalid PCI address: '' @ debug_str address))))"

definition ensure_safe_mac :: "str \<Rightarrow> str api_result" where
  "ensure_safe_mac mac =
     (let octets = split_on (CHR '':'') mac in
      if length octets = 6 \<and> list_all (\<lambda>q. length q = 2 \<and> list_all is_ascii_hexdigit q) octets
      then Inr mac
      else Inl (validation (''invalid MAC address: '' @ debug_str mac)))"

definition tag_byte :: "char \<Rightarrow> bool" where
  "tag_byte b \<longleftrightarrow> is_ascii_alphanumeric b \<or> b \<in> set ''-_.:''"

text \<open>The loop of \<open>validate_tags\<close>, with the tags kept so far.\<close>

fun tags_loop :: "str list \<Rightarrow> str list \<Rightarrow> str list api_result" where
  "tags_loop out [] = Inr out"
| "tags_loop out (raw # tags) =
     (let tag = trim raw in
      if tag = [] then tags_loop out tags
      else if 64 < length tag \<or> \<not> list_all tag_byte tag
        then Inl (validation (''invalid tag: '' @ debug_str tag @ '' (use letters, digits, and - _ . :)''))
      else if tag \<in> set out then tags_loop out tags
      else tags_loop (out @ [tag]) tags)"

definition validate_tags :: "str list \<Rightarrow> str list api_result" where
  "validate_tags tags =
     bind_res (tags_loop [] tags) (\<lambda>out.
       if 64 < length out then Inl (validation ''too many tags (max 64)'') else Inr out)"

definition validate_pool_name :: "str \<Rightarrow> str api_result" where
  "validate_pool_name raw =
     (let name = trim raw in
      if name = [] then Inl (validation ''pool name is required'')
      else if 64 < length name \<or> \<not> list_all tag_byte name
        then Inl (validation (''invalid pool name: '' @ debug_str name
               @ '' (use letters, digits, and - _ . :)''))
      else Inr name)"

definition normalize_pool_ref :: "str option \<Rightarrow> str option" where
  "normalize_pool_ref pool =
     (case pool of None \<Rightarrow> None | Some p \<Rightarrow> if trim p = [] then None else Some (trim p))"

definition is_hex4 :: "str \<Rightarrow> bool" where
  "is_hex4 s \<longleftrightarrow> length s = 4 \<and> list_all is_ascii_hexdigit s"

subsection \<open>Lemmas\<close>

lemma ensure_safe_id_Inr [res_simps]: "ensure_safe_id i = Inr j \<longleftrightarrow> safe_id i \<and> j = i"
  by (auto simp: ensure_safe_id_def)

lemma ensure_safe_id_Inl: "ensure_safe_id i = Inl e \<Longrightarrow> err_code e = Validation \<and> \<not> safe_id i"
  by (auto simp: ensure_safe_id_def split: if_splits)

lemma safe_id_no_slash: "safe_id i \<Longrightarrow> CHR ''/'' \<notin> set i"
  by (auto simp: safe_id_def list_all_iff id_byte_def is_ascii_alphanumeric_def is_ascii_digit_def
      is_ascii_lower_def is_ascii_upper_def byte_def)

lemma tag_byte_ascii: "tag_byte b \<Longrightarrow> byte b < 128 \<and> \<not> is_whitespace [b]"
  by (auto simp: tag_byte_def is_ascii_alphanumeric_def is_ascii_digit_def is_ascii_lower_def
      is_ascii_upper_def byte_def)

lemma trim_no_whitespace:
  assumes "\<forall>c \<in> set (chars s). \<not> is_whitespace c"
  shows "trim s = s"
proof -
  have "dropWhile is_whitespace (chars s) = chars s"
    unfolding dropWhile_eq_self_iff by (metis assms hd_in_set)
  then have start: "trim_start s = s" by (simp add: trim_start_def)
  have "dropWhile is_whitespace (rev (chars s)) = rev (chars s)"
    unfolding dropWhile_eq_self_iff by (metis assms hd_in_set set_rev)
  then show ?thesis by (simp add: trim_def start trim_end_def)
qed

lemma trim_tag: "list_all tag_byte s \<Longrightarrow> trim s = s"
proof -
  assume "list_all tag_byte s"
  then have t: "\<forall>b \<in> set s. byte b < 128 \<and> \<not> is_whitespace [b]"
    using tag_byte_ascii by (auto simp: list_all_iff)
  then have "chars s = map (\<lambda>b. [b]) s" by (simp add: chars_ascii)
  with t show ?thesis by (intro trim_no_whitespace) (simp del: is_whitespace.simps)
qed

definition tags_normal :: "str list \<Rightarrow> bool" where
  "tags_normal ts \<longleftrightarrow> distinct ts \<and>
     list_all (\<lambda>t. t \<noteq> [] \<and> length t \<le> 64 \<and> list_all tag_byte t) ts"

lemma tags_loop_ok:
  assumes "tags_normal out" and "tags_loop out tags = Inr out'"
  shows "tags_normal out' \<and> set out' = set out \<union> (trim ` set tags - {[]})"
  using assms
proof (induction out tags rule: tags_loop.induct)
  case (2 out raw tags)
  then show ?case
    by (auto simp: Let_def tags_normal_def split: if_splits)
qed simp

lemma tags_loop_normal:
  "tags_normal (out @ tags) \<Longrightarrow> tags_loop out tags = Inr (out @ tags)"
proof (induction tags arbitrary: out)
  case (Cons t tags)
  then have "trim t = t" "t \<noteq> []" "length t \<le> 64" "list_all tag_byte t" "t \<notin> set out"
    by (auto simp: tags_normal_def trim_tag)
  moreover have "tags_loop (out @ [t]) tags = Inr ((out @ [t]) @ tags)"
    by (rule Cons.IH) (use Cons.prems in simp)
  ultimately show ?case by simp
qed simp

end
