(* ===== verification/Rbac.thy ===== *)
theory Rbac
  imports Service_Base
begin

section \<open>Roles, permissions and resource paths\<close>

text \<open>
  The access control decision: the role table (\<open>effective_permissions\<close> of src/src/services/auth.rs),
  the path-scoped grants (src/src/services/acl.rs) and the check a handler makes
  (src/src/auth/mod.rs). Paths are strings as in the code; \<open>path_parts\<close> is their meaning, the list of
  components, and the properties relate the string tests to it.
\<close>

datatype role = Viewer | Operator | Admin

datatype permission =
    VmRead | VmWrite | VmPower
  | LxcRead | LxcWrite | LxcPower
  | StorageRead | StorageWrite
  | NetworkRead | NetworkWrite
  | GpuRead | GpuWrite
  | MetricsRead
  | OperationsRead | OperationsWrite
  | BackupRead | BackupWrite
  | PoolRead | PoolWrite
  | NotificationRead | NotificationWrite
  | TlsRead | TlsWrite
  | AuditRead
  | UserAdmin

text \<open>Roles ordered by what they are meant to allow.\<close>

fun role_rank :: "role \<Rightarrow> nat" where
  "role_rank Viewer = 0"
| "role_rank Operator = 1"
| "role_rank Admin = 2"

instantiation role :: linorder
begin

definition less_eq_role :: "role \<Rightarrow> role \<Rightarrow> bool" where
  "less_eq_role r s \<longleftrightarrow> role_rank r \<le> role_rank s"

definition less_role :: "role \<Rightarrow> role \<Rightarrow> bool" where
  "less_role r s \<longleftrightarrow> role_rank r < role_rank s"

instance
proof
  fix r s t :: role
  show "r < s \<longleftrightarrow> r \<le> s \<and> \<not> s \<le> r" by (auto simp: less_role_def less_eq_role_def)
  show "r \<le> r" by (simp add: less_eq_role_def)
  show "r \<le> s \<Longrightarrow> s \<le> t \<Longrightarrow> r \<le> t" by (simp add: less_eq_role_def)
  show "r \<le> s \<Longrightarrow> s \<le> r \<Longrightarrow> r = s" by (cases r; cases s) (auto simp: less_eq_role_def)
  show "r \<le> s \<or> s \<le> r" by (auto simp: less_eq_role_def)
qed

end

fun role_permissions :: "role \<Rightarrow> permission list" where
  "role_permissions Admin =
    [VmRead, VmWrite, VmPower, LxcRead, LxcWrite, LxcPower, StorageRead, StorageWrite, NetworkRead,
     NetworkWrite, GpuRead, GpuWrite, MetricsRead, OperationsRead, OperationsWrite, BackupRead,
     BackupWrite, PoolRead, PoolWrite, NotificationRead, NotificationWrite, TlsRead, TlsWrite,
     AuditRead, UserAdmin]"
| "role_permissions Operator =
    [VmRead, VmWrite, VmPower, LxcRead, LxcWrite, LxcPower, StorageRead, StorageWrite, NetworkRead,
     NetworkWrite, GpuRead, GpuWrite, MetricsRead, OperationsRead, OperationsWrite, BackupRead,
     BackupWrite, PoolRead, PoolWrite, NotificationRead, NotificationWrite, TlsRead]"
| "role_permissions Viewer =
    [VmRead, LxcRead, StorageRead, NetworkRead, GpuRead, MetricsRead, OperationsRead, BackupRead,
     PoolRead, NotificationRead, TlsRead]"

text \<open>\<open>if !xs.contains(x) { xs.push(x) }\<close>\<close>

definition push_new :: "'a list \<Rightarrow> 'a \<Rightarrow> 'a list" where
  "push_new xs x = (if x \<in> set xs then xs else xs @ [x])"

definition effective_permissions :: "role list \<Rightarrow> permission list" where
  "effective_permissions roles = foldl (\<lambda>perms r. foldl push_new perms (role_permissions r)) [] roles"

subsection \<open>Path-scoped grants\<close>

record acl_entry =
  entry_id :: str
  entry_path :: str
  entry_subject :: str
  entry_role :: role
  entry_propagate :: bool
  entry_subject_username :: "str option"
  entry_created_at :: str

record path_grant =
  grant_path :: str
  grant_role :: role
  grant_propagate :: bool

definition grants_for :: "role list \<Rightarrow> acl_entry list \<Rightarrow> path_grant list" where
  "grants_for user_roles entries =
     map (\<lambda>r. \<lparr>grant_path = ''/'', grant_role = r, grant_propagate = True\<rparr>) user_roles @
     map (\<lambda>e. \<lparr>grant_path = entry_path e, grant_role = entry_role e,
               grant_propagate = entry_propagate e\<rparr>) entries"

definition path_covers :: "str \<Rightarrow> str \<Rightarrow> bool \<Rightarrow> bool" where
  "path_covers gpath target propagate =
     (if gpath = target then True
      else if \<not> propagate then False
      else if gpath = ''/'' then True
      else starts_with target (gpath @ ''/''))"

definition effective_permissions_at :: "path_grant list \<Rightarrow> str \<Rightarrow> permission list" where
  "effective_permissions_at grants path =
     effective_permissions
       (foldl (\<lambda>roles g.
          if path_covers (grant_path g) path (grant_propagate g) then push_new roles (grant_role g)
          else roles) [] grants)"

definition trim_end_slashes :: "str \<Rightarrow> str" where
  "trim_end_slashes s = rev (dropWhile (\<lambda>c. c = CHR ''/'') (rev s))"

definition check_segment :: "str \<Rightarrow> unit api_result" where
  "check_segment segment =
     (if segment = [] then Inl (validation ''path must not contain empty segments'')
      else if segment = ''.'' \<or> segment = ''..''
        then Inl (validation ''path must not contain . or .. segments'')
      else if list_ex (\<lambda>c. is_control c \<or> is_whitespace c) (chars segment)
        then Inl (validation ''path must not contain control characters or whitespace'')
      else Inr ())"

definition with_root :: "str \<Rightarrow> str" where
  "with_root trimmed = (if starts_with trimmed ''/'' then trimmed else ''/'' @ trimmed)"

definition normalize_path :: "str \<Rightarrow> str api_result" where
  "normalize_path path =
     (let trimmed = trim path in
      if trimmed = [] then Inl (validation ''path must not be empty'')
      else let w = with_root trimmed;
               normalized = (if 1 < length w then trim_end_slashes w else w)
        in if normalized = [] then Inl (validation ''path must not be empty'')
           else if normalized = ''/'' then Inr normalized
           else bind_res (for_each check_segment (drop 1 (split_on (CHR ''/'') normalized)))
                  (\<lambda>_. Inr normalized))"

subsection \<open>The caller\<close>

record user =
  user_id :: str
  username :: str
  roles :: "role list"
  created_at :: str
  last_login_at :: "str option"

record current_user =
  cu_user :: user
  cu_permissions :: "permission list"
  cu_must_change_password :: bool
  cu_two_factor_enabled :: bool
  cu_grants :: "path_grant list"

record auth_user =
  au_user :: current_user
  au_token :: str
  au_path :: str

definition require_at :: "auth_user \<Rightarrow> (permission \<Rightarrow> str) \<Rightarrow> permission \<Rightarrow> str \<Rightarrow> unit api_result" where
  "require_at caller show_permission p path =
     (let held =
        (if cu_grants (au_user caller) = [] then p \<in> set (cu_permissions (au_user caller))
         else p \<in> set (effective_permissions_at (cu_grants (au_user caller)) path))
      in if held then Inr ()
         else Inl (forbidden (''missing permission '' @ show_permission p @ '' at '' @ path)))"

definition require :: "auth_user \<Rightarrow> (permission \<Rightarrow> str) \<Rightarrow> permission \<Rightarrow> unit api_result" where
  "require caller show_permission p = require_at caller show_permission p (au_path caller)"

definition uri_segments :: "str \<Rightarrow> str list" where
  "uri_segments uri_path =
     (let p = (case strip_prefix uri_path ''/api/'' of
                 None \<Rightarrow> uri_path
               | Some rest \<Rightarrow> (case split_once (CHR ''/'') rest of None \<Rightarrow> [] | Some (_, after) \<Rightarrow> after))
      in filter (\<lambda>s. s \<noteq> []) (split_on (CHR ''/'') p))"

definition scoped_kinds :: "str list" where
  "scoped_kinds = [''vms'', ''containers'', ''pools'']"

fun resource_of_segments :: "str list \<Rightarrow> str" where
  "resource_of_segments (kind # i # _) =
     (if kind \<in> set scoped_kinds then ''/'' @ kind @ ''/'' @ i else ''/'')"
| "resource_of_segments [kind] = (if kind \<in> set scoped_kinds then ''/'' @ kind else ''/'')"
| "resource_of_segments [] = ''/''"

definition resource_path_for :: "str \<Rightarrow> str" where
  "resource_path_for uri_path = resource_of_segments (uri_segments uri_path)"

subsection \<open>Lemmas\<close>

lemma set_foldl_push_new [simp]: "set (foldl push_new acc xs) = set acc \<union> set xs"
  by (induction xs arbitrary: acc) (auto simp: push_new_def)

lemma distinct_foldl_push_new: "distinct acc \<Longrightarrow> distinct (foldl push_new acc xs)"
  by (induction xs arbitrary: acc) (auto simp: push_new_def)

lemma foldl_effective:
  "set (foldl (\<lambda>perms r. foldl push_new perms (role_permissions r)) acc rs) =
     set acc \<union> (\<Union>r \<in> set rs. set (role_permissions r))"
  "distinct acc \<Longrightarrow> distinct (foldl (\<lambda>perms r. foldl push_new perms (role_permissions r)) acc rs)"
  by (induction rs arbitrary: acc) (auto simp: distinct_foldl_push_new)

lemma set_effective_permissions:
  "set (effective_permissions rs) = (\<Union>r \<in> set rs. set (role_permissions r))"
  by (simp add: effective_permissions_def foldl_effective)

lemma distinct_effective_permissions: "distinct (effective_permissions rs)"
  by (simp add: effective_permissions_def foldl_effective)

lemma set_effective_permissions_at:
  "set (effective_permissions_at grants path) =
     (\<Union>g \<in> {g \<in> set grants. path_covers (grant_path g) path (grant_propagate g)}.
        set (role_permissions (grant_role g)))"
proof -
  have "set (foldl (\<lambda>roles g. if path_covers (grant_path g) path (grant_propagate g)
      then push_new roles (grant_role g) else roles) acc grants) =
    set acc \<union> grant_role ` {g \<in> set grants. path_covers (grant_path g) path (grant_propagate g)}" for acc
    by (induction grants arbitrary: acc) (auto simp: push_new_def)
  then show ?thesis by (simp add: effective_permissions_at_def set_effective_permissions)
qed

lemma mem_effective_permissions_at:
  "p \<in> set (effective_permissions_at grants path) \<longleftrightarrow>
     (\<exists>g \<in> set grants. path_covers (grant_path g) path (grant_propagate g) \<and>
        p \<in> set (role_permissions (grant_role g)))"
  by (auto simp: set_effective_permissions_at)

lemma path_covers_root: "path_covers ''/'' path True"
  by (simp add: path_covers_def)

lemma role_permissions_mono: "r \<le> s \<Longrightarrow> set (role_permissions r) \<subseteq> set (role_permissions s)"
  by (cases r; cases s) (auto simp: less_eq_role_def)

text \<open>The components of a path, and the paths \<open>normalize_path\<close> returns.\<close>

definition path_parts :: "str \<Rightarrow> str list" where
  "path_parts p = (if p = ''/'' then [] else drop 1 (split_on (CHR ''/'') p))"

definition good_segment :: "str \<Rightarrow> bool" where
  "good_segment s \<longleftrightarrow> s \<noteq> [] \<and> s \<noteq> ''.'' \<and> s \<noteq> ''..'' \<and>
     \<not> list_ex (\<lambda>c. is_control c \<or> is_whitespace c) (chars s) \<and> CHR ''/'' \<notin> set s"

abbreviation slashed :: "str list \<Rightarrow> str" where
  "slashed ps \<equiv> concat (map (\<lambda>s. CHR ''/'' # s) ps)"

definition of_parts :: "str list \<Rightarrow> str" where
  "of_parts ps = (if ps = [] then ''/'' else slashed ps)"

definition normal_path :: "str \<Rightarrow> bool" where
  "normal_path p \<longleftrightarrow> (\<exists>ps. list_all good_segment ps \<and> p = of_parts ps)"

lemma split_on_slashed:
  "CHR ''/'' \<notin> set s \<Longrightarrow> \<forall>x \<in> set ps. CHR ''/'' \<notin> set x \<Longrightarrow>
     split_on (CHR ''/'') (s @ slashed ps) = s # ps"
  by (induction ps arbitrary: s) (auto simp: split_on_simple split_on_first)

lemma good_segmentD: "good_segment s \<Longrightarrow> CHR ''/'' \<notin> set s \<and> s \<noteq> []"
  by (simp add: good_segment_def)

lemma list_all_good: "list_all good_segment ps \<Longrightarrow> \<forall>x \<in> set ps. CHR ''/'' \<notin> set x"
  by (auto simp: list_all_iff dest: good_segmentD)

lemma of_parts_not_root: "list_all good_segment ps \<Longrightarrow> ps \<noteq> [] \<Longrightarrow> of_parts ps \<noteq> ''/''"
  by (cases ps) (auto simp: of_parts_def dest: good_segmentD)

lemma parts_of_parts: "list_all good_segment ps \<Longrightarrow> path_parts (of_parts ps) = ps"
  using split_on_slashed [of "[]" ps] list_all_good [of ps] of_parts_not_root [of ps]
  by (auto simp: path_parts_def of_parts_def)

lemma slashed_join: "ws \<noteq> [] \<Longrightarrow> join ''/'' (w # ws) = w @ slashed ws"
  by (induction ws arbitrary: w) (auto simp: neq_Nil_conv, (case_tac ws; simp)+)

lemma of_parts_split:
  assumes "p \<noteq> ''/''" and "starts_with p ''/''"
  shows "p = of_parts (drop 1 (split_on (CHR ''/'') p))"
proof -
  obtain r where p: "p = CHR ''/'' # r" using assms(2) by (cases p) (auto simp: starts_with_def)
  have "slashed (split_on (CHR ''/'') r) = CHR ''/'' # join ''/'' (split_on (CHR ''/'') r)"
    by (cases "split_on (CHR ''/'') r"; cases "tl (split_on (CHR ''/'') r)")
      (auto simp: slashed_join simp del: join.simps(3) intro: slashed_join [symmetric])
  then show ?thesis by (simp add: p of_parts_def join_split_on)
qed

lemma chars_slashed:
  "c \<in> set (chars (s @ slashed ps)) \<Longrightarrow> c \<in> set (chars s) \<or> c = ''/'' \<or> (\<exists>p \<in> set ps. c \<in> set (chars p))"
proof (induction ps arbitrary: s)
  case (Cons p ps)
  have "chars (s @ CHR ''/'' # (p @ slashed ps)) = chars s @ ''/'' # chars (p @ slashed ps)"
    by (rule chars_append_ascii) (simp add: byte_def)
  with Cons show ?case by auto
qed simp

lemma trim_of_parts: "list_all good_segment ps \<Longrightarrow> trim (of_parts ps) = of_parts ps"
proof (rule trim_no_whitespace, rule ballI)
  fix c assume good: "list_all good_segment ps" and c: "c \<in> set (chars (of_parts ps))"
  have "\<not> is_whitespace ''/''" by (simp add: byte_def)
  moreover have "c = ''/'' \<or> (\<exists>p \<in> set ps. c \<in> set (chars p))"
    using c chars_slashed [of c "[]" ps] by (auto simp: of_parts_def byte_def split: if_splits)
  ultimately show "\<not> is_whitespace c"
    using good by (auto simp: list_all_iff good_segment_def list_ex_iff)
qed

lemma trim_end_slashes_of_parts:
  assumes "list_all good_segment ps" and "ps \<noteq> []"
  shows "trim_end_slashes (of_parts ps) = of_parts ps"
proof -
  obtain qs q where ps: "ps = qs @ [q]" using assms(2) by (metis rev_exhaust)
  have "CHR ''/'' \<notin> set q" "q \<noteq> []" using assms(1) by (auto simp: ps dest: good_segmentD)
  then have "hd (rev (of_parts ps)) \<noteq> CHR ''/''"
    by (simp add: ps of_parts_def hd_append hd_rev) (metis last_in_set)
  then have "dropWhile (\<lambda>c. c = CHR ''/'') (rev (of_parts ps)) = rev (of_parts ps)"
    by (simp only: dropWhile_eq_self_iff) simp
  then show ?thesis by (simp add: trim_end_slashes_def)
qed

lemma check_segment_ok: "CHR ''/'' \<notin> set s \<Longrightarrow> check_segment s = Inr () \<longleftrightarrow> good_segment s"
  by (simp add: check_segment_def good_segment_def)

lemma starts_with_of_parts: "starts_with (of_parts ps) ''/''"
  by (cases ps) (simp_all add: of_parts_def starts_with_def)

lemma starts_with_slash: "starts_with s ''/'' \<longleftrightarrow> s \<noteq> [] \<and> hd s = CHR ''/''"
  by (cases s) (auto simp: starts_with_def)

lemma trim_end_slashes_keeps:
  assumes "starts_with s ''/''" and "trim_end_slashes s \<noteq> []"
  shows "starts_with (trim_end_slashes s) ''/''"
proof -
  have "prefix (trim_end_slashes s) s"
    by (metis suffix_dropWhile suffix_to_prefix trim_end_slashes_def rev_rev_ident)
  then obtain z where "s = trim_end_slashes s @ z" by (rule prefixE)
  with assms show ?thesis unfolding starts_with_slash by (metis hd_append2)
qed

lemma normalize_path_normal:
  assumes "normalize_path p = Inr q"
  shows "normal_path q"
proof (cases "q = ''/''")
  case True
  then show ?thesis by (auto simp: normal_path_def of_parts_def intro: exI [of _ "[]"])
next
  case False
  let ?w = "with_root (trim p)"
  have w: "starts_with ?w ''/''" by (simp add: with_root_def starts_with_def)
  from assms False have q: "q = (if 1 < length ?w then trim_end_slashes ?w else ?w)" "q \<noteq> []"
    and seg: "for_each check_segment (drop 1 (split_on (CHR ''/'') q)) = Inr ()"
    by (auto simp: normalize_path_def Let_def res_simps split: if_split_asm)
  have "starts_with q ''/''" using q w trim_end_slashes_keeps by metis
  with False have "q = of_parts (drop 1 (split_on (CHR ''/'') q))" by (rule of_parts_split)
  moreover have "list_all good_segment (drop 1 (split_on (CHR ''/'') q))"
    using seg unfolding for_each_eq_Inr list_all_iff
    by (metis check_segment_ok in_set_dropD split_on_no_sep)
  ultimately show ?thesis unfolding normal_path_def by blast
qed

lemma normalize_normal:
  assumes "normal_path q"
  shows "normalize_path q = Inr q"
proof -
  from assms obtain ps where good: "list_all good_segment ps" and q: "q = of_parts ps"
    by (auto simp: normal_path_def)
  note t = trim_of_parts [OF good]
  show ?thesis
  proof (cases "ps = []")
    case True
    with t q show ?thesis by (simp add: normalize_path_def of_parts_def Let_def starts_with_def with_root_def)
  next
    case False
    then have len: "1 < length q"
      using good by (cases ps) (auto simp: q of_parts_def dest: good_segmentD)
    have "drop 1 (split_on (CHR ''/'') q) = ps"
      using parts_of_parts [OF good] of_parts_not_root [OF good False] by (simp add: path_parts_def q)
    moreover have "for_each check_segment ps = Inr ()"
      using good check_segment_ok good_segmentD by (auto simp: for_each_eq_Inr list_all_iff)
    moreover have "q \<noteq> []" using len by auto
    ultimately show ?thesis
      using t trim_end_slashes_of_parts [OF good False] starts_with_of_parts [of ps]
        of_parts_not_root [OF good False] len
      by (simp add: normalize_path_def Let_def q with_root_def)
  qed
qed

lemma path_covers_parts:
  assumes "list_all good_segment gs" and "list_all good_segment ts"
  shows "path_covers (of_parts gs) (of_parts ts) propagate \<longleftrightarrow>
         gs = ts \<or> propagate \<and> prefix gs ts"
proof -
  have eq: "of_parts gs = of_parts ts \<longleftrightarrow> gs = ts"
    using parts_of_parts assms by metis
  have root: "of_parts gs = ''/'' \<longleftrightarrow> gs = []"
    using of_parts_not_root [OF assms(1)] by (auto simp: of_parts_def)
  have anc: "starts_with (of_parts ts) (of_parts gs @ ''/'') \<longleftrightarrow> prefix gs ts \<and> gs \<noteq> ts"
    if "gs \<noteq> []"
  proof
    assume "starts_with (of_parts ts) (of_parts gs @ ''/'')"
    then obtain r where r: "of_parts ts = of_parts gs @ CHR ''/'' # r"
      by (auto simp: starts_with_prefix prefix_def)
    have "split_on (CHR ''/'') (of_parts gs) = [] # gs"
      using split_on_slashed [of "[]" gs] list_all_good [OF assms(1)] that by (simp add: of_parts_def)
    moreover have "ts \<noteq> []" using r that by (cases gs) (auto simp: of_parts_def)
    then have "split_on (CHR ''/'') (of_parts ts) = [] # ts"
      using split_on_slashed [of "[]" ts] list_all_good [OF assms(2)] by (simp add: of_parts_def)
    ultimately have "ts = gs @ split_on (CHR ''/'') r" by (simp add: r split_on_append_sep)
    then show "prefix gs ts \<and> gs \<noteq> ts" by (metis prefixI self_append_conv split_on_not_Nil)
  next
    assume "prefix gs ts \<and> gs \<noteq> ts"
    then obtain x xs where "ts = gs @ x # xs" by (metis prefix_def neq_Nil_conv append_Nil2)
    with that show "starts_with (of_parts ts) (of_parts gs @ ''/'')"
      by (simp add: of_parts_def starts_with_prefix)
  qed
  show ?thesis
    using anc eq root by (auto simp: path_covers_def)
qed

lemma require_session:
  assumes "cu_grants (au_user c) = grants_for rs es"
    and "cu_permissions (au_user c) = effective_permissions_at (grants_for rs es) ''/''"
  shows "require_at c sh p path = Inr () \<longleftrightarrow>
         (\<exists>r \<in> set rs. p \<in> set (role_permissions r)) \<or>
         (\<exists>e \<in> set es. path_covers (entry_path e) path (entry_propagate e) \<and>
            p \<in> set (role_permissions (entry_role e)))"
proof -
  have "require_at c sh p path = Inr () \<longleftrightarrow> p \<in> set (effective_permissions_at (grants_for rs es) path)"
    using assms by (simp add: require_at_def Let_def mem_effective_permissions_at)
  also have "\<dots> \<longleftrightarrow> (\<exists>r \<in> set rs. p \<in> set (role_permissions r)) \<or>
      (\<exists>e \<in> set es. path_covers (entry_path e) path (entry_propagate e) \<and>
         p \<in> set (role_permissions (entry_role e)))"
    by (simp add: mem_effective_permissions_at grants_for_def bex_Un path_covers_root)
  finally show ?thesis .
qed

lemma uri_segments_plain: "s \<in> set (uri_segments uri) \<Longrightarrow> s \<noteq> [] \<and> CHR ''/'' \<notin> set s"
  by (auto simp: uri_segments_def Let_def dest: split_on_no_sep)

lemma scoped_kind_plain: "kind \<in> set scoped_kinds \<Longrightarrow> kind \<noteq> [] \<and> CHR ''/'' \<notin> set kind"
  by (auto simp: scoped_kinds_def)

lemma item_path_covers:
  assumes "kind \<in> set scoped_kinds" and "i \<noteq> []" and "CHR ''/'' \<notin> set i"
  shows "path_covers (''/'' @ kind @ ''/'' @ i) (resource_path_for uri) propagate \<longleftrightarrow>
         (\<exists>rest. uri_segments uri = kind # i # rest)"
proof -
  have split2: "split_on (CHR ''/'') (CHR ''/'' # a @ CHR ''/'' # b) = [[], a, b]"
    if "CHR ''/'' \<notin> set a" "CHR ''/'' \<notin> set b" for a b
    using that split_on_first [of "CHR ''/''" a b] by (simp add: split_on_simple)
  have no_sub: "\<not> starts_with (CHR ''/'' # a @ CHR ''/'' # b) (CHR ''/'' # kind @ CHR ''/'' # i @ ''/'')"
    if "CHR ''/'' \<notin> set a" "CHR ''/'' \<notin> set b" for a b
  proof
    assume "starts_with (CHR ''/'' # a @ CHR ''/'' # b) (CHR ''/'' # kind @ CHR ''/'' # i @ ''/'')"
    then obtain r where "CHR ''/'' # a @ CHR ''/'' # b = (CHR ''/'' # kind @ CHR ''/'' # i) @ CHR ''/'' # r"
      by (auto simp: starts_with_prefix prefix_def)
    then have "[[], a, b] = [[], kind, i] @ split_on (CHR ''/'') r"
      using split2 [OF that] split2 [of kind i] assms scoped_kind_plain split_on_append_sep by metis
    then have "split_on (CHR ''/'') r = []" by auto
    then show False by simp
  qed
  have inj: "CHR ''/'' # a @ CHR ''/'' # b = CHR ''/'' # kind @ CHR ''/'' # i \<longleftrightarrow> a = kind \<and> b = i"
    if "CHR ''/'' \<notin> set a" "CHR ''/'' \<notin> set b" for a b
    using split2 [OF that] split2 [of kind i] assms scoped_kind_plain by (metis list.inject)
  have short: "\<not> path_covers (''/'' @ kind @ ''/'' @ i) (''/'' @ k) propagate" if "CHR ''/'' \<notin> set k" for k
    using that assms scoped_kind_plain [OF assms(1)]
    by (auto simp: path_covers_def starts_with_prefix prefix_def dest: arg_cong [of _ _ set])
  show ?thesis
  proof (cases "uri_segments uri" rule: resource_of_segments.cases)
    case (1 k j rest)
    then have "CHR ''/'' \<notin> set k" "CHR ''/'' \<notin> set j" using uri_segments_plain [of _ uri] by auto
    with 1 inj [of k j] no_sub [of k j] short [of "[]"] assms(1) show ?thesis
      by (auto simp: resource_path_for_def path_covers_def split: if_splits)
  next
    case (2 k)
    then have "CHR ''/'' \<notin> set k" using uri_segments_plain [of _ uri] by auto
    with 2 short [of k] short [of "[]"] show ?thesis by (simp add: resource_path_for_def)
  next
    case 3
    with short [of "[]"] show ?thesis by (simp add: resource_path_for_def)
  qed
qed

subsection \<open>Properties of access control\<close>

text \<open>
  The permissions of a set of roles are exactly the union of the role table, without duplicates;
  a higher role (viewer, operator, administrator) has every permission of a lower one; and user
  administration, the audit log and TLS changes are held by administrators only.
\<close>

theorem effective_permissions_exact:
  "set (effective_permissions rs) = (\<Union>r \<in> set rs. set (role_permissions r)) \<and>
   distinct (effective_permissions rs) \<and>
   (UserAdmin \<in> set (effective_permissions rs) \<longleftrightarrow> Admin \<in> set rs) \<and>
   (AuditRead \<in> set (effective_permissions rs) \<longleftrightarrow> Admin \<in> set rs) \<and>
   (TlsWrite \<in> set (effective_permissions rs) \<longleftrightarrow> Admin \<in> set rs) \<and>
   set (effective_permissions [Viewer]) \<subseteq> set (effective_permissions [Operator]) \<and>
   set (effective_permissions [Operator]) \<subseteq> set (effective_permissions [Admin])"
proof -
  have admin_only: "p \<in> (\<Union>r \<in> set rs. set (role_permissions r)) \<longleftrightarrow> Admin \<in> set rs"
    if "\<And>r. p \<in> set (role_permissions r) \<longleftrightarrow> r = Admin" for p
    using that by auto
  have "p \<in> set (role_permissions r) \<longleftrightarrow> r = Admin" if "p \<in> {UserAdmin, AuditRead, TlsWrite}" for p r
    using that by (cases r) auto
  moreover have "Viewer \<le> Operator" "Operator \<le> Admin" by (simp_all add: less_eq_role_def)
  ultimately show ?thesis
    using role_permissions_mono admin_only
    by (simp add: set_effective_permissions distinct_effective_permissions)
qed

text \<open>
  On normalized paths the string test of \<open>path_covers\<close> is the ancestor relation of the resource
  tree: a grant covers its own path, and with propagation exactly the paths whose components extend
  its own, so that \<open>/vms\<close> covers \<open>/vms/1\<close> and never \<open>/vms-other\<close>.
\<close>

theorem path_covers_is_ancestor:
  assumes "normal_path g" and "normal_path t"
  shows "path_covers g t propagate \<longleftrightarrow> g = t \<or> propagate \<and> prefix (path_parts g) (path_parts t)"
proof -
  from assms obtain gs ts where gs: "list_all good_segment gs" "g = of_parts gs"
    and ts: "list_all good_segment ts" "t = of_parts ts" by (auto simp: normal_path_def)
  have "g = t \<longleftrightarrow> gs = ts" using gs ts parts_of_parts by metis
  then show ?thesis
    using path_covers_parts [OF gs(1) ts(1)] parts_of_parts [OF gs(1)] parts_of_parts [OF ts(1)]
    by (simp add: gs(2) ts(2))
qed

theorem path_covers_is_ancestor_witness:
  "path_covers ''/vms'' ''/vms/1'' True \<and> \<not> path_covers ''/vms'' ''/vms-other'' True"
proof -
  have "normalize_path ''/vms'' = Inr ''/vms''" "normalize_path ''/vms/1'' = Inr ''/vms/1''"
    "normalize_path ''/vms-other'' = Inr ''/vms-other''" by code_simp+
  then have n: "normal_path ''/vms''" "normal_path ''/vms/1''" "normal_path ''/vms-other''"
    using normalize_path_normal by blast+
  show ?thesis
    using path_covers_is_ancestor [OF n(1,2), of True] path_covers_is_ancestor [OF n(1,3), of True]
    by (simp add: path_parts_def)
qed

text \<open>
  \<open>normalize_path\<close> returns only normal paths (a root, or non-empty components without dots,
  blanks or control characters), and leaves a normal path unchanged; it is therefore idempotent and
  its results are exactly the normal paths.
\<close>

theorem normalize_path_canonical:
  "(normal_path q \<longleftrightarrow> (\<exists>p. normalize_path p = Inr q)) \<and>
   (\<forall>p. normalize_path p = Inr q \<longrightarrow> normalize_path q = Inr q)"
  using normalize_path_normal normalize_normal by blast

theorem normalize_path_canonical_witness:
  "normalize_path '' pools/prod/ '' = Inr ''/pools/prod'' \<and>
   normalize_path ''/pools/prod'' = Inr ''/pools/prod'' \<and> normal_path ''/pools/prod''"
proof -
  have n: "normalize_path '' pools/prod/ '' = Inr ''/pools/prod''" by code_simp
  show ?thesis
    using n normalize_path_canonical [of "''/pools/prod''"] by blast
qed

text \<open>
  C13. A session caller holds a permission at a path exactly when one of its own roles has it, or an
  explicit entry that covers the path has it: a user without roles can act nowhere outside the paths
  granted to it.
\<close>

theorem require_at_iff_granted:
  assumes "cu_grants (au_user c) = grants_for rs es"
    and "cu_permissions (au_user c) = effective_permissions_at (grants_for rs es) ''/''"
  shows "require_at c sh p path = Inr () \<longleftrightarrow>
         (\<exists>r \<in> set rs. p \<in> set (role_permissions r)) \<or>
         (\<exists>e \<in> set es. path_covers (entry_path e) path (entry_propagate e) \<and>
            p \<in> set (role_permissions (entry_role e)))"
  using assms by (rule require_session)

definition sample_caller :: auth_user where
  "sample_caller = \<lparr>au_user =
     \<lparr>cu_user = \<lparr>user_id = ''u1'', username = ''ann'', roles = [], created_at = ''t'', last_login_at = None\<rparr>,
      cu_permissions = [], cu_must_change_password = False, cu_two_factor_enabled = False,
      cu_grants = [\<lparr>grant_path = ''/vms/1'', grant_role = Operator, grant_propagate = True\<rparr>]\<rparr>,
     au_token = ''t'', au_path = ''/vms/1''\<rparr>"

definition sample_entry :: acl_entry where
  "sample_entry = \<lparr>entry_id = ''e1'', entry_path = ''/vms/1'', entry_subject = ''u1'',
     entry_role = Operator, entry_propagate = True, entry_subject_username = None, entry_created_at = ''t''\<rparr>"

theorem require_at_iff_granted_witness:
  "require_at sample_caller (\<lambda>_. []) VmWrite ''/vms/1'' = Inr () \<and>
   require_at sample_caller (\<lambda>_. []) VmWrite ''/vms/2'' \<noteq> Inr ()"
proof -
  have g: "cu_grants (au_user sample_caller) = grants_for [] [sample_entry]"
    "cu_permissions (au_user sample_caller) = effective_permissions_at (grants_for [] [sample_entry]) ''/''"
    by code_simp+
  show ?thesis
    unfolding require_at_iff_granted [OF g] by (simp add: sample_entry_def path_covers_def starts_with_def)
qed

text \<open>
  The request path fails safe: a grant on one item covers a request exactly when the request's
  URI addresses that item or something below it; in particular it never covers a node-wide endpoint,
  the collection, or another item.
\<close>

theorem item_grant_covers_only_item:
  assumes "kind \<in> set scoped_kinds" and "i \<noteq> []" and "CHR ''/'' \<notin> set i"
  shows "path_covers (''/'' @ kind @ ''/'' @ i) (resource_path_for uri) propagate \<longleftrightarrow>
         (\<exists>rest. uri_segments uri = kind # i # rest)"
  using assms by (rule item_path_covers)

theorem item_grant_covers_only_item_witness:
  "path_covers ''/vms/abc'' (resource_path_for ''/api/v1/vms/abc/power'') True \<and>
   \<not> path_covers ''/vms/abc'' (resource_path_for ''/api/v1/users'') True"
proof -
  have k: "''vms'' \<in> set scoped_kinds" "''abc'' \<noteq> []" "CHR ''/'' \<notin> set ''abc''"
    by (simp_all add: scoped_kinds_def)
  have "uri_segments ''/api/v1/vms/abc/power'' = [''vms'', ''abc'', ''power'']"
    "uri_segments ''/api/v1/users'' = [''users'']" by code_simp+
  then show ?thesis
    using item_grant_covers_only_item [OF k, of "''/api/v1/vms/abc/power''" True]
      item_grant_covers_only_item [OF k, of "''/api/v1/users''" True] by simp
qed

end
