(* ===== verification/Store.thy ===== *)
theory Store
  imports Service_Base
begin

section \<open>The JSON record store (src/src/services/store.rs)\<close>

text \<open>
  One directory of \<open><id>.json\<close> files. The state of the directory is an association list from file
  names to contents; a content is seen through serde's decoder: \<open>Json v\<close> are bytes that decode to the
  record \<open>v\<close>, \<open>Garbage e\<close> bytes it refuses with the message \<open>e\<close>, and what \<open>to_vec_pretty\<close> writes for
  \<open>v\<close> is \<open>Json v\<close>. Every file system call takes the next entry of a schedule of faults, so that a
  theorem that holds for every schedule holds for every point at which the disk, or the process, may
  fail. \<open>resolve_dir\<close> is modelled by its result (the directory exists, is created, or is absent); the
  walk over the ancestors of the configured path is not modelled.

  \<open>record_store\<close> is the interface the services rely on; its interpretation \<open>js\<close> shows that the
  file store keeps it, with \<open>records\<close> as the abstract state.
\<close>

subsection \<open>The directory\<close>

datatype 'v content = Json 'v | Garbage str

text \<open>A fault has a message; a failed write may leave some content in the file.\<close>

datatype 'v fault = Ok | Fault str "'v content option"

record 'v jstore =
  dir_display :: str
  dir_exists :: bool
  files :: "(str \<times> 'v content) list"
  faults :: "'v fault list"

definition next_fault :: "'v jstore \<Rightarrow> 'v fault \<times> 'v jstore" where
  "next_fault s = (case faults s of [] \<Rightarrow> (Ok, s) | f # fs \<Rightarrow> (f, s\<lparr>faults := fs\<rparr>))"

definition show_path :: "'v jstore \<Rightarrow> str \<Rightarrow> str" where
  "show_path s name = dir_display s @ ''/'' @ name"

text \<open>\<open>Path::file_name\<close> of a relative name is the name itself exactly when it is one plain
  component.\<close>

definition join_component :: "str \<Rightarrow> str api_result" where
  "join_component name =
     (if name \<noteq> [] \<and> name \<noteq> ''.'' \<and> name \<noteq> ''..'' \<and> CHR ''/'' \<notin> set name then Inr name
      else Inl (validation (''invalid record name: '' @ debug_str name)))"

definition resolve_dir :: "bool \<Rightarrow> 'v jstore \<Rightarrow> bool api_result \<times> 'v jstore" where
  "resolve_dir create s =
     (if create then
        (case next_fault s of
           (Ok, s') \<Rightarrow> (Inr True, s'\<lparr>dir_exists := True\<rparr>)
         | (Fault e _, s') \<Rightarrow> (Inl (internal (''create '' @ dir_display s @ '': '' @ e)), s'))
      else (Inr (dir_exists s), s))"

definition record_path :: "str \<Rightarrow> bool \<Rightarrow> 'v jstore \<Rightarrow> str option api_result \<times> 'v jstore" where
  "record_path i create s =
     (case ensure_safe_id i of
        Inl e \<Rightarrow> (Inl e, s)
      | Inr i' \<Rightarrow>
          bind_st (resolve_dir create s) (\<lambda>present s'.
            if present
            then (bind_res (join_component (i' @ ''.json'')) (\<lambda>p. Inr (Some p)), s')
            else (Inr None, s')))"

subsection \<open>Operations\<close>

definition put :: "str \<Rightarrow> 'v \<Rightarrow> 'v jstore \<Rightarrow> unit api_result \<times> 'v jstore" where
  "put i v s =
     bind_st (record_path i True s) (\<lambda>path s.
       case path of
         None \<Rightarrow> (Inl (internal ''store directory unavailable''), s)
       | Some path \<Rightarrow>
           (let tmp = path @ ''.tmp'' in
            case next_fault s of
              (Fault e left, s) \<Rightarrow>
                (Inl (internal (''write '' @ show_path s tmp @ '': '' @ e)),
                 case left of None \<Rightarrow> s | Some c \<Rightarrow> s\<lparr>files := AList.update tmp c (files s)\<rparr>)
            | (Ok, s) \<Rightarrow>
                (let s = s\<lparr>files := AList.update tmp (Json v) (files s)\<rparr> in
                 case next_fault s of
                   (Fault e _, s) \<Rightarrow> (Inl (internal (''rename into '' @ show_path s path @ '': '' @ e)), s)
                 | (Ok, s) \<Rightarrow>
                     (Inr (), s\<lparr>files := AList.update path (Json v) (AList.delete tmp (files s))\<rparr>))))"

definition get :: "str \<Rightarrow> 'v jstore \<Rightarrow> 'v option api_result \<times> 'v jstore" where
  "get i s =
     bind_st (record_path i False s) (\<lambda>path s.
       case path of
         None \<Rightarrow> (Inr None, s)
       | Some path \<Rightarrow>
           (case next_fault s of
              (Fault e _, s) \<Rightarrow> (Inl (internal (''read '' @ show_path s path @ '': '' @ e)), s)
            | (Ok, s) \<Rightarrow>
                (case map_of (files s) path of
                   None \<Rightarrow> (Inr None, s)
                 | Some (Json v) \<Rightarrow> (Inr (Some v), s)
                 | Some (Garbage e) \<Rightarrow>
                     (Inl (internal (''parse '' @ show_path s path @ '': '' @ e)), s))))"

definition delete :: "str \<Rightarrow> 'v jstore \<Rightarrow> bool api_result \<times> 'v jstore" where
  "delete i s =
     bind_st (record_path i False s) (\<lambda>path s.
       case path of
         None \<Rightarrow> (Inr False, s)
       | Some path \<Rightarrow>
           (case next_fault s of
              (Fault e _, s) \<Rightarrow> (Inl (internal (''remove '' @ show_path s path @ '': '' @ e)), s)
            | (Ok, s) \<Rightarrow>
                (if map_of (files s) path = None then (Inr False, s)
                 else (Inr True, s\<lparr>files := AList.delete path (files s)\<rparr>))))"

text \<open>\<open>Path::extension\<close> and \<open>Path::file_stem\<close> of a directory entry.\<close>

definition file_ext :: "str \<Rightarrow> str option" where
  "file_ext name =
     (case rsplit_once (CHR ''.'') name of Some (stem, e) \<Rightarrow> if stem = [] then None else Some e | None \<Rightarrow> None)"

definition file_stem :: "str \<Rightarrow> str" where
  "file_stem name =
     (case rsplit_once (CHR ''.'') name of Some (stem, e) \<Rightarrow> if stem = [] then name else stem | None \<Rightarrow> name)"

definition is_record_file :: "str \<Rightarrow> bool" where
  "is_record_file name \<longleftrightarrow> file_ext name = Some ''json'' \<and> safe_id (file_stem name)"

fun list_loop :: "(str \<times> 'v content) list \<Rightarrow> 'v jstore \<Rightarrow> 'v list api_result \<times> 'v jstore" where
  "list_loop [] s =
     (case next_fault s of
        (Fault e _, s) \<Rightarrow> (Inl (internal (''read_dir entry: '' @ e)), s)
      | (Ok, s) \<Rightarrow> (Inr [], s))"
| "list_loop ((name, c) # es) s =
     (case next_fault s of
        (Fault e _, s) \<Rightarrow> (Inl (internal (''read_dir entry: '' @ e)), s)
      | (Ok, s) \<Rightarrow>
          if \<not> is_record_file name then list_loop es s
          else (case next_fault s of
                  (Fault e _, s) \<Rightarrow> (Inl (internal (''read '' @ show_path s name @ '': '' @ e)), s)
                | (Ok, s) \<Rightarrow>
                    (case c of
                       Garbage _ \<Rightarrow> list_loop es s
                     | Json v \<Rightarrow> bind_st (list_loop es s) (\<lambda>vs s. (Inr (v # vs), s)))))"

definition list :: "'v jstore \<Rightarrow> 'v list api_result \<times> 'v jstore" where
  "list s =
     bind_st (resolve_dir False s) (\<lambda>present s.
       if \<not> present then (Inr [], s)
       else (case next_fault s of
               (Fault e _, s) \<Rightarrow> (Inl (internal (''read_dir '' @ dir_display s @ '': '' @ e)), s)
             | (Ok, s) \<Rightarrow> list_loop (files s) s))"

subsection \<open>The interface\<close>

text \<open>The records a store holds, by identifier: files with an accepted name that decode.\<close>

definition records :: "'v jstore \<Rightarrow> str \<rightharpoonup> 'v" where
  "records s i =
     (if safe_id i \<and> dir_exists s
      then (case map_of (files s) (i @ ''.json'') of Some (Json v) \<Rightarrow> Some v | _ \<Rightarrow> None) else None)"

definition store_wf :: "'v jstore \<Rightarrow> bool" where
  "store_wf s \<longleftrightarrow> distinct (map fst (files s)) \<and> (\<not> dir_exists s \<longrightarrow> files s = [])"

locale record_store =
  fixes wf :: "'s \<Rightarrow> bool"
    and recs :: "'s \<Rightarrow> str \<rightharpoonup> 'v"
    and put_op :: "str \<Rightarrow> 'v \<Rightarrow> 's \<Rightarrow> unit api_result \<times> 's"
    and get_op :: "str \<Rightarrow> 's \<Rightarrow> 'v option api_result \<times> 's"
    and delete_op :: "str \<Rightarrow> 's \<Rightarrow> bool api_result \<times> 's"
    and list_op :: "'s \<Rightarrow> 'v list api_result \<times> 's"
  assumes put_ok: "wf s \<Longrightarrow> put_op i v s = (Inr u, s') \<Longrightarrow> wf s' \<and> recs s' = (recs s)(i \<mapsto> v)"
    and put_failed: "wf s \<Longrightarrow> put_op i v s = (Inl e, s') \<Longrightarrow> wf s' \<and> recs s' = recs s"
    and get_ok: "wf s \<Longrightarrow> get_op i s = (Inr r, s') \<Longrightarrow> wf s' \<and> recs s' = recs s \<and> r = recs s i"
    and get_failed: "wf s \<Longrightarrow> get_op i s = (Inl e, s') \<Longrightarrow> wf s' \<and> recs s' = recs s"
    and delete_ok: "wf s \<Longrightarrow> delete_op i s = (Inr b, s') \<Longrightarrow> wf s' \<and> recs s' = (recs s)(i := None)"
    and delete_failed: "wf s \<Longrightarrow> delete_op i s = (Inl e, s') \<Longrightarrow> wf s' \<and> recs s' = recs s"
    and list_ok: "wf s \<Longrightarrow> list_op s = (Inr vs, s') \<Longrightarrow> wf s' \<and> recs s' = recs s \<and> set vs = ran (recs s)"
    and list_failed: "wf s \<Longrightarrow> list_op s = (Inl e, s') \<Longrightarrow> wf s' \<and> recs s' = recs s"
    and list_once: "wf s \<Longrightarrow> list_op s = (Inr vs, s') \<Longrightarrow> \<forall>i v. recs s i = Some v \<longrightarrow> key v = i \<Longrightarrow>
      distinct (map key vs)"
begin

lemma get_after_put:
  "wf s \<Longrightarrow> put_op i v s = (Inr u, s1) \<Longrightarrow> get_op j s1 = (Inr r, s2) \<Longrightarrow>
     r = (if j = i then Some v else recs s j)"
  by (drule (1) put_ok, elim conjE, drule (1) get_ok) auto

lemma get_after_failed_put:
  "wf s \<Longrightarrow> put_op i v s = (Inl e, s1) \<Longrightarrow> get_op j s1 = (Inr r, s2) \<Longrightarrow> r = recs s j"
  by (drule (1) put_failed, elim conjE, drule (1) get_ok) auto

lemma get_after_delete:
  "wf s \<Longrightarrow> delete_op i s = (Inr b, s1) \<Longrightarrow> get_op j s1 = (Inr r, s2) \<Longrightarrow>
     r = (if j = i then None else recs s j)"
  by (drule (1) delete_ok, elim conjE, drule (1) get_ok) auto

lemma list_after_put:
  "wf s \<Longrightarrow> put_op i v s = (Inr u, s1) \<Longrightarrow> list_op s1 = (Inr vs, s2) \<Longrightarrow> v \<in> set vs"
  by (drule (1) put_ok, elim conjE, drule (1) list_ok) (auto simp: ran_def)

lemma put_preserves: "wf s \<Longrightarrow> put_op i v s = (r, s') \<Longrightarrow> wf s'"
  by (cases r) (auto dest: put_ok put_failed)

lemma put_cases:
  assumes "wf s" and "put_op i v s = (r, s')"
  obtains (ok) "r = Inr ()" "wf s'" "recs s' = (recs s)(i \<mapsto> v)"
  | (failed) e where "r = Inl e" "wf s'" "recs s' = recs s"
  using assms by (cases r) (auto dest: put_ok put_failed)

lemma get_cases:
  assumes "wf s" and "get_op i s = (r, s')"
  obtains (ok) "r = Inr (recs s i)" "wf s'" "recs s' = recs s"
  | (failed) e where "r = Inl e" "wf s'" "recs s' = recs s"
  using assms by (cases r) (auto dest: get_ok get_failed)

lemma delete_cases:
  assumes "wf s" and "delete_op i s = (r, s')"
  obtains (ok) b where "r = Inr b" "wf s'" "recs s' = (recs s)(i := None)"
  | (failed) e where "r = Inl e" "wf s'" "recs s' = recs s"
  using assms by (cases r) (auto dest: delete_ok delete_failed)

lemma list_cases:
  assumes "wf s" and "list_op s = (r, s')"
  obtains (ok) vs where "r = Inr vs" "set vs = ran (recs s)" "wf s'" "recs s' = recs s"
  | (failed) e where "r = Inl e" "wf s'" "recs s' = recs s"
  using assms by (cases r) (auto dest: list_ok list_failed)

lemma cache_put:
  "wf s \<Longrightarrow> put_op i v s = (Inr u, s') \<Longrightarrow> map_of m = recs s \<Longrightarrow> map_of (AList.update i v m) = recs s'"
  by (drule (1) put_ok) (simp add: update_conv')

lemma cache_delete:
  "wf s \<Longrightarrow> delete_op i s = (Inr b, s') \<Longrightarrow> map_of m = recs s \<Longrightarrow> map_of (AList.delete i m) = recs s'"
  by (drule (1) delete_ok) (simp add: delete_conv')

end

text \<open>Services that keep a cache in front of a store name each record by a key of its own; loading
  the cache from a listing gives the store's contents when every record is filed under its key.\<close>

definition load_cache :: "('v \<Rightarrow> str) \<Rightarrow> (str \<times> 'v) list \<Rightarrow> 'v list \<Rightarrow> (str \<times> 'v) list" where
  "load_cache key m vs = foldl (\<lambda>m v. AList.update (key v) v m) m vs"

lemma load_cache_le:
  "map_of m \<subseteq>\<^sub>m f \<Longrightarrow> \<forall>v \<in> set vs. f (key v) = Some v \<Longrightarrow>
     map_of (load_cache key m vs) \<subseteq>\<^sub>m f \<and> dom (map_of (load_cache key m vs)) = dom (map_of m) \<union> key ` set vs"
proof (induction vs arbitrary: m)
  case (Cons v vs)
  have "map_of (AList.update (key v) v m) \<subseteq>\<^sub>m f"
    using Cons.prems by (auto simp: update_conv' map_le_def)
  from Cons.IH [OF this] Cons.prems show ?case by (auto simp: load_cache_def update_conv' dom_def)
qed (simp add: load_cache_def)

locale keyed_store = record_store wf recs put_op get_op delete_op list_op
  for wf :: "'s \<Rightarrow> bool" and recs :: "'s \<Rightarrow> str \<rightharpoonup> 'v" and put_op and get_op and delete_op and list_op +
  fixes key :: "'v \<Rightarrow> str"
begin

lemma load_coherent:
  assumes "wf s" and "list_op s = (Inr vs, s')" and "\<forall>i v. recs s i = Some v \<longrightarrow> key v = i"
  shows "wf s' \<and> recs s' = recs s \<and> map_of (load_cache key [] vs) = recs s"
proof -
  have l: "wf s'" "recs s' = recs s" "set vs = ran (recs s)" using list_ok [OF assms(1,2)] by auto
  have "\<forall>v \<in> set vs. recs s (key v) = Some v" using assms(3) by (auto simp: l(3) ran_def)
  from load_cache_le [of "[]" "recs s", OF _ this]
  have "map_of (load_cache key [] vs) \<subseteq>\<^sub>m recs s" "dom (map_of (load_cache key [] vs)) = key ` set vs"
    by simp_all
  moreover have "key ` set vs = dom (recs s)"
    using assms(3) unfolding l(3) by (auto simp: ran_def dom_def image_iff)
  ultimately have "map_of (load_cache key [] vs) = recs s" by (metis map_le_antisym map_le_def)
  with l show ?thesis by blast
qed

end

subsection \<open>File names\<close>

lemma record_names_distinct:
  "i @ ''.json'' = j @ ''.json'' \<longleftrightarrow> i = j" "i @ ''.json'' \<noteq> j @ ''.json.tmp''"
proof -
  show "i @ ''.json'' \<noteq> j @ ''.json.tmp''"
  proof
    assume "i @ ''.json'' = j @ ''.json.tmp''"
    from arg_cong [OF this, of last] show False by simp
  qed
qed simp

lemma rsplit_once_json: "rsplit_once (CHR ''.'') (i @ ''.json'') = Some (i, ''json'')"
  by (simp add: rsplit_once_def)

lemma is_record_file_json: "safe_id i \<Longrightarrow> is_record_file (i @ ''.json'')"
  by (auto simp: is_record_file_def file_ext_def file_stem_def rsplit_once_json safe_id_def)

lemma is_record_fileD:
  assumes "is_record_file name"
  obtains i where "name = i @ ''.json''" and "safe_id i"
proof -
  from assms obtain stem where r: "rsplit_once (CHR ''.'') name = Some (stem, ''json'')" "stem \<noteq> []"
    by (auto simp: is_record_file_def file_ext_def split: option.splits if_splits)
  then have "file_stem name = stem" by (simp add: file_stem_def)
  with assms have "safe_id stem" by (simp add: is_record_file_def)
  moreover from r(1) obtain a b where ab: "split_once (CHR ''.'') (rev name) = Some (a, b)"
      "rev b = stem" "rev a = ''json''" by (auto simp: rsplit_once_def)
  from ab(1) have "rev name = a @ CHR ''.'' # b" by (simp only: split_once_Some)
  then have "name = rev (a @ CHR ''.'' # b)" by (metis rev_rev_ident)
  then have "name = stem @ ''.json''" unfolding rev_append rev.simps ab(2,3) by simp
  ultimately show ?thesis using that by blast
qed

subsection \<open>The file store keeps the interface\<close>

definition same_files :: "'v jstore \<Rightarrow> 'v jstore \<Rightarrow> bool" where
  "same_files s s' \<longleftrightarrow> files s' = files s \<and> (dir_exists s \<longrightarrow> dir_exists s')"

lemma same_files_refl [simp]: "same_files s s"
  by (simp add: same_files_def)

lemma same_files_trans: "same_files s t \<Longrightarrow> same_files t u \<Longrightarrow> same_files s u"
  by (simp add: same_files_def)

lemma same_filesD:
  assumes "store_wf s" and "same_files s s'"
  shows "store_wf s'" and "records s' = records s"
  using assms by (auto simp: same_files_def store_wf_def records_def fun_eq_iff)

lemma next_fault_same: "next_fault s = (f, s') \<Longrightarrow> same_files s s' \<and> dir_exists s' = dir_exists s"
  by (auto simp: next_fault_def same_files_def split: list.splits)

lemma resolve_dir_same:
  "resolve_dir create s = (r, s') \<Longrightarrow>
     same_files s s' \<and> (\<forall>p. r = Inr p \<longrightarrow> p = dir_exists s') \<and> (create \<longrightarrow> r \<noteq> Inr False)"
  by (auto simp: resolve_dir_def same_files_def dest: next_fault_same
      split: prod.splits fault.splits if_splits)

lemma record_path_cases:
  assumes "record_path i create s = (r, s')"
  obtains (bad_id) e where "r = Inl e" "same_files s s'" "err_code e = Validation" "\<not> safe_id i"
  | (no_dir) e where "r = Inl e" "same_files s s'" "safe_id i" "create"
  | (absent) "r = Inr None" "same_files s s'" "\<not> dir_exists s'" "\<not> create" "safe_id i"
  | (path) "r = Inr (Some (i @ ''.json''))" "same_files s s'" "safe_id i" "dir_exists s'"
proof (cases "safe_id i")
  case False
  with assms show ?thesis
    using bad_id by (auto simp: record_path_def ensure_safe_id_def)
next
  case True
  then have j: "join_component (i @ ''.json'') = Inr (i @ ''.json'')"
    using safe_id_no_slash [OF True] by (simp add: join_component_def)
  obtain q s1 where q: "resolve_dir create s = (q, s1)" by fastforce
  have path_eq: "record_path i create s = bind_st (q, s1) (\<lambda>present s'.
      if present then (Inr (Some (i @ ''.json'')), s') else (Inr None, s'))"
    using True by (simp add: record_path_def ensure_safe_id_def q j cong: if_cong)
  show ?thesis
  proof (cases q)
    case (Inl e)
    moreover from this q have create by (auto simp: resolve_dir_def split: if_splits)
    ultimately show ?thesis
      using assms path_eq resolve_dir_same [OF q] True no_dir by auto
  next
    case (Inr p)
    then show ?thesis
      using assms path_eq resolve_dir_same [OF q] True absent path by (cases p) auto
  qed
qed

lemma records_update_tmp:
  "records (s\<lparr>files := AList.update (i @ ''.json.tmp'') c (files s)\<rparr>) = records s"
  by (auto simp: records_def update_conv' record_names_distinct fun_eq_iff)

lemma records_rename:
  assumes "safe_id i" and "dir_exists s"
  shows "records (s\<lparr>files := AList.update (i @ ''.json'') (Json v) (AList.delete (i @ ''.json.tmp'') fs)\<rparr>)
    = (records (s\<lparr>files := fs\<rparr>))(i \<mapsto> v)"
  using assms by (auto simp: records_def update_conv' delete_conv' record_names_distinct fun_eq_iff
      simp flip: append_assoc)

lemma store_wf_update:
  "store_wf s \<Longrightarrow> dir_exists s \<Longrightarrow> store_wf (s\<lparr>files := AList.update k c (files s)\<rparr>)"
  by (simp add: store_wf_def distinct_update)

lemma store_wf_delete: "store_wf s \<Longrightarrow> store_wf (s\<lparr>files := AList.delete k (files s)\<rparr>)"
  by (auto simp: store_wf_def distinct_delete)

lemma put_refines:
  assumes "store_wf s" and "put i v s = (r, s')"
  shows "store_wf s' \<and> (case r of Inl _ \<Rightarrow> records s' = records s | Inr _ \<Rightarrow> records s' = (records s)(i \<mapsto> v))"
proof -
  obtain q s1 where q: "record_path i True s = (q, s1)" by fastforce
  from q show ?thesis
  proof (cases rule: record_path_cases)
    case path
    note s1 = same_filesD [OF assms(1) path(2)]
    obtain f2 s2 where f2: "next_fault s1 = (f2, s2)" by fastforce
    from next_fault_same [OF f2] have s2: "store_wf s2" "records s2 = records s" "dir_exists s2"
      using same_filesD [OF s1(1)] s1(2) path(4) by auto
    let ?tmp = "i @ ''.json.tmp''" let ?s3 = "s2\<lparr>files := AList.update (i @ ''.json.tmp'') (Json v) (files s2)\<rparr>"
    have s3: "store_wf ?s3" "records ?s3 = records s" "dir_exists ?s3"
      using s2 by (simp_all add: store_wf_update records_update_tmp)
    show ?thesis
    proof (cases f2)
      case (Fault e left)
      then have "r = Inl (internal (''write '' @ show_path s2 ?tmp @ '': '' @ e))"
        and "s' = (case left of None \<Rightarrow> s2 | Some c \<Rightarrow> s2\<lparr>files := AList.update ?tmp c (files s2)\<rparr>)"
        using assms(2) by (auto simp: put_def q path(1) f2 Let_def)
      with s2 show ?thesis by (auto simp: store_wf_update records_update_tmp split: option.splits)
    next
      case Ok
      obtain f4 s4 where f4: "next_fault ?s3 = (f4, s4)" by fastforce
      from next_fault_same [OF f4] have s4: "store_wf s4" "records s4 = records s" "dir_exists s4"
        using same_filesD [OF s3(1)] s3 by auto
      show ?thesis
      proof (cases f4)
        case (Fault e left)
        with Ok s4 assms(2) show ?thesis by (auto simp: put_def q path(1) f2 f4 Let_def)
      next
        case Ok
        with \<open>f2 = Ok\<close> assms(2) have r: "r = Inr ()" and s': "s' = s4\<lparr>files :=
            AList.update (i @ ''.json'') (Json v) (AList.delete ?tmp (files s4))\<rparr>"
          by (auto simp: put_def q path(1) f2 f4 Let_def)
        have "store_wf s'"
          using store_wf_update [OF store_wf_delete [OF s4(1), of ?tmp]] s4(3) by (simp add: s')
        moreover have "records s' = (records s)(i \<mapsto> v)"
          unfolding s' using records_rename [OF path(3) s4(3)] s4(2) by simp
        ultimately show ?thesis using r by simp
      qed
    qed
  qed (use assms same_filesD in \<open>auto simp: put_def q\<close>)
qed

lemma get_refines:
  assumes "store_wf s" and "get i s = (r, s')"
  shows "store_wf s' \<and> records s' = records s \<and> (\<forall>x. r = Inr x \<longrightarrow> x = records s i)"
proof -
  obtain q s1 where q: "record_path i False s = (q, s1)" by fastforce
  have step: "same_files s s' \<and> (\<forall>x. r = Inr x \<longrightarrow> x = records s1 i)"
    using q
  proof (cases rule: record_path_cases)
    case path
    with assms(2) show ?thesis
      by (auto simp: get_def q records_def dest: next_fault_same intro: same_files_trans
          split: prod.splits fault.splits option.splits content.splits)
        (auto dest!: next_fault_same simp: same_files_def)
  qed (use assms(2) in \<open>auto simp: get_def q records_def\<close>)
  moreover have "same_files s s1" using q by (cases rule: record_path_cases) auto
  ultimately show ?thesis using same_filesD [OF assms(1)] by metis
qed

lemma records_delete:
  "records (s\<lparr>files := AList.delete (i @ ''.json'') (files s)\<rparr>) = (records s)(i := None)"
  by (auto simp: records_def delete_conv' fun_eq_iff)

lemma delete_refines:
  assumes "store_wf s" and "delete i s = (r, s')"
  shows "store_wf s' \<and> (case r of Inl _ \<Rightarrow> records s' = records s | Inr _ \<Rightarrow> records s' = (records s)(i := None))"
proof -
  obtain q s1 where q: "record_path i False s = (q, s1)" by fastforce
  from q show ?thesis
  proof (cases rule: record_path_cases)
    case path
    note s1 = same_filesD [OF assms(1) path(2)]
    obtain f s2 where f: "next_fault s1 = (f, s2)" by fastforce
    from next_fault_same [OF f] have s2: "store_wf s2" "records s2 = records s"
      using same_filesD [OF s1(1)] s1(2) by auto
    have absent: "map_of (files s2) (i @ ''.json'') = None \<Longrightarrow> (records s2)(i := None) = records s2"
      by (auto simp: records_def fun_eq_iff)
    show ?thesis
      using assms(2) s2 absent store_wf_delete [OF s2(1)] records_delete [of i s2]
      by (cases f) (auto simp: delete_def q path(1) f split: if_splits)
  next
    case absent
    with assms same_filesD [OF assms(1) absent(2)] show ?thesis
      by (auto simp: delete_def q records_def fun_eq_iff same_files_def)
  qed (use assms same_filesD in \<open>auto simp: delete_def q\<close>)
qed

definition listed :: "(str \<times> 'v content) list \<Rightarrow> 'v list" where
  "listed es = List.map_filter (\<lambda>(name, c).
     case c of Json v \<Rightarrow> if is_record_file name then Some v else None | Garbage _ \<Rightarrow> None) es"

lemma listed_Cons:
  "listed ((name, c) # es) =
     (case c of Json v \<Rightarrow> if is_record_file name then [v] else [] | Garbage _ \<Rightarrow> []) @ listed es"
  by (auto simp: listed_def split: content.splits)

lemma listed_Nil [simp]: "listed [] = []"
  by (simp add: listed_def)

lemma list_loop_listed:
  assumes "list_loop es s = (r, s')"
  shows "same_files s s' \<and> dir_exists s' = dir_exists s \<and> (\<forall>vs. r = Inr vs \<longrightarrow> vs = listed es)"
  using assms
proof (induction es arbitrary: s r s')
  case Nil
  then show ?case by (auto dest: next_fault_same split: prod.splits fault.splits)
next
  case (Cons e es)
  obtain name c where e: "e = (name, c)" by fastforce
  obtain f1 s1 where f1: "next_fault s = (f1, s1)" by fastforce
  obtain f2 s2 where f2: "next_fault s1 = (f2, s2)" by fastforce
  have s1: "same_files s s1" "dir_exists s1 = dir_exists s"
    and s2: "same_files s s2" "dir_exists s2 = dir_exists s"
    using next_fault_same [OF f1] next_fault_same [OF f2] same_files_trans by auto
  consider (fault) "f1 \<noteq> Ok \<or> is_record_file name \<and> f2 \<noteq> Ok"
    | (skip) "f1 = Ok" "\<not> is_record_file name"
    | (garbage) m where "f1 = Ok" "f2 = Ok" "is_record_file name" "c = Garbage m"
    | (json) v where "f1 = Ok" "f2 = Ok" "is_record_file name" "c = Json v"
    by (cases c) auto
  then show ?case
  proof cases
    case fault
    with Cons.prems s1 s2 show ?thesis by (auto simp: e f1 f2 split: fault.splits if_splits)
  next
    case skip
    with Cons.prems have "list_loop es s1 = (r, s')" by (simp add: e f1)
    from Cons.IH [OF this] s1 skip show ?thesis
      by (auto simp: e listed_Cons intro: same_files_trans split: content.splits)
  next
    case garbage
    with Cons.prems have "list_loop es s2 = (r, s')" by (simp add: e f1 f2)
    from Cons.IH [OF this] s2 garbage show ?thesis
      by (auto simp: e listed_Cons intro: same_files_trans)
  next
    case json
    obtain q s3 where q: "list_loop es s2 = (q, s3)" by fastforce
    with Cons.prems json have "bind_st (q, s3) (\<lambda>vs s. (Inr (v # vs), s)) = (r, s')"
      by (simp add: e f1 f2)
    with Cons.IH [OF q] s2 json show ?thesis
      by (cases q) (auto simp: e listed_Cons intro: same_files_trans)
  qed
qed

lemma mem_listed: "v \<in> set (listed es) \<longleftrightarrow> (\<exists>name. (name, Json v) \<in> set es \<and> is_record_file name)"
proof (induction es)
  case (Cons e es)
  obtain name c where e: "e = (name, c)" by fastforce
  show ?case unfolding e listed_Cons by (cases c) (auto simp: Cons.IH)
qed simp

lemma records_Some:
  "records s i = Some v \<longleftrightarrow> safe_id i \<and> dir_exists s \<and> map_of (files s) (i @ ''.json'') = Some (Json v)"
  by (auto simp: records_def split: option.split content.split)

lemma set_listed:
  assumes "store_wf s" and "dir_exists s"
  shows "set (listed (files s)) = ran (records s)"
proof (rule set_eqI)
  fix v
  have d: "distinct (map fst (files s))" using assms(1) by (simp add: store_wf_def)
  have "v \<in> ran (records s) \<longleftrightarrow> (\<exists>i. safe_id i \<and> (i @ ''.json'', Json v) \<in> set (files s))"
    using assms(2) by (simp add: ran_def records_Some map_of_eq_Some_iff [OF d])
  then show "v \<in> set (listed (files s)) \<longleftrightarrow> v \<in> ran (records s)"
    unfolding mem_listed by (metis is_record_fileD is_record_file_json)
qed

lemma list_result:
  assumes "list s = (r, s')"
  shows "same_files s s' \<and> (\<forall>vs. r = Inr vs \<longrightarrow> vs = (if dir_exists s then listed (files s) else []))"
proof (cases "dir_exists s")
  case True
  obtain f s1 where f: "next_fault s = (f, s1)" by fastforce
  note s1 = next_fault_same [OF f]
  show ?thesis
  proof (cases f)
    case Ok
    with assms True f have "list_loop (files s1) s1 = (r, s')"
      by (simp add: list_def resolve_dir_def)
    from list_loop_listed [OF this] s1 True show ?thesis by (auto simp: same_files_def)
  next
    case (Fault e left)
    with assms True f s1 show ?thesis by (auto simp: list_def resolve_dir_def)
  qed
qed (use assms in \<open>auto simp: list_def resolve_dir_def\<close>)

lemma list_refines:
  assumes "store_wf s" and "list s = (r, s')"
  shows "store_wf s' \<and> records s' = records s \<and> (\<forall>vs. r = Inr vs \<longrightarrow> set vs = ran (records s))"
proof -
  have none: "ran (records s) = {}" if "\<not> dir_exists s"
    using that by (simp add: records_def ran_def)
  from list_result [OF assms(2)] have same: "same_files s s'"
    and vs: "\<And>vs. r = Inr vs \<Longrightarrow> vs = (if dir_exists s then listed (files s) else [])"
    by blast+
  have "set vs = ran (records s)" if "r = Inr vs" for vs
    using vs [OF that] none set_listed [OF assms(1)] by (cases "dir_exists s") simp_all
  with same_filesD [OF assms(1) same] show ?thesis by blast
qed

lemma listed_distinct:
  assumes "distinct (map fst es)"
    and "\<And>name v. (name, Json v) \<in> set es \<Longrightarrow> is_record_file name \<Longrightarrow> name = key v @ ''.json''"
  shows "distinct (map key (listed es))"
  using assms
proof (induction es)
  case (Cons e es)
  obtain name c where e: "e = (name, c)" by fastforce
  have IH: "distinct (map key (listed es))" using Cons by simp
  have "key v \<notin> key ` set (listed es)" if "c = Json v" "is_record_file name" for v
  proof
    assume "key v \<in> key ` set (listed es)"
    then obtain w name' where w: "key v = key w" "(name', Json w) \<in> set es" "is_record_file name'"
      by (auto simp: mem_listed)
    have "name = key v @ ''.json''" using Cons.prems(2) [of name v] that by (simp add: e)
    moreover have "name' = key w @ ''.json''" using Cons.prems(2) [of name' w] w by simp
    ultimately have "name = name'" using w(1) by simp
    with Cons.prems(1) w(2) show False by (force simp: e image_iff)
  qed
  with IH show ?case unfolding e listed_Cons by (cases c) auto
qed simp

lemma listing_distinct:
  assumes "store_wf s" and "list s = (Inr vs, s')" and "\<forall>i v. records s i = Some v \<longrightarrow> key v = i"
  shows "distinct (map key vs)"
proof (cases "dir_exists s")
  case True
  have d: "distinct (map fst (files s))" using assms(1) by (simp add: store_wf_def)
  have "name = key v @ ''.json''" if m: "(name, Json v) \<in> set (files s)" and f: "is_record_file name" for name v
  proof -
    from f obtain i where i: "name = i @ ''.json''" "safe_id i" by (rule is_record_fileD)
    with True m d have "records s i = Some v" by (simp add: records_Some)
    with assms(3) i show ?thesis by simp
  qed
  with listed_distinct [OF d] list_result [OF assms(2)] True show ?thesis by simp
qed (use list_result [OF assms(2)] in simp)

interpretation js: record_store store_wf records put get delete list
proof unfold_locales
  fix s s' :: "'v jstore" and i v u e b r vs
  show "store_wf s \<Longrightarrow> put i v s = (Inr u, s') \<Longrightarrow> store_wf s' \<and> records s' = (records s)(i \<mapsto> v)"
    by (drule (1) put_refines) simp
  show "store_wf s \<Longrightarrow> put i v s = (Inl e, s') \<Longrightarrow> store_wf s' \<and> records s' = records s"
    by (drule (1) put_refines) simp
  show "store_wf s \<Longrightarrow> get i s = (Inr r, s') \<Longrightarrow> store_wf s' \<and> records s' = records s \<and> r = records s i"
    by (drule (1) get_refines) simp
  show "store_wf s \<Longrightarrow> get i s = (Inl e, s') \<Longrightarrow> store_wf s' \<and> records s' = records s"
    by (drule (1) get_refines) simp
  show "store_wf s \<Longrightarrow> delete i s = (Inr b, s') \<Longrightarrow> store_wf s' \<and> records s' = (records s)(i := None)"
    by (drule (1) delete_refines) simp
  show "store_wf s \<Longrightarrow> delete i s = (Inl e, s') \<Longrightarrow> store_wf s' \<and> records s' = records s"
    by (drule (1) delete_refines) simp
  show "store_wf s \<Longrightarrow> list s = (Inr vs, s') \<Longrightarrow>
      store_wf s' \<and> records s' = records s \<and> set vs = ran (records s)"
    by (drule (1) list_refines) simp
  show "store_wf s \<Longrightarrow> list s = (Inl e, s') \<Longrightarrow> store_wf s' \<and> records s' = records s"
    by (drule (1) list_refines) simp
  show "store_wf s \<Longrightarrow> list s = (Inr vs, s') \<Longrightarrow> \<forall>i v. records s i = Some v \<longrightarrow> key v = i \<Longrightarrow>
      distinct (map key vs)" for key
    by (rule listing_distinct)
qed

text \<open>Without faults every operation on an accepted identifier succeeds.\<close>

lemma put_no_faults:
  assumes "safe_id i" and "faults s = []"
  shows "\<exists>s'. put i v s = (Inr (), s') \<and> faults s' = []"
proof -
  have "join_component (i @ ''.json'') = Inr (i @ ''.json'')"
    using safe_id_no_slash [OF assms(1)] by (simp add: join_component_def)
  with assms show ?thesis
    by (simp add: put_def record_path_def ensure_safe_id_def resolve_dir_def next_fault_def bind_st_def Let_def)
qed

lemma get_no_faults:
  assumes "safe_id i" and "faults s = []" and "map_of (files s) (i @ ''.json'') = None"
  shows "get i s = (Inr None, s)"
proof -
  have "join_component (i @ ''.json'') = Inr (i @ ''.json'')"
    using safe_id_no_slash [OF assms(1)] by (simp add: join_component_def)
  with assms show ?thesis
    by (simp add: get_def record_path_def ensure_safe_id_def resolve_dir_def next_fault_def bind_st_def)
qed

lemma delete_no_faults:
  assumes "safe_id i" and "faults s = []"
  shows "\<exists>b s'. delete i s = (Inr b, s') \<and> faults s' = []"
proof -
  have "join_component (i @ ''.json'') = Inr (i @ ''.json'')"
    using safe_id_no_slash [OF assms(1)] by (simp add: join_component_def)
  with assms show ?thesis
    by (auto simp: delete_def record_path_def ensure_safe_id_def resolve_dir_def next_fault_def bind_st_def)
qed

lemma list_no_faults:
  assumes "faults s = []"
  shows "\<exists>vs. list s = (Inr vs, s)"
proof -
  have n: "next_fault s = (Ok, s)" using assms by (simp add: next_fault_def)
  have "\<exists>vs. list_loop es s = (Inr vs, s)" for es
    by (induction es) (auto simp: n split: content.splits)
  then show ?thesis by (simp add: list_def resolve_dir_def n bind_st_def)
qed

subsection \<open>Properties of the store\<close>

text \<open>
  C11. A record write is atomic whatever fails: for every schedule of file system faults, also one
  that leaves the temporary file half written, \<open>put\<close> either reports success and the store holds
  exactly the new record at that identifier and its old records elsewhere, or it reports an error and
  holds exactly what it held before.
\<close>

theorem put_atomic:
  assumes "store_wf s" and "put i v s = (r, s')"
  shows "store_wf s' \<and>
         (case r of Inr _ \<Rightarrow> records s' = (records s)(i \<mapsto> v) | Inl _ \<Rightarrow> records s' = records s)"
  using assms by (cases rule: js.put_cases) auto

definition sample_store :: "nat jstore" where
  "sample_store = \<lparr>dir_display = ''/s'', dir_exists = True,
     files = [(''a.json'', Json 1), (''b.json'', Garbage ''eof'')], faults = [Ok, Ok, Fault ''disk full'' None]\<rparr>"

theorem put_atomic_witness:
  "store_wf sample_store \<and>
   (\<exists>e s'. put ''a'' 2 sample_store = (Inl e, s') \<and> records s' = records sample_store \<and>
      map_of (files s') ''a.json.tmp'' = Some (Json 2))"
proof -
  have wf: "store_wf sample_store" by (simp add: store_wf_def sample_store_def)
  obtain e s' where p: "put ''a'' 2 sample_store = (Inl e, s')"
      and t: "map_of (files s') ''a.json.tmp'' = Some (Json 2)"
  proof
    show "put ''a'' 2 sample_store = (Inl (internal ''rename into /s/a.json: disk full''),
        \<lparr>dir_display = ''/s'', dir_exists = True,
     files = [(''a.json'', Json 1), (''b.json'', Garbage ''eof''), (''a.json.tmp'', Json 2)], faults = []\<rparr>)"
      by code_simp
  qed simp
  from put_atomic [OF wf p] p t wf show ?thesis by auto
qed

text \<open>
  A store never mixes records up: after a successful write of a record, a read that succeeds
  returns that record at its identifier and the previous record at every other identifier, and a
  listing that succeeds contains it.
\<close>

theorem get_and_list_after_put:
  assumes "store_wf s" and "put i v s = (Inr (), s1)"
  shows "(\<forall>j r s2. get j s1 = (Inr r, s2) \<longrightarrow> r = (if j = i then Some v else records s j)) \<and>
         (\<forall>vs s2. list s1 = (Inr vs, s2) \<longrightarrow> v \<in> set vs)"
  using js.get_after_put [OF assms] js.list_after_put [OF assms] by blast

theorem get_and_list_after_put_witness:
  "\<exists>s1 s2 s3. put ''a'' 2 (sample_store\<lparr>faults := []\<rparr>) = (Inr (), s1) \<and>
     get ''a'' s1 = (Inr (Some 2), s2) \<and> list s1 = (Inr [2], s3)"
proof -
  let ?s = "\<lparr>dir_display = ''/s'', dir_exists = True,
     files = [(''a.json'', Json (2 :: nat)), (''b.json'', Garbage ''eof'')], faults = []\<rparr>"
  have wf: "store_wf (sample_store\<lparr>faults := []\<rparr>)" by (simp add: store_wf_def sample_store_def)
  have p: "put ''a'' 2 (sample_store\<lparr>faults := []\<rparr>) = (Inr (), ?s)" by code_simp
  have g: "get ''a'' ?s = (Inr (Some 2), ?s)" by code_simp
  have "list ?s = (Inr [2], ?s)" by code_simp
  with p g get_and_list_after_put [OF wf p] show ?thesis by blast
qed

text \<open>
  One corrupt file does not take a store down: a listing that succeeds returns exactly the
  records that decode, whatever else is in the directory (temporary files, files with other names,
  files that do not parse).
\<close>

theorem list_skips_unparseable:
  assumes "store_wf s" and "list s = (Inr vs, s')"
  shows "set vs = ran (records s)"
  using js.list_ok [OF assms] by blast

theorem list_skips_unparseable_witness:
  "\<exists>s'. list (sample_store\<lparr>faults := []\<rparr>) = (Inr [1], s') \<and>
     set [1] = ran (records (sample_store\<lparr>faults := []\<rparr>))"
proof -
  have wf: "store_wf (sample_store\<lparr>faults := []\<rparr>)" by (simp add: store_wf_def sample_store_def)
  have l: "list (sample_store\<lparr>faults := []\<rparr>) = (Inr [1], sample_store\<lparr>faults := []\<rparr>)" by code_simp
  show ?thesis using l list_skips_unparseable [OF wf l] by blast
qed

end
