(* ===== verification/Acl.thy ===== *)
theory Acl
  imports Rbac Store "HOL-Library.Product_Lexorder"
begin

section \<open>The access control list (src/src/services/acl.rs)\<close>

text \<open>
  The service that keeps the explicit grants: a record store behind a cache. Every operation is
  serialized by the service's mutex, so that one call is one step; the new identifier and the
  time stamp are arguments. The invariant is that the cache never loses a stored grant; it is equal to
  the store except after a \<open>remove_subject\<close> that failed half way, when the cache still holds grants
  that are already gone from the disk.
\<close>

record acl_service =
  acl_store :: "acl_entry jstore"
  acl_cache :: "(str \<times> acl_entry) list"

definition acl_load :: "acl_service \<Rightarrow> unit api_result \<times> acl_service" where
  "acl_load s =
     (case Store.list (acl_store s) of
        (Inl e, st) \<Rightarrow> (Inl e, s\<lparr>acl_store := st\<rparr>)
      | (Inr es, st) \<Rightarrow> (Inr (), \<lparr>acl_store = st, acl_cache = load_cache entry_id (acl_cache s) es\<rparr>))"

definition acl_list :: "acl_service \<Rightarrow> acl_entry list" where
  "acl_list s = sort_key (\<lambda>e. (entry_path e, entry_id e)) (map snd (acl_cache s))"

definition entries_for_subject :: "acl_service \<Rightarrow> str \<Rightarrow> acl_entry list" where
  "entries_for_subject s uid = filter (\<lambda>e. entry_subject e = uid) (map snd (acl_cache s))"

definition acl_create ::
  "str \<Rightarrow> str \<Rightarrow> str \<Rightarrow> str \<Rightarrow> str \<Rightarrow> role \<Rightarrow> bool \<Rightarrow> acl_service \<Rightarrow> acl_entry api_result \<times> acl_service" where
  "acl_create new_id now raw_path subject subject_username r propagate s =
     (case normalize_path raw_path of
        Inl e \<Rightarrow> (Inl e, s)
      | Inr path \<Rightarrow>
          (case find (\<lambda>e. entry_subject e = subject \<and> entry_path e = path \<and> entry_role e = r \<and>
                          entry_propagate e = propagate) (map snd (acl_cache s)) of
             Some existing \<Rightarrow> (Inr existing, s)
           | None \<Rightarrow>
               (let entry = \<lparr>entry_id = new_id, entry_path = path, entry_subject = subject,
                             entry_role = r, entry_propagate = propagate,
                             entry_subject_username = Some subject_username, entry_created_at = now\<rparr>
                in case Store.put new_id entry (acl_store s) of
                     (Inl e, st) \<Rightarrow> (Inl e, s\<lparr>acl_store := st\<rparr>)
                   | (Inr _, st) \<Rightarrow>
                       (Inr entry, \<lparr>acl_store = st, acl_cache = AList.update new_id entry (acl_cache s)\<rparr>))))"

definition acl_delete :: "str \<Rightarrow> acl_service \<Rightarrow> unit api_result \<times> acl_service" where
  "acl_delete i s =
     (if map_of (acl_cache s) i = None then (Inl (not_found ''acl entry not found''), s)
      else case Store.delete i (acl_store s) of
             (Inl e, st) \<Rightarrow> (Inl e, s\<lparr>acl_store := st\<rparr>)
           | (Inr _, st) \<Rightarrow> (Inr (), \<lparr>acl_store = st, acl_cache = AList.delete i (acl_cache s)\<rparr>))"

fun delete_all :: "str list \<Rightarrow> 'v jstore \<Rightarrow> unit api_result \<times> 'v jstore" where
  "delete_all [] st = (Inr (), st)"
| "delete_all (i # is) st =
     (case Store.delete i st of (Inl e, st) \<Rightarrow> (Inl e, st) | (Inr _, st) \<Rightarrow> delete_all is st)"

definition remove_subject :: "str \<Rightarrow> acl_service \<Rightarrow> unit api_result \<times> acl_service" where
  "remove_subject uid s =
     (let ids = map entry_id (filter (\<lambda>e. entry_subject e = uid) (map snd (acl_cache s))) in
      case delete_all ids (acl_store s) of
        (Inl e, st) \<Rightarrow> (Inl e, s\<lparr>acl_store := st\<rparr>)
      | (Inr _, st) \<Rightarrow> (Inr (), \<lparr>acl_store = st, acl_cache = foldl (\<lambda>m i. AList.delete i m) (acl_cache s) ids\<rparr>))"

subsection \<open>Invariant\<close>

interpretation acl_js: keyed_store store_wf records Store.put Store.get Store.delete Store.list entry_id
  by unfold_locales

definition acl_inv :: "acl_service \<Rightarrow> bool" where
  "acl_inv s \<longleftrightarrow>
     store_wf (acl_store s) \<and> distinct (map fst (acl_cache s)) \<and>
     records (acl_store s) \<subseteq>\<^sub>m map_of (acl_cache s) \<and>
     (\<forall>(i, e) \<in> set (acl_cache s). entry_id e = i \<and> normal_path (entry_path e))"

definition acl_coherent :: "acl_service \<Rightarrow> bool" where
  "acl_coherent s \<longleftrightarrow> map_of (acl_cache s) = records (acl_store s)"

lemma set_update_subset: "set (AList.update k v m) \<subseteq> insert (k, v) (set m)"
  by (induction m) auto

lemma set_delete_subset: "set (AList.delete k m) \<subseteq> set m"
  by (auto simp: AList.delete_eq)

lemma acl_create_inv:
  assumes "acl_inv s" and "acl_create new_id now p subj nm r pr s = (res, s')"
  shows "acl_inv s' \<and> (acl_coherent s \<longrightarrow> acl_coherent s')"
proof -
  have wf: "store_wf (acl_store s)" using assms(1) by (simp add: acl_inv_def)
  show ?thesis
  proof (cases "normalize_path p")
    case (Inl e)
    with assms show ?thesis by (auto simp: acl_create_def)
  next
    case (Inr path)
    let ?e = "\<lparr>entry_id = new_id, entry_path = path, entry_subject = subj, entry_role = r,
      entry_propagate = pr, entry_subject_username = Some nm, entry_created_at = now\<rparr>"
    have path: "normal_path path" using Inr by (rule normalize_path_normal)
    obtain q st where q: "Store.put new_id ?e (acl_store s) = (q, st)" by fastforce
    from wf q show ?thesis
    proof (cases rule: js.put_cases)
      case ok
      have sub: "\<forall>(i, e) \<in> set (AList.update new_id ?e (acl_cache s)). entry_id e = i \<and> normal_path (entry_path e)"
        using assms(1) path set_update_subset [of new_id ?e "acl_cache s"] by (fastforce simp: acl_inv_def)
      have "(records (acl_store s))(new_id \<mapsto> ?e) \<subseteq>\<^sub>m (map_of (acl_cache s))(new_id \<mapsto> ?e)"
        using assms(1) by (auto simp: acl_inv_def map_le_def)
      with assms ok sub Inr q show ?thesis
        by (auto simp: acl_create_def acl_inv_def acl_coherent_def update_conv' distinct_update Let_def
            split: option.splits)
    next
      case failed
      with assms Inr q show ?thesis
        by (auto simp: acl_create_def acl_inv_def acl_coherent_def Let_def split: option.splits)
    qed
  qed
qed

lemma acl_delete_inv:
  assumes "acl_inv s" and "acl_delete i s = (res, s')"
  shows "acl_inv s' \<and> (acl_coherent s \<longrightarrow> acl_coherent s')"
proof -
  have wf: "store_wf (acl_store s)" using assms(1) by (simp add: acl_inv_def)
  obtain q st where q: "Store.delete i (acl_store s) = (q, st)" by fastforce
  from wf q show ?thesis
  proof (cases rule: js.delete_cases)
    case (ok b)
    have "\<forall>(j, e) \<in> set (AList.delete i (acl_cache s)). entry_id e = j \<and> normal_path (entry_path e)"
      using assms(1) set_delete_subset [of i "acl_cache s"] by (fastforce simp: acl_inv_def)
    moreover have "(records (acl_store s))(i := None) \<subseteq>\<^sub>m (map_of (acl_cache s))(i := None)"
      using assms(1) by (auto simp: acl_inv_def map_le_def)
    ultimately show ?thesis
      using assms ok q
      by (auto simp: acl_delete_def acl_inv_def acl_coherent_def delete_conv' distinct_delete
          split: if_splits)
  next
    case failed
    with assms q show ?thesis
      by (auto simp: acl_delete_def acl_inv_def acl_coherent_def split: if_splits)
  qed
qed

lemma delete_all_cases:
  assumes "store_wf st" and "delete_all ids st = (r, st')"
  shows "store_wf st' \<and> records st' \<subseteq>\<^sub>m records st \<and>
         (\<forall>u. r = Inr u \<longrightarrow> records st' = (records st) |` (- set ids))"
  using assms
proof (induction ids arbitrary: st)
  case (Cons i ids)
  obtain q st1 where q: "Store.delete i st = (q, st1)" by fastforce
  from Cons.prems(1) q show ?case
  proof (cases rule: js.delete_cases)
    case (ok b)
    with Cons.prems(2) q have "delete_all ids st1 = (r, st')" by simp
    note IH = Cons.IH [OF ok(2) this]
    have "records st1 \<subseteq>\<^sub>m records st" unfolding ok(3) by (simp add: map_le_def)
    with IH have "records st' \<subseteq>\<^sub>m records st" by (blast intro: map_le_trans)
    moreover have "(records st1) |` (- set ids) = (records st) |` (- set (i # ids))"
      unfolding ok(3) by (auto simp: restrict_map_def fun_eq_iff)
    ultimately show ?thesis using IH by simp
  next
    case failed
    with Cons.prems(2) q show ?thesis by (auto simp: map_le_def)
  qed
qed (simp add: restrict_map_def)

lemma map_of_delete_all: "map_of (foldl (\<lambda>m i. AList.delete i m) m ids) = (map_of m) |` (- set ids)"
proof (induction ids arbitrary: m)
  case (Cons i ids)
  show ?case
    by (simp add: Cons.IH delete_conv') (auto simp: restrict_map_def fun_eq_iff)
qed (simp add: restrict_map_def)

lemma foldl_delete_subset: "set (foldl (\<lambda>m i. AList.delete i m) m ids) \<subseteq> set m"
proof (induction ids arbitrary: m)
  case (Cons i ids)
  have "set (foldl (\<lambda>m i. AList.delete i m) (AList.delete i m) ids) \<subseteq> set (AList.delete i m)"
    by (rule Cons.IH)
  also have "\<dots> \<subseteq> set m" by (rule set_delete_subset)
  finally show ?case by simp
qed simp

lemma foldl_delete_distinct:
  "distinct (map fst m) \<Longrightarrow> distinct (map fst (foldl (\<lambda>m i. AList.delete i m) m ids))"
  by (induction ids arbitrary: m) (simp_all add: distinct_delete)

lemma map_le_restrict: "f \<subseteq>\<^sub>m g \<Longrightarrow> f |` A \<subseteq>\<^sub>m g |` A"
  by (auto simp: map_le_def restrict_map_def dom_def split: if_splits)

lemma remove_subject_cases:
  assumes "acl_inv s" and "remove_subject uid s = (res, s')"
  shows "acl_inv s' \<and> (res \<noteq> Inr () \<longrightarrow> acl_cache s' = acl_cache s) \<and>
         (res = Inr () \<longrightarrow> (acl_coherent s \<longrightarrow> acl_coherent s') \<and>
            map_of (acl_cache s') = (map_of (acl_cache s)) |`
              (- set (map entry_id (filter (\<lambda>e. entry_subject e = uid) (map snd (acl_cache s))))))"
proof -
  let ?ids = "map entry_id (filter (\<lambda>e. entry_subject e = uid) (map snd (acl_cache s)))"
  obtain r st where d: "delete_all ?ids (acl_store s) = (r, st)" by fastforce
  have inv: "store_wf (acl_store s)" "records (acl_store s) \<subseteq>\<^sub>m map_of (acl_cache s)"
      "distinct (map fst (acl_cache s))"
      "\<forall>(i, e) \<in> set (acl_cache s). entry_id e = i \<and> normal_path (entry_path e)"
    using assms(1) by (auto simp: acl_inv_def)
  note st = delete_all_cases [OF inv(1) d]
  show ?thesis
  proof (cases r)
    case (Inl e)
    with assms(2) d have "res = Inl e" "s' = s\<lparr>acl_store := st\<rparr>" by (auto simp: remove_subject_def Let_def)
    with st inv show ?thesis by (auto simp: acl_inv_def intro: map_le_trans)
  next
    case (Inr u)
    let ?c = "foldl (\<lambda>m i. AList.delete i m) (acl_cache s) ?ids"
    from assms(2) d Inr have r: "res = Inr ()" "s' = \<lparr>acl_store = st, acl_cache = ?c\<rparr>"
      by (auto simp: remove_subject_def Let_def)
    have "records st = (records (acl_store s)) |` (- set ?ids)" using st Inr by simp
    moreover have "map_of ?c = (map_of (acl_cache s)) |` (- set ?ids)" by (rule map_of_delete_all)
    moreover have "\<forall>(i, e) \<in> set ?c. entry_id e = i \<and> normal_path (entry_path e)"
      using inv(4) foldl_delete_subset [of "acl_cache s" ?ids] by fastforce
    ultimately show ?thesis
      using r st map_le_restrict [OF inv(2), of "- set ?ids"] foldl_delete_distinct [OF inv(3), of ?ids]
      by (simp add: acl_inv_def acl_coherent_def)
  qed
qed

lemma map_of_mem: "map_of m i = Some v \<Longrightarrow> (i, v) \<in> set m"
  by (rule map_of_SomeD)

subsection \<open>Properties of the service\<close>

text \<open>
  No stored grant is ever invisible: for every outcome of the disk, creating, deleting and
  removing entries keep the cache a superset of the records on disk, filed under their own identifiers
  and with normal paths; creation and deletion, and a removal that succeeds, keep the cache equal to
  the disk when it was, and a removal that fails leaves the cache as it was.
\<close>

theorem acl_operations_keep_invariant:
  assumes "acl_inv s"
  shows "(acl_create new_id now p subj nm r pr s = (res, s1) \<longrightarrow>
            acl_inv s1 \<and> (acl_coherent s \<longrightarrow> acl_coherent s1)) \<and>
         (acl_delete i s = (res', s2) \<longrightarrow> acl_inv s2 \<and> (acl_coherent s \<longrightarrow> acl_coherent s2)) \<and>
         (remove_subject uid s = (res', s3) \<longrightarrow> acl_inv s3 \<and>
            (acl_coherent s \<and> res' = Inr () \<longrightarrow> acl_coherent s3) \<and>
            (res' \<noteq> Inr () \<longrightarrow> acl_cache s3 = acl_cache s))"
  using acl_create_inv [OF assms] acl_delete_inv [OF assms] remove_subject_cases [OF assms] by blast

definition sample_acl :: acl_service where
  "sample_acl = \<lparr>acl_store = \<lparr>dir_display = ''/s'', dir_exists = True,
       files = [(''e1.json'', Json sample_entry)], faults = []\<rparr>,
     acl_cache = [(''e1'', sample_entry)]\<rparr>"

lemma sample_acl_inv: "acl_inv sample_acl"
proof -
  have n: "normal_path ''/vms/1''"
    by (rule normalize_path_normal [of "''/vms/1''"]) code_simp
  have e1: "i @ ''.json'' = ''e1.json'' \<longleftrightarrow> i = ''e1''" for i
    using record_names_distinct(1) [of i "''e1''"] by simp
  show ?thesis
    using n by (auto simp: acl_inv_def sample_acl_def store_wf_def sample_entry_def records_def
        map_le_def e1 split: if_splits)
qed

theorem acl_operations_keep_invariant_witness:
  "acl_inv sample_acl \<and> acl_inv (snd (remove_subject ''u1'' sample_acl)) \<and>
   acl_cache (snd (remove_subject ''u1'' sample_acl)) = []"
proof -
  obtain r s3 where d: "remove_subject ''u1'' sample_acl = (r, s3)" by fastforce
  have "acl_cache (snd (remove_subject ''u1'' sample_acl)) = []" by code_simp
  moreover have "acl_inv s3"
    using acl_operations_keep_invariant [OF sample_acl_inv, of "[]" "[]" "[]" "[]" "[]" Viewer False
        "Inl (internal [])" sample_acl "[]" r sample_acl "''u1''" s3] d by blast
  ultimately show ?thesis using d sample_acl_inv by simp
qed

text \<open>The entries of one subject, by identifier, and what is left of them.\<close>

lemma subject_ids:
  assumes "acl_inv s"
  shows "i \<in> set (map entry_id (filter (\<lambda>e. entry_subject e = uid) (map snd (acl_cache s)))) \<longleftrightarrow>
    (\<exists>e. map_of (acl_cache s) i = Some e \<and> entry_subject e = uid)" (is "i \<in> ?ids \<longleftrightarrow> _")
proof
  have key: "entry_id e = i" if "map_of (acl_cache s) i = Some e" for i e
    using assms map_of_mem [OF that] by (auto simp: acl_inv_def)
  have d: "distinct (map fst (acl_cache s))" using assms by (simp add: acl_inv_def)
  show "\<exists>e. map_of (acl_cache s) i = Some e \<and> entry_subject e = uid" if "i \<in> ?ids"
  proof -
    from that obtain j e where "(j, e) \<in> set (acl_cache s)" "entry_subject e = uid" "entry_id e = i" by auto
    with d key show ?thesis by (metis map_of_is_SomeI)
  qed
  show "i \<in> ?ids" if "\<exists>e. map_of (acl_cache s) i = Some e \<and> entry_subject e = uid"
    using that key map_of_mem by (force simp: image_iff)
qed

lemma remove_subject_gone:
  assumes "acl_inv s" and "remove_subject uid s = (Inr (), s')" and "map_of (acl_cache s') i = Some e"
  shows "entry_subject e \<noteq> uid"
proof -
  from remove_subject_cases [OF assms(1,2)] assms(3) subject_ids [OF assms(1), of i uid] show ?thesis
    by (auto simp: restrict_map_def split: if_splits)
qed

lemma no_entries_left:
  assumes "acl_inv s" and "remove_subject uid s = (Inr (), s')"
  shows "entries_for_subject s' uid = []"
proof -
  have "distinct (map fst (acl_cache s'))"
    using remove_subject_cases [OF assms] by (auto simp: acl_inv_def)
  then show ?thesis
    unfolding entries_for_subject_def filter_empty_conv set_map
    using remove_subject_gone [OF assms] map_of_is_SomeI by fastforce
qed

text \<open>
  Deleting an account leaves no dangling grant: after a successful removal neither the cache nor
  the disk holds an entry of that user, so that no explicit grant of it is ever resolved again, and
  the entries of every other user are unchanged.
\<close>

theorem remove_subject_complete:
  assumes "acl_inv s" and "remove_subject uid s = (Inr (), s')"
  shows "entries_for_subject s' uid = [] \<and>
         (\<forall>e \<in> ran (records (acl_store s')). entry_subject e \<noteq> uid) \<and>
         (\<forall>i e. entry_subject e \<noteq> uid \<longrightarrow>
            (map_of (acl_cache s') i = Some e \<longleftrightarrow> map_of (acl_cache s) i = Some e))"
proof -
  from remove_subject_cases [OF assms] have inv': "acl_inv s'"
    and m: "map_of (acl_cache s') = (map_of (acl_cache s)) |`
      (- set (map entry_id (filter (\<lambda>e. entry_subject e = uid) (map snd (acl_cache s)))))" by blast+
  have "\<forall>e \<in> ran (records (acl_store s')). entry_subject e \<noteq> uid"
    using inv' remove_subject_gone [OF assms] by (force simp: acl_inv_def ran_def map_le_def dom_def)
  moreover have "map_of (acl_cache s') i = Some e \<longleftrightarrow> map_of (acl_cache s) i = Some e"
    if "entry_subject e \<noteq> uid" for i e
    using that subject_ids [OF assms(1), of i uid] unfolding m by (auto simp: restrict_map_def)
  ultimately show ?thesis using no_entries_left [OF assms] by blast
qed

theorem remove_subject_complete_witness:
  "\<exists>s'. remove_subject ''u1'' sample_acl = (Inr (), s') \<and> entries_for_subject s' ''u1'' = [] \<and>
     entries_for_subject sample_acl ''u1'' = [sample_entry]"
proof -
  have "fst (remove_subject ''u1'' sample_acl) = Inr ()" by code_simp
  then obtain s' where r: "remove_subject ''u1'' sample_acl = (Inr (), s')" by (metis prod.collapse)
  have "entries_for_subject sample_acl ''u1'' = [sample_entry]" by code_simp
  with r remove_subject_complete [OF sample_acl_inv r] show ?thesis by blast
qed

end
