(* ===== verification/Totp.thy ===== *)
theory Totp
  imports Broker_Protocol
begin

unbundle bit_operations_syntax

section \<open>Time-based one-time passwords (src/src/services/totp.rs)\<close>

text \<open>
  HMAC-SHA1 and base32 are code of other crates and are arguments of the definitions: \<open>hmac key msg\<close>
  is the digest, \<open>b32_decode\<close> the decoder of the RFC 4648 alphabet. What is relied on is that a SHA-1
  digest has twenty bytes, the hypothesis \<open>sha1_hmac\<close>. Counters are 64-bit and truncated values
  32-bit words, as in the code; an index outside the digest, a panic in Rust, is \<open>None\<close>. The
  properties are that verification accepts exactly the codes of the current time step and its two
  neighbours, with no wrap-around, and that the provisioning URI can be decoded.
\<close>

definition PERIOD_SECS :: u64 where
  "PERIOD_SECS = 30"

definition DIGITS :: nat where
  "DIGITS = 6"

definition to_be_bytes :: "u64 \<Rightarrow> str" where
  "to_be_bytes w = map (\<lambda>i. char_of (unat w div 256 ^ i mod 256)) [7, 6, 5, 4, 3, 2, 1, 0]"

definition u32_of_byte :: "char \<Rightarrow> u32" where
  "u32_of_byte c = of_nat (byte c)"

definition pad_left :: "nat \<Rightarrow> str \<Rightarrow> str" where
  "pad_left n s = replicate (n - length s) (CHR ''0'') @ s"

definition truncate_digest :: "str \<Rightarrow> u32 option" where
  "truncate_digest digest =
     (if digest = [] then None
      else let offset = byte (last digest) mod 16 in
        (case (nth_opt digest offset, nth_opt digest (offset + 1), nth_opt digest (offset + 2),
               nth_opt digest (offset + 3)) of
           (Some a, Some b, Some c, Some d) \<Rightarrow>
             Some (push_bit 24 (u32_of_byte a AND 0x7F) OR push_bit 16 (u32_of_byte b)
                   OR push_bit 8 (u32_of_byte c) OR u32_of_byte d)
         | _ \<Rightarrow> None))"

definition hotp :: "(str \<Rightarrow> str \<Rightarrow> str) \<Rightarrow> str \<Rightarrow> u64 \<Rightarrow> str option" where
  "hotp hmac key counter =
     map_option (\<lambda>bin. pad_left DIGITS (show_nat (unat (bin mod (10 ^ DIGITS)))))
       (truncate_digest (hmac key (to_be_bytes counter)))"

text \<open>Constant-time comparison: the differences of all bytes are collected.\<close>

definition ct_eq :: "str \<Rightarrow> str \<Rightarrow> bool" where
  "ct_eq a b \<longleftrightarrow>
     length a = length b \<and>
     foldl (\<lambda>(diff :: u8) (x, y). diff OR (of_nat (byte x) XOR of_nat (byte y))) 0 (zip a b) = 0"

definition window_counters :: "u64 \<Rightarrow> u64 list" where
  "window_counters step = filter (\<lambda>counter. \<not> step + 1 < counter) [step - 1, step, step + 1]"

definition verify ::
  "(str \<Rightarrow> str \<Rightarrow> str) \<Rightarrow> (str \<Rightarrow> str option) \<Rightarrow> str \<Rightarrow> str \<Rightarrow> u64 \<Rightarrow> bool" where
  "verify hmac b32_decode secret_b32 raw_code unix_time =
     (let code = trim raw_code in
      if length code \<noteq> DIGITS \<or> \<not> list_all is_ascii_digit code then False
      else (case b32_decode (to_ascii_uppercase secret_b32) of
              None \<Rightarrow> False
            | Some key \<Rightarrow>
                if key = [] then False
                else list_ex (\<lambda>counter.
                       case hotp hmac key counter of None \<Rightarrow> False | Some expected \<Rightarrow> ct_eq expected code)
                     (window_counters (unix_time div PERIOD_SECS))))"

definition unreserved :: "char \<Rightarrow> bool" where
  "unreserved b \<longleftrightarrow> is_ascii_alphanumeric b \<or> b \<in> set ''-._~''"

definition hex_upper :: "nat \<Rightarrow> char" where
  "hex_upper n = (if n < 10 then char_of (48 + n) else char_of (55 + n))"

definition percent_encode :: "str \<Rightarrow> str" where
  "percent_encode s =
     concat (map (\<lambda>b. if unreserved b then [b]
                     else [CHR ''%'', hex_upper (byte b div 16), hex_upper (byte b mod 16)]) s)"

definition provisioning_uri :: "str \<Rightarrow> str \<Rightarrow> str \<Rightarrow> str" where
  "provisioning_uri secret_b32 issuer account =
     ''otpauth://totp/'' @ percent_encode issuer @ '':'' @ percent_encode account
       @ ''?secret='' @ secret_b32 @ ''&issuer='' @ percent_encode issuer
       @ ''&algorithm=SHA1&digits='' @ show_nat DIGITS @ ''&period='' @ show_nat (unat PERIOD_SECS)"

subsection \<open>Lemmas\<close>

definition sha1_hmac :: "(str \<Rightarrow> str \<Rightarrow> str) \<Rightarrow> bool" where
  "sha1_hmac hmac \<longleftrightarrow> (\<forall>key msg. length (hmac key msg) = 20)"

lemma truncate_digest_20: "length digest = 20 \<Longrightarrow> \<exists>bin. truncate_digest digest = Some bin"
proof -
  assume len: "length digest = 20"
  have "byte (last digest) mod 16 < 16" by simp
  then have "byte (last digest) mod 16 + 3 < 20" by linarith
  with len show ?thesis by (auto simp: truncate_digest_def Let_def nth_opt_def)
qed

lemma hotp_six_digits:
  assumes "sha1_hmac hmac"
  shows "\<exists>code. hotp hmac key counter = Some code \<and> length code = 6 \<and> list_all is_ascii_digit code"
proof -
  obtain bin where bin: "truncate_digest (hmac key (to_be_bytes counter)) = Some bin"
    using assms truncate_digest_20 unfolding sha1_hmac_def by metis
  let ?n = "unat (bin mod 10 ^ 6)"
  have "?n < 10 ^ 6" by (simp add: unat_mod)
  then have "length (show_nat ?n) \<le> 6" by (rule length_show_nat) simp
  moreover have "list_all is_ascii_digit (show_nat ?n)"
    using show_nat_digits by (auto simp: list_all_iff)
  moreover have "is_ascii_digit (CHR ''0'')" by (simp add: is_ascii_digit_def byte_def)
  ultimately have "length (pad_left 6 (show_nat ?n)) = 6"
      "list_all is_ascii_digit (pad_left 6 (show_nat ?n))"
    by (auto simp: pad_left_def list_all_iff)
  then show ?thesis by (simp add: hotp_def bin DIGITS_def)
qed

lemma u8_byte_inject: "(of_nat (byte x) :: u8) = of_nat (byte y) \<longleftrightarrow> x = y"
proof -
  have "unat (of_nat (byte c) :: u8) = byte c" for c
    using byte_less [of c] by (simp add: unat_of_nat)
  then show ?thesis by (metis byte_inject)
qed

lemma or_eq_0: "(a :: u8) OR b = 0 \<longleftrightarrow> a = 0 \<and> b = 0"
  by (auto simp: bit_eq_iff bit_or_iff)

lemma xor_eq_0: "(a :: u8) XOR b = 0 \<longleftrightarrow> a = b"
  by (auto simp: bit_eq_iff bit_xor_iff)

lemma foldl_or_eq_0:
  "foldl (\<lambda>(d :: u8) p. d OR f p) d ps = 0 \<longleftrightarrow> d = 0 \<and> (\<forall>p \<in> set ps. f p = 0)"
proof (induction ps arbitrary: d)
  case (Cons p ps)
  show ?case unfolding foldl_Cons Cons.IH or_eq_0 by simp
qed simp

lemma byte_diff_eq_0: "(of_nat (byte x) :: u8) XOR of_nat (byte y) = 0 \<longleftrightarrow> x = y"
  by (simp only: xor_eq_0 u8_byte_inject)

lemma zip_all_equal: "length a = length b \<Longrightarrow> (\<forall>p \<in> set (zip a b). fst p = snd p) \<longleftrightarrow> a = b"
  by (induction a b rule: list_induct2) auto

lemma ct_eq_iff: "ct_eq a b \<longleftrightarrow> a = b"
proof -
  have "ct_eq a b \<longleftrightarrow> length a = length b \<and> (\<forall>p \<in> set (zip a b). fst p = snd p)"
    unfolding ct_eq_def case_prod_unfold foldl_or_eq_0 byte_diff_eq_0 by blast
  then show ?thesis using zip_all_equal by blast
qed

lemma step_bound: "unat (t div PERIOD_SECS) < 2 ^ 60"
proof -
  have "unat t < 2 ^ LENGTH(64)" by (rule unsigned_less)
  then show ?thesis by (simp add: PERIOD_SECS_def unat_div)
qed

lemma window_counters_exact:
  assumes "unat step < 2 ^ 60"
  shows "counter \<in> set (window_counters step) \<longleftrightarrow>
         unat counter + 1 = unat step \<or> unat counter = unat step \<or> unat counter = unat step + 1"
proof -
  have up: "unat (step + 1) = unat step + 1"
    using assms by (subst unat_add_lem [THEN iffD1]) simp_all
  have down: "unat (step - 1) = unat step - 1" if "step \<noteq> 0"
    using that by (simp add: unat_minus_one)
  have wrap: "step + 1 < step - 1" if "step = 0"
    using that by (simp add: word_less_nat_alt unsigned_minus_1_eq_mask mask_eq_exp_minus_1)
  have no_wrap: "\<not> step + 1 < step - 1" if "step \<noteq> 0"
    using that up down by (simp add: word_less_nat_alt)
  have pos: "0 < unat step" if "step \<noteq> 0" using that by (simp add: unat_gt_0)
  have eq: "counter = c \<longleftrightarrow> unat counter = unat c" for c :: u64
    by (rule word_unat_eq_iff)
  show ?thesis
  proof (cases "step = 0")
    case True
    then have "set (window_counters step) = {0, 1}"
      using wrap by (auto simp: window_counters_def word_less_nat_alt)
    with True show ?thesis by (auto simp: eq)
  next
    case False
    then have "set (window_counters step) = {step - 1, step, step + 1}"
      using no_wrap up by (auto simp: window_counters_def word_less_nat_alt)
    with False show ?thesis using up down pos by (auto simp: eq)
  qed
qed

lemma hex_upper_unreserved: "n < 16 \<Longrightarrow> unreserved (hex_upper n)"
  by (auto simp: hex_upper_def unreserved_def is_ascii_alphanumeric_def is_ascii_digit_def
      is_ascii_upper_def)

text \<open>The inverse a URI reader applies (RFC 3986, section 2.1).\<close>

definition hex_value :: "char \<Rightarrow> nat" where
  "hex_value c = (if is_ascii_digit c then byte c - 48 else byte c - 55)"

fun percent_decode :: "str \<Rightarrow> str" where
  "percent_decode (c # h # l # s) =
     (if c = CHR ''%'' then char_of (16 * hex_value h + hex_value l) # percent_decode s
      else c # percent_decode (h # l # s))"
| "percent_decode s = s"

lemma hex_value_upper: "n < 16 \<Longrightarrow> hex_value (hex_upper n) = n"
  by (auto simp: hex_value_def hex_upper_def is_ascii_digit_def)

lemma percent_decode_plain: "c \<noteq> CHR ''%'' \<Longrightarrow> percent_decode (c # s) = c # percent_decode s"
  by (cases s; cases "tl s") auto

lemma percent_encode_Cons:
  "percent_encode (b # s) =
     (if unreserved b then [b] else [CHR ''%'', hex_upper (byte b div 16), hex_upper (byte b mod 16)])
       @ percent_encode s"
  by (simp add: percent_encode_def)

lemma percent_roundtrip: "percent_decode (percent_encode s) = s"
proof (induction s)
  case (Cons b s)
  show ?case
  proof (cases "unreserved b")
    case True
    then have "b \<noteq> CHR ''%''"
      by (auto simp: unreserved_def is_ascii_alphanumeric_def is_ascii_digit_def is_ascii_lower_def
          is_ascii_upper_def byte_def)
    with True Cons show ?thesis by (simp add: percent_encode_Cons percent_decode_plain)
  next
    case False
    have "byte b div 16 < 16" using byte_less [of b] by linarith
    moreover have "16 * (byte b div 16) + byte b mod 16 = byte b" by simp
    moreover have "char_of (byte b) = b" by (simp add: byte_def)
    ultimately show ?thesis
      using False Cons by (simp add: percent_encode_Cons hex_value_upper)
  qed
qed (simp add: percent_encode_def)

lemma percent_encode_chars: "c \<in> set (percent_encode s) \<Longrightarrow> unreserved c \<or> c = CHR ''%''"
proof (induction s)
  case (Cons b s)
  have "byte b div 16 < 16" using byte_less [of b] by linarith
  then have "unreserved (hex_upper (byte b div 16))" "unreserved (hex_upper (byte b mod 16))"
    by (simp_all add: hex_upper_unreserved)
  with Cons show ?case by (auto simp: percent_encode_Cons split: if_splits)
qed (simp add: percent_encode_def)

subsection \<open>Properties of the second factor\<close>

text \<open>
  A code is accepted exactly when, trimmed, it is six digits and equals the HOTP value of the
  decoded secret for the current 30-second step, the step before or the step after; at the epoch,
  where the step before does not exist, the wrapped counter is never used. A secret that does not
  decode or is empty accepts nothing.
\<close>

theorem verify_accepts_window:
  "verify hmac b32_decode secret code t \<longleftrightarrow>
     length (trim code) = 6 \<and> list_all is_ascii_digit (trim code) \<and>
     (\<exists>key counter. b32_decode (to_ascii_uppercase secret) = Some key \<and> key \<noteq> [] \<and>
        hotp hmac key counter = Some (trim code) \<and>
        (unat counter + 1 = unat t div 30 \<or> unat counter = unat t div 30 \<or>
         unat counter = unat t div 30 + 1))"
proof -
  have step: "unat (t div PERIOD_SECS) = unat t div 30" by (simp add: PERIOD_SECS_def unat_div)
  have "list_ex (\<lambda>counter. case hotp hmac key counter of None \<Rightarrow> False
            | Some expected \<Rightarrow> ct_eq expected c) (window_counters (t div PERIOD_SECS)) \<longleftrightarrow>
        (\<exists>counter. hotp hmac key counter = Some c \<and>
          (unat counter + 1 = unat t div 30 \<or> unat counter = unat t div 30 \<or>
           unat counter = unat t div 30 + 1))" for key c
    unfolding list_ex_iff Bex_def window_counters_exact [OF step_bound] step
    by (auto simp: ct_eq_iff split: option.splits)
  then show ?thesis
    by (auto simp: verify_def Let_def DIGITS_def split: option.splits)
qed

text \<open>
  With a 20-byte digest the dynamic truncation never indexes outside it, and the generated code
  is always exactly six decimal digits.
\<close>

theorem hotp_total_six_digits:
  assumes "sha1_hmac hmac"
  shows "\<exists>code. hotp hmac key counter = Some code \<and> length code = 6 \<and> list_all is_ascii_digit code"
  using assms by (rule hotp_six_digits)

theorem hotp_total_six_digits_witness:
  "\<exists>code. hotp (\<lambda>key msg. replicate 20 (CHR 0xFF)) ''k'' 1 = Some code \<and> length code = 6 \<and>
     list_all is_ascii_digit code"
  by (rule hotp_total_six_digits) (simp add: sha1_hmac_def)

text \<open>
  Percent-encoding is injective and closed: the encoded issuer and account decode back to the
  originals, and hold no character outside the unreserved set and the percent sign, so that neither
  can add a path separator, a query parameter or a label separator to the provisioning URI.
\<close>

theorem percent_encode_safe:
  "percent_decode (percent_encode s) = s \<and>
   list_all (\<lambda>c. unreserved c \<or> c = CHR ''%'') (percent_encode s)"
  using percent_roundtrip percent_encode_chars by (simp add: list_all_iff)

end
