(* ===== verification/Auth.thy ===== *)
theory Auth
  imports Rbac Store Totp
begin

section \<open>Accounts and sessions (src/src/services/auth.rs)\<close>

text \<open>
  The authentication service: persisted accounts behind a cache, in-memory sessions, passwords,
  and the TOTP second factor with its recovery codes. The service's mutex makes each account mutation
  one step, and every step goes through the record store with its faults. What a call takes from
  outside is the record \<open>auth_env\<close>: the clock, fresh identifiers and random bytes, and the functions of
  other crates (argon2, SHA-256, HMAC, base32). Times are seconds; the expiry of a session is computed
  exactly, for lifetimes inside the range of the clock library.
\<close>

subsection \<open>State\<close>

record two_factor =
  tf_secret :: "str option"
  tf_enabled :: bool
  recovery_hashes :: "str list"

definition no_two_factor :: two_factor where
  "no_two_factor = \<lparr>tf_secret = None, tf_enabled = False, recovery_hashes = []\<rparr>"

record stored_user =
  su_user :: user
  password_hash :: str
  must_change_password :: bool
  two_factor :: two_factor

record session =
  session_user :: str
  expires_at :: int

record auth_service =
  user_store :: "stored_user jstore"
  users :: "(str \<times> stored_user) list"
  tokens :: "(str \<times> session) list"
  token_ttl_secs :: u64

datatype pw_check = BadHash str | Mismatch | Match

record auth_env =
  now :: int
  rfc3339 :: "int \<Rightarrow> str"
  fresh_id :: str
  token_bytes :: str
  code_bytes :: "str list"
  fresh_secret :: str
  argon2_hash :: "str \<Rightarrow> str + str"
  argon2_verify :: "str \<Rightarrow> str \<Rightarrow> pw_check"
  sha256 :: "str \<Rightarrow> str"
  hmac_sha1 :: "str \<Rightarrow> str \<Rightarrow> str"
  b32_decode :: "str \<Rightarrow> str option"
  secret_file :: "str option"

definition MIN_PASSWORD_LEN :: nat where
  "MIN_PASSWORD_LEN = 8"

definition RECOVERY_CODE_COUNT :: nat where
  "RECOVERY_CODE_COUNT = 10"

definition now_ts :: "auth_env \<Rightarrow> str" where
  "now_ts e = rfc3339 e (now e)"

definition now_unix :: "auth_env \<Rightarrow> u64" where
  "now_unix e = of_int (max (now e) 0)"

subsection \<open>Secrets\<close>

definition hex_lower :: "str \<Rightarrow> str" where
  "hex_lower bytes = concat (map (\<lambda>b. [hex_digit (byte b div 16), hex_digit (byte b mod 16)]) bytes)"

definition mint_token :: "auth_env \<Rightarrow> str" where
  "mint_token e = hex_lower (token_bytes e)"

definition generate_initial_password :: "auth_env \<Rightarrow> str" where
  "generate_initial_password e = hex_lower (take 18 (token_bytes e))"

definition recovery_code :: "str \<Rightarrow> str" where
  "recovery_code bytes = take 5 (hex_lower bytes) @ ''-'' @ drop 5 (hex_lower bytes)"

definition generate_recovery_codes :: "auth_env \<Rightarrow> str list" where
  "generate_recovery_codes e = map recovery_code (take RECOVERY_CODE_COUNT (code_bytes e))"

definition hash_recovery_code :: "auth_env \<Rightarrow> str \<Rightarrow> str" where
  "hash_recovery_code e code =
     hex_lower (sha256 e (to_ascii_lowercase (filter is_ascii_alphanumeric code)))"

definition verify_password :: "auth_env \<Rightarrow> str \<Rightarrow> str \<Rightarrow> unit api_result" where
  "verify_password e password hash =
     (case argon2_verify e password hash of
        BadHash m \<Rightarrow> Inl (internal (''bad password hash: '' @ m))
      | Mismatch \<Rightarrow> Inl (unauthorized ''invalid credentials'')
      | Match \<Rightarrow> Inr ())"

definition hash_password :: "auth_env \<Rightarrow> str \<Rightarrow> str \<Rightarrow> str api_result" where
  "hash_password e what password =
     (case argon2_hash e password of
        Inl m \<Rightarrow> Inl (internal (what @ '': '' @ m)) | Inr h \<Rightarrow> Inr h)"

definition password_too_short :: app_error where
  "password_too_short = validation (''password must be at least '' @ show_nat MIN_PASSWORD_LEN @ '' characters'')"

subsection \<open>Start-up\<close>

text \<open>\<open>save_user\<close> is the pair of statements every mutation ends with: \<open>store.put\<close>, then the insertion
  into the cache when it succeeded.\<close>

definition save_user :: "str \<Rightarrow> stored_user \<Rightarrow> auth_service \<Rightarrow> unit api_result \<times> auth_service" where
  "save_user i stored s =
     (case Store.put i stored (user_store s) of
        (Inl e, st) \<Rightarrow> (Inl e, s\<lparr>user_store := st\<rparr>)
      | (Inr _, st) \<Rightarrow> (Inr (), s\<lparr>user_store := st, users := AList.update i stored (users s)\<rparr>))"

abbreviation stored_id :: "stored_user \<Rightarrow> str" where
  "stored_id u \<equiv> user_id (su_user u)"

definition seed_password :: "auth_env \<Rightarrow> str option \<Rightarrow> (str \<times> bool) api_result" where
  "seed_password e admin_password =
     (case admin_password of
        Some password \<Rightarrow>
          if length password < MIN_PASSWORD_LEN
          then Inl (validation (''DAYGLEVE_ADMIN_PASSWORD must be at least ''
                 @ show_nat MIN_PASSWORD_LEN @ '' characters''))
          else Inr (password, False)
      | None \<Rightarrow>
          (case secret_file e of
             Some m \<Rightarrow> Inl (internal m)
           | None \<Rightarrow> Inr (generate_initial_password e, True)))"

definition load_or_seed ::
  "auth_env \<Rightarrow> str option \<Rightarrow> auth_service \<Rightarrow> unit api_result \<times> auth_service" where
  "load_or_seed e admin_password s =
     (case Store.list (user_store s) of
        (Inl er, st) \<Rightarrow> (Inl er, s\<lparr>user_store := st\<rparr>)
      | (Inr existing, st) \<Rightarrow>
          (let s = s\<lparr>user_store := st\<rparr> in
           if existing \<noteq> [] then (Inr (), s\<lparr>users := load_cache stored_id (users s) existing\<rparr>)
           else
             (case seed_password e admin_password of
                Inl er \<Rightarrow> (Inl er, s)
              | Inr (password, must_change) \<Rightarrow>
                  (case hash_password e ''failed to hash admin password'' password of
                     Inl er \<Rightarrow> (Inl er, s)
                   | Inr h \<Rightarrow>
                       save_user (fresh_id e)
                         \<lparr>su_user = \<lparr>user_id = fresh_id e, username = ''admin'', roles = [Admin],
                                     created_at = now_ts e, last_login_at = None\<rparr>,
                          password_hash = h, must_change_password = must_change,
                          two_factor = no_two_factor\<rparr> s))))"

subsection \<open>Second factor\<close>

definition verify_second_factor ::
  "auth_env \<Rightarrow> str \<Rightarrow> str option \<Rightarrow> str \<Rightarrow> auth_service \<Rightarrow> unit api_result \<times> auth_service" where
  "verify_second_factor e uid secret code s =
     (if (case secret of None \<Rightarrow> False
          | Some sec \<Rightarrow> Totp.verify (hmac_sha1 e) (b32_decode e) sec code (now_unix e))
      then (Inr (), s)
      else
        (let target = hash_recovery_code e code in
         case map_of (users s) uid of
           None \<Rightarrow> (Inl (unauthorized ''invalid credentials''), s)
         | Some stored \<Rightarrow>
             if target \<in> set (recovery_hashes (two_factor stored))
             then save_user uid
                    (stored\<lparr>two_factor := (two_factor stored)
                       \<lparr>recovery_hashes := remove1 target (recovery_hashes (two_factor stored))\<rparr>\<rparr>) s
             else (Inl (unauthorized ''invalid credentials''), s)))"

definition two_factor_enabled :: "str \<Rightarrow> auth_service \<Rightarrow> bool" where
  "two_factor_enabled uid s =
     (case map_of (users s) uid of None \<Rightarrow> False | Some u \<Rightarrow> tf_enabled (two_factor u))"

definition two_factor_setup ::
  "auth_env \<Rightarrow> str \<Rightarrow> auth_service \<Rightarrow> (str \<times> str) api_result \<times> auth_service" where
  "two_factor_setup e uid s =
     (case map_of (users s) uid of
        None \<Rightarrow> (Inl (unauthorized ''unknown user''), s)
      | Some stored \<Rightarrow>
          if tf_enabled (two_factor stored)
          then (Inl (conflict
            ''two-factor authentication is already enabled; disable it before re-enrolling''), s)
          else
            (let secret = fresh_secret e;
                 uri = provisioning_uri secret ''DaygleVE'' (username (su_user stored)) in
             case save_user uid (stored\<lparr>two_factor :=
                 \<lparr>tf_secret = Some secret, tf_enabled = False, recovery_hashes = []\<rparr>\<rparr>) s of
               (Inl er, s) \<Rightarrow> (Inl er, s)
             | (Inr _, s) \<Rightarrow> (Inr (secret, uri), s)))"

definition two_factor_confirm ::
  "auth_env \<Rightarrow> str \<Rightarrow> str \<Rightarrow> auth_service \<Rightarrow> str list api_result \<times> auth_service" where
  "two_factor_confirm e uid code s =
     (case map_of (users s) uid of
        None \<Rightarrow> (Inl (unauthorized ''unknown user''), s)
      | Some stored \<Rightarrow>
          if tf_enabled (two_factor stored)
          then (Inl (conflict ''two-factor authentication is already enabled''), s)
          else
            (case tf_secret (two_factor stored) of
               None \<Rightarrow> (Inl (conflict ''start two-factor setup before confirming a code''), s)
             | Some secret \<Rightarrow>
                 if \<not> Totp.verify (hmac_sha1 e) (b32_decode e) secret code (now_unix e)
                 then (Inl (validation ''the code is incorrect or has expired; try again''), s)
                 else
                   (let codes = generate_recovery_codes e in
                    case save_user uid (stored\<lparr>two_factor := (two_factor stored)
                        \<lparr>tf_enabled := True, recovery_hashes := map (hash_recovery_code e) codes\<rparr>\<rparr>) s of
                      (Inl er, s) \<Rightarrow> (Inl er, s)
                    | (Inr _, s) \<Rightarrow> (Inr codes, s))))"

definition two_factor_disable ::
  "auth_env \<Rightarrow> str \<Rightarrow> str \<Rightarrow> auth_service \<Rightarrow> unit api_result \<times> auth_service" where
  "two_factor_disable e uid code s =
     (case map_of (users s) uid of
        None \<Rightarrow> (Inl (unauthorized ''unknown user''), s)
      | Some stored \<Rightarrow>
          if \<not> tf_enabled (two_factor stored)
          then (Inl (conflict ''two-factor authentication is not enabled''), s)
          else
            bind_st (verify_second_factor e uid (tf_secret (two_factor stored)) code s) (\<lambda>_ s.
              case map_of (users s) uid of
                None \<Rightarrow> (Inl (unauthorized ''unknown user''), s)
              | Some stored \<Rightarrow> save_user uid (stored\<lparr>two_factor := no_two_factor\<rparr>) s))"

subsection \<open>Login and sessions\<close>

record login_request =
  lr_username :: str
  lr_password :: str
  lr_totp_code :: "str option"

record login_response =
  resp_token :: str
  resp_expires_at :: str
  resp_user :: user

definition find_by_name :: "auth_service \<Rightarrow> str \<Rightarrow> stored_user option" where
  "find_by_name s name =
     find (\<lambda>u. eq_ignore_ascii_case (username (su_user u)) (trim name)) (map snd (users s))"

text \<open>The second-factor gate of \<open>login\<close>.\<close>

definition second_factor_gate ::
  "auth_env \<Rightarrow> str \<Rightarrow> str option \<Rightarrow> auth_service \<Rightarrow> unit api_result \<times> auth_service" where
  "second_factor_gate e uid totp_code s =
     (case map_of (users s) uid of
        None \<Rightarrow> (Inr (), s)
      | Some stored \<Rightarrow>
          if \<not> tf_enabled (two_factor stored) then (Inr (), s)
          else
            (case map_option trim totp_code of
               None \<Rightarrow> (Inl (two_factor_required ''a two-factor authentication code is required''), s)
             | Some code \<Rightarrow>
                 if code = []
                 then (Inl (two_factor_required ''a two-factor authentication code is required''), s)
                 else verify_second_factor e uid (tf_secret (two_factor stored)) code s))"

definition mint_session ::
  "auth_env \<Rightarrow> str \<Rightarrow> auth_service \<Rightarrow> login_response api_result \<times> auth_service" where
  "mint_session e uid s =
     (case map_of (users s) uid of
        None \<Rightarrow> (Inl (unauthorized ''invalid credentials''), s)
      | Some stored \<Rightarrow>
          (let u = (su_user stored)\<lparr>last_login_at := Some (now_ts e)\<rparr>;
               ttl = min (uint (token_ttl_secs s)) (2 ^ 63 - 1);
               expiry = now e + ttl;
               token = mint_token e
           in (Inr \<lparr>resp_token = token, resp_expires_at = rfc3339 e expiry, resp_user = u\<rparr>,
               s\<lparr>users := AList.update uid (stored\<lparr>su_user := u\<rparr>) (users s),
                 tokens := AList.update token \<lparr>session_user = user_id u, expires_at = expiry\<rparr> (tokens s)\<rparr>)))"

definition login ::
  "auth_env \<Rightarrow> login_request \<Rightarrow> auth_service \<Rightarrow> login_response api_result \<times> auth_service" where
  "login e req s =
     (case find_by_name s (lr_username req) of
        None \<Rightarrow> (Inl (unauthorized ''invalid credentials''), s)
      | Some found \<Rightarrow>
          (case verify_password e (lr_password req) (password_hash found) of
             Inl er \<Rightarrow> (Inl er, s)
           | Inr _ \<Rightarrow>
               bind_st (second_factor_gate e (stored_id found) (lr_totp_code req) s) (\<lambda>_ s.
                 mint_session e (stored_id found) s)))"

definition logout :: "str \<Rightarrow> auth_service \<Rightarrow> auth_service" where
  "logout token s = s\<lparr>tokens := AList.delete token (tokens s)\<rparr>"

definition authenticate ::
  "auth_env \<Rightarrow> str \<Rightarrow> auth_service \<Rightarrow> current_user api_result \<times> auth_service" where
  "authenticate e token s =
     (case map_of (tokens s) token of
        None \<Rightarrow> (Inl (unauthorized ''invalid or expired token''), s)
      | Some sess \<Rightarrow>
          if expires_at sess \<le> now e
          then (Inl (unauthorized ''invalid or expired token''), logout token s)
          else
            (case map_of (users s) (session_user sess) of
               None \<Rightarrow> (Inl (unauthorized ''unknown user''), s)
             | Some u \<Rightarrow>
                 (Inr \<lparr>cu_user = su_user u, cu_permissions = effective_permissions (roles (su_user u)),
                       cu_must_change_password = must_change_password u,
                       cu_two_factor_enabled = tf_enabled (two_factor u), cu_grants = []\<rparr>, s)))"

definition user_by_id :: "str \<Rightarrow> auth_service \<Rightarrow> user option" where
  "user_by_id i s = map_option su_user (map_of (users s) i)"

definition list_users :: "auth_service \<Rightarrow> user list" where
  "list_users s = sort_key username (map (su_user \<circ> snd) (users s))"

subsection \<open>Account administration\<close>

definition is_admin :: "stored_user \<Rightarrow> bool" where
  "is_admin u \<longleftrightarrow> Admin \<in> set (roles (su_user u))"

definition admin_count :: "auth_service \<Rightarrow> nat" where
  "admin_count s = length (filter is_admin (map snd (users s)))"

record create_user_request =
  cr_username :: str
  cr_password :: str
  cr_roles :: "role list"

definition valid_username :: "str \<Rightarrow> bool" where
  "valid_username n \<longleftrightarrow>
     n \<noteq> [] \<and> length n \<le> 64 \<and> \<not> list_ex (\<lambda>c. is_control c \<or> is_whitespace c) (chars n)"

definition name_taken :: "auth_service \<Rightarrow> str \<Rightarrow> bool" where
  "name_taken s n \<longleftrightarrow> list_ex (\<lambda>u. eq_ignore_ascii_case (username (su_user u)) n) (map snd (users s))"

definition create_user ::
  "auth_env \<Rightarrow> create_user_request \<Rightarrow> auth_service \<Rightarrow> user api_result \<times> auth_service" where
  "create_user e req s =
     (let name = trim (cr_username req) in
      if \<not> valid_username name
      then (Inl (validation
        ''username must be 1..=64 characters with no whitespace or control characters''), s)
      else if length (cr_password req) < MIN_PASSWORD_LEN then (Inl password_too_short, s)
      else if name_taken s name then (Inl (conflict ''a user with that name already exists''), s)
      else
        (case hash_password e ''failed to hash password'' (cr_password req) of
           Inl er \<Rightarrow> (Inl er, s)
         | Inr h \<Rightarrow>
             (let u = \<lparr>user_id = fresh_id e, username = name, roles = cr_roles req,
                       created_at = now_ts e, last_login_at = None\<rparr> in
              case save_user (fresh_id e)
                  \<lparr>su_user = u, password_hash = h, must_change_password = False,
                   two_factor = no_two_factor\<rparr> s of
                (Inl er, s) \<Rightarrow> (Inl er, s)
              | (Inr _, s) \<Rightarrow> (Inr u, s))))"

record update_user_request =
  ur_roles :: "role list option"
  ur_password :: "str option"

definition revoke_user :: "str \<Rightarrow> auth_service \<Rightarrow> auth_service" where
  "revoke_user i s = s\<lparr>tokens := filter (\<lambda>(_, sess). session_user sess \<noteq> i) (tokens s)\<rparr>"

definition update_roles ::
  "role list option \<Rightarrow> auth_service \<Rightarrow> stored_user \<Rightarrow> stored_user api_result" where
  "update_roles new s stored =
     (case new of
        None \<Rightarrow> Inr stored
      | Some rs \<Rightarrow>
          if is_admin stored \<and> Admin \<notin> set rs \<and> admin_count s \<le> 1
          then Inl (conflict ''cannot remove the admin role from the last administrator'')
          else Inr (stored\<lparr>su_user := (su_user stored)\<lparr>roles := rs\<rparr>\<rparr>))"

definition update_password ::
  "auth_env \<Rightarrow> str option \<Rightarrow> stored_user \<Rightarrow> stored_user api_result" where
  "update_password e new stored =
     (case new of
        None \<Rightarrow> Inr stored
      | Some password \<Rightarrow>
          if length password < MIN_PASSWORD_LEN then Inl password_too_short
          else bind_res (hash_password e ''failed to hash password'' password) (\<lambda>h.
                 Inr (stored\<lparr>password_hash := h, must_change_password := False\<rparr>)))"

definition update_user ::
  "auth_env \<Rightarrow> str \<Rightarrow> update_user_request \<Rightarrow> auth_service \<Rightarrow> user api_result \<times> auth_service" where
  "update_user e i req s =
     (case map_of (users s) i of
        None \<Rightarrow> (Inl (not_found ''user not found''), s)
      | Some stored \<Rightarrow>
          (case bind_res (update_roles (ur_roles req) s stored) (update_password e (ur_password req)) of
             Inl er \<Rightarrow> (Inl er, s)
           | Inr stored' \<Rightarrow>
               (case save_user i stored' s of
                  (Inl er, s) \<Rightarrow> (Inl er, s)
                | (Inr _, s) \<Rightarrow>
                    (Inr (su_user stored'), if ur_password req = None then s else revoke_user i s))))"

definition delete_user :: "str \<Rightarrow> auth_service \<Rightarrow> unit api_result \<times> auth_service" where
  "delete_user i s =
     (case map_of (users s) i of
        None \<Rightarrow> (Inl (not_found ''user not found''), s)
      | Some target \<Rightarrow>
          if is_admin target \<and> admin_count s \<le> 1
          then (Inl (conflict ''cannot delete the last administrator''), s)
          else
            (case Store.delete i (user_store s) of
               (Inl er, st) \<Rightarrow> (Inl er, s\<lparr>user_store := st\<rparr>)
             | (Inr _, st) \<Rightarrow>
                 (Inr (), revoke_user i (s\<lparr>user_store := st, users := AList.delete i (users s)\<rparr>))))"

definition change_password ::
  "auth_env \<Rightarrow> str \<Rightarrow> str \<Rightarrow> str \<Rightarrow> str \<Rightarrow> auth_service \<Rightarrow> unit api_result \<times> auth_service" where
  "change_password e uid current_token current_password new_password s =
     (if length new_password < MIN_PASSWORD_LEN then (Inl password_too_short, s)
      else
        (case map_of (users s) uid of
           None \<Rightarrow> (Inl (unauthorized ''unknown user''), s)
         | Some stored \<Rightarrow>
             (case bind_res (verify_password e current_password (password_hash stored)) (\<lambda>_.
                     hash_password e ''failed to hash password'' new_password) of
                Inl er \<Rightarrow> (Inl er, s)
              | Inr h \<Rightarrow>
                  (case save_user uid (stored\<lparr>password_hash := h, must_change_password := False\<rparr>) s of
                     (Inl er, s) \<Rightarrow> (Inl er, s)
                   | (Inr _, s) \<Rightarrow>
                       (Inr (), s\<lparr>tokens := filter (\<lambda>(t, sess).
                          session_user sess \<noteq> uid \<or> t = current_token) (tokens s)\<rparr>)))))"

end
