(* ===== verification/Auth_Invariant.thy ===== *)
theory Auth_Invariant
  imports Auth
begin

section \<open>What the authentication service guarantees\<close>

text \<open>
  The invariant of the account base, its preservation by every call and by restarts, and the
  properties of login, sessions, passwords and the second factor. All account mutations end in
  \<open>save_user\<close>; its two lemmas, over the laws of the record store, carry the proofs.
\<close>

subsection \<open>Invariant\<close>

interpretation user_js: keyed_store store_wf records Store.put Store.get Store.delete Store.list
    "\<lambda>u. user_id (su_user u)"
  by unfold_locales

text \<open>The last login is kept in the cache only; everything else of an account is durable.\<close>

definition forget_login :: "stored_user \<Rightarrow> stored_user" where
  "forget_login u = u\<lparr>su_user := (su_user u)\<lparr>last_login_at := None\<rparr>\<rparr>"

definition unique_names :: "(str \<rightharpoonup> stored_user) \<Rightarrow> bool" where
  "unique_names m \<longleftrightarrow>
     (\<forall>i j u v. m i = Some u \<longrightarrow> m j = Some v \<longrightarrow>
        eq_ignore_ascii_case (username (su_user u)) (username (su_user v)) \<longrightarrow> i = j)"

definition keyed :: "(str \<rightharpoonup> stored_user) \<Rightarrow> bool" where
  "keyed m \<longleftrightarrow> (\<forall>i u. m i = Some u \<longrightarrow> stored_id u = i)"

definition auth_inv :: "auth_service \<Rightarrow> bool" where
  "auth_inv s \<longleftrightarrow>
     store_wf (user_store s) \<and> distinct (map fst (users s)) \<and> distinct (map fst (tokens s)) \<and>
     keyed (map_of (users s)) \<and> unique_names (map_of (users s)) \<and>
     map_option forget_login \<circ> map_of (users s) = map_option forget_login \<circ> records (user_store s)"

definition has_admin :: "(str \<rightharpoonup> stored_user) \<Rightarrow> bool" where
  "has_admin m \<longleftrightarrow> (\<exists>i u. m i = Some u \<and> is_admin u)"

lemma keyed_upd: "keyed m \<Longrightarrow> stored_id u = i \<Longrightarrow> keyed (m(i \<mapsto> u))"
  by (auto simp: keyed_def)

lemma unique_names_upd:
  "unique_names m \<Longrightarrow>
   (\<And>j v. m j = Some v \<Longrightarrow> j \<noteq> i \<Longrightarrow> \<not> eq_ignore_ascii_case (username (su_user v)) (username (su_user u))) \<Longrightarrow>
   unique_names (m(i \<mapsto> u))"
  unfolding unique_names_def by (auto dest: eq_ignore_case_sym)

lemma unique_names_same:
  assumes "unique_names m" and "m i = Some u" and "username (su_user u') = username (su_user u)"
  shows "unique_names (m(i \<mapsto> u'))"
  using assms(1)
proof (rule unique_names_upd)
  fix j v assume "m j = Some v" "j \<noteq> i"
  with assms show "\<not> eq_ignore_ascii_case (username (su_user v)) (username (su_user u'))"
    unfolding unique_names_def by metis
qed

lemma option_comp_upd: "map_option f \<circ> m(i \<mapsto> u) = (map_option f \<circ> m)(i \<mapsto> f u)"
  by (auto simp: fun_eq_iff)

lemma option_comp_del: "map_option f \<circ> m(i := None) = (map_option f \<circ> m)(i := None)"
  by (auto simp: fun_eq_iff)

lemma save_user_inv:
  assumes "auth_inv s" and "stored_id u = i" and "unique_names ((map_of (users s))(i \<mapsto> u))"
    and "save_user i u s = (r, s')"
  shows "auth_inv s' \<and> tokens s' = tokens s \<and>
         (case r of Inl _ \<Rightarrow> users s' = users s | Inr _ \<Rightarrow> map_of (users s') = (map_of (users s))(i \<mapsto> u))"
proof -
  have wf: "store_wf (user_store s)" using assms(1) by (simp add: auth_inv_def)
  obtain q st where q: "Store.put i u (user_store s) = (q, st)" by fastforce
  from wf q show ?thesis
  proof (cases rule: js.put_cases)
    case ok
    with assms q show ?thesis
      by (auto simp: save_user_def auth_inv_def update_conv' distinct_update keyed_upd option_comp_upd)
  next
    case failed
    with assms q show ?thesis by (auto simp: save_user_def auth_inv_def)
  qed
qed

lemma save_same_name:
  assumes "auth_inv s" and "map_of (users s) i = Some u" and "stored_id u' = stored_id u"
    and "username (su_user u') = username (su_user u)" and "save_user i u' s = (r, s')"
  shows "auth_inv s' \<and> tokens s' = tokens s \<and>
         (case r of Inl _ \<Rightarrow> users s' = users s | Inr _ \<Rightarrow> map_of (users s') = (map_of (users s))(i \<mapsto> u'))"
proof (rule save_user_inv [OF assms(1) _ _ assms(5)])
  show "stored_id u' = i" using assms(1-3) by (simp add: auth_inv_def keyed_def)
  show "unique_names ((map_of (users s))(i \<mapsto> u'))"
    using assms(1,2,4) by (intro unique_names_same) (auto simp: auth_inv_def)
qed

lemma auth_inv_tokens: "auth_inv s \<Longrightarrow> distinct (map fst ts) \<Longrightarrow> auth_inv (s\<lparr>tokens := ts\<rparr>)"
  by (simp add: auth_inv_def)

lemma distinct_filter_keys: "distinct (map fst m) \<Longrightarrow> distinct (map fst (filter P m))"
  by (rule distinct_map_filter)

subsection \<open>The calls as steps\<close>

datatype auth_call =
    CallLogin login_request
  | CallLogout str
  | CallAuthenticate str
  | CallCreateUser create_user_request
  | CallUpdateUser str update_user_request
  | CallDeleteUser str
  | CallChangePassword str str str str
  | CallSetup str
  | CallConfirm str str
  | CallDisable str str

fun auth_run :: "auth_env \<Rightarrow> auth_call \<Rightarrow> auth_service \<Rightarrow> auth_service" where
  "auth_run e (CallLogin req) s = snd (login e req s)"
| "auth_run e (CallLogout t) s = logout t s"
| "auth_run e (CallAuthenticate t) s = snd (authenticate e t s)"
| "auth_run e (CallCreateUser req) s = snd (create_user e req s)"
| "auth_run e (CallUpdateUser i req) s = snd (update_user e i req s)"
| "auth_run e (CallDeleteUser i) s = snd (delete_user i s)"
| "auth_run e (CallChangePassword i t old new) s = snd (change_password e i t old new s)"
| "auth_run e (CallSetup i) s = snd (two_factor_setup e i s)"
| "auth_run e (CallConfirm i code) s = snd (two_factor_confirm e i code s)"
| "auth_run e (CallDisable i code) s = snd (two_factor_disable e i code s)"

text \<open>A step that keeps the invariant and the roles of every account.\<close>

definition same_roles :: "(str \<rightharpoonup> stored_user) \<Rightarrow> (str \<rightharpoonup> stored_user) \<Rightarrow> bool" where
  "same_roles m m' \<longleftrightarrow> (\<forall>i. map_option (\<lambda>u. roles (su_user u)) (m' i) = map_option (\<lambda>u. roles (su_user u)) (m i))"

lemma same_roles_refl [simp]: "same_roles m m"
  by (simp add: same_roles_def)

lemma same_roles_trans: "same_roles m m' \<Longrightarrow> same_roles m' m'' \<Longrightarrow> same_roles m m''"
  by (simp add: same_roles_def)

lemma same_roles_upd: "m i = Some u \<Longrightarrow> roles (su_user u') = roles (su_user u) \<Longrightarrow> same_roles m (m(i \<mapsto> u'))"
  by (simp add: same_roles_def)

lemma same_roles_admin: "same_roles m m' \<Longrightarrow> has_admin m \<Longrightarrow> has_admin m'"
proof -
  assume "same_roles m m'" and "has_admin m"
  then obtain i u where "m i = Some u" "is_admin u" "map_option (\<lambda>u. roles (su_user u)) (m' i) = Some (roles (su_user u))"
    unfolding has_admin_def same_roles_def by (metis option.simps(9))
  then show "has_admin m'" unfolding has_admin_def is_admin_def by fastforce
qed

definition quiet :: "auth_service \<Rightarrow> auth_service \<Rightarrow> bool" where
  "quiet s s' \<longleftrightarrow> auth_inv s' \<and> same_roles (map_of (users s)) (map_of (users s'))"

lemma save_quiet:
  assumes "auth_inv s" and "map_of (users s) i = Some u" and "stored_id u' = stored_id u"
    and "username (su_user u') = username (su_user u)" and "roles (su_user u') = roles (su_user u)"
    and "save_user i u' s = (r, s')"
  shows "quiet s s'" and "tokens s' = tokens s"
  using save_same_name [OF assms(1-4,6)] same_roles_upd [of "map_of (users s)" i u u', OF assms(2,5)]
  by (auto simp: quiet_def split: sum.split_asm)

lemma quiet_refl: "auth_inv s \<Longrightarrow> quiet s s"
  by (simp add: quiet_def)

lemma quiet_trans: "quiet s s1 \<Longrightarrow> quiet s1 s2 \<Longrightarrow> quiet s s2"
  by (auto simp: quiet_def intro: same_roles_trans)

lemma verify_second_factor_quiet:
  assumes "auth_inv s" and "verify_second_factor e i secret code s = (r, s')"
  shows "quiet s s' \<and> tokens s' = tokens s"
proof (cases "map_of (users s) i")
  case None
  with assms show ?thesis
    by (auto simp: verify_second_factor_def Let_def quiet_refl split: if_splits)
next
  case (Some u)
  let ?u = "u\<lparr>two_factor := (two_factor u)\<lparr>recovery_hashes :=
      remove1 (hash_recovery_code e code) (recovery_hashes (two_factor u))\<rparr>\<rparr>"
  obtain q s1 where q: "save_user i ?u s = (q, s1)" by fastforce
  have "quiet s s1" "tokens s1 = tokens s" using save_quiet [OF assms(1) Some _ _ _ q] by simp_all
  with Some assms q show ?thesis
    by (auto simp: verify_second_factor_def Let_def quiet_refl split: if_splits)
qed

lemma setup_quiet:
  assumes "auth_inv s" and "two_factor_setup e i s = (r, s')"
  shows "quiet s s' \<and> tokens s' = tokens s"
proof (cases "map_of (users s) i")
  case (Some u)
  let ?u = "u\<lparr>two_factor := \<lparr>tf_secret = Some (fresh_secret e), tf_enabled = False, recovery_hashes = []\<rparr>\<rparr>"
  obtain q s1 where q: "save_user i ?u s = (q, s1)" by fastforce
  have "quiet s s1" "tokens s1 = tokens s" using save_quiet [OF assms(1) Some _ _ _ q] by simp_all
  with Some assms q show ?thesis
    by (cases q) (auto simp: two_factor_setup_def Let_def quiet_refl split: if_splits)
qed (use assms in \<open>auto simp: two_factor_setup_def quiet_refl\<close>)

lemma confirm_quiet:
  assumes "auth_inv s" and "two_factor_confirm e i code s = (r, s')"
  shows "quiet s s' \<and> tokens s' = tokens s"
proof (cases "map_of (users s) i")
  case (Some u)
  let ?u = "u\<lparr>two_factor := (two_factor u)\<lparr>tf_enabled := True,
      recovery_hashes := map (hash_recovery_code e) (generate_recovery_codes e)\<rparr>\<rparr>"
  obtain q s1 where q: "save_user i ?u s = (q, s1)" by fastforce
  have "quiet s s1" "tokens s1 = tokens s" using save_quiet [OF assms(1) Some _ _ _ q] by simp_all
  with Some assms q show ?thesis
    by (cases q) (auto simp: two_factor_confirm_def Let_def quiet_refl split: if_splits option.splits)
qed (use assms in \<open>auto simp: two_factor_confirm_def quiet_refl\<close>)

lemma disable_quiet:
  assumes "auth_inv s" and "two_factor_disable e i code s = (r, s')"
  shows "quiet s s' \<and> tokens s' = tokens s"
proof (cases "map_of (users s) i")
  case (Some u)
  obtain q s1 where q: "verify_second_factor e i (tf_secret (two_factor u)) code s = (q, s1)" by fastforce
  note v = verify_second_factor_quiet [OF assms(1) q]
  then have inv1: "auth_inv s1" by (simp add: quiet_def)
  have "quiet s1 s2 \<and> tokens s2 = tokens s1"
    if "map_of (users s1) i = Some u1" "save_user i (u1\<lparr>two_factor := no_two_factor\<rparr>) s1 = (q2, s2)" for u1 q2 s2
    using save_quiet [OF inv1 that(1) _ _ _ that(2)] by simp
  with Some assms q v show ?thesis
    by (cases q) (auto simp: two_factor_disable_def quiet_refl intro: quiet_trans
        split: if_splits option.splits)
qed (use assms in \<open>auto simp: two_factor_disable_def quiet_refl\<close>)

lemma change_password_quiet:
  assumes "auth_inv s" and "change_password e i t old new s = (r, s')"
  shows "quiet s s'"
proof (cases "map_of (users s) i")
  case (Some u)
  have save: "quiet s s1" if "save_user i (u\<lparr>password_hash := h, must_change_password := False\<rparr>) s = (q, s1)" for h q s1
    using save_quiet(1) [OF assms(1) Some _ _ _ that] by simp
  have drop: "quiet s (s1\<lparr>tokens := filter P (tokens s1)\<rparr>)" if "quiet s s1" for s1 P
    using that by (auto simp: quiet_def auth_inv_def distinct_filter_keys)
  from Some assms save drop show ?thesis
    by (auto simp: change_password_def quiet_refl split: if_splits sum.splits prod.splits)
qed (use assms in \<open>auto simp: change_password_def quiet_refl split: if_splits\<close>)

lemma mint_session_quiet:
  assumes "auth_inv s" and "mint_session e i s = (r, s')"
  shows "quiet s s'"
proof (cases "map_of (users s) i")
  case (Some u)
  let ?u = "u\<lparr>su_user := (su_user u)\<lparr>last_login_at := Some (now_ts e)\<rparr>\<rparr>"
  have "unique_names ((map_of (users s))(i \<mapsto> ?u))" "keyed ((map_of (users s))(i \<mapsto> ?u))"
    using assms(1) Some by (auto simp: auth_inv_def keyed_def intro: unique_names_same)
  moreover have "forget_login ?u = forget_login u" by (simp add: forget_login_def)
  then have "(map_option forget_login \<circ> map_of (users s))(i \<mapsto> forget_login ?u) = map_option forget_login \<circ> map_of (users s)"
    using Some by (auto simp: fun_eq_iff)
  ultimately show ?thesis
    using assms Some same_roles_upd [of "map_of (users s)" i u ?u, OF Some]
    by (auto simp: mint_session_def Let_def quiet_def auth_inv_def update_conv' distinct_update option_comp_upd)
qed (use assms in \<open>auto simp: mint_session_def quiet_refl\<close>)

lemma gate_quiet:
  assumes "auth_inv s" and "second_factor_gate e i code s = (r, s')"
  shows "quiet s s' \<and> tokens s' = tokens s"
  using assms verify_second_factor_quiet [OF assms(1)]
  by (auto simp: second_factor_gate_def quiet_refl split: option.splits if_splits)

lemma login_quiet:
  assumes "auth_inv s" and "login e req s = (r, s')"
  shows "quiet s s'"
proof (cases "find_by_name s (lr_username req)")
  case (Some u)
  obtain q s1 where q: "second_factor_gate e (stored_id u) (lr_totp_code req) s = (q, s1)" by fastforce
  have g: "quiet s s1" using gate_quiet [OF assms(1) q] by blast
  then have "quiet s1 s2" if "mint_session e (stored_id u) s1 = (q2, s2)" for q2 s2
    using mint_session_quiet [OF _ that] by (simp add: quiet_def)
  with Some assms q g show ?thesis
    by (cases q) (auto simp: login_def quiet_refl intro: quiet_trans split: sum.splits)
qed (use assms in \<open>auto simp: login_def quiet_refl\<close>)

lemma name_taken_iff:
  assumes "distinct (map fst (users s))"
  shows "name_taken s n \<longleftrightarrow>
         (\<exists>i u. map_of (users s) i = Some u \<and> eq_ignore_ascii_case (username (su_user u)) n)"
  using map_of_eq_Some_iff [OF assms] by (force simp: name_taken_def list_ex_iff)

lemma create_user_inv:
  assumes "auth_inv s" and "create_user e req s = (r, s')"
  shows "auth_inv s' \<and> tokens s' = tokens s \<and>
         (case r of
            Inl _ \<Rightarrow> users s' = users s
          | Inr u \<Rightarrow> valid_username (username u) \<and> \<not> name_taken s (username u) \<and>
              (\<exists>su. su_user su = u \<and> map_of (users s') = (map_of (users s))(fresh_id e \<mapsto> su)))"
proof -
  let ?name = "trim (cr_username req)"
  have inv: "distinct (map fst (users s))" "unique_names (map_of (users s))"
    using assms(1) by (auto simp: auth_inv_def)
  show ?thesis
  proof (cases "valid_username ?name \<and> MIN_PASSWORD_LEN \<le> length (cr_password req) \<and> \<not> name_taken s ?name \<and>
      (\<exists>h. hash_password e ''failed to hash password'' (cr_password req) = Inr h)")
    case True
    then obtain h where h: "hash_password e ''failed to hash password'' (cr_password req) = Inr h" by blast
    let ?su = "\<lparr>su_user = \<lparr>user_id = fresh_id e, username = ?name, roles = cr_roles req,
                       created_at = now_ts e, last_login_at = None\<rparr>,
      password_hash = h, must_change_password = False, two_factor = no_two_factor\<rparr>"
    obtain q s1 where q: "save_user (fresh_id e) ?su s = (q, s1)" by fastforce
    have "unique_names ((map_of (users s))(fresh_id e \<mapsto> ?su))"
      using True name_taken_iff [OF inv(1)] by (intro unique_names_upd inv(2)) auto
    from save_user_inv [OF assms(1) _ this q] True q assms(2) h show ?thesis
      by (cases q) (auto simp: create_user_def Let_def intro!: exI [of _ ?su])
  next
    case False
    with assms show ?thesis
      by (auto simp: create_user_def Let_def not_less split: if_splits sum.splits)
  qed
qed

lemma other_admin:
  assumes "distinct (map fst (users s))" and "map_of (users s) i = Some u" and "\<not> admin_count s \<le> 1"
  shows "\<exists>j v. j \<noteq> i \<and> map_of (users s) j = Some v \<and> is_admin v"
proof (rule ccontr)
  assume none: "\<not> ?thesis"
  let ?a = "filter (\<lambda>p. is_admin (snd p)) (users s)"
  have "set ?a \<subseteq> {(i, u)}"
  proof
    fix p assume p: "p \<in> set ?a"
    obtain j v where jv: "p = (j, v)" by fastforce
    with p have "map_of (users s) j = Some v" "is_admin v" using assms(1) by (auto intro: map_of_is_SomeI)
    with none have "j = i" by blast
    with jv assms(2) \<open>map_of (users s) j = Some v\<close> show "p \<in> {(i, u)}" by simp
  qed
  moreover have "distinct ?a" using assms(1) by (simp add: distinct_map)
  ultimately have "length ?a \<le> 1"
    by (metis card_mono distinct_card finite.emptyI finite_insert is_singletonI is_singleton_altdef)
  moreover have "admin_count s = length ?a" by (simp add: admin_count_def filter_map comp_def)
  ultimately show False using assms(3) by simp
qed

lemma update_user_inv:
  assumes "auth_inv s" and "update_user e i req s = (r, s')"
  shows "auth_inv s' \<and> (has_admin (map_of (users s)) \<longrightarrow> has_admin (map_of (users s')))"
proof (cases "map_of (users s) i")
  case (Some u)
  show ?thesis
  proof (cases "bind_res (update_roles (ur_roles req) s u) (update_password e (ur_password req))")
    case (Inl er)
    with Some assms show ?thesis by (auto simp: update_user_def)
  next
    case (Inr u')
    then obtain u1 where u1: "update_roles (ur_roles req) s u = Inr u1"
        and u': "update_password e (ur_password req) u1 = Inr u'" by (auto simp: res_simps)
    have pw: "su_user u' = su_user u1"
      using u' by (auto simp: update_password_def res_simps split: option.splits if_splits)
    have same: "stored_id u1 = stored_id u" "username (su_user u1) = username (su_user u)"
      using u1 by (auto simp: update_roles_def split: option.splits if_splits)
    have admin: "is_admin u' \<or> \<not> is_admin u \<or> \<not> admin_count s \<le> 1"
      using u1 pw by (auto simp: update_roles_def is_admin_def split: option.splits if_splits)
    obtain q s1 where q: "save_user i u' s = (q, s1)" by fastforce
    have sv: "auth_inv s1 \<and> (case q of Inl _ \<Rightarrow> users s1 = users s
        | Inr _ \<Rightarrow> map_of (users s1) = (map_of (users s))(i \<mapsto> u'))"
      using save_same_name [OF assms(1) Some _ _ q] same pw by simp
    have "has_admin ((map_of (users s))(i \<mapsto> u'))" if "has_admin (map_of (users s))"
      using that admin other_admin [of s i u] assms(1) Some unfolding has_admin_def auth_inv_def
      by (metis fun_upd_apply option.inject)
    moreover have "auth_inv (revoke_user i s1)" "users (revoke_user i s1) = users s1"
      using sv by (simp_all add: revoke_user_def auth_inv_def distinct_filter_keys)
    ultimately show ?thesis
      using assms(2) Some Inr q sv by (cases q) (auto simp: update_user_def split: if_splits)
  qed
qed (use assms in \<open>auto simp: update_user_def\<close>)

lemma delete_user_inv:
  assumes "auth_inv s" and "delete_user i s = (r, s')"
  shows "auth_inv s' \<and> (has_admin (map_of (users s)) \<longrightarrow> has_admin (map_of (users s')))"
proof (cases "map_of (users s) i")
  case (Some u)
  have wf: "store_wf (user_store s)" and d: "distinct (map fst (users s))"
    using assms(1) by (auto simp: auth_inv_def)
  obtain q st where q: "Store.delete i (user_store s) = (q, st)" by fastforce
  show ?thesis
  proof (cases "is_admin u \<and> admin_count s \<le> 1")
    case True
    with Some assms show ?thesis by (auto simp: delete_user_def)
  next
    case False
    have adm: "has_admin ((map_of (users s))(i := None))" if "has_admin (map_of (users s))"
      using that False other_admin [OF d Some] Some unfolding has_admin_def
      by (metis fun_upd_apply option.inject)
    have ku: "keyed ((map_of (users s))(i := None))" "unique_names ((map_of (users s))(i := None))"
      using assms(1) by (auto simp: auth_inv_def keyed_def unique_names_def)
    from wf q show ?thesis
    proof (cases rule: js.delete_cases)
      case (ok b)
      with assms Some False q adm ku show ?thesis
        by (auto simp: delete_user_def revoke_user_def auth_inv_def distinct_filter_keys distinct_delete
            delete_conv' option_comp_del)
    next
      case failed
      with assms Some False q show ?thesis by (auto simp: delete_user_def auth_inv_def)
    qed
  qed
qed (use assms in \<open>auto simp: delete_user_def\<close>)

lemma logout_inv: "auth_inv s \<Longrightarrow> auth_inv (logout t s) \<and> users (logout t s) = users s"
  by (simp add: logout_def auth_inv_def distinct_delete)

lemma authenticate_inv: "auth_inv s \<Longrightarrow> authenticate e t s = (r, s') \<Longrightarrow> auth_inv s' \<and> users s' = users s"
  by (auto simp: authenticate_def logout_inv split: option.splits if_splits)

lemma auth_run_inv:
  assumes "auth_inv s"
  shows "auth_inv (auth_run e c s) \<and>
         (map_of (users s) (fresh_id e) = None \<longrightarrow> has_admin (map_of (users s)) \<longrightarrow>
            has_admin (map_of (users (auth_run e c s))))"
proof (cases c)
  case (CallCreateUser req)
  obtain r s' where q: "create_user e req s = (r, s')" by fastforce
  note ci = create_user_inv [OF assms q]
  have keep: "has_admin (m(i \<mapsto> u))" if "has_admin m" "m i = None" for m :: "str \<rightharpoonup> stored_user" and i u
    using that unfolding has_admin_def by (metis fun_upd_other option.distinct(1))
  show ?thesis
  proof (cases r)
    case (Inl er)
    with ci CallCreateUser q show ?thesis by simp
  next
    case (Inr u)
    with ci obtain su where "map_of (users s') = (map_of (users s))(fresh_id e \<mapsto> su)" by auto
    with ci CallCreateUser q keep show ?thesis by simp
  qed
next
  case (CallUpdateUser i req)
  then show ?thesis using update_user_inv [OF assms, of e i req] by (metis auth_run.simps(5) prod.collapse)
next
  case (CallDeleteUser i)
  then show ?thesis using delete_user_inv [OF assms, of i] by (metis auth_run.simps(6) prod.collapse)
next
  case (CallAuthenticate t)
  then show ?thesis using authenticate_inv [OF assms, of e t] by (metis auth_run.simps(3) prod.collapse)
next
  case (CallLogout t)
  then show ?thesis using logout_inv [OF assms, of t] by simp
next
  case (CallLogin req)
  then have "quiet s (auth_run e c s)" using login_quiet [OF assms, of e req] by (metis auth_run.simps(1) prod.collapse)
  then show ?thesis using same_roles_admin by (auto simp: quiet_def)
next
  case (CallChangePassword i t old new)
  then have "quiet s (auth_run e c s)"
    using change_password_quiet [OF assms, of e i t old new] by (metis auth_run.simps(7) prod.collapse)
  then show ?thesis using same_roles_admin by (auto simp: quiet_def)
next
  case (CallSetup i)
  then have "quiet s (auth_run e c s)" using setup_quiet [OF assms, of e i] by (metis auth_run.simps(8) prod.collapse)
  then show ?thesis using same_roles_admin by (auto simp: quiet_def)
next
  case (CallConfirm i code)
  then have "quiet s (auth_run e c s)"
    using confirm_quiet [OF assms, of e i code] by (metis auth_run.simps(9) prod.collapse)
  then show ?thesis using same_roles_admin by (auto simp: quiet_def)
next
  case (CallDisable i code)
  then have "quiet s (auth_run e c s)"
    using disable_quiet [OF assms, of e i code] by (metis auth_run.simps(10) prod.collapse)
  then show ?thesis using same_roles_admin by (auto simp: quiet_def)
qed

subsection \<open>Reachable states\<close>

definition persisted_ok :: "(str \<rightharpoonup> stored_user) \<Rightarrow> bool" where
  "persisted_ok m \<longleftrightarrow> keyed m \<and> unique_names m \<and> (m \<noteq> Map.empty \<longrightarrow> has_admin m)"

text \<open>The service is started on a store (empty on first boot), runs any calls, and may be restarted
  at any point. Fresh identifiers (version 4 UUIDs) do not repeat.\<close>

inductive auth_reachable :: "auth_service \<Rightarrow> bool" where
  start: "store_wf (user_store s0) \<Longrightarrow> users s0 = [] \<Longrightarrow> tokens s0 = [] \<Longrightarrow>
    persisted_ok (records (user_store s0)) \<Longrightarrow> load_or_seed e pw s0 = (Inr (), s) \<Longrightarrow> auth_reachable s"
| call: "auth_reachable s \<Longrightarrow> map_of (users s) (fresh_id e) = None \<Longrightarrow> auth_reachable (auth_run e c s)"
| restart: "auth_reachable s \<Longrightarrow> load_or_seed e pw (s\<lparr>users := [], tokens := []\<rparr>) = (Inr (), s') \<Longrightarrow>
    auth_reachable s'"

lemma load_cache_distinct: "distinct (map fst m) \<Longrightarrow> distinct (map fst (load_cache key m vs))"
  by (induction vs arbitrary: m) (simp_all add: load_cache_def distinct_update)

lemma load_or_seed_inv:
  assumes "store_wf (user_store s0)" and "users s0 = []" and "tokens s0 = []"
    and "persisted_ok (records (user_store s0))" and "load_or_seed e pw s0 = (Inr (), s)"
  shows "auth_inv s \<and> has_admin (map_of (users s))"
proof -
  obtain q st where q: "Store.list (user_store s0) = (q, st)" by fastforce
  with assms(5) obtain vs where vs: "q = Inr vs" by (cases q) (auto simp: load_or_seed_def)
  have keys: "\<forall>i u. records (user_store s0) i = Some u \<longrightarrow> stored_id u = i"
    using assms(4) by (simp add: persisted_ok_def keyed_def)
  have st: "store_wf st" "records st = records (user_store s0)"
      "map_of (load_cache stored_id [] vs) = records (user_store s0)"
    using user_js.load_coherent [OF assms(1) q [unfolded vs] keys] by simp_all
  have ran: "set vs = ran (records (user_store s0))" using js.list_ok [OF assms(1) q [unfolded vs]] by blast
  show ?thesis
  proof (cases "vs = []")
    case False
    with assms q vs have s: "s = s0\<lparr>user_store := st, users := load_cache stored_id [] vs\<rparr>"
      by (simp add: load_or_seed_def Let_def)
    moreover have "records (user_store s0) \<noteq> Map.empty" using False ran by auto
    ultimately show ?thesis
      using assms st load_cache_distinct [of "[]" stored_id vs] by (simp add: auth_inv_def persisted_ok_def)
  next
    case True
    let ?s = "s0\<lparr>user_store := st\<rparr>"
    have empty: "records (user_store s0) = Map.empty" using True ran by (simp add: ran_def fun_eq_iff) (metis option.exhaust)
    with assms st have inv0: "auth_inv ?s" by (simp add: auth_inv_def keyed_def unique_names_def)
    from assms(5) q vs True obtain u where u: "save_user (fresh_id e) u ?s = (Inr (), s)"
        and su: "stored_id u = fresh_id e" "is_admin u"
      by (auto simp: load_or_seed_def Let_def is_admin_def split: sum.splits prod.splits)
    have "unique_names ((map_of (users ?s))(fresh_id e \<mapsto> u))"
      using assms(2) by (auto simp: unique_names_def split: if_splits)
    from save_user_inv [OF inv0 su(1) this u] su(2) show ?thesis
      by (auto simp: has_admin_def)
  qed
qed

lemma forget_login_fields:
  "username (su_user (forget_login u)) = username (su_user u)" "stored_id (forget_login u) = stored_id u"
  "roles (su_user (forget_login u)) = roles (su_user u)"
  by (simp_all add: forget_login_def)

lemma persisted_from_cache:
  assumes "map_option forget_login \<circ> m = map_option forget_login \<circ> m'"
    and "keyed m" and "unique_names m" and "has_admin m"
  shows "persisted_ok m'"
proof -
  have eq: "map_option forget_login (m i) = map_option forget_login (m' i)" for i
    using fun_cong [OF assms(1), of i] by simp
  have bwd: "\<exists>u. m i = Some u \<and> forget_login u = forget_login u'" if "m' i = Some u'" for i u'
    using eq [of i] that by (cases "m i") auto
  have forth: "\<exists>u'. m' i = Some u' \<and> forget_login u = forget_login u'" if "m i = Some u" for i u
    using eq [of i] that by (cases "m' i") auto
  have "keyed m'" unfolding keyed_def
    using bwd assms(2) forget_login_fields(2) unfolding keyed_def by metis
  moreover have "unique_names m'" unfolding unique_names_def
    using bwd assms(3) forget_login_fields(1) unfolding unique_names_def by metis
  moreover have "has_admin m'"
    using assms(4) forth forget_login_fields(3) unfolding has_admin_def is_admin_def by metis
  ultimately show ?thesis by (simp add: persisted_ok_def)
qed

lemma auth_reachable_inv: "auth_reachable s \<Longrightarrow> auth_inv s \<and> has_admin (map_of (users s))"
proof (induction rule: auth_reachable.induct)
  case (start s0 e pw s)
  then show ?case by (rule load_or_seed_inv)
next
  case (call s e c)
  then show ?case using auth_run_inv [of s e c] by blast
next
  case (restart s e pw s')
  let ?s = "s\<lparr>users := [], tokens := []\<rparr>"
  have "persisted_ok (records (user_store ?s))"
    using restart.IH persisted_from_cache by (auto simp: auth_inv_def)
  moreover have "store_wf (user_store ?s)" using restart.IH by (simp add: auth_inv_def)
  ultimately show ?case using load_or_seed_inv [of ?s, OF _ _ _ _ restart.hyps(2)] by simp
qed

subsection \<open>A sample service\<close>

definition sample_auth_env :: auth_env where
  "sample_auth_env = \<lparr>now = 100, rfc3339 = (\<lambda>_. ''ts''), fresh_id = ''u9'', token_bytes = ''AB'',
     code_bytes = [''abcde''], fresh_secret = ''S'', argon2_hash = (\<lambda>p. Inr p),
     argon2_verify = (\<lambda>p h. if p = h then Match else Mismatch), sha256 = (\<lambda>x. x),
     hmac_sha1 = (\<lambda>_ _. replicate 20 (CHR 0x00)), b32_decode = Some, secret_file = None\<rparr>"

definition sample_user :: stored_user where
  "sample_user = \<lparr>su_user = \<lparr>user_id = ''u1'', username = ''admin'', roles = [Admin], created_at = ''t'',
       last_login_at = None\<rparr>, password_hash = ''password1'', must_change_password = False,
     two_factor = \<lparr>tf_secret = Some ''S'', tf_enabled = True, recovery_hashes = [hex_lower ''abc'']\<rparr>\<rparr>"

definition sample_auth :: auth_service where
  "sample_auth = \<lparr>user_store = \<lparr>dir_display = ''/s'', dir_exists = True,
       files = [(''u1.json'', Json sample_user)], faults = []\<rparr>,
     users = [(''u1'', sample_user)], tokens = [(''tok'', \<lparr>session_user = ''u1'', expires_at = 500\<rparr>)],
     token_ttl_secs = 3600\<rparr>"

definition sample_login :: login_request where
  "sample_login = \<lparr>lr_username = '' ADMIN'', lr_password = ''password1'', lr_totp_code = Some ''A-BC''\<rparr>"

lemma sample_records: "records (user_store sample_auth) = [''u1'' \<mapsto> sample_user]"
proof -
  have e1: "i @ ''.json'' = ''u1.json'' \<longleftrightarrow> i = ''u1''" for i
    using record_names_distinct(1) [of i "''u1''"] by simp
  have "safe_id ''u1''" by code_simp
  then show ?thesis by (auto simp: records_def sample_auth_def e1 fun_eq_iff)
qed

lemma sample_auth_inv: "auth_inv sample_auth"
  unfolding auth_inv_def sample_records
  by (simp add: sample_auth_def store_wf_def keyed_def unique_names_def sample_user_def)

subsection \<open>Login\<close>

lemma find_by_name_Some:
  assumes "auth_inv s" and "find_by_name s name = Some u"
  shows "map_of (users s) (stored_id u) = Some u \<and> eq_ignore_ascii_case (username (su_user u)) (trim name)"
proof -
  from assms(2) have name: "eq_ignore_ascii_case (username (su_user u)) (trim name)" and "u \<in> set (map snd (users s))"
    by (auto simp: find_by_name_def find_Some_iff)
  then obtain i where "(i, u) \<in> set (users s)" by auto
  then have m: "map_of (users s) i = Some u" using assms(1) by (simp add: auth_inv_def)
  with assms(1) have "stored_id u = i" by (simp add: auth_inv_def keyed_def)
  with m name show ?thesis by simp
qed

text \<open>What a second factor has proved: a current TOTP code, or a recovery code that is now spent.\<close>

definition totp_valid :: "auth_env \<Rightarrow> stored_user \<Rightarrow> str \<Rightarrow> bool" where
  "totp_valid e u code \<longleftrightarrow>
     (\<exists>sec. tf_secret (two_factor u) = Some sec \<and>
        Totp.verify (hmac_sha1 e) (b32_decode e) sec code (now_unix e))"

definition spends_recovery_code :: "auth_env \<Rightarrow> stored_user \<Rightarrow> stored_user \<Rightarrow> str \<Rightarrow> bool" where
  "spends_recovery_code e u u' code \<longleftrightarrow>
     hash_recovery_code e code \<in> set (recovery_hashes (two_factor u)) \<and>
     recovery_hashes (two_factor u') = remove1 (hash_recovery_code e code) (recovery_hashes (two_factor u))"

lemma verify_second_factor_ok:
  assumes "auth_inv s" and "map_of (users s) i = Some u"
    and "verify_second_factor e i (tf_secret (two_factor u)) code s = (Inr (), s')"
  shows "(totp_valid e u code \<and> s' = s) \<or>
         (\<not> totp_valid e u code \<and> (\<exists>u'. map_of (users s') i = Some u' \<and> spends_recovery_code e u u' code))"
proof (cases "totp_valid e u code")
  case True
  with assms(3) show ?thesis by (auto simp: verify_second_factor_def totp_valid_def)
next
  case False
  let ?u = "u\<lparr>two_factor := (two_factor u)\<lparr>recovery_hashes :=
      remove1 (hash_recovery_code e code) (recovery_hashes (two_factor u))\<rparr>\<rparr>"
  from False assms(2,3) have mem: "hash_recovery_code e code \<in> set (recovery_hashes (two_factor u))"
      and sv: "save_user i ?u s = (Inr (), s')"
    by (auto simp: verify_second_factor_def totp_valid_def Let_def split: option.splits if_splits)
  from save_same_name [OF assms(1,2) _ _ sv] have "map_of (users s') i = Some ?u" by simp
  with False mem show ?thesis by (auto simp: spends_recovery_code_def)
qed

lemma gate_ok:
  assumes "auth_inv s" and "map_of (users s) i = Some u"
    and "second_factor_gate e i code s = (Inr (), s')"
  shows "\<not> tf_enabled (two_factor u) \<and> s' = s \<or>
         (\<exists>c. code = Some c \<and> (totp_valid e u (trim c) \<and> s' = s \<or>
            (\<exists>u'. map_of (users s') i = Some u' \<and> spends_recovery_code e u u' (trim c))))"
  using assms verify_second_factor_ok [OF assms(1,2)]
  by (auto simp: second_factor_gate_def split: option.splits if_splits)

text \<open>
  C8. A login that returns a session is justified: an account whose name matches (ignoring case)
  exists, its stored hash accepted the password, and when its second factor is active the request
  carried a currently valid TOTP code, or a recovery code that was unused before and is removed from
  the account now; the session belongs to that account and expires after the configured lifetime.
\<close>

theorem login_sound:
  assumes "auth_inv s" and "login e req s = (Inr resp, s')"
  shows "\<exists>u u'. map_of (users s) (user_id (resp_user resp)) = Some u \<and>
           map_of (users s') (user_id (resp_user resp)) = Some u' \<and>
           eq_ignore_ascii_case (username (su_user u)) (trim (lr_username req)) \<and>
           argon2_verify e (lr_password req) (password_hash u) = Match \<and>
           (tf_enabled (two_factor u) \<longrightarrow> (\<exists>c. lr_totp_code req = Some c \<and>
              (totp_valid e u (trim c) \<or> spends_recovery_code e u u' (trim c)))) \<and>
           map_of (tokens s') (resp_token resp) =
             Some \<lparr>session_user = user_id (resp_user resp),
                   expires_at = now e + min (uint (token_ttl_secs s)) (2 ^ 63 - 1)\<rparr>"
proof -
  from assms(2) obtain u where f: "find_by_name s (lr_username req) = Some u"
    by (cases "find_by_name s (lr_username req)") (auto simp: login_def)
  note u = find_by_name_Some [OF assms(1) f]
  obtain q s1 where g: "second_factor_gate e (stored_id u) (lr_totp_code req) s = (q, s1)" by fastforce
  from assms(2) f g have pw: "argon2_verify e (lr_password req) (password_hash u) = Match"
    and q: "q = Inr ()" and m: "mint_session e (stored_id u) s1 = (Inr resp, s')"
    by (auto simp: login_def verify_password_def bind_st_eq_Inr split: sum.splits pw_check.splits)
  from m obtain u1 where u1: "map_of (users s1) (stored_id u) = Some u1"
    by (auto simp: mint_session_def split: option.splits)
  have ttl: "token_ttl_secs s1 = token_ttl_secs s"
    using g by (auto simp: second_factor_gate_def verify_second_factor_def save_user_def Let_def
        split: option.splits if_splits sum.splits prod.splits)
  have inv1: "auth_inv s1" using gate_quiet [OF assms(1) g] by (simp add: quiet_def)
  then have id1: "stored_id u1 = stored_id u" using u1 by (simp add: auth_inv_def keyed_def)
  let ?u = "u1\<lparr>su_user := (su_user u1)\<lparr>last_login_at := Some (now_ts e)\<rparr>\<rparr>"
  from m u1 id1 have r: "user_id (resp_user resp) = stored_id u"
    and u2: "map_of (users s') (stored_id u) = Some ?u"
    and tok: "map_of (tokens s') (resp_token resp) = Some \<lparr>session_user = stored_id u,
        expires_at = now e + min (uint (token_ttl_secs s1)) (2 ^ 63 - 1)\<rparr>"
    by (auto simp: mint_session_def Let_def update_conv')
  have "\<exists>c. lr_totp_code req = Some c \<and> (totp_valid e u (trim c) \<or> spends_recovery_code e u ?u (trim c))"
    if "tf_enabled (two_factor u)"
    using gate_ok [OF assms(1) conjunct1 [OF u] g [unfolded q]] that u1
    by (auto simp: spends_recovery_code_def)
  with u u2 pw tok ttl r show ?thesis by auto
qed

theorem login_sound_witness:
  "\<exists>resp s'. login sample_auth_env sample_login sample_auth = (Inr resp, s') \<and>
     resp_token resp = ''4142'' \<and>
     map_of (tokens s') ''4142'' = Some \<lparr>session_user = ''u1'', expires_at = 3700\<rparr>"
proof -
  have r: "map_sum id (\<lambda>r. (resp_token r, user_id (resp_user r))) (fst (login sample_auth_env sample_login sample_auth))
      = Inr (''4142'', ''u1'')" by code_simp
  obtain q s' where q: "login sample_auth_env sample_login sample_auth = (q, s')" by fastforce
  with r obtain resp where resp: "q = Inr resp" "resp_token resp = ''4142''" "user_id (resp_user resp) = ''u1''"
    by (cases q) auto
  show ?thesis
    using q resp login_sound [OF sample_auth_inv q [unfolded resp(1)]]
    by (auto simp: sample_auth_env_def sample_auth_def)
qed

lemma authenticate_Inr:
  assumes "fst (authenticate e t s) = Inr cu"
  shows "\<exists>sess u. map_of (tokens s) t = Some sess \<and> now e < expires_at sess \<and>
           map_of (users s) (session_user sess) = Some u \<and> cu_user cu = su_user u \<and>
           cu_permissions cu = effective_permissions (roles (su_user u)) \<and> snd (authenticate e t s) = s"
  using assms by (auto simp: authenticate_def split: option.splits if_splits)

text \<open>
  Authentication is exact: a token resolves to a caller exactly when it names a session that has
  not expired and whose account still exists; the caller is that account with the permissions of its
  current roles; and a token that is refused because it expired is gone afterwards.
\<close>

theorem authenticate_exact:
  "((\<exists>cu. fst (authenticate e t s) = Inr cu) \<longleftrightarrow>
    (\<exists>sess u. map_of (tokens s) t = Some sess \<and> now e < expires_at sess \<and>
       map_of (users s) (session_user sess) = Some u)) \<and>
   (\<forall>cu. fst (authenticate e t s) = Inr cu \<longrightarrow>
      (\<exists>sess u. map_of (tokens s) t = Some sess \<and> map_of (users s) (session_user sess) = Some u \<and>
         cu_user cu = su_user u \<and> cu_permissions cu = effective_permissions (roles (su_user u)))) \<and>
   (\<forall>sess. map_of (tokens s) t = Some sess \<and> expires_at sess \<le> now e \<longrightarrow>
      map_of (tokens (snd (authenticate e t s))) t = None)"
proof (intro conjI allI impI)
  show "(\<exists>cu. fst (authenticate e t s) = Inr cu) \<longleftrightarrow>
    (\<exists>sess u. map_of (tokens s) t = Some sess \<and> now e < expires_at sess \<and>
       map_of (users s) (session_user sess) = Some u)"
    by (auto simp: authenticate_def split: option.splits)
next
  fix sess assume "map_of (tokens s) t = Some sess \<and> expires_at sess \<le> now e"
  then show "map_of (tokens (snd (authenticate e t s))) t = None"
    by (simp add: authenticate_def logout_def delete_conv')
qed (use authenticate_Inr in blast)

theorem authenticate_exact_witness:
  "\<exists>cu. fst (authenticate sample_auth_env ''tok'' sample_auth) = Inr cu \<and> cu_user cu = su_user sample_user"
  using authenticate_exact [of sample_auth_env "''tok''" sample_auth]
  by (auto simp: sample_auth_def sample_auth_env_def)

lemma save_user_tokens: "save_user i u s = (r, s') \<Longrightarrow> tokens s' = tokens s"
  by (auto simp: save_user_def split: sum.splits prod.splits)

lemma no_session_no_caller:
  assumes "auth_inv s" and "fst (authenticate e t s) = Inr cu"
  shows "\<exists>sess. map_of (tokens s) t = Some sess \<and> session_user sess = user_id (cu_user cu)"
  using authenticate_Inr [OF assms(2)] assms(1) by (auto simp: auth_inv_def keyed_def)

lemma map_of_filterD: "map_of (filter P m) k = Some v \<Longrightarrow> P (k, v)"
  by (auto dest!: map_of_SomeD)

text \<open>
  Credential changes end sessions. After an account is deleted, or its password is reset by an
  administrator, no token authenticates as that account; after a user changes the own password, only
  the token that made the change still does.
\<close>

theorem sessions_revoked:
  assumes "auth_inv s" and "fst (authenticate e t s') = Inr cu"
  shows "(delete_user i s = (Inr (), s') \<longrightarrow> user_id (cu_user cu) \<noteq> i) \<and>
         (update_user e0 i req s = (Inr u, s') \<and> ur_password req \<noteq> None \<longrightarrow> user_id (cu_user cu) \<noteq> i) \<and>
         (change_password e0 i t0 old new s = (Inr (), s') \<and> user_id (cu_user cu) = i \<longrightarrow> t = t0)"
proof -
  have rev: "user_id (cu_user cu) \<noteq> i"
    if "auth_inv s'" "\<exists>ts. tokens s' = filter (\<lambda>(_, sess). session_user sess \<noteq> i) ts"
    using no_session_no_caller [OF that(1) assms(2)] that(2) by (auto dest!: map_of_filterD)
  have "user_id (cu_user cu) \<noteq> i" if d: "delete_user i s = (Inr (), s')"
  proof (rule rev)
    show "auth_inv s'" using delete_user_inv [OF assms(1) d] by blast
    show "\<exists>ts. tokens s' = filter (\<lambda>(_, sess). session_user sess \<noteq> i) ts"
      using d by (auto simp: delete_user_def revoke_user_def split: option.splits if_splits sum.splits prod.splits)
  qed
  moreover have "user_id (cu_user cu) \<noteq> i" if d: "update_user e0 i req s = (Inr u, s')" "ur_password req \<noteq> None"
  proof (rule rev)
    show "auth_inv s'" using update_user_inv [OF assms(1) d(1)] by blast
    show "\<exists>ts. tokens s' = filter (\<lambda>(_, sess). session_user sess \<noteq> i) ts"
      using d by (auto simp: update_user_def revoke_user_def split: option.splits sum.splits prod.splits)
  qed
  moreover have "t = t0" if d: "change_password e0 i t0 old new s = (Inr (), s')" "user_id (cu_user cu) = i"
  proof -
    have "auth_inv s'" using change_password_quiet [OF assms(1) d(1)] by (simp add: quiet_def)
    moreover from d(1) obtain ts where "tokens s' = filter (\<lambda>(t, sess). session_user sess \<noteq> i \<or> t = t0) ts"
      by (auto simp: change_password_def split: option.splits if_splits sum.splits prod.splits)
    ultimately show ?thesis
      using no_session_no_caller [OF _ assms(2)] d(2) by (auto dest!: map_of_filterD)
  qed
  ultimately show ?thesis by blast
qed

theorem sessions_revoked_witness:
  "\<exists>s' cu. change_password sample_auth_env ''u1'' ''tok'' ''password1'' ''password2'' sample_auth = (Inr (), s') \<and>
     fst (authenticate sample_auth_env ''tok'' s') = Inr cu \<and> user_id (cu_user cu) = ''u1''"
proof -
  obtain r s' where q: "change_password sample_auth_env ''u1'' ''tok'' ''password1'' ''password2'' sample_auth = (r, s')"
    by fastforce
  have "fst (change_password sample_auth_env ''u1'' ''tok'' ''password1'' ''password2'' sample_auth) = Inr ()"
    by code_simp
  with q have r: "r = Inr ()" by simp
  have "map_sum id (\<lambda>cu. user_id (cu_user cu)) (fst (authenticate sample_auth_env ''tok'' (snd
      (change_password sample_auth_env ''u1'' ''tok'' ''password1'' ''password2'' sample_auth)))) = Inr ''u1''"
    by code_simp
  then obtain cu where cu: "fst (authenticate sample_auth_env ''tok'' s') = Inr cu" "user_id (cu_user cu) = ''u1''"
    using q by (cases "fst (authenticate sample_auth_env ''tok'' s')") auto
  show ?thesis
    using q r cu sessions_revoked [OF sample_auth_inv cu(1), of "''u1''" sample_auth_env _ _ "''tok''" "''password1''" "''password2''"]
    by blast
qed

lemma not_six_no_totp: "length (trim code) \<noteq> 6 \<Longrightarrow> \<not> totp_valid e u code"
  by (auto simp: totp_valid_def Totp.verify_def DIGITS_def Let_def)

text \<open>
  A recovery code works once: when a code that is not six characters long, and so is no TOTP
  code, was accepted for an account, every code with the same hash (the same code in any formatting)
  is refused from then on, as long as the account keeps the recovery codes that are left.
\<close>

theorem recovery_code_single_use:
  assumes "auth_inv s" and "map_of (users s) i = Some u" and "distinct (recovery_hashes (two_factor u))"
    and "verify_second_factor e i (tf_secret (two_factor u)) code s = (Inr (), s1)"
    and "length (trim code) \<noteq> 6" and "map_of (users s2) i = map_of (users s1) i"
    and "hash_recovery_code e2 code2 = hash_recovery_code e code" and "length (trim code2) \<noteq> 6"
  shows "\<exists>u2. map_of (users s2) i = Some u2 \<and>
           verify_second_factor e2 i (tf_secret (two_factor u2)) code2 s2 =
             (Inl (unauthorized ''invalid credentials''), s2)"
proof -
  from verify_second_factor_ok [OF assms(1,2,4)] not_six_no_totp [OF assms(5)] obtain u' where
      u': "map_of (users s1) i = Some u'" and "spends_recovery_code e u u' code" by blast
  then have "hash_recovery_code e2 code2 \<notin> set (recovery_hashes (two_factor u'))"
    using assms(3,7) by (simp add: spends_recovery_code_def)
  with assms(6) u' not_six_no_totp [OF assms(8), of e2] show ?thesis
    by (auto simp: verify_second_factor_def Let_def totp_valid_def split: option.splits)
qed

theorem recovery_code_single_use_witness:
  "\<exists>s1 (u2 :: stored_user). verify_second_factor sample_auth_env ''u1'' (Some ''S'') ''a-bc'' sample_auth = (Inr (), s1) \<and>
     verify_second_factor sample_auth_env ''u1'' (tf_secret (two_factor u2)) ''ABC'' s1 =
       (Inl (unauthorized ''invalid credentials''), s1)"
proof -
  have u: "map_of (users sample_auth) ''u1'' = Some sample_user" by (simp add: sample_auth_def)
  have "fst (verify_second_factor sample_auth_env ''u1'' (tf_secret (two_factor sample_user)) ''a-bc'' sample_auth) = Inr ()"
    by code_simp
  then obtain s1 where v: "verify_second_factor sample_auth_env ''u1'' (tf_secret (two_factor sample_user)) ''a-bc'' sample_auth
      = (Inr (), s1)" by (metis prod.collapse)
  have "distinct (recovery_hashes (two_factor sample_user))" by (simp add: sample_user_def)
  moreover have "length (trim ''a-bc'') \<noteq> 6" "length (trim ''ABC'') \<noteq> 6"
    "hash_recovery_code sample_auth_env ''ABC'' = hash_recovery_code sample_auth_env ''a-bc''" by code_simp+
  ultimately obtain u2 :: stored_user where "verify_second_factor sample_auth_env ''u1'' (tf_secret (two_factor u2)) ''ABC'' s1 =
       (Inl (unauthorized ''invalid credentials''), s1)"
    using recovery_code_single_use [OF sample_auth_inv u _ v, of s1 sample_auth_env "''ABC''"] by blast
  moreover have "tf_secret (two_factor sample_user) = Some ''S''" by (simp add: sample_user_def)
  ultimately show ?thesis using v by metis
qed



text \<open>
  There are at most \<open>2 ^ 40\<close> recovery codes: a code is the rendering of five random bytes, half
  of the 80 bits its documentation states.
\<close>

theorem recovery_code_entropy:
  "card (recovery_code ` {bytes. length bytes = 5}) \<le> 2 ^ 40"
proof -
  have "card {bytes :: str. set bytes \<subseteq> UNIV \<and> length bytes = 5} = card (UNIV :: char set) ^ 5"
    by (rule card_lists_length_eq) simp
  then have "card {bytes :: str. length bytes = 5} = 2 ^ 40" by (simp add: card_UNIV_char)
  moreover have "finite {bytes :: str. length bytes = 5}"
    using finite_lists_length_eq [of "UNIV :: char set" 5] by simp
  ultimately show ?thesis by (metis card_image_le)
qed

end
