(* ===== verification/Throttle.thy ===== *)
theory Throttle
  imports Service_Base "HOL-Library.Word"
begin

section \<open>Login throttling (src/src/services/login_throttle.rs)\<close>

text \<open>
  Per-address and per-account exponential backoff. An \<open>Instant\<close> and a \<open>Duration\<close> are a number of
  nanoseconds; \<open>duration_since\<close> is truncated subtraction, as in the code. The failure counter keeps
  its width (\<open>u32\<close>, saturating). The two \<open>HashMap\<close>s are association lists. The properties relate the
  buckets to the plain history of attempts: whatever else happens in between, every failure on an
  account within the quiet window counts.
\<close>

datatype ip_addr = V4 "32 word" | V6 "128 word"

definition secs :: "nat \<Rightarrow> nat" where
  "secs n = n * 1000000000"

definition MAX_DELAY :: nat where
  "MAX_DELAY = 60"

definition QUIET_WINDOW :: nat where
  "QUIET_WINDOW = secs (15 * 60)"

definition MAX_ENTRIES :: nat where
  "MAX_ENTRIES = 10000"

record bucket =
  failures :: "32 word"
  last_failure :: nat

text \<open>Doubling backoff; \<open>saturating_sub\<close> on the counter, a shift of at most 6.\<close>

definition required_delay :: "32 word \<Rightarrow> nat" where
  "required_delay n = secs (min (2 ^ min (unat n - 1) 6) MAX_DELAY)"

definition saturating_inc :: "32 word \<Rightarrow> 32 word" where
  "saturating_inc n = (if n = - 1 then n else n + 1)"

definition new_bucket :: "nat \<Rightarrow> bucket" where
  "new_bucket now = \<lparr>failures = 1, last_failure = now\<rparr>"

definition bucket_record_failure :: "nat \<Rightarrow> bucket \<Rightarrow> nat \<times> bucket" where
  "bucket_record_failure now b =
     (let n = saturating_inc (if QUIET_WINDOW < now - last_failure b then 0 else failures b)
      in (required_delay n, \<lparr>failures = n, last_failure = now\<rparr>))"

definition current_delay :: "nat \<Rightarrow> bucket \<Rightarrow> nat" where
  "current_delay now b =
     (if QUIET_WINDOW < now - last_failure b then 0 else required_delay (failures b))"

record throttle =
  per_ip :: "(ip_addr \<times> bucket) list"
  per_account :: "(str \<times> bucket) list"

definition new_throttle :: throttle where
  "new_throttle = \<lparr>per_ip = [], per_account = []\<rparr>"

definition normalize_username :: "str \<Rightarrow> str" where
  "normalize_username u = to_ascii_lowercase (trim u)"

definition map_delay :: "nat \<Rightarrow> ('k \<times> bucket) list \<Rightarrow> 'k \<Rightarrow> nat" where
  "map_delay now m k = (case map_of m k of None \<Rightarrow> 0 | Some b \<Rightarrow> current_delay now b)"

definition penalty_for :: "throttle \<Rightarrow> nat \<Rightarrow> ip_addr \<Rightarrow> str \<Rightarrow> nat" where
  "penalty_for t now ip username =
     max (map_delay now (per_ip t) ip) (map_delay now (per_account t) (normalize_username username))"

text \<open>The same steps on either map: drop expired buckets when the map is full and the key is new,
  then count the failure.\<close>

definition evict :: "nat \<Rightarrow> 'k \<Rightarrow> ('k \<times> bucket) list \<Rightarrow> ('k \<times> bucket) list" where
  "evict now k m =
     (if MAX_ENTRIES \<le> length m \<and> map_of m k = None
      then filter (\<lambda>(_, b). now - last_failure b \<le> QUIET_WINDOW) m else m)"

definition count_failure :: "nat \<Rightarrow> 'k \<Rightarrow> ('k \<times> bucket) list \<Rightarrow> nat \<times> ('k \<times> bucket) list" where
  "count_failure now k m =
     (case map_of m k of
        Some b \<Rightarrow> (let (d, b') = bucket_record_failure now b in (d, AList.update k b' m))
      | None \<Rightarrow> (required_delay 1, AList.update k (new_bucket now) m))"

definition record_failure :: "throttle \<Rightarrow> nat \<Rightarrow> ip_addr \<Rightarrow> str \<Rightarrow> nat \<times> throttle" where
  "record_failure t now ip username =
     (let account = normalize_username username;
          ips = evict now ip (per_ip t);
          accounts = evict now account (per_account t);
          (ip_delay, ips') = count_failure now ip ips;
          (account_delay, accounts') = count_failure now account accounts
      in (max ip_delay account_delay, \<lparr>per_ip = ips', per_account = accounts'\<rparr>))"

definition record_success :: "throttle \<Rightarrow> ip_addr \<Rightarrow> str \<Rightarrow> throttle" where
  "record_success t ip username =
     \<lparr>per_ip = AList.delete ip (per_ip t),
      per_account = AList.delete (normalize_username username) (per_account t)\<rparr>"

subsection \<open>Histories\<close>

datatype attempt = LoginFailed nat ip_addr str | LoginOk nat ip_addr str

fun attempt_time :: "attempt \<Rightarrow> nat" where
  "attempt_time (LoginFailed now _ _) = now"
| "attempt_time (LoginOk now _ _) = now"

fun apply_attempt :: "attempt \<Rightarrow> throttle \<Rightarrow> throttle" where
  "apply_attempt (LoginFailed now ip u) t = snd (record_failure t now ip u)"
| "apply_attempt (LoginOk now ip u) t = record_success t ip u"

text \<open>A history has the most recent attempt first.\<close>

definition throttle_after :: "attempt list \<Rightarrow> throttle" where
  "throttle_after h = foldr apply_attempt h new_throttle"

text \<open>The specification: the consecutive failures of a key in a history and the time of the last
  one. A success clears the key, and a failure more than a quiet window after the previous one
  starts over.\<close>

fun failure_run :: "(ip_addr \<Rightarrow> str \<Rightarrow> 'k) \<Rightarrow> 'k \<Rightarrow> attempt list \<Rightarrow> (nat \<times> nat) option" where
  "failure_run key k [] = None"
| "failure_run key k (LoginOk now ip u # h) = (if key ip u = k then None else failure_run key k h)"
| "failure_run key k (LoginFailed now ip u # h) =
     (if key ip u = k
      then (case failure_run key k h of
              None \<Rightarrow> Some (1, now)
            | Some (n, prev) \<Rightarrow> Some (if QUIET_WINDOW < now - prev then 1 else Suc n, now))
      else failure_run key k h)"

definition spec_delay :: "nat \<Rightarrow> nat" where
  "spec_delay n = secs (min (2 ^ min (n - 1) 6) MAX_DELAY)"

definition spec_penalty :: "nat \<Rightarrow> (nat \<times> nat) option \<Rightarrow> nat" where
  "spec_penalty now r =
     (case r of None \<Rightarrow> 0 | Some (n, prev) \<Rightarrow> if QUIET_WINDOW < now - prev then 0 else spec_delay n)"

abbreviation ip_key :: "ip_addr \<Rightarrow> str \<Rightarrow> ip_addr" where
  "ip_key ip u \<equiv> ip"

abbreviation account_key :: "ip_addr \<Rightarrow> str \<Rightarrow> str" where
  "account_key ip u \<equiv> normalize_username u"

subsection \<open>Lemmas\<close>

lemma spec_delay_ge_7: "7 \<le> n \<Longrightarrow> spec_delay n = secs MAX_DELAY"
proof -
  assume "7 \<le> n"
  then have "min (n - 1) 6 = 6" by simp
  then show ?thesis unfolding spec_delay_def by (simp add: MAX_DELAY_def)
qed

lemma saturating_inc_unat: "unat (saturating_inc n) = min (Suc (unat n)) (2 ^ 32 - 1)"
proof (cases "n = - 1")
  case True
  then show ?thesis
    by (simp add: saturating_inc_def unsigned_minus_1_eq_mask mask_eq_exp_minus_1)
next
  case False
  then have "1 + n \<noteq> 0" by (metis add.commute eq_neg_iff_add_eq_0)
  then have "unat (n + 1) = Suc (unat n)" by (metis unatSuc add.commute)
  moreover have "unat (n + 1) < 2 ^ LENGTH(32)" by (rule unsigned_less)
  ultimately show ?thesis using False by (simp add: saturating_inc_def)
qed

text \<open>A bucket agrees with the failures counted so far, up to the saturation of the counter; an
  evicted bucket was expired.\<close>

definition bucket_agrees :: "nat \<Rightarrow> bucket option \<Rightarrow> (nat \<times> nat) option \<Rightarrow> bool" where
  "bucket_agrees now b r =
     (case (b, r) of
        (None, None) \<Rightarrow> True
      | (None, Some (n, prev)) \<Rightarrow> QUIET_WINDOW < now - prev
      | (Some b, None) \<Rightarrow> False
      | (Some b, Some (n, prev)) \<Rightarrow> last_failure b = prev \<and> unat (failures b) = min n (2 ^ 32 - 1))"

lemma bucket_agrees_later: "bucket_agrees now b r \<Longrightarrow> now \<le> now' \<Longrightarrow> bucket_agrees now' b r"
  by (auto simp: bucket_agrees_def split: option.splits)

lemma required_delay_spec:
  assumes "unat (failures b) = min n (2 ^ 32 - 1)"
  shows "required_delay (failures b) = spec_delay n"
proof -
  have "min (unat (failures b) - 1) 6 = min (n - 1) 6" using assms by (cases "n \<le> 2 ^ 32 - 1") simp_all
  then show ?thesis by (simp add: required_delay_def spec_delay_def)
qed

lemma agrees_penalty:
  "bucket_agrees now b r \<Longrightarrow> (case b of None \<Rightarrow> 0 | Some b \<Rightarrow> current_delay now b) = spec_penalty now r"
  by (auto simp: bucket_agrees_def spec_penalty_def current_delay_def required_delay_spec
      split: option.splits)

lemma map_of_filter_value:
  "distinct (map fst m) \<Longrightarrow>
     map_of (filter (\<lambda>(_, b). P b) m) k = (case map_of m k of Some b \<Rightarrow> if P b then Some b else None | None \<Rightarrow> None)"
proof (induction m)
  case (Cons kb m)
  have "map_of m k = None" if "k = fst kb"
    using Cons.prems that by (simp add: map_of_eq_None_iff)
  with Cons show ?case by (cases kb) (auto split: option.splits)
qed simp

lemma evict_agrees:
  assumes "distinct (map fst m)" and "bucket_agrees now (map_of m k) r"
  shows "bucket_agrees now (map_of (evict now k' m) k) r" and "distinct (map fst (evict now k' m))"
proof -
  show "bucket_agrees now (map_of (evict now k' m) k) r"
    unfolding evict_def using assms(2) map_of_filter_value [OF assms(1)]
    by (cases "map_of m k") (auto simp: bucket_agrees_def split: option.splits)
  show "distinct (map fst (evict now k' m))"
    using assms(1) by (auto simp: evict_def distinct_map_filter)
qed

lemma count_failure_agrees:
  assumes "bucket_agrees now (map_of m k) (failure_run key k h)"
  shows "bucket_agrees now (map_of (snd (count_failure now (key ip u) m)) k)
           (failure_run key k (LoginFailed now ip u # h))"
proof (cases "key ip u = k")
  case True
  with assms show ?thesis
    by (auto simp: count_failure_def bucket_agrees_def new_bucket_def bucket_record_failure_def
        update_conv' Let_def saturating_inc_unat split: option.splits)
next
  case False
  with assms show ?thesis
    by (simp add: count_failure_def update_conv' Let_def split: option.splits prod.splits)
qed

lemma count_failure_distinct:
  "distinct (map fst m) \<Longrightarrow> distinct (map fst (snd (count_failure now k m)))"
  by (auto simp: count_failure_def distinct_update Let_def split: option.splits prod.splits)

text \<open>One step of either map.\<close>

fun map_step :: "(ip_addr \<Rightarrow> str \<Rightarrow> 'k) \<Rightarrow> attempt \<Rightarrow> ('k \<times> bucket) list \<Rightarrow> ('k \<times> bucket) list" where
  "map_step key (LoginFailed now ip u) m = snd (count_failure now (key ip u) (evict now (key ip u) m))"
| "map_step key (LoginOk now ip u) m = AList.delete (key ip u) m"

lemma throttle_after_maps:
  "per_ip (throttle_after h) = foldr (map_step ip_key) h []"
  "per_account (throttle_after h) = foldr (map_step account_key) h []"
proof -
  have "per_ip (apply_attempt e t) = map_step ip_key e (per_ip t) \<and>
      per_account (apply_attempt e t) = map_step account_key e (per_account t)" for e t
    by (cases e) (auto simp: record_failure_def record_success_def Let_def split: prod.splits)
  then have "per_ip (throttle_after h) = foldr (map_step ip_key) h [] \<and>
      per_account (throttle_after h) = foldr (map_step account_key) h []"
    by (induction h) (simp_all add: throttle_after_def new_throttle_def)
  then show "per_ip (throttle_after h) = foldr (map_step ip_key) h []"
    "per_account (throttle_after h) = foldr (map_step account_key) h []" by blast+
qed

definition chronological :: "attempt list \<Rightarrow> bool" where
  "chronological h \<longleftrightarrow> sorted_wrt (\<lambda>e f. attempt_time f \<le> attempt_time e) h"

lemma map_agrees:
  assumes "chronological h" and "\<forall>e \<in> set h. attempt_time e \<le> now"
  shows "distinct (map fst (foldr (map_step key) h [])) \<and>
         bucket_agrees now (map_of (foldr (map_step key) h []) k) (failure_run key k h)"
  using assms
proof (induction h arbitrary: now)
  case (Cons e h)
  have IH: "distinct (map fst (foldr (map_step key) h [])) \<and>
      bucket_agrees (attempt_time e) (map_of (foldr (map_step key) h []) k) (failure_run key k h)"
    by (rule Cons.IH) (use Cons.prems in \<open>auto simp: chronological_def\<close>)
  have "distinct (map fst (map_step key e (foldr (map_step key) h []))) \<and>
      bucket_agrees (attempt_time e) (map_of (map_step key e (foldr (map_step key) h [])) k)
        (failure_run key k (e # h))"
  proof (cases e)
    case (LoginFailed t ip u)
    let ?m = "foldr (map_step key) h []"
    have m: "distinct (map fst ?m)" "bucket_agrees t (map_of ?m k) (failure_run key k h)"
      using IH LoginFailed by simp_all
    show ?thesis
      using count_failure_agrees [OF evict_agrees(1) [OF m]]
        count_failure_distinct [OF evict_agrees(2) [OF m]]
      unfolding LoginFailed attempt_time.simps map_step.simps by blast
  next
    case (LoginOk t ip u)
    with IH show ?thesis by (auto simp: distinct_delete delete_conv' bucket_agrees_def)
  qed
  then show ?case using Cons.prems(2) bucket_agrees_later by fastforce
qed (simp add: bucket_agrees_def)

lemma map_delay_after:
  assumes "chronological h" and "\<forall>e \<in> set h. attempt_time e \<le> now"
  shows "map_delay now (foldr (map_step key) h []) k = spec_penalty now (failure_run key k h)"
  using agrees_penalty [OF conjunct2 [OF map_agrees [OF assms, of key k]]]
  by (simp add: map_delay_def)

lemma map_delay_le: "map_delay now m k \<le> secs MAX_DELAY"
  by (auto simp: map_delay_def current_delay_def required_delay_def secs_def MAX_DELAY_def
      split: option.splits)

lemma length_update_new: "map_of m k = None \<Longrightarrow> length (AList.update k v m) = Suc (length m)"
  by (induction m) (auto split: if_splits)

subsection \<open>Properties of the throttle\<close>

text \<open>
  C14. The throttle is exact: after any history of attempts (in order of time, from any addresses, on
  any names), the penalty of the next attempt is the larger of the delays that the specification
  gives to the run of failures of its address and of its account, one second doubled at each further
  failure up to sixty and zero after a quiet window. In particular neither eviction of expired
  buckets nor the saturation of the counter ever forgives a live failure, and an attacker who
  rotates addresses still meets the account's run.
\<close>

theorem penalty_matches_history:
  assumes "chronological h" and "\<forall>e \<in> set h. attempt_time e \<le> now"
  shows "penalty_for (throttle_after h) now ip u =
           max (spec_penalty now (failure_run ip_key ip h))
               (spec_penalty now (failure_run account_key (normalize_username u) h))"
  by (simp add: penalty_for_def throttle_after_maps map_delay_after [OF assms])

theorem penalty_matches_history_witness:
  "penalty_for (throttle_after [LoginFailed 30 (V4 2) ''Bob'', LoginFailed 20 (V4 1) ''bob '']) 40 (V4 3) ''BOB''
     = secs 2"
proof -
  have h: "chronological [LoginFailed 30 (V4 2) ''Bob'', LoginFailed 20 (V4 1) ''bob '']"
    "\<forall>e \<in> set [LoginFailed 30 (V4 2) ''Bob'', LoginFailed 20 (V4 1) ''bob '']. attempt_time e \<le> 40"
    by (simp_all add: chronological_def)
  have n: "normalize_username ''Bob'' = ''bob''" "normalize_username ''bob '' = ''bob''"
    "normalize_username ''BOB'' = ''bob''" by code_simp+
  show ?thesis
    using penalty_matches_history [OF h, of "V4 3" "''BOB''"]
    by (simp add: n spec_penalty_def spec_delay_def QUIET_WINDOW_def secs_def MAX_DELAY_def)
qed

text \<open>
  A penalty never exceeds sixty seconds, and a successful login clears the penalty of its own
  address and account while every other account keeps its own.
\<close>

theorem success_clears_own_penalty:
  "penalty_for t now ip u \<le> secs MAX_DELAY \<and>
   penalty_for (record_success t ip u) now ip u = 0 \<and>
   (normalize_username v = normalize_username u \<or>
    map_delay now (per_account (record_success t ip u)) (normalize_username v) =
      map_delay now (per_account t) (normalize_username v))"
proof -
  have "penalty_for t now ip u \<le> secs MAX_DELAY"
    by (simp add: penalty_for_def map_delay_le)
  then show ?thesis
    by (auto simp: penalty_for_def record_success_def map_delay_def delete_conv')
qed

text \<open>
  The cap on tracked buckets is not a hard one: when the map is full of live buckets, the failure
  of a new address is still added, so that a flood of more than \<open>MAX_ENTRIES\<close> addresses within the
  quiet window grows the map beyond it.
\<close>

theorem entry_cap_exceeded:
  assumes "MAX_ENTRIES \<le> length (per_ip t)" and "map_of (per_ip t) ip = None"
    and "\<forall>b \<in> snd ` set (per_ip t). now - last_failure b \<le> QUIET_WINDOW"
  shows "length (per_ip (snd (record_failure t now ip u))) = Suc (length (per_ip t))"
proof -
  have "filter (\<lambda>(_, b). now - last_failure b \<le> QUIET_WINDOW) (per_ip t) = per_ip t"
    using assms(3) by (force simp: filter_id_conv)
  then have "evict now ip (per_ip t) = per_ip t" by (simp add: evict_def)
  then show ?thesis
    using assms(2)
    by (simp add: record_failure_def count_failure_def length_update_new Let_def split: prod.splits)
qed

theorem entry_cap_exceeded_witness:
  "length (per_ip (snd (record_failure
     \<lparr>per_ip = map (\<lambda>i. (V4 (of_nat i), new_bucket 5)) [0..<10000], per_account = []\<rparr> 7 (V6 1) ''x'')))
   = 10001"
proof -
  let ?t = "\<lparr>per_ip = map (\<lambda>i. (V4 (of_nat i), new_bucket 5)) [0..<10000], per_account = []\<rparr>"
  have "MAX_ENTRIES \<le> length (per_ip ?t)" by (simp add: MAX_ENTRIES_def)
  moreover have "map_of (per_ip ?t) (V6 1) = None" by (simp add: map_of_eq_None_iff image_iff)
  moreover have "\<forall>b \<in> snd ` set (per_ip ?t). 7 - last_failure b \<le> QUIET_WINDOW"
    by (auto simp: new_bucket_def QUIET_WINDOW_def secs_def)
  ultimately show ?thesis using entry_cap_exceeded [of ?t "V6 1" 7 "''x''"] by simp
qed

end
