(* ===== verification/Operations.thy ===== *)
theory Operations
  imports Store "HOL-Library.Word"
begin

section \<open>The operations journal (src/src/services/operations.rs)\<close>

text \<open>
  Durable records of every mutating workflow, background jobs, and reconciliation with its approvals
  and quarantine. The three JSON stores are the state; identifiers and time stamps of a call are
  arguments, and what the KVM, LXC and network services report or do is the record \<open>host_services\<close>.
  A worker is modelled by the sequence of journal updates it makes. The service has no lock of its own:
  each \<open>get\<close> and \<open>put\<close> is one atomic step, and a read followed by a write is two, which the last section
  uses to interleave two requests.
\<close>

datatype operation_status = Queued | Running | Succeeded | Failed | Cancelled | NeedsReview

datatype reconciliation_mode = DryRun | Repair

datatype finding_kind = MissingFromHost | UnmanagedHost

record finding =
  f_resource_type :: str
  f_resource_id :: str
  f_host_id :: "str option"
  f_kind :: finding_kind
  f_message :: str
  f_repairable :: bool
  f_destructive :: bool

record operation_record =
  op_id :: str
  op_kind :: str
  op_status :: operation_status
  op_actor :: "str option"
  op_mode :: "reconciliation_mode option"
  op_progress :: "8 word option"
  op_resource_type :: "str option"
  op_resource_id :: "str option"
  op_result_id :: "str option"
  op_drift :: "str option"
  op_findings :: "finding list option"
  op_created_at :: str
  op_started_at :: "str option"
  op_finished_at :: "str option"
  op_message :: "str option"
  op_error :: "str option"

datatype quarantine_status = Pending | Adopted | Released

datatype quarantine_decision = Adopt | Release

record quarantine_record =
  q_id :: str
  q_resource_type :: str
  q_host_id :: str
  q_message :: str
  q_status :: quarantine_status
  q_created_at :: str
  q_decided_at :: "str option"
  q_decided_by :: "str option"
  q_decision_message :: "str option"

record consumed_approval =
  ca_id :: str
  ca_consumed_at :: str

text \<open>The repairs that were asked of the other services are recorded, in order, in \<open>host_repairs\<close>: a ghost
  component, which the code does not keep and no operation reads.\<close>

datatype repair_action = RepairVm str | RepairContainer str | RepairBridge str | RepairVlan str

record operation_service =
  journal :: "operation_record jstore"
  quarantined :: "quarantine_record jstore"
  consumed :: "consumed_approval jstore"
  host_repairs :: "repair_action list"

text \<open>A store operation on one component of the service.\<close>

definition on_journal ::
  "(operation_record jstore \<Rightarrow> 'a \<times> operation_record jstore) \<Rightarrow> operation_service \<Rightarrow> 'a \<times> operation_service" where
  "on_journal f s = (let (r, st) = f (journal s) in (r, s\<lparr>journal := st\<rparr>))"

definition on_quarantine ::
  "(quarantine_record jstore \<Rightarrow> 'a \<times> quarantine_record jstore) \<Rightarrow> operation_service \<Rightarrow> 'a \<times> operation_service" where
  "on_quarantine f s = (let (r, st) = f (quarantined s) in (r, s\<lparr>quarantined := st\<rparr>))"

definition on_consumed ::
  "(consumed_approval jstore \<Rightarrow> 'a \<times> consumed_approval jstore) \<Rightarrow> operation_service \<Rightarrow> 'a \<times> operation_service" where
  "on_consumed f s = (let (r, st) = f (consumed s) in (r, s\<lparr>consumed := st\<rparr>))"

definition op_put :: "operation_record \<Rightarrow> operation_service \<Rightarrow> unit api_result \<times> operation_service" where
  "op_put r s = on_journal (Store.put (op_id r) r) s"

definition op_get :: "str \<Rightarrow> operation_service \<Rightarrow> operation_record api_result \<times> operation_service" where
  "op_get i s =
     bind_st (on_journal (Store.get i) s) (\<lambda>x s.
       (ok_or x (not_found ''operation not found''), s))"

subsection \<open>Lifecycle\<close>

definition create_record ::
  "str \<Rightarrow> str \<Rightarrow> str \<Rightarrow> operation_status \<Rightarrow> str option \<Rightarrow> str option \<Rightarrow> str option \<Rightarrow> operation_service
     \<Rightarrow> operation_record api_result \<times> operation_service" where
  "create_record new_id now kind st0 resource_type resource_id actor s =
     (if trim kind = [] then (Inl (validation ''operation kind must not be empty''), s)
      else
        (let r = \<lparr>op_id = new_id, op_kind = kind, op_status = st0, op_actor = actor, op_mode = None,
                  op_progress = None, op_resource_type = resource_type, op_resource_id = resource_id,
                  op_result_id = None, op_drift = None, op_findings = None, op_created_at = now,
                  op_started_at = (if st0 = Running then Some now else None),
                  op_finished_at = None, op_message = None, op_error = None\<rparr>
         in bind_st (op_put r s) (\<lambda>_ s. (Inr r, s))))"

definition begin_op ::
  "str \<Rightarrow> str \<Rightarrow> str \<Rightarrow> str option \<Rightarrow> str option \<Rightarrow> str option \<Rightarrow> operation_service
     \<Rightarrow> str api_result \<times> operation_service" where
  "begin_op new_id now kind resource_type resource_id actor s =
     bind_st (create_record new_id now kind Running resource_type resource_id actor s) (\<lambda>r s.
       (Inr (op_id r), s))"

definition queue_op ::
  "str \<Rightarrow> str \<Rightarrow> str \<Rightarrow> str option \<Rightarrow> str option \<Rightarrow> str option \<Rightarrow> operation_service
     \<Rightarrow> operation_record api_result \<times> operation_service" where
  "queue_op new_id now kind resource_type resource_id actor s =
     create_record new_id now kind Queued resource_type resource_id actor s"

definition mark_running :: "str \<Rightarrow> str \<Rightarrow> operation_service \<Rightarrow> unit api_result \<times> operation_service" where
  "mark_running now i s =
     bind_st (op_get i s) (\<lambda>r s.
       if op_status r \<noteq> Queued then (Inr (), s)
       else op_put (r\<lparr>op_status := Running, op_started_at := Some now, op_progress := Some 0\<rparr>) s)"

definition terminal :: "operation_status \<Rightarrow> bool" where
  "terminal st \<longleftrightarrow> st \<in> {Succeeded, Failed, Cancelled, NeedsReview}"

definition update_progress ::
  "str \<Rightarrow> 8 word \<Rightarrow> str option \<Rightarrow> operation_service \<Rightarrow> unit api_result \<times> operation_service" where
  "update_progress i pct msg s =
     bind_st (op_get i s) (\<lambda>r s.
       if terminal (op_status r) then (Inr (), s)
       else op_put (r\<lparr>op_progress := Some (if pct \<le> 100 then pct else 100),
                      op_message := (case msg of None \<Rightarrow> op_message r | Some m \<Rightarrow> Some m)\<rparr>) s)"

definition or_else :: "'a option \<Rightarrow> 'a option \<Rightarrow> 'a option" where
  "or_else a b = (case a of None \<Rightarrow> b | Some x \<Rightarrow> Some x)"

definition finish ::
  "str \<Rightarrow> str \<Rightarrow> operation_status \<Rightarrow> str option \<Rightarrow> str option \<Rightarrow> str option \<Rightarrow> str option \<Rightarrow> operation_service
     \<Rightarrow> unit api_result \<times> operation_service" where
  "finish now i st1 resource_type resource_id msg err s =
     bind_st (on_journal (Store.get i) s) (\<lambda>x s.
       case x of
         None \<Rightarrow> (Inl (not_found ''operation record not found''), s)
       | Some r \<Rightarrow>
           op_put (r\<lparr>op_status := st1,
                     op_resource_type := or_else resource_type (op_resource_type r),
                     op_resource_id := or_else resource_id (op_resource_id r),
                     op_finished_at := Some now,
                     op_progress := (if st1 = Succeeded then Some 100 else op_progress r),
                     op_message := or_else msg (op_message r),
                     op_error := err\<rparr>) s)"

definition succeed ::
  "str \<Rightarrow> str \<Rightarrow> str option \<Rightarrow> str option \<Rightarrow> str option \<Rightarrow> operation_service
     \<Rightarrow> unit api_result \<times> operation_service" where
  "succeed now i resource_type resource_id msg s =
     finish now i Succeeded resource_type resource_id msg None s"

definition fail :: "str \<Rightarrow> str \<Rightarrow> str \<Rightarrow> operation_service \<Rightarrow> unit api_result \<times> operation_service" where
  "fail now i err s = finish now i Failed None None None (Some err) s"

definition set_result_id :: "str \<Rightarrow> str \<Rightarrow> operation_service \<Rightarrow> unit api_result \<times> operation_service" where
  "set_result_id i result s = bind_st (op_get i s) (\<lambda>r s. op_put (r\<lparr>op_result_id := Some result\<rparr>) s)"

definition set_reconciliation_mode ::
  "str \<Rightarrow> reconciliation_mode \<Rightarrow> operation_service \<Rightarrow> unit api_result \<times> operation_service" where
  "set_reconciliation_mode i mode s = bind_st (op_get i s) (\<lambda>r s. op_put (r\<lparr>op_mode := Some mode\<rparr>) s)"

definition set_findings ::
  "str \<Rightarrow> finding list \<Rightarrow> operation_service \<Rightarrow> unit api_result \<times> operation_service" where
  "set_findings i fs s =
     bind_st (op_get i s) (\<lambda>r s.
       op_put (r\<lparr>op_findings := Some fs,
                 op_drift := (if fs = [] then None else Some (join ''; '' (map f_message fs)))\<rparr>) s)"

definition op_list :: "operation_service \<Rightarrow> operation_record list api_result \<times> operation_service" where
  "op_list s = bind_st (on_journal Store.list s) (\<lambda>rs s. (Inr (sort_desc op_created_at rs), s))"

text \<open>\<open>run\<close>: a synchronous workflow \<open>work\<close> with its journal record around it; a failure to finalize the
  record does not change the outcome.\<close>

definition run_op ::
  "str \<Rightarrow> str \<Rightarrow> str \<Rightarrow> str \<Rightarrow> str option \<Rightarrow> str option \<Rightarrow> str option
     \<Rightarrow> (operation_service \<Rightarrow> 'a api_result \<times> operation_service)
     \<Rightarrow> operation_service \<Rightarrow> 'a api_result \<times> operation_service" where
  "run_op new_id now now' kind resource_type resource_id actor work s =
     bind_st (begin_op new_id now kind resource_type resource_id actor s) (\<lambda>i s.
       case work s of
         (Inr v, s) \<Rightarrow> (Inr v, snd (succeed now' i resource_type resource_id None s))
       | (Inl e, s) \<Rightarrow> (Inl e, snd (fail now' i (err_message e) s)))"

text \<open>The worker of \<open>enqueue\<close>, spawned once the queued record is durable.\<close>

definition worker ::
  "str \<Rightarrow> str \<Rightarrow> str \<Rightarrow> str option \<Rightarrow> str option
     \<Rightarrow> (str \<Rightarrow> operation_service \<Rightarrow> str option api_result \<times> operation_service)
     \<Rightarrow> operation_service \<Rightarrow> operation_service" where
  "worker now now' i resource_type resource_id work s =
     (case mark_running now i s of
        (Inl _, s) \<Rightarrow> s
      | (Inr _, s) \<Rightarrow>
          (case work i s of
             (Inr msg, s) \<Rightarrow> snd (succeed now' i resource_type resource_id msg s)
           | (Inl e, s) \<Rightarrow> snd (fail now' i (err_message e) s)))"

subsection \<open>Start-up recovery\<close>

definition interrupted_message :: str where
  "interrupted_message =
     ''backend stopped before the operation outcome was recorded; inspect host state''"

fun recover_loop ::
  "str \<Rightarrow> operation_record list \<Rightarrow> nat \<Rightarrow> operation_service \<Rightarrow> nat api_result \<times> operation_service" where
  "recover_loop now [] n s = (Inr n, s)"
| "recover_loop now (r # rs) n s =
     (if op_status r \<in> {Queued, Running} then
        bind_st (op_put (r\<lparr>op_status := NeedsReview, op_finished_at := Some now,
                           op_message := Some interrupted_message\<rparr>) s) (\<lambda>_ s.
          recover_loop now rs (Suc n) s)
      else recover_loop now rs n s)"

definition recover_interrupted :: "str \<Rightarrow> operation_service \<Rightarrow> nat api_result \<times> operation_service" where
  "recover_interrupted now s =
     bind_st (on_journal Store.list s) (\<lambda>rs s. recover_loop now rs 0 s)"

subsection \<open>Quarantine\<close>

definition quarantine ::
  "str \<Rightarrow> str \<Rightarrow> str \<Rightarrow> str \<Rightarrow> str \<Rightarrow> operation_service \<Rightarrow> quarantine_record api_result \<times> operation_service" where
  "quarantine new_id now resource_type host_id msg s =
     bind_st (on_quarantine Store.list s) (\<lambda>items s.
       case find (\<lambda>q. q_status q = Pending \<and> q_resource_type q = resource_type \<and> q_host_id q = host_id) items of
         Some existing \<Rightarrow> (Inr existing, s)
       | None \<Rightarrow>
           (let q = \<lparr>q_id = new_id, q_resource_type = resource_type, q_host_id = host_id, q_message = msg,
                     q_status = Pending, q_created_at = now, q_decided_at = None, q_decided_by = None,
                     q_decision_message = None\<rparr>
            in bind_st (on_quarantine (Store.put (q_id q) q) s) (\<lambda>_ s. (Inr q, s))))"

fun persist_unmanaged_findings ::
  "(nat \<Rightarrow> str) \<Rightarrow> str \<Rightarrow> finding list \<Rightarrow> operation_service \<Rightarrow> unit api_result \<times> operation_service" where
  "persist_unmanaged_findings ids now [] s = (Inr (), s)"
| "persist_unmanaged_findings ids now (f # fs) s =
     (case (f_kind f, f_host_id f) of
        (UnmanagedHost, Some host_id) \<Rightarrow>
          bind_st (quarantine (ids (length fs)) now (f_resource_type f) host_id (f_message f) s) (\<lambda>_ s.
            persist_unmanaged_findings ids now fs s)
      | _ \<Rightarrow> persist_unmanaged_findings ids now fs s)"

definition list_quarantine :: "operation_service \<Rightarrow> quarantine_record list api_result \<times> operation_service" where
  "list_quarantine s = bind_st (on_quarantine Store.list s) (\<lambda>qs s. (Inr (sort_desc q_created_at qs), s))"

text \<open>\<open>adopt_bridge\<close> of the network service is an argument.\<close>

definition decide_quarantine ::
  "(str \<Rightarrow> unit api_result) \<Rightarrow> str \<Rightarrow> str \<Rightarrow> quarantine_decision \<Rightarrow> str \<Rightarrow> str option \<Rightarrow> operation_service
     \<Rightarrow> quarantine_record api_result \<times> operation_service" where
  "decide_quarantine adopt_bridge now i decision actor msg s =
     bind_st (on_quarantine (Store.get i) s) (\<lambda>x s.
       case x of
         None \<Rightarrow> (Inl (not_found ''quarantine record not found''), s)
       | Some q \<Rightarrow>
           if q_status q \<noteq> Pending then (Inl (conflict ''quarantine record already has a decision''), s)
           else
             (case (case decision of
                      Release \<Rightarrow> Inr Released
                    | Adopt \<Rightarrow>
                        if q_resource_type q = ''bridge''
                        then bind_res (adopt_bridge (q_host_id q)) (\<lambda>_. Inr Adopted)
                        else Inl (validation
                          ''this resource type requires an explicit import workflow before adoption'')) of
                Inl e \<Rightarrow> (Inl e, s)
              | Inr st \<Rightarrow>
                  (let q' = q\<lparr>q_status := st, q_decided_at := Some now, q_decided_by := Some actor,
                              q_decision_message := msg\<rparr>
                   in bind_st (on_quarantine (Store.put (q_id q') q') s) (\<lambda>_ s. (Inr q', s)))))"

subsection \<open>Reconciliation\<close>

text \<open>What the KVM, LXC and network services report, and what a repair of one resource does.\<close>

record host_services =
  vm_drift :: "(str list \<times> str list) api_result"
  ct_drift :: "(str list \<times> str list) api_result"
  net_drift :: "(str list \<times> str list) api_result"
  count_vms :: "nat api_result"
  count_containers :: "nat api_result"
  count_datasets :: "nat api_result"
  count_bridges :: "nat api_result"
  count_shares :: "nat api_result"
  count_gpus :: "nat api_result"
  repair_vm :: "str \<Rightarrow> unit api_result"
  repair_container :: "str \<Rightarrow> unit api_result"
  repair_bridge :: "str \<Rightarrow> unit api_result"
  repair_vlan :: "str \<Rightarrow> unit api_result"

definition vm_missing :: "str \<Rightarrow> finding" where
  "vm_missing i = \<lparr>f_resource_type = ''vm'', f_resource_id = i, f_host_id = None, f_kind = MissingFromHost,
     f_message = ''VM record is missing from libvirt: '' @ i, f_repairable = True, f_destructive = False\<rparr>"

definition vm_unmanaged :: "str \<Rightarrow> finding" where
  "vm_unmanaged i = \<lparr>f_resource_type = ''vm'', f_resource_id = i, f_host_id = Some i, f_kind = UnmanagedHost,
     f_message = ''VM '' @ i @ '' exists in libvirt but is not tracked'', f_repairable = False,
     f_destructive = False\<rparr>"

definition ct_missing :: "str \<Rightarrow> finding" where
  "ct_missing i = \<lparr>f_resource_type = ''container'', f_resource_id = i, f_host_id = None,
     f_kind = MissingFromHost,
     f_message = ''container '' @ i @ '' is missing from LXC; restore or import is required'',
     f_repairable = False, f_destructive = True\<rparr>"

definition ct_unmanaged :: "str \<Rightarrow> finding" where
  "ct_unmanaged i = \<lparr>f_resource_type = ''container'', f_resource_id = i, f_host_id = Some i,
     f_kind = UnmanagedHost, f_message = ''container '' @ i @ '' exists in LXC but is not tracked'',
     f_repairable = False, f_destructive = False\<rparr>"

definition net_missing :: "str \<Rightarrow> finding" where
  "net_missing i = \<lparr>f_resource_type = (if starts_with i ''vlan:'' then ''vlan'' else ''bridge''),
     f_resource_id = (case strip_prefix i ''vlan:'' of None \<Rightarrow> i | Some r \<Rightarrow> r), f_host_id = None,
     f_kind = MissingFromHost, f_message = ''network resource '' @ i @ '' is missing from host'',
     f_repairable = True, f_destructive = False\<rparr>"

definition net_unmanaged :: "str \<Rightarrow> finding" where
  "net_unmanaged i = \<lparr>f_resource_type = ''bridge'', f_resource_id = i, f_host_id = Some i,
     f_kind = UnmanagedHost,
     f_message = ''network resource '' @ i @ '' exists on host but is not tracked'',
     f_repairable = False, f_destructive = False\<rparr>"

definition detect_drift :: "host_services \<Rightarrow> finding list api_result" where
  "detect_drift h =
     bind_res (vm_drift h) (\<lambda>(vm_host, vm_store).
     bind_res (ct_drift h) (\<lambda>(ct_host, ct_store).
     bind_res (net_drift h) (\<lambda>(net_host, net_store).
       Inr (map vm_missing vm_host @ map vm_unmanaged vm_store @ map ct_missing ct_host
            @ map ct_unmanaged ct_store @ map net_missing net_host @ map net_unmanaged net_store))))"

definition repair_of :: "finding \<Rightarrow> repair_action option" where
  "repair_of f =
     (if f_kind f = UnmanagedHost \<or> \<not> f_repairable f \<or> f_destructive f then None
      else if f_resource_type f = ''vm'' then Some (RepairVm (f_resource_id f))
      else if f_resource_type f = ''container'' then Some (RepairContainer (f_resource_id f))
      else if f_resource_type f = ''bridge'' then Some (RepairBridge (f_resource_id f))
      else if f_resource_type f = ''vlan'' then Some (RepairVlan (f_resource_id f))
      else None)"

fun repair_call :: "host_services \<Rightarrow> repair_action \<Rightarrow> unit api_result" where
  "repair_call h (RepairVm i) = repair_vm h i"
| "repair_call h (RepairContainer i) = repair_container h i"
| "repair_call h (RepairBridge i) = repair_bridge h i"
| "repair_call h (RepairVlan i) = repair_vlan h i"

definition do_repair ::
  "host_services \<Rightarrow> repair_action \<Rightarrow> operation_service \<Rightarrow> unit api_result \<times> operation_service" where
  "do_repair h a s = (repair_call h a, s\<lparr>host_repairs := host_repairs s @ [a]\<rparr>)"

fun repair_findings ::
  "host_services \<Rightarrow> (nat \<Rightarrow> str) \<Rightarrow> str \<Rightarrow> finding list \<Rightarrow> operation_service
     \<Rightarrow> unit api_result \<times> operation_service" where
  "repair_findings h ids now [] s = (Inr (), s)"
| "repair_findings h ids now (f # fs) s =
     (if f_kind f = UnmanagedHost then
        (case f_host_id f of
           None \<Rightarrow> repair_findings h ids now fs s
         | Some host_id \<Rightarrow>
             bind_st (quarantine (ids (length fs)) now (f_resource_type f) host_id (f_message f) s) (\<lambda>_ s.
               repair_findings h ids now fs s))
      else
        (case repair_of f of
           None \<Rightarrow> repair_findings h ids now fs s
         | Some a \<Rightarrow> bind_st (do_repair h a s) (\<lambda>_ s. repair_findings h ids now fs s)))"

record reconcile_request =
  rq_mode :: reconciliation_mode
  rq_approval_id :: "str option"
  rq_quarantine_unmanaged :: bool

definition consume_approval :: "str \<Rightarrow> str \<Rightarrow> operation_service \<Rightarrow> unit api_result \<times> operation_service" where
  "consume_approval now i s =
     bind_st (on_consumed (Store.get i) s) (\<lambda>x s.
       if x \<noteq> None
       then (Inl (conflict ''this dry-run approval has already been used for a repair''), s)
       else on_consumed (Store.put i \<lparr>ca_id = i, ca_consumed_at = now\<rparr>) s)"

definition valid_approval :: "operation_record \<Rightarrow> bool" where
  "valid_approval r \<longleftrightarrow>
     op_kind r = ''host.reconcile'' \<and> op_status r = Succeeded \<and> op_mode r = Some DryRun \<and>
     op_findings r \<noteq> None"

text \<open>The approval check of \<open>enqueue_reconciliation\<close>, up to the point where the job is queued.\<close>

definition approved_findings ::
  "str \<Rightarrow> reconcile_request \<Rightarrow> operation_service \<Rightarrow> finding list api_result \<times> operation_service" where
  "approved_findings now req s =
     (if rq_mode req = Repair then
        (case rq_approval_id req of
           None \<Rightarrow> (Inl (validation ''repair requires approval_id from a dry run''), s)
         | Some i \<Rightarrow>
             bind_st (op_get i s) (\<lambda>r s.
               if \<not> valid_approval r
               then (Inl (conflict ''approval_id must reference a completed reconciliation dry run''), s)
               else bind_st (consume_approval now i s) (\<lambda>_ s.
                      (Inr (case op_findings r of None \<Rightarrow> [] | Some fs \<Rightarrow> fs), s))))
      else (Inr [], s))"

text \<open>The body of the job, which the worker runs with the operation's identifier.\<close>

definition reconciled_message ::
  "reconciliation_mode \<Rightarrow> nat \<Rightarrow> nat \<Rightarrow> nat \<Rightarrow> nat \<Rightarrow> nat \<Rightarrow> nat \<Rightarrow> finding list \<Rightarrow> str" where
  "reconciled_message mode vms containers datasets bridges shares gpus fs =
     ''reconciled '' @ show_nat vms @ '' VMs, '' @ show_nat containers @ '' containers, ''
     @ show_nat datasets @ '' datasets, '' @ show_nat bridges @ '' bridges, '' @ show_nat shares
     @ '' shares, and '' @ show_nat gpus @ '' GPUs''
     @ (if fs \<noteq> [] then ''; '' @ show_nat (length fs) @ '' drift findings'' else [])
     @ (if mode = Repair
        then ''; approved non-destructive repairs applied and unmanaged resources quarantined'' else [])"

definition reconcile_work ::
  "host_services \<Rightarrow> (nat \<Rightarrow> str) \<Rightarrow> (nat \<Rightarrow> str) \<Rightarrow> str \<Rightarrow> reconciliation_mode \<Rightarrow> finding list
     \<Rightarrow> str \<Rightarrow> operation_service \<Rightarrow> str option api_result \<times> operation_service" where
  "reconcile_work h ids ids' now mode approved i s =
     bind_st (set_reconciliation_mode i mode s) (\<lambda>_ s.
     bind_st (update_progress i 5 (Some ''scanning virtual machines'') s) (\<lambda>_ s.
     bind_st (count_vms h, s) (\<lambda>vms s.
     bind_st (update_progress i 25 (Some ''scanning containers'') s) (\<lambda>_ s.
     bind_st (count_containers h, s) (\<lambda>containers s.
     bind_st (update_progress i 45 (Some ''scanning storage'') s) (\<lambda>_ s.
     bind_st (count_datasets h, s) (\<lambda>datasets s.
     bind_st (update_progress i 65 (Some ''scanning network'') s) (\<lambda>_ s.
     bind_st (count_bridges h, s) (\<lambda>bridges s.
     bind_st (count_shares h, s) (\<lambda>shares s.
     bind_st (update_progress i 85 (Some ''scanning passthrough devices'') s) (\<lambda>_ s.
     bind_st (count_gpus h, s) (\<lambda>gpus s.
     bind_st (update_progress i 90 (Some ''checking for drift'') s) (\<lambda>_ s.
     bind_st (if mode = DryRun then detect_drift h else Inr approved, s) (\<lambda>fs s.
     bind_st (set_findings i fs s) (\<lambda>_ s.
     bind_st (persist_unmanaged_findings ids now fs s) (\<lambda>_ s.
     bind_st (if mode = Repair
              then bind_st (update_progress i 94 (Some ''applying approved repairs'') s) (\<lambda>_ s.
                     repair_findings h ids' now fs s)
              else (Inr (), s)) (\<lambda>_ s.
       (Inr (Some (reconciled_message mode vms containers datasets bridges shares gpus fs)), s))))))))))))))))))"

text \<open>\<open>enqueue_reconciliation\<close> up to the spawn: the queued record is read back and returned, beside the
  findings that the closure of the job captures. The job itself is \<open>reconcile_job\<close>.\<close>

definition enqueue_reconciliation ::
  "str \<Rightarrow> str \<Rightarrow> reconcile_request \<Rightarrow> str option \<Rightarrow> operation_service
     \<Rightarrow> (operation_record \<times> finding list) api_result \<times> operation_service" where
  "enqueue_reconciliation new_id now req actor s =
     bind_st (approved_findings now req s) (\<lambda>fs s.
       if rq_mode req = Repair \<and> \<not> rq_quarantine_unmanaged req
       then (Inl (validation
         ''repair requires quarantine_unmanaged=true; unmanaged resources are never auto-adopted''), s)
       else
         bind_st (queue_op new_id now ''host.reconcile'' (Some ''node'') None actor s) (\<lambda>r s.
           bind_st (op_get (op_id r) s) (\<lambda>r s. (Inr (r, fs), s))))"

definition reconcile_job ::
  "host_services \<Rightarrow> (nat \<Rightarrow> str) \<Rightarrow> (nat \<Rightarrow> str) \<Rightarrow> str \<Rightarrow> str \<Rightarrow> reconciliation_mode \<Rightarrow> finding list \<Rightarrow> str
     \<Rightarrow> operation_service \<Rightarrow> operation_service" where
  "reconcile_job h ids ids' now now' mode approved i s =
     worker now now' i (Some ''node'') None (reconcile_work h ids ids' now mode approved) s"

end
