(* ===== verification/Operations_Safety.thy ===== *)
theory Operations_Safety
  imports Operations "HOL-Library.Sublist"
begin

section \<open>Safety of the operations journal\<close>

text \<open>
  The calls of the operations service as a step relation: jobs, requests and start-up recovery
  interleave call by call. The order \<open>ops_le\<close> says what no call may undo: finished operations stay
  finished, decided quarantine records stay as they were decided, spent approvals stay spent. Every
  call is shown to respect it for every outcome of the disk, so that every sequence of calls does. The
  last section splits the approval check into its two store accesses and interleaves those.
\<close>

subsection \<open>What no call may undo\<close>

definition pending_for :: "str \<Rightarrow> str \<Rightarrow> quarantine_record \<Rightarrow> bool" where
  "pending_for ty h q \<longleftrightarrow> q_status q = Pending \<and> q_resource_type q = ty \<and> q_host_id q = h"

definition ops_inv :: "operation_service \<Rightarrow> bool" where
  "ops_inv s \<longleftrightarrow>
     store_wf (journal s) \<and> store_wf (quarantined s) \<and> store_wf (consumed s) \<and>
     (\<forall>i r. records (journal s) i = Some r \<longrightarrow> op_id r = i) \<and>
     (\<forall>i q. records (quarantined s) i = Some q \<longrightarrow> q_id q = i) \<and>
     (\<forall>i j q q'. records (quarantined s) i = Some q \<and> records (quarantined s) j = Some q' \<and>
        q_status q = Pending \<and> pending_for (q_resource_type q) (q_host_id q) q' \<longrightarrow> i = j)"

definition journal_le :: "(str \<rightharpoonup> operation_record) \<Rightarrow> (str \<rightharpoonup> operation_record) \<Rightarrow> bool" where
  "journal_le f g \<longleftrightarrow>
     (\<forall>i r. f i = Some r \<longrightarrow>
        (\<exists>r'. g i = Some r' \<and> (terminal (op_status r) \<longrightarrow> terminal (op_status r'))))"

definition quarantine_le :: "(str \<rightharpoonup> quarantine_record) \<Rightarrow> (str \<rightharpoonup> quarantine_record) \<Rightarrow> bool" where
  "quarantine_le f g \<longleftrightarrow>
     (\<forall>i q. f i = Some q \<longrightarrow> (\<exists>q'. g i = Some q' \<and> (q_status q \<noteq> Pending \<longrightarrow> q' = q)))"

definition ops_le :: "operation_service \<Rightarrow> operation_service \<Rightarrow> bool" where
  "ops_le s s' \<longleftrightarrow>
     journal_le (records (journal s)) (records (journal s')) \<and>
     quarantine_le (records (quarantined s)) (records (quarantined s')) \<and>
     dom (records (consumed s)) \<subseteq> dom (records (consumed s'))"

lemma journal_le_trans: "journal_le f g \<Longrightarrow> journal_le g h \<Longrightarrow> journal_le f h"
  unfolding journal_le_def by metis

lemma quarantine_le_trans: "quarantine_le f g \<Longrightarrow> quarantine_le g h \<Longrightarrow> quarantine_le f h"
  unfolding quarantine_le_def by metis

lemma journal_le_refl [simp]: "journal_le f f" and quarantine_le_refl [simp]: "quarantine_le g g"
  by (simp_all add: journal_le_def quarantine_le_def)

lemma ops_le_refl [simp]: "ops_le s s"
  by (simp add: ops_le_def)

lemma ops_le_trans: "ops_le s t \<Longrightarrow> ops_le t u \<Longrightarrow> ops_le s u"
  unfolding ops_le_def by (blast intro: journal_le_trans quarantine_le_trans)

text \<open>A call keeps the invariant and the order; \<open>same_ops\<close> are calls that only read.\<close>

definition keeps :: "operation_service \<Rightarrow> operation_service \<Rightarrow> bool" where
  "keeps s s' \<longleftrightarrow> ops_inv s' \<and> ops_le s s' \<and> host_repairs s' = host_repairs s"

definition same_ops :: "operation_service \<Rightarrow> operation_service \<Rightarrow> bool" where
  "same_ops s s' \<longleftrightarrow> ops_inv s' \<and> records (journal s') = records (journal s) \<and>
     records (quarantined s') = records (quarantined s) \<and> records (consumed s') = records (consumed s) \<and>
     host_repairs s' = host_repairs s"

lemma keeps_refl [simp]: "ops_inv s \<Longrightarrow> keeps s s"
  by (simp add: keeps_def)

lemma keeps_trans: "keeps s t \<Longrightarrow> keeps t u \<Longrightarrow> keeps s u"
  unfolding keeps_def by (metis ops_le_trans)

lemma same_ops_keeps: "same_ops s s' \<Longrightarrow> keeps s s'"
  by (simp add: same_ops_def keeps_def ops_le_def)

lemma keeps_inv: "keeps s s' \<Longrightarrow> ops_inv s'"
  by (simp add: keeps_def)

lemma keeps_bind:
  assumes "\<And>x s1. m = (x, s1) \<Longrightarrow> keeps s s1"
    and "\<And>a s1. m = (Inr a, s1) \<Longrightarrow> keeps s s1 \<Longrightarrow> keeps s1 (snd (f a s1))"
  shows "keeps s (snd (bind_st m f))"
proof -
  obtain x s1 where m: "m = (x, s1)" by fastforce
  with assms(1) have k: "keeps s s1" by blast
  show ?thesis
  proof (cases x)
    case (Inr a)
    with assms(2) m k have "keeps s1 (snd (f a s1))" by blast
    with k show ?thesis using Inr m by (auto simp: bind_st_def intro: keeps_trans)
  qed (use k m in \<open>simp add: bind_st_def\<close>)
qed

lemma keeps_iff_snd: "keeps s (snd m) \<Longrightarrow> m = (x, s1) \<Longrightarrow> keeps s s1"
  by simp

subsection \<open>Journal accesses\<close>

lemma op_get_same:
  assumes "ops_inv s" and "op_get i s = (x, s')"
  shows "same_ops s s'" and "x = Inr r \<Longrightarrow> records (journal s) i = Some r \<and> op_id r = i"
proof -
  obtain y j where g: "Store.get i (journal s) = (y, j)" by fastforce
  have wf: "store_wf (journal s)" using assms(1) by (simp add: ops_inv_def)
  have s': "s' = s\<lparr>journal := j\<rparr>"
    and x: "x = (case y of Inl e \<Rightarrow> Inl e | Inr y \<Rightarrow> ok_or y (not_found ''operation not found''))"
    using assms(2) g by (auto simp: op_get_def on_journal_def bind_st_def split: sum.splits)
  have j: "store_wf j" "records j = records (journal s)"
    using js.get_cases [OF wf g] by metis+
  show "same_ops s s'" using assms(1) j by (auto simp: same_ops_def s' ops_inv_def)
  assume "x = Inr r"
  with x have "y = Inr (Some r)" by (auto simp: ok_or_def split: sum.splits option.splits)
  with js.get_ok [OF wf] g have "records (journal s) i = Some r" by metis
  with assms(1) show "records (journal s) i = Some r \<and> op_id r = i" by (simp add: ops_inv_def)
qed

lemma on_journal_get_same:
  assumes "ops_inv s" and "on_journal (Store.get i) s = (x, s')"
  shows "same_ops s s'" and "x = Inr y \<Longrightarrow> y = records (journal s) i"
proof -
  have wf: "store_wf (journal s)" using assms(1) by (simp add: ops_inv_def)
  obtain z j where g: "Store.get i (journal s) = (z, j)" by fastforce
  with assms(2) have s': "s' = s\<lparr>journal := j\<rparr>" and x: "x = z" by (auto simp: on_journal_def)
  have j: "store_wf j" "records j = records (journal s)" using js.get_cases [OF wf g] by metis+
  show "same_ops s s'" using assms(1) j by (auto simp: same_ops_def s' ops_inv_def)
  show "x = Inr y \<Longrightarrow> y = records (journal s) i" using js.get_ok [OF wf] g x by metis
qed

lemma op_put_cases:
  assumes "ops_inv s" and "op_put r s = (x, s')"
  obtains (ok) "x = Inr ()" "ops_inv s'" "records (journal s') = (records (journal s))(op_id r \<mapsto> r)"
      "quarantined s' = quarantined s" "consumed s' = consumed s" "host_repairs s' = host_repairs s"
  | (failed) e where "x = Inl e" "same_ops s s'"
proof -
  have wf: "store_wf (journal s)" using assms(1) by (simp add: ops_inv_def)
  obtain y j where p: "Store.put (op_id r) r (journal s) = (y, j)" by fastforce
  with assms(2) have s': "s' = s\<lparr>journal := j\<rparr>" and x: "x = y" by (auto simp: op_put_def on_journal_def)
  from wf p show thesis
  proof (cases rule: js.put_cases)
    case ok
    show thesis
      by (rule that(1)) (use assms(1) ok in \<open>auto simp: s' x ops_inv_def split: if_splits\<close>)
  next
    case (failed e)
    show thesis
      by (rule that(2)) (use assms(1) failed in \<open>auto simp: s' x ops_inv_def same_ops_def\<close>)
  qed
qed

lemma op_put_keeps:
  assumes "ops_inv s"
    and "\<And>r0. records (journal s) (op_id r) = Some r0 \<Longrightarrow> terminal (op_status r0) \<Longrightarrow> terminal (op_status r)"
  shows "keeps s (snd (op_put r s))"
proof -
  obtain x s' where p: "op_put r s = (x, s')" by fastforce
  from assms(1) p show ?thesis
  proof (cases rule: op_put_cases)
    case ok
    with assms(2) p show ?thesis by (auto simp: keeps_def ops_le_def journal_le_def)
  qed (simp add: p same_ops_keeps)
qed

lemma op_modify_keeps:
  assumes "ops_inv s"
    and "\<And>r. op_id (f r) = op_id r"
    and "\<And>r. \<not> skip r \<Longrightarrow> terminal (op_status r) \<Longrightarrow> terminal (op_status (f r))"
  shows "keeps s (snd (bind_st (op_get i s) (\<lambda>r s. if skip r then (Inr (), s) else op_put (f r) s)))"
proof (rule keeps_bind)
  show "keeps s s1" if "op_get i s = (x, s1)" for x s1
    using op_get_same(1) [OF assms(1) that] by (rule same_ops_keeps)
  show "keeps s1 (snd (if skip r then (Inr (), s1) else op_put (f r) s1))"
    if g: "op_get i s = (Inr r, s1)" and k: "keeps s s1" for r s1
  proof (cases "skip r")
    case False
    have "records (journal s) i = Some r" "op_id r = i" "records (journal s1) = records (journal s)"
      using op_get_same [OF assms(1) g] by (auto simp: same_ops_def)
    then have "keeps s1 (snd (op_put (f r) s1))"
      using False assms(2,3) keeps_inv [OF k] by (intro op_put_keeps) auto
    with False show ?thesis by simp
  qed (use keeps_inv [OF k] in simp)
qed

lemma set_result_id_keeps: "ops_inv s \<Longrightarrow> keeps s (snd (set_result_id i x s))"
  using op_modify_keeps [of s "\<lambda>r. r\<lparr>op_result_id := Some x\<rparr>" "\<lambda>_. False"] by (simp add: set_result_id_def)

lemma set_reconciliation_mode_keeps: "ops_inv s \<Longrightarrow> keeps s (snd (set_reconciliation_mode i m s))"
  using op_modify_keeps [of s "\<lambda>r. r\<lparr>op_mode := Some m\<rparr>" "\<lambda>_. False"]
  by (simp add: set_reconciliation_mode_def)

lemma set_findings_keeps: "ops_inv s \<Longrightarrow> keeps s (snd (set_findings i fs s))"
  using op_modify_keeps [of s "\<lambda>r. r\<lparr>op_findings := Some fs,
      op_drift := (if fs = [] then None else Some (join ''; '' (map f_message fs)))\<rparr>" "\<lambda>_. False" i]
  by (simp add: set_findings_def)

lemma update_progress_keeps: "ops_inv s \<Longrightarrow> keeps s (snd (update_progress i p m s))"
  unfolding update_progress_def by (rule op_modify_keeps) simp_all

lemma mark_running_keeps: "ops_inv s \<Longrightarrow> keeps s (snd (mark_running now i s))"
  unfolding mark_running_def by (rule op_modify_keeps) (simp_all add: terminal_def)

lemma finish_keeps:
  assumes "ops_inv s" and "terminal st"
  shows "keeps s (snd (finish now i st ty ri m e s))"
  unfolding finish_def
proof (rule keeps_bind)
  show "keeps s s1" if "on_journal (Store.get i) s = (x, s1)" for x s1
    using on_journal_get_same(1) [OF assms(1) that] by (rule same_ops_keeps)
next
  fix x s1 assume "keeps s s1"
  then have inv: "ops_inv s1" by (rule keeps_inv)
  show "keeps s1 (snd (case x of None \<Rightarrow> (Inl (not_found ''operation record not found''), s1)
      | Some r \<Rightarrow> op_put (r\<lparr>op_status := st, op_resource_type := or_else ty (op_resource_type r),
          op_resource_id := or_else ri (op_resource_id r), op_finished_at := Some now,
          op_progress := (if st = Succeeded then Some 100 else op_progress r),
          op_message := or_else m (op_message r), op_error := e\<rparr>) s1))"
    using inv op_put_keeps [OF inv] assms(2) by (auto split: option.splits)
qed

lemma create_record_keeps:
  assumes "ops_inv s" and "records (journal s) new_id = None"
  shows "keeps s (snd (create_record new_id now kind st ty ri actor s))"
proof (cases "trim kind = []")
  case False
  let ?r = "\<lparr>op_id = new_id, op_kind = kind, op_status = st, op_actor = actor, op_mode = None,
      op_progress = None, op_resource_type = ty, op_resource_id = ri, op_result_id = None,
      op_drift = None, op_findings = None, op_created_at = now,
      op_started_at = (if st = Running then Some now else None), op_finished_at = None,
      op_message = None, op_error = None\<rparr>"
  have k: "keeps s (snd (op_put ?r s))" using assms by (intro op_put_keeps) auto
  have "keeps s (snd (bind_st (op_put ?r s) (\<lambda>_ s. (Inr ?r, s))))"
    using keeps_iff_snd [OF k] by (intro keeps_bind) (auto dest: keeps_inv)
  with False show ?thesis by (simp add: create_record_def Let_def)
qed (use assms in \<open>simp add: create_record_def\<close>)

subsection \<open>Start-up recovery\<close>

definition active :: "operation_record \<Rightarrow> bool" where
  "active r \<longleftrightarrow> op_status r \<in> {Queued, Running}"

definition reviewed :: "str \<Rightarrow> operation_record \<Rightarrow> operation_record" where
  "reviewed now r = r\<lparr>op_status := NeedsReview, op_finished_at := Some now, op_message := Some interrupted_message\<rparr>"

lemma active_iff: "active r \<longleftrightarrow> \<not> terminal (op_status r)"
  by (cases "op_status r") (simp_all add: active_def terminal_def)

lemma op_id_reviewed [simp]: "op_id (reviewed now r) = op_id r"
  and op_status_reviewed [simp]: "op_status (reviewed now r) = NeedsReview"
  by (simp_all add: reviewed_def)

lemma recover_loop_Cons:
  "recover_loop now (r # rs) n s =
     (if active r then bind_st (op_put (reviewed now r) s) (\<lambda>_ s. recover_loop now rs (Suc n) s)
      else recover_loop now rs n s)"
  by (simp add: active_def reviewed_def)

definition overlay :: "str \<Rightarrow> str set \<Rightarrow> (str \<rightharpoonup> operation_record) \<Rightarrow> (str \<rightharpoonup> operation_record)
    \<Rightarrow> str \<rightharpoonup> operation_record" where
  "overlay now A f g i = (if i \<in> A then map_option (reviewed now) (f i) else g i)"

text \<open>The loop rewrites some of the active records, all of them when it succeeds.\<close>

lemma recover_loop_effect:
  assumes "ops_inv s" and "recover_loop now rs n s = (x, s')" and "\<forall>r \<in> set rs. f (op_id r) = Some r"
  shows "ops_inv s' \<and> quarantined s' = quarantined s \<and> consumed s' = consumed s \<and>
    host_repairs s' = host_repairs s \<and>
    (\<exists>A \<subseteq> op_id ` {r \<in> set rs. active r}.
       records (journal s') = overlay now A f (records (journal s)) \<and>
       (\<forall>m. x = Inr m \<longrightarrow> A = op_id ` {r \<in> set rs. active r} \<and> n \<le> m \<and> (m = n \<longleftrightarrow> \<not> list_ex active rs)))"
  using assms
proof (induction rs arbitrary: n s)
  case Nil
  then show ?case by (auto simp: overlay_def intro!: exI [of _ "{}"])
next
  case (Cons r rs)
  show ?case
  proof (cases "active r")
    case False
    with Cons.prems(2) have "recover_loop now rs n s = (x, s')" by (simp add: recover_loop_Cons del: recover_loop.simps)
    moreover have "{a \<in> set (r # rs). active a} = {a \<in> set rs. active a}" using False by auto
    ultimately show ?thesis using Cons.IH [OF Cons.prems(1)] Cons.prems(3) False by simp
  next
    case True
    have fr: "f (op_id r) = Some r" using Cons.prems(3) by simp
    obtain y s1 where p: "op_put (reviewed now r) s = (y, s1)" by fastforce
    from Cons.prems(1) p show ?thesis
    proof (cases rule: op_put_cases)
      case ok
      have "recover_loop now rs (Suc n) s1 = (x, s')"
        using Cons.prems(2) True p ok(1) by (simp add: recover_loop_Cons bind_st_def del: recover_loop.simps)
      from Cons.IH [OF ok(2) this] Cons.prems(3) obtain A where
        A: "A \<subseteq> op_id ` {r \<in> set rs. active r}" "records (journal s') = overlay now A f (records (journal s1))"
        "\<forall>m. x = Inr m \<longrightarrow> A = op_id ` {r \<in> set rs. active r} \<and> Suc n \<le> m"
        and s': "ops_inv s'" "quarantined s' = quarantined s1" "consumed s' = consumed s1"
        "host_repairs s' = host_repairs s1" by auto
      have "overlay now A f (records (journal s1)) = overlay now (insert (op_id r) A) f (records (journal s))"
        by (auto simp: overlay_def ok(3) fr fun_eq_iff)
      with A s' ok True show ?thesis by (intro conjI exI [of _ "insert (op_id r) A"]) auto
    next
      case (failed e)
      then have "x = Inl e" "s' = s1"
        using Cons.prems(2) True p by (simp_all add: recover_loop_Cons bind_st_def del: recover_loop.simps)
      moreover have "quarantined s1 = quarantined s" "consumed s1 = consumed s"
        using p by (auto simp: op_put_def on_journal_def split: prod.splits)
      ultimately show ?thesis
        using failed by (auto simp: same_ops_def overlay_def intro!: exI [of _ "{}"])
    qed
  qed
qed

lemma recover_interrupted_effect:
  assumes "ops_inv s" and "recover_interrupted now s = (x, s')"
  shows "ops_inv s' \<and> quarantined s' = quarantined s \<and> consumed s' = consumed s \<and>
    host_repairs s' = host_repairs s \<and>
    (\<exists>A \<subseteq> {i. \<exists>r. records (journal s) i = Some r \<and> active r}.
       records (journal s') = overlay now A (records (journal s)) (records (journal s)) \<and>
       (\<forall>m. x = Inr m \<longrightarrow> A = {i. \<exists>r. records (journal s) i = Some r \<and> active r} \<and> (m = 0 \<longleftrightarrow> A = {})))"
proof -
  have wf: "store_wf (journal s)" using assms(1) by (simp add: ops_inv_def)
  obtain y j where l: "Store.list (journal s) = (y, j)" by fastforce
  let ?s1 = "s\<lparr>journal := j\<rparr>"
  from wf l show ?thesis
  proof (cases rule: js.list_cases)
    case (ok rs)
    have inv: "ops_inv ?s1" using assms(1) ok by (simp add: ops_inv_def)
    have loop: "recover_loop now rs 0 ?s1 = (x, s')"
      using assms(2) l ok(1) by (simp add: recover_interrupted_def on_journal_def bind_st_def)
    have f: "\<forall>r \<in> set rs. records (journal s) (op_id r) = Some r"
      using assms(1) ok(2) by (auto simp: ops_inv_def ran_def)
    have ids: "op_id ` {r \<in> set rs. active r} = {i. \<exists>r. records (journal s) i = Some r \<and> active r}"
    proof (intro equalityI subsetI)
      fix i assume "i \<in> {i. \<exists>r. records (journal s) i = Some r \<and> active r}"
      then obtain r where r: "records (journal s) i = Some r" "active r" by blast
      then have "r \<in> set rs" "op_id r = i" using ok(2) assms(1) by (auto simp: ran_def ops_inv_def)
      with r(2) show "i \<in> op_id ` {r \<in> set rs. active r}" by blast
    qed (use f in auto)
    have ex: "\<not> list_ex active rs \<longleftrightarrow> op_id ` {r \<in> set rs. active r} = {}" by (auto simp: list_ex_iff)
    define X where "X = {i. \<exists>r. records (journal s) i = Some r \<and> active r}"
    from recover_loop_effect [OF inv loop f, unfolded ex ids, folded X_def] show ?thesis
      unfolding X_def [symmetric] using ok(4) by auto
  next
    case (failed e)
    have inv: "ops_inv ?s1" using assms(1) failed by (simp add: ops_inv_def)
    have "x = Inl e" "s' = ?s1"
      using assms(2) l failed(1) by (auto simp: recover_interrupted_def on_journal_def bind_st_def)
    with inv failed show ?thesis by (auto simp: overlay_def intro!: exI [of _ "{}"])
  qed
qed

lemma recover_interrupted_keeps:
  assumes "ops_inv s"
  shows "keeps s (snd (recover_interrupted now s))"
proof -
  obtain x s' where r: "recover_interrupted now s = (x, s')" by fastforce
  from recover_interrupted_effect [OF assms r] obtain A where
    "ops_inv s'" "quarantined s' = quarantined s" "consumed s' = consumed s" "host_repairs s' = host_repairs s"
    "records (journal s') = overlay now A (records (journal s)) (records (journal s))" by blast
  then show ?thesis
    by (auto simp: r keeps_def ops_le_def journal_le_def overlay_def terminal_def)
qed

subsection \<open>Quarantine\<close>

lemma ops_inv_quarantine_key: "ops_inv s \<Longrightarrow> records (quarantined s) i = Some q \<Longrightarrow> q_id q = i"
  by (simp add: ops_inv_def)

lemma ops_inv_pending:
  assumes "ops_inv s" and "records (quarantined s) i = Some q" and "records (quarantined s) j = Some q'"
    and "pending_for ty h q" and "pending_for ty h q'"
  shows "i = j"
  using assms(1) [unfolded ops_inv_def, THEN conjunct2, THEN conjunct2, THEN conjunct2, THEN conjunct2,
      THEN conjunct2, rule_format, of i q j q'] assms(2-5) by (simp add: pending_for_def)

lemma ops_inv_quarantine_update:
  assumes "ops_inv s" and "store_wf j" and "\<And>i q. records j i = Some q \<Longrightarrow> q_id q = i"
    and "\<And>i k a b. records j i = Some a \<Longrightarrow> records j k = Some b \<Longrightarrow> q_status a = Pending \<Longrightarrow>
       pending_for (q_resource_type a) (q_host_id a) b \<Longrightarrow> i = k"
  shows "ops_inv (s\<lparr>quarantined := j\<rparr>)"
proof -
  have "\<forall>i k a b. records j i = Some a \<and> records j k = Some b \<and> q_status a = Pending \<and>
      pending_for (q_resource_type a) (q_host_id a) b \<longrightarrow> i = k" using assms(4) by blast
  moreover have "\<forall>i q. records j i = Some q \<longrightarrow> q_id q = i" using assms(3) by blast
  ultimately show ?thesis using assms(1,2) by (simp add: ops_inv_def)
qed

lemma on_quarantine_put_cases:
  assumes "ops_inv s" and "on_quarantine (Store.put (q_id q) q) s = (x, s')"
    and "\<And>q0. records (quarantined s) (q_id q) = Some q0 \<Longrightarrow> q_status q0 \<noteq> Pending \<Longrightarrow> q = q0"
    and "q_status q = Pending \<Longrightarrow>
      \<forall>i q'. records (quarantined s) i = Some q' \<longrightarrow> \<not> pending_for (q_resource_type q) (q_host_id q) q'"
  shows "keeps s s' \<and> journal s' = journal s \<and> consumed s' = consumed s \<and>
    (x = Inr () \<longrightarrow> records (quarantined s') = (records (quarantined s))(q_id q \<mapsto> q)) \<and>
    (x \<noteq> Inr () \<longrightarrow> records (quarantined s') = records (quarantined s))"
proof -
  have wf: "store_wf (quarantined s)" using assms(1) by (simp add: ops_inv_def)
  obtain y j where p: "Store.put (q_id q) q (quarantined s) = (y, j)" by fastforce
  with assms(2) have s': "s' = s\<lparr>quarantined := j\<rparr>" and x: "x = y" by (auto simp: on_quarantine_def)
  from wf p show ?thesis
  proof (cases rule: js.put_cases)
    case ok
    have u: "i = k" if "records j i = Some a" "records j k = Some b" "q_status a = Pending"
        "pending_for (q_resource_type a) (q_host_id a) b" for i k a b
    proof -
      have old: "records (quarantined s) i = Some a \<or> i = q_id q \<and> a = q"
        "records (quarantined s) k = Some b \<or> k = q_id q \<and> b = q"
        using that(1,2) by (auto simp: ok(3) split: if_splits)
      have back_pend: "pending_for (q_resource_type b) (q_host_id b) a" using that(3,4) by (auto simp: pending_for_def)
      have no: "\<not> pending_for (q_resource_type q) (q_host_id q) c"
        if "records (quarantined s) l = Some c" "q_status q = Pending" for l c
        using that assms(4) by blast
      have "b \<noteq> q \<Longrightarrow> a = q \<Longrightarrow> False" "a \<noteq> q \<Longrightarrow> b = q \<Longrightarrow> False"
        using no old that(3,4) back_pend by (auto simp: pending_for_def)
      moreover have "i = k" if "records (quarantined s) i = Some a" "records (quarantined s) k = Some b"
        using that \<open>q_status a = Pending\<close> \<open>pending_for (q_resource_type a) (q_host_id a) b\<close> assms(1)
        unfolding ops_inv_def by blast
      moreover have "i = k" if "a = q" "b = q" using no old that \<open>q_status a = Pending\<close>
        by (auto simp: pending_for_def)
      ultimately show ?thesis using old by blast
    qed
    have "q_id a = i" if "records j i = Some a" for i a
      using that ops_inv_quarantine_key [OF assms(1)] by (auto simp: ok(3) split: if_splits)
    with u have "ops_inv s'" unfolding s' by (intro ops_inv_quarantine_update [OF assms(1) ok(2)])
    moreover have "ops_le s s'"
      using ok assms(3) by (auto simp: s' ops_le_def quarantine_le_def)
    ultimately show ?thesis using ok x by (simp add: keeps_def s')
  next
    case (failed e)
    have "same_ops s s'" using assms(1) failed by (simp add: s' ops_inv_def same_ops_def)
    with failed x show ?thesis by (simp add: same_ops_keeps s')
  qed
qed

lemma on_quarantine_list_cases:
  assumes "ops_inv s" and "on_quarantine Store.list s = (x, s')"
  shows "same_ops s s' \<and> journal s' = journal s \<and> consumed s' = consumed s \<and>
    (\<forall>qs. x = Inr qs \<longrightarrow> set qs = ran (records (quarantined s)))"
proof -
  have wf: "store_wf (quarantined s)" using assms(1) by (simp add: ops_inv_def)
  obtain y j where p: "Store.list (quarantined s) = (y, j)" by fastforce
  with assms(2) have s': "s' = s\<lparr>quarantined := j\<rparr>" and x: "x = y" by (auto simp: on_quarantine_def)
  from wf p assms(1) show ?thesis
    by (cases rule: js.list_cases) (simp_all add: s' x ops_inv_def same_ops_def)
qed

lemma on_quarantine_get_cases:
  assumes "ops_inv s" and "on_quarantine (Store.get i) s = (x, s')"
  shows "same_ops s s' \<and> journal s' = journal s \<and> consumed s' = consumed s \<and>
    (\<forall>y. x = Inr y \<longrightarrow> y = records (quarantined s) i)"
proof -
  have wf: "store_wf (quarantined s)" using assms(1) by (simp add: ops_inv_def)
  obtain y j where p: "Store.get i (quarantined s) = (y, j)" by fastforce
  with assms(2) have s': "s' = s\<lparr>quarantined := j\<rparr>" and x: "x = y" by (auto simp: on_quarantine_def)
  from wf p assms(1) show ?thesis
    by (cases rule: js.get_cases) (simp_all add: s' x ops_inv_def same_ops_def)
qed

definition fresh_quarantine :: "str \<Rightarrow> operation_service \<Rightarrow> bool" where
  "fresh_quarantine i s \<longleftrightarrow> records (quarantined s) i = None"

lemma quarantine_effect:
  assumes "ops_inv s" and "fresh_quarantine new_id s" and "quarantine new_id now ty h m s = (x, s')"
  shows "keeps s s'" and "x = Inr q \<Longrightarrow> pending_for ty h q \<and> records (quarantined s') (q_id q) = Some q"
    and "dom (records (quarantined s')) \<subseteq> insert new_id (dom (records (quarantined s)))"
proof -
  obtain y s1 where l: "on_quarantine Store.list s = (y, s1)" by fastforce
  note s1 = on_quarantine_list_cases [OF assms(1) l]
  have inv1: "ops_inv s1" and r1: "records (quarantined s1) = records (quarantined s)"
    and k1: "keeps s s1" using s1 by (auto simp: same_ops_def same_ops_keeps)
  let ?P = "\<lambda>q. q_status q = Pending \<and> q_resource_type q = ty \<and> q_host_id q = h"
  let ?q = "\<lparr>q_id = new_id, q_resource_type = ty, q_host_id = h, q_message = m,
      q_status = Pending, q_created_at = now, q_decided_at = None, q_decided_by = None,
      q_decision_message = None\<rparr>"
  have goal: "keeps s s' \<and> (\<forall>q. x = Inr q \<longrightarrow> pending_for ty h q \<and> records (quarantined s') (q_id q) = Some q) \<and>
      dom (records (quarantined s')) \<subseteq> insert new_id (dom (records (quarantined s)))"
  proof (cases y)
    case (Inl e)
    with assms(3) l have "x = Inl e" "s' = s1" by (auto simp: quarantine_def bind_st_def)
    with k1 r1 show ?thesis by auto
  next
    case (Inr qs)
    note qs = s1 [THEN conjunct2, THEN conjunct2, THEN conjunct2, rule_format, OF Inr]
    show ?thesis
    proof (cases "find ?P qs")
      case (Some q)
      with assms(3) l Inr have "x = Inr q" "s' = s1" by (auto simp: quarantine_def bind_st_def)
      moreover have "q \<in> set qs" "?P q" using Some by (auto simp: find_Some_iff)
      moreover from this(1) qs assms(1) have "records (quarantined s) (q_id q) = Some q"
        by (auto simp: ran_def ops_inv_def)
      ultimately show ?thesis using k1 r1 by (auto simp: pending_for_def)
    next
      case None
      obtain z s2 where p: "on_quarantine (Store.put (q_id ?q) ?q) s1 = (z, s2)" by fastforce
      have "keeps s1 s2 \<and> journal s2 = journal s1 \<and> consumed s2 = consumed s1 \<and>
          (z = Inr () \<longrightarrow> records (quarantined s2) = (records (quarantined s1))(q_id ?q \<mapsto> ?q)) \<and>
          (z \<noteq> Inr () \<longrightarrow> records (quarantined s2) = records (quarantined s1))"
      proof (rule on_quarantine_put_cases [OF inv1 p])
        show "?q = q0" if "records (quarantined s1) (q_id ?q) = Some q0" for q0
          using that assms(2) r1 by (simp add: fresh_quarantine_def)
        show "\<forall>i q'. records (quarantined s1) i = Some q' \<longrightarrow> \<not> pending_for (q_resource_type ?q) (q_host_id ?q) q'"
          using None qs unfolding find_None_iff r1 by (auto simp: pending_for_def ran_def)
      qed
      moreover have "x = (case z of Inl e \<Rightarrow> Inl e | Inr _ \<Rightarrow> Inr ?q)" "s' = s2"
        using assms(3) l Inr None p by (auto simp: quarantine_def bind_st_def Let_def split: sum.splits)
      ultimately show ?thesis
        using k1 r1 by (cases z) (auto simp: pending_for_def intro: keeps_trans)
    qed
  qed
  then show "keeps s s'" and "x = Inr q \<Longrightarrow> pending_for ty h q \<and> records (quarantined s') (q_id q) = Some q"
    and "dom (records (quarantined s')) \<subseteq> insert new_id (dom (records (quarantined s)))" by auto
qed

lemma decide_quarantine_effect:
  assumes "ops_inv s" and "decide_quarantine adopt now i d actor m s = (x, s')"
  shows "keeps s s'"
    and "x = Inr q' \<Longrightarrow> \<exists>q. records (quarantined s) i = Some q \<and> q_status q = Pending \<and>
           q' = q\<lparr>q_status := (case d of Adopt \<Rightarrow> Adopted | Release \<Rightarrow> Released), q_decided_at := Some now,
                  q_decided_by := Some actor, q_decision_message := m\<rparr> \<and>
           records (quarantined s') = (records (quarantined s))(i \<mapsto> q') \<and>
           (d = Adopt \<longrightarrow> q_resource_type q = ''bridge'' \<and> adopt (q_host_id q) = Inr ())"
    and "x = Inl e \<Longrightarrow> records (quarantined s') = records (quarantined s)"
proof -
  obtain y s1 where g: "on_quarantine (Store.get i) s = (y, s1)" by fastforce
  note s1 = on_quarantine_get_cases [OF assms(1) g]
  have inv1: "ops_inv s1" and r1: "records (quarantined s1) = records (quarantined s)"
    and k1: "keeps s s1" using s1 by (auto simp: same_ops_def same_ops_keeps)
  have goal: "keeps s s' \<and>
      (\<forall>q'. x = Inr q' \<longrightarrow> (\<exists>q. records (quarantined s) i = Some q \<and> q_status q = Pending \<and>
           q' = q\<lparr>q_status := (case d of Adopt \<Rightarrow> Adopted | Release \<Rightarrow> Released), q_decided_at := Some now,
                  q_decided_by := Some actor, q_decision_message := m\<rparr> \<and>
           records (quarantined s') = (records (quarantined s))(i \<mapsto> q') \<and>
           (d = Adopt \<longrightarrow> q_resource_type q = ''bridge'' \<and> adopt (q_host_id q) = Inr ()))) \<and>
      (\<forall>e. x = Inl e \<longrightarrow> records (quarantined s') = records (quarantined s))"
  proof (cases "\<exists>q. y = Inr (Some q) \<and> q_status q = Pending \<and>
      (d = Adopt \<longrightarrow> q_resource_type q = ''bridge'' \<and> adopt (q_host_id q) = Inr ())")
    case False
    then have "s' = s1 \<and> (\<exists>e. x = Inl e)"
      using assms(2) g
      by (auto simp: decide_quarantine_def bind_st_def bind_res_def
          split: sum.splits option.splits if_splits quarantine_decision.splits)
    with k1 r1 show ?thesis by auto
  next
    case True
    then obtain q where q: "y = Inr (Some q)" "q_status q = Pending"
      "d = Adopt \<longrightarrow> q_resource_type q = ''bridge'' \<and> adopt (q_host_id q) = Inr ()" by blast
    let ?q = "q\<lparr>q_status := (case d of Adopt \<Rightarrow> Adopted | Release \<Rightarrow> Released), q_decided_at := Some now,
                  q_decided_by := Some actor, q_decision_message := m\<rparr>"
    have st: "records (quarantined s) i = Some q" "q_id q = i"
      using s1 q(1) ops_inv_quarantine_key [OF assms(1)] by auto
    obtain z s2 where p: "on_quarantine (Store.put (q_id ?q) ?q) s1 = (z, s2)" by fastforce
    have e: "keeps s1 s2 \<and> journal s2 = journal s1 \<and> consumed s2 = consumed s1 \<and>
        (z = Inr () \<longrightarrow> records (quarantined s2) = (records (quarantined s1))(q_id ?q \<mapsto> ?q)) \<and>
        (z \<noteq> Inr () \<longrightarrow> records (quarantined s2) = records (quarantined s1))"
      by (rule on_quarantine_put_cases [OF inv1 p])
        (use st q(2) r1 in \<open>auto split: quarantine_decision.splits\<close>)
    have "x = (case z of Inl e \<Rightarrow> Inl e | Inr _ \<Rightarrow> Inr ?q)" "s' = s2"
      using assms(2) g q p
      by (auto simp: decide_quarantine_def bind_st_def Let_def split: sum.splits quarantine_decision.splits)
    with e k1 r1 st q show ?thesis by (cases z) (auto intro: keeps_trans)
  qed
  then show "keeps s s'"
    and "x = Inr q' \<Longrightarrow> \<exists>q. records (quarantined s) i = Some q \<and> q_status q = Pending \<and>
           q' = q\<lparr>q_status := (case d of Adopt \<Rightarrow> Adopted | Release \<Rightarrow> Released), q_decided_at := Some now,
                  q_decided_by := Some actor, q_decision_message := m\<rparr> \<and>
           records (quarantined s') = (records (quarantined s))(i \<mapsto> q') \<and>
           (d = Adopt \<longrightarrow> q_resource_type q = ''bridge'' \<and> adopt (q_host_id q) = Inr ())"
    and "x = Inl e \<Longrightarrow> records (quarantined s') = records (quarantined s)" by simp_all
qed

subsection \<open>Approvals\<close>

lemma on_consumed_put_cases:
  assumes "ops_inv s" and "on_consumed (Store.put i a) s = (x, s')"
  shows "keeps s s' \<and> journal s' = journal s \<and> quarantined s' = quarantined s \<and>
    records (consumed s') = (if x = Inr () then (records (consumed s))(i \<mapsto> a) else records (consumed s))"
proof -
  have wf: "store_wf (consumed s)" using assms(1) by (simp add: ops_inv_def)
  obtain y j where p: "Store.put i a (consumed s) = (y, j)" by fastforce
  with assms(2) have s': "s' = s\<lparr>consumed := j\<rparr>" and x: "x = y" by (auto simp: on_consumed_def)
  have "ops_inv s'" if "store_wf j" using assms(1) that by (simp add: s' ops_inv_def)
  with wf p show ?thesis
    by (cases rule: js.put_cases) (auto simp: s' x keeps_def ops_le_def)
qed

lemma on_consumed_get_cases:
  assumes "ops_inv s" and "on_consumed (Store.get i) s = (x, s')"
  shows "same_ops s s' \<and> (\<forall>y. x = Inr y \<longrightarrow> y = records (consumed s) i)"
proof -
  have wf: "store_wf (consumed s)" using assms(1) by (simp add: ops_inv_def)
  obtain y j where p: "Store.get i (consumed s) = (y, j)" by fastforce
  with assms(2) have s': "s' = s\<lparr>consumed := j\<rparr>" and x: "x = y" by (auto simp: on_consumed_def)
  from wf p assms(1) show ?thesis
    by (cases rule: js.get_cases) (simp_all add: s' x ops_inv_def same_ops_def)
qed

lemma consume_approval_effect:
  assumes "ops_inv s" and "consume_approval now i s = (x, s')"
  shows "keeps s s' \<and> records (journal s') = records (journal s) \<and>
    (x = Inr () \<longrightarrow> records (consumed s) i = None \<and> records (consumed s') i \<noteq> None)"
proof -
  obtain y s1 where g: "on_consumed (Store.get i) s = (y, s1)" by fastforce
  note s1 = on_consumed_get_cases [OF assms(1) g]
  have inv1: "ops_inv s1" and k1: "keeps s s1" and j1: "records (journal s1) = records (journal s)"
    and c1: "records (consumed s1) = records (consumed s)" using s1 by (auto simp: same_ops_def same_ops_keeps)
  consider (stop) "s' = s1" "\<exists>e. x = Inl e" | (go) "y = Inr None"
      "on_consumed (Store.put i \<lparr>ca_id = i, ca_consumed_at = now\<rparr>) s1 = (x, s')"
    using assms(2) g by (auto simp: consume_approval_def bind_st_def split: sum.splits if_splits)
  then show ?thesis
  proof cases
    case stop
    with k1 j1 show ?thesis by auto
  next
    case go
    from on_consumed_put_cases [OF inv1 go(2)] go(1) s1 k1 j1 c1 show ?thesis
      by (auto intro: keeps_trans split: if_splits)
  qed
qed

text \<open>What a granted approval rests on.\<close>

definition granted :: "reconcile_request \<Rightarrow> finding list \<Rightarrow> operation_service \<Rightarrow> operation_service \<Rightarrow> bool" where
  "granted req fs s s' \<longleftrightarrow>
     (\<exists>i r. rq_approval_id req = Some i \<and> records (journal s) i = Some r \<and> valid_approval r \<and>
        op_findings r = Some fs \<and> records (consumed s) i = None \<and> records (consumed s') i \<noteq> None)"

lemma approved_findings_effect:
  assumes "ops_inv s" and "approved_findings now req s = (x, s')"
  shows "keeps s s' \<and> records (journal s') = records (journal s) \<and>
    (\<forall>fs. x = Inr fs \<longrightarrow> (if rq_mode req = Repair then granted req fs s s' else fs = []))"
proof (cases "rq_mode req = Repair \<and> rq_approval_id req \<noteq> None")
  case False
  with assms show ?thesis by (auto simp: approved_findings_def split: if_splits option.splits)
next
  case True
  then obtain i where i: "rq_mode req = Repair" "rq_approval_id req = Some i" by blast
  obtain y s1 where g: "op_get i s = (y, s1)" by fastforce
  note s1 = op_get_same [OF assms(1) g]
  have inv1: "ops_inv s1" and k1: "keeps s s1" and j1: "records (journal s1) = records (journal s)"
    and c1: "records (consumed s1) = records (consumed s)" using s1(1) by (auto simp: same_ops_def same_ops_keeps)
  consider (stop) "s' = s1" "\<exists>e. x = Inl e"
    | (go) r z s2 where "y = Inr r" "valid_approval r" "consume_approval now i s1 = (z, s2)" "s' = s2"
        "x = (case z of Inl e \<Rightarrow> Inl e | Inr _ \<Rightarrow> Inr (case op_findings r of None \<Rightarrow> [] | Some fs \<Rightarrow> fs))"
    using assms(2) g i by (auto simp: approved_findings_def bind_st_def split: sum.splits if_splits prod.splits)
  then show ?thesis
  proof cases
    case stop
    with k1 j1 show ?thesis by auto
  next
    case go
    note e = consume_approval_effect [OF inv1 go(3)]
    have r: "records (journal s) i = Some r" using s1(2) [OF go(1)] by blast
    have "granted req fs s s'" if "x = Inr fs" for fs
    proof -
      have "z = Inr ()" using that go(5) by (cases z) auto
      moreover from this go(2,5) that have "op_findings r = Some fs" by (auto simp: valid_approval_def)
      ultimately show ?thesis using r e c1 go(2,4) i(2) by (auto simp: granted_def)
    qed
    with e k1 j1 go(4) i(1) show ?thesis by (auto intro: keeps_trans)
  qed
qed

lemma enqueue_reconciliation_effect:
  assumes "ops_inv s" and "records (journal s) new_id = None"
    and "enqueue_reconciliation new_id now req actor s = (x, s')"
  shows "keeps s s' \<and>
    (\<forall>r fs. x = Inr (r, fs) \<longrightarrow>
       (if rq_mode req = Repair then rq_quarantine_unmanaged req \<and> granted req fs s s' else fs = []))"
proof -
  obtain y s1 where a: "approved_findings now req s = (y, s1)" by fastforce
  note e = approved_findings_effect [OF assms(1) a]
  then have inv1: "ops_inv s1" and new: "records (journal s1) new_id = None"
    using assms(2) by (auto dest: keeps_inv)
  let ?q = "create_record new_id now ''host.reconcile'' Queued (Some ''node'') None actor"
  obtain z s2 where q: "?q s1 = (z, s2)" by fastforce
  have k2: "keeps s1 s2" using create_record_keeps [OF inv1 new] q keeps_iff_snd by metis
  consider (stop) "s' = s1" "\<exists>e. x = Inl e"
    | (queue) "s' = s2" "\<exists>e. x = Inl e"
    | (go) fs r where "y = Inr fs" "rq_mode req = Repair \<longrightarrow> rq_quarantine_unmanaged req" "z = Inr r"
        "bind_st (op_get (op_id r) s2) (\<lambda>r s. (Inr (r, fs), s)) = (x, s')"
    using assms(3) a q
    by (auto simp: enqueue_reconciliation_def queue_op_def bind_st_def split: sum.splits if_splits prod.splits)
  then show ?thesis
  proof cases
    case go
    obtain w s3 where g: "op_get (op_id r) s2 = (w, s3)" by fastforce
    have s3: "same_ops s2 s3" using op_get_same(1) [OF keeps_inv [OF k2] g] .
    have x: "s' = s3" "\<forall>r fs'. x = Inr (r, fs') \<longrightarrow> fs' = fs"
      using go(4) g by (auto simp: bind_st_def split: sum.splits)
    have "dom (records (consumed s1)) \<subseteq> dom (records (consumed s3))"
      using k2 s3 by (auto simp: keeps_def ops_le_def same_ops_def)
    then have mono: "granted req fs s s1 \<Longrightarrow> granted req fs s s3" unfolding granted_def by blast
    have "keeps s s3" using e k2 s3 by (blast intro: keeps_trans same_ops_keeps)
    with mono e go(1,2) x show ?thesis by (auto split: if_splits)
  qed (use e k2 in \<open>auto intro: keeps_trans\<close>)
qed

subsection \<open>Sequences of calls\<close>

text \<open>One call of the service by a request, a worker or start-up; identifiers are fresh, as \<open>new_id\<close>
  makes them.\<close>

inductive ops_step :: "operation_service \<Rightarrow> operation_service \<Rightarrow> bool" where
  create: "records (journal s) i = None \<Longrightarrow> ops_step s (snd (create_record i now kind st ty ri actor s))"
| running: "ops_step s (snd (mark_running now i s))"
| progress: "ops_step s (snd (update_progress i p m s))"
| succeed: "ops_step s (snd (succeed now i ty ri m s))"
| fail: "ops_step s (snd (fail now i e s))"
| result: "ops_step s (snd (set_result_id i x s))"
| mode: "ops_step s (snd (set_reconciliation_mode i md s))"
| findings: "ops_step s (snd (set_findings i fs s))"
| recover: "ops_step s (snd (recover_interrupted now s))"
| quarantine: "fresh_quarantine i s \<Longrightarrow> ops_step s (snd (quarantine i now ty h m s))"
| decide: "ops_step s (snd (decide_quarantine adopt now i d actor m s))"
| reconcile: "records (journal s) i = None \<Longrightarrow> ops_step s (snd (enqueue_reconciliation i now req actor s))"
| repair: "ops_step s (snd (do_repair h a s))"

lemma do_repair_inv: "ops_inv s \<Longrightarrow> ops_inv (snd (do_repair h a s)) \<and> ops_le s (snd (do_repair h a s))"
  by (simp add: do_repair_def ops_inv_def ops_le_def)

lemma keepsD: "keeps s s' \<Longrightarrow> ops_inv s' \<and> ops_le s s'"
  by (simp add: keeps_def)

lemma ops_step_keeps:
  assumes "ops_step s s'" and "ops_inv s"
  shows "ops_inv s' \<and> ops_le s s'"
  using assms
proof cases
  case (quarantine i now ty h m)
  then show ?thesis using quarantine_effect(1) [OF assms(2)] by (metis keepsD prod.collapse)
next
  case (decide adopt now i d actor m)
  then show ?thesis using decide_quarantine_effect(1) [OF assms(2)] by (metis keepsD prod.collapse)
next
  case (reconcile i now req actor)
  then show ?thesis using enqueue_reconciliation_effect [OF assms(2)] by (metis keepsD prod.collapse)
next
  case (repair h a)
  then show ?thesis using do_repair_inv [OF assms(2)] by simp
qed (use assms(2) in \<open>auto simp: succeed_def fail_def terminal_def intro!: keepsD create_record_keeps
      mark_running_keeps update_progress_keeps finish_keeps set_result_id_keeps
      set_reconciliation_mode_keeps set_findings_keeps recover_interrupted_keeps\<close>)

lemma ops_steps_keep:
  assumes "ops_step\<^sup>*\<^sup>* s s'" and "ops_inv s"
  shows "ops_inv s' \<and> ops_le s s'"
  using assms by (induction rule: rtranclp_induct) (auto dest: ops_step_keeps intro: ops_le_trans)

subsection \<open>What reaches the host\<close>

lemma op_get_repairs [simp]: "host_repairs (snd (op_get i s)) = host_repairs s"
  and op_put_repairs [simp]: "host_repairs (snd (op_put r s)) = host_repairs s"
  and on_journal_repairs [simp]: "host_repairs (snd (on_journal f s)) = host_repairs s"
  and on_quarantine_repairs [simp]: "host_repairs (snd (on_quarantine g s)) = host_repairs s"
  by (auto simp: op_get_def op_put_def on_journal_def on_quarantine_def bind_st_def
      split: prod.splits sum.splits)

text \<open>A call that asks for no repair.\<close>

definition quiet :: "operation_service \<Rightarrow> 'a \<times> operation_service \<Rightarrow> bool" where
  "quiet s m \<longleftrightarrow> host_repairs (snd m) = host_repairs s"

lemma quiet_bind:
  "quiet s m \<Longrightarrow> (\<And>a s1. quiet s1 (f a s1)) \<Longrightarrow> quiet s (bind_st m f)"
  by (cases m; cases "fst m") (auto simp: quiet_def bind_st_def)

lemma quiet_calls:
  "quiet s (x, s)" "quiet s (op_get i s)" "quiet s (op_put r s)" "quiet s (on_journal f s)"
  "quiet s (on_quarantine g s)"
  by (simp_all add: quiet_def)

lemma quiet_journal:
  "quiet s (set_reconciliation_mode i m s)" "quiet s (update_progress i p t s)"
  "quiet s (set_findings i fs s)" "quiet s (mark_running now i s)" "quiet s (finish now i st ty ri t e s)"
  unfolding set_reconciliation_mode_def update_progress_def set_findings_def mark_running_def finish_def
  by (auto intro!: quiet_bind quiet_calls split: option.splits)

lemma quiet_quarantine: "quiet s (quarantine i now ty h m s)"
  unfolding quarantine_def by (auto intro!: quiet_bind quiet_calls simp: Let_def split: option.splits)

lemma quiet_persist: "quiet s (persist_unmanaged_findings ids now fs s)"
  by (induction ids now fs s rule: persist_unmanaged_findings.induct)
    (auto intro!: quiet_bind quiet_calls quiet_quarantine split: finding_kind.splits option.splits)

definition repairs_of :: "finding list \<Rightarrow> repair_action list" where
  "repairs_of fs = List.map_filter repair_of fs"

lemma repairs_of_simps [simp]:
  "repairs_of [] = []"
  "repairs_of (f # fs) = (case repair_of f of None \<Rightarrow> repairs_of fs | Some a \<Rightarrow> a # repairs_of fs)"
  by (auto simp: repairs_of_def split: option.splits)

lemma repair_findings_prefix:
  "\<exists>n. host_repairs (snd (repair_findings h ids now fs s)) = host_repairs s @ take n (repairs_of fs) \<and>
     (\<forall>u. fst (repair_findings h ids now fs s) = Inr u \<longrightarrow> n = length (repairs_of fs)) "
proof (induction fs arbitrary: s)
  case (Cons f fs)
  show ?case
  proof (cases "f_kind f = UnmanagedHost")
    case True
    then have r: "repair_of f = None" by (simp add: repair_of_def)
    show ?thesis
    proof (cases "f_host_id f")
      case None
      with True r Cons.IH [of s] show ?thesis by simp
    next
      case (Some host)
      obtain x s1 where q: "quarantine (ids (length fs)) now (f_resource_type f) host (f_message f) s = (x, s1)"
        by fastforce
      then have "host_repairs s1 = host_repairs s" using quiet_quarantine by (metis quiet_def snd_conv)
      with True r Some q Cons.IH [of s1] show ?thesis
        by (cases x) (auto simp: bind_st_def intro!: exI [of _ 0])
    qed
  next
    case False
    show ?thesis
    proof (cases "repair_of f")
      case None
      with False Cons.IH [of s] show ?thesis by simp
    next
      case (Some a)
      let ?s1 = "s\<lparr>host_repairs := host_repairs s @ [a]\<rparr>"
      from Cons.IH [of ?s1] obtain n where
        n: "host_repairs (snd (repair_findings h ids now fs ?s1)) = host_repairs ?s1 @ take n (repairs_of fs)"
          "\<forall>u. fst (repair_findings h ids now fs ?s1) = Inr u \<longrightarrow> n = length (repairs_of fs)" by blast
      from n show ?thesis using False Some
        by (cases "repair_call h a")
          (auto simp: bind_st_def do_repair_def intro!: exI [of _ "Suc (if \<exists>e. repair_call h a = Inl e then 0 else n)"])
    qed
  qed
qed simp

definition repairs_within :: "repair_action list \<Rightarrow> operation_service \<Rightarrow> 'a \<times> operation_service \<Rightarrow> bool" where
  "repairs_within A s m \<longleftrightarrow> (\<exists>n. host_repairs (snd m) = host_repairs s @ take n A)"

lemma quiet_within: "quiet s m \<Longrightarrow> repairs_within A s m"
  by (auto simp: quiet_def repairs_within_def intro: exI [of _ 0])

lemma within_bind:
  assumes "quiet s m" and "\<And>a s1. m = (Inr a, s1) \<Longrightarrow> repairs_within A s1 (f a s1)"
  shows "repairs_within A s (bind_st m f)"
proof -
  obtain x s1 where m: "m = (x, s1)" by fastforce
  with assms(1) have s1: "host_repairs s1 = host_repairs s" by (simp add: quiet_def)
  show ?thesis
  proof (cases x)
    case (Inl e)
    with m s1 show ?thesis by (auto simp: repairs_within_def bind_st_def intro: exI [of _ 0])
  next
    case (Inr a)
    with assms(2) m s1 show ?thesis by (auto simp: repairs_within_def bind_st_def)
  qed
qed

lemma within_bind_quiet:
  assumes "repairs_within A s m" and "\<And>a s1. quiet s1 (f a s1)"
  shows "repairs_within A s (bind_st m f)"
  using assms by (cases m; cases "fst m") (auto simp: repairs_within_def quiet_def bind_st_def)

lemma repair_findings_within: "repairs_within (repairs_of fs) s (repair_findings h ids now fs s)"
  using repair_findings_prefix [of h ids now fs s] unfolding repairs_within_def by blast

lemma repair_stage_within:
  assumes "mode = Repair \<longrightarrow> fs = approved"
  shows "repairs_within (if mode = Repair then repairs_of approved else []) s
    (if mode = Repair then bind_st (update_progress i p t s) (\<lambda>_ s. repair_findings h ids' now fs s) else (Inr (), s))"
proof (cases "mode = Repair")
  case True
  have "repairs_within (repairs_of approved) s
      (bind_st (update_progress i p t s) (\<lambda>_ s. repair_findings h ids' now fs s))"
    using True assms repair_findings_within by (intro within_bind quiet_journal) blast
  with True show ?thesis by simp
qed (simp add: repairs_within_def)

lemma reconcile_work_repairs:
  "repairs_within (if mode = Repair then repairs_of approved else []) s
     (reconcile_work h ids ids' now mode approved i s)"
  unfolding reconcile_work_def
  by (intro within_bind quiet_journal quiet_calls quiet_persist within_bind_quiet repair_stage_within)
    (auto split: if_splits)

lemma worker_repairs:
  assumes "\<And>s. repairs_within A s (work i s)"
  shows "\<exists>n. host_repairs (worker now now' i ty ri work s) = host_repairs s @ take n A"
proof -
  obtain x s1 where m: "mark_running now i s = (x, s1)" by fastforce
  then have s1: "host_repairs s1 = host_repairs s" using quiet_journal(4) by (metis quiet_def snd_conv)
  obtain y s2 where w: "work i s1 = (y, s2)" by fastforce
  with assms [of s1] s1 obtain n where n: "host_repairs s2 = host_repairs s @ take n A"
    by (auto simp: repairs_within_def)
  have fin: "host_repairs (snd (finish now' i st ty ri t e s2)) = host_repairs s2" for st ty ri t e
    using quiet_journal(5) by (simp add: quiet_def)
  show ?thesis
    using m w s1 n by (cases x; cases y) (auto simp: worker_def succeed_def fail_def fin intro: exI [of _ 0])
qed

lemma repairs_of_append [simp]: "repairs_of (xs @ ys) = repairs_of xs @ repairs_of ys"
  by (induction xs) (auto split: option.splits)

definition net_repair :: "str \<Rightarrow> repair_action" where
  "net_repair i = (case strip_prefix i ''vlan:'' of None \<Rightarrow> RepairBridge i | Some v \<Rightarrow> RepairVlan v)"

lemma repairs_of_findings [simp]:
  "repairs_of (map vm_missing xs) = map RepairVm xs" "repairs_of (map vm_unmanaged xs) = []"
  "repairs_of (map ct_missing xs) = []" "repairs_of (map ct_unmanaged xs) = []"
  "repairs_of (map net_missing xs) = map net_repair xs" "repairs_of (map net_unmanaged xs) = []"
  by (induction xs) (auto simp: repair_of_def vm_missing_def vm_unmanaged_def ct_missing_def
      ct_unmanaged_def net_missing_def net_unmanaged_def net_repair_def strip_prefix_def)

lemma repairs_of_drift:
  assumes "detect_drift h = Inr fs"
  obtains vh vs ch cs nh ns where "vm_drift h = Inr (vh, vs)" and "ct_drift h = Inr (ch, cs)"
    and "net_drift h = Inr (nh, ns)"
    and "repairs_of fs = map RepairVm vh @ map net_repair nh"
  using assms that by (auto simp: detect_drift_def res_simps)

subsection \<open>A sample service\<close>

definition sample_op :: "str \<Rightarrow> operation_status \<Rightarrow> operation_record" where
  "sample_op i st = \<lparr>op_id = i, op_kind = ''host.reconcile'', op_status = st, op_actor = None,
     op_mode = Some DryRun, op_progress = Some 5, op_resource_type = Some ''node'', op_resource_id = None,
     op_result_id = None, op_drift = None, op_findings = Some [vm_missing ''v1''], op_created_at = ''t0'',
     op_started_at = Some ''t0'', op_finished_at = None, op_message = None, op_error = None\<rparr>"

definition sample_quarantine :: quarantine_record where
  "sample_quarantine = \<lparr>q_id = ''q1'', q_resource_type = ''bridge'', q_host_id = ''br0'', q_message = ''m'',
     q_status = Pending, q_created_at = ''t0'', q_decided_at = None, q_decided_by = None,
     q_decision_message = None\<rparr>"

definition dir_store :: "(str \<times> 'v content) list \<Rightarrow> 'v jstore" where
  "dir_store fs = \<lparr>dir_display = ''/s'', dir_exists = True, files = fs, faults = []\<rparr>"

definition sample_ops :: operation_service where
  "sample_ops = \<lparr>
     journal = dir_store [(''d1.json'', Json (sample_op ''d1'' Succeeded)), (''r1.json'', Json (sample_op ''r1'' Running))],
     quarantined = dir_store [(''q1.json'', Json sample_quarantine)],
     consumed = dir_store [], host_repairs = []\<rparr>"

lemma json_name_iff:
  "i @ ''.json'' = ''d1.json'' \<longleftrightarrow> i = ''d1''" "i @ ''.json'' = ''r1.json'' \<longleftrightarrow> i = ''r1''"
  "i @ ''.json'' = ''q1.json'' \<longleftrightarrow> i = ''q1''"
  using record_names_distinct(1) [of i "''d1''"] record_names_distinct(1) [of i "''r1''"]
    record_names_distinct(1) [of i "''q1''"] by simp_all

lemma sample_ops_inv: "ops_inv sample_ops"
  by (auto simp: ops_inv_def sample_ops_def dir_store_def store_wf_def records_def json_name_iff
      sample_op_def sample_quarantine_def split: if_splits)

definition sample_request :: reconcile_request where
  "sample_request = \<lparr>rq_mode = Repair, rq_approval_id = Some ''d1'', rq_quarantine_unmanaged = True\<rparr>"

definition sample_host :: host_services where
  "sample_host = \<lparr>vm_drift = Inr ([''v1''], [''v2'']), ct_drift = Inr ([''c1''], []),
     net_drift = Inr ([''vlan:7'', ''br1''], [''br0'']), count_vms = Inr 1, count_containers = Inr 1,
     count_datasets = Inr 0, count_bridges = Inr 2, count_shares = Inr 0, count_gpus = Inr 0,
     repair_vm = \<lambda>_. Inr (), repair_container = \<lambda>_. Inr (), repair_bridge = \<lambda>_. Inl (internal ''ip''),
     repair_vlan = \<lambda>_. Inr ()\<rparr>"

subsection \<open>Properties\<close>

text \<open>
  C36. Start-up recovery: a successful pass turns exactly the queued and running records into
  \<open>NeedsReview\<close> with the time and the message, leaves every other record as it was, and a second pass
  finds nothing; no outcome is ever reported as success by it.
\<close>

theorem recovery_exact_and_idempotent:
  assumes "ops_inv s" and "recover_interrupted now s = (Inr n, s')"
  shows "(\<forall>i. records (journal s') i =
            map_option (\<lambda>r. if active r then reviewed now r else r) (records (journal s) i)) \<and>
         (n = 0 \<longleftrightarrow> (\<forall>i r. records (journal s) i = Some r \<longrightarrow> \<not> active r)) \<and>
         (\<forall>now' m s''. recover_interrupted now' s' = (Inr m, s'') \<longrightarrow>
            m = 0 \<and> records (journal s'') = records (journal s'))"
proof -
  let ?act = "\<lambda>s. {i. \<exists>r. records (journal s) i = Some r \<and> active r}"
  have eff: "ops_inv s' \<and> records (journal s') = overlay now (?act s) (records (journal s)) (records (journal s)) \<and>
      (n = 0 \<longleftrightarrow> ?act s = {})" if "ops_inv s" "recover_interrupted now s = (Inr n, s')" for now s n s'
    using recover_interrupted_effect [OF that] by blast
  note e = eff [OF assms]
  have j: "records (journal s') i =
      map_option (\<lambda>r. if active r then reviewed now r else r) (records (journal s) i)" for i
    using e by (cases "records (journal s) i") (auto simp: overlay_def)
  have "?act s' = {}"
    unfolding j by (auto simp: active_def split: option.splits if_splits)
  then have "m = 0 \<and> records (journal s'') = records (journal s')"
    if "recover_interrupted now' s' = (Inr m, s'')" for now' m s''
    using eff [OF conjunct1 [OF e] that] by (auto simp: overlay_def fun_eq_iff)
  then show ?thesis using j e by blast
qed

theorem recovery_exact_and_idempotent_witness:
  "\<exists>s'. recover_interrupted ''t1'' sample_ops = (Inr 1, s') \<and>
     map_option op_status (records (journal s') ''r1'') = Some NeedsReview \<and>
     map_option op_status (records (journal s') ''d1'') = Some Succeeded"
proof -
  have "fst (recover_interrupted ''t1'' sample_ops) = Inr 1" by code_simp
  then obtain s' where r: "recover_interrupted ''t1'' sample_ops = (Inr 1, s')" by (metis prod.collapse)
  have "records (journal sample_ops) ''r1'' = Some (sample_op ''r1'' Running)"
    "records (journal sample_ops) ''d1'' = Some (sample_op ''d1'' Succeeded)" by code_simp+
  with recovery_exact_and_idempotent [OF sample_ops_inv r] r show ?thesis
    by (auto simp: active_def sample_op_def)
qed



text \<open>
  C9. A repair does what its dry run showed and no more. When a repair request is accepted, its
  approval names a reconciliation dry run that succeeded, the findings the job gets are that run's,
  the caller agreed to quarantine unmanaged resources, and the approval had not been used; after
  that, whatever calls follow, no request with the same approval is accepted again.
\<close>

theorem approval_is_single_use:
  assumes "ops_inv s" and "records (journal s) i = None" and "rq_mode req = Repair"
    and "enqueue_reconciliation i now req actor s = (Inr (r, fs), s1)"
    and "ops_step\<^sup>*\<^sup>* s1 s2" and "records (journal s2) i' = None"
    and "rq_mode req' = Repair" and "rq_approval_id req' = rq_approval_id req"
  shows "rq_quarantine_unmanaged req \<and> granted req fs s s1 \<and>
         (\<exists>e. fst (enqueue_reconciliation i' now' req' actor' s2) = Inl e)"
proof -
  have e: "keeps s s1" "rq_quarantine_unmanaged req" "granted req fs s s1"
    using enqueue_reconciliation_effect [OF assms(1,2,4)] assms(3) by auto
  have inv2: "ops_inv s2" and le: "ops_le s1 s2" using ops_steps_keep [OF assms(5) keeps_inv [OF e(1)]] by auto
  obtain x s3 where x: "enqueue_reconciliation i' now' req' actor' s2 = (x, s3)" by fastforce
  have "\<exists>e. x = Inl e"
  proof (cases x)
    case (Inr y)
    then obtain r' fs' where "x = Inr (r', fs')" by (cases y) auto
    then have "granted req' fs' s2 s3"
      using enqueue_reconciliation_effect [OF inv2 assms(6) x] assms(7) by simp
    with e(3) assms(8) le show ?thesis by (auto simp: granted_def ops_le_def)
  qed simp
  with e x show ?thesis by simp
qed

theorem approval_is_single_use_witness:
  "\<exists>r s1. enqueue_reconciliation ''n1'' ''t1'' sample_request None sample_ops = (Inr (r, [vm_missing ''v1'']), s1) \<and>
     (\<exists>e. fst (enqueue_reconciliation ''n2'' ''t2'' sample_request None s1) = Inl e)"
proof -
  have "map_sum id snd (fst (enqueue_reconciliation ''n1'' ''t1'' sample_request None sample_ops)) = Inr [vm_missing ''v1'']"
    by code_simp
  then obtain r s1 where e: "enqueue_reconciliation ''n1'' ''t1'' sample_request None sample_ops
      = (Inr (r, [vm_missing ''v1'']), s1)"
    by (cases "enqueue_reconciliation ''n1'' ''t1'' sample_request None sample_ops")
      (auto simp: map_sum_def split: sum.splits)
  have "records (journal sample_ops) ''n1'' = None" "rq_mode sample_request = Repair" by code_simp+
  moreover have "records (journal (snd (enqueue_reconciliation ''n1'' ''t1'' sample_request None sample_ops))) ''n2'' = None"
    by code_simp
  ultimately show ?thesis
    using approval_is_single_use [OF sample_ops_inv _ _ e rtranclp.rtrancl_refl, of "''n2''" sample_request] e by simp
qed



text \<open>
  A quarantine decision is final and adoption is explicit: an accepted decision applies to a
  pending record, an adoption only to a bridge that the network service adopted; the decided record is
  what every later state holds, and every later decision on it is refused.
\<close>

theorem quarantine_decision_final:
  assumes "ops_inv s" and "decide_quarantine adopt now i d actor m s = (Inr q', s1)" and "ops_step\<^sup>*\<^sup>* s1 s2"
  shows "(\<exists>q. records (quarantined s) i = Some q \<and> q_status q = Pending \<and>
            (d = Adopt \<longrightarrow> q_resource_type q = ''bridge'' \<and> adopt (q_host_id q) = Inr ())) \<and>
         q_status q' = (case d of Adopt \<Rightarrow> Adopted | Release \<Rightarrow> Released) \<and> q_decided_by q' = Some actor \<and>
         records (quarantined s2) i = Some q' \<and>
         (\<exists>e. fst (decide_quarantine adopt' now' i d' actor' m' s2) = Inl e)"
proof -
  obtain q where q: "records (quarantined s) i = Some q" "q_status q = Pending"
      "q' = q\<lparr>q_status := (case d of Adopt \<Rightarrow> Adopted | Release \<Rightarrow> Released), q_decided_at := Some now,
             q_decided_by := Some actor, q_decision_message := m\<rparr>"
      "records (quarantined s1) = (records (quarantined s))(i \<mapsto> q')"
      "d = Adopt \<longrightarrow> q_resource_type q = ''bridge'' \<and> adopt (q_host_id q) = Inr ()"
    using decide_quarantine_effect(2) [OF assms(1,2) refl] by blast
  have inv1: "ops_inv s1" using decide_quarantine_effect(1) [OF assms(1,2)] by (rule keeps_inv)
  have inv2: "ops_inv s2" and le: "ops_le s1 s2" using ops_steps_keep [OF assms(3) inv1] by auto
  have np: "q_status q' \<noteq> Pending" using q(3) by (cases d) auto
  moreover have "records (quarantined s1) i = Some q'" using q(4) by simp
  ultimately have r2: "records (quarantined s2) i = Some q'"
    using le unfolding ops_le_def quarantine_le_def by metis
  obtain x s3 where x: "decide_quarantine adopt' now' i d' actor' m' s2 = (x, s3)" by fastforce
  have "\<exists>e. x = Inl e"
    using decide_quarantine_effect(2) [OF inv2 x] r2 np by (cases x) auto
  with q r2 x show ?thesis by auto
qed

theorem quarantine_decision_final_witness:
  "\<exists>q s1. decide_quarantine (\<lambda>_. Inr ()) ''t1'' ''q1'' Adopt ''root'' None sample_ops = (Inr q, s1) \<and>
     q_status q = Adopted \<and>
     (\<exists>e. fst (decide_quarantine (\<lambda>_. Inr ()) ''t2'' ''q1'' Release ''eve'' None s1) = Inl e)"
proof -
  have "map_sum id q_status (fst (decide_quarantine (\<lambda>_. Inr ()) ''t1'' ''q1'' Adopt ''root'' None sample_ops)) = Inr Adopted"
    by code_simp
  then obtain q s1 where d: "decide_quarantine (\<lambda>_. Inr ()) ''t1'' ''q1'' Adopt ''root'' None sample_ops = (Inr q, s1)"
    by (cases "decide_quarantine (\<lambda>_. Inr ()) ''t1'' ''q1'' Adopt ''root'' None sample_ops")
      (auto simp: map_sum_def split: sum.splits)
  from quarantine_decision_final [OF sample_ops_inv d rtranclp.rtrancl_refl,
      of "\<lambda>_. Inr ()" "''t2''" Release "''eve''" None] d
  show ?thesis by auto
qed

lemma begin_op_cases:
  assumes "ops_inv s" and "begin_op i now kind ty ri actor s = (x, s')"
  shows "ops_inv s' \<and> (\<forall>j. x = Inr j \<longrightarrow> j = i \<and> (\<exists>r. records (journal s') i = Some r \<and> op_status r = Running))"
proof (cases "trim kind = []")
  case True
  with assms show ?thesis by (auto simp: begin_op_def create_record_def)
next
  case False
  let ?r = "\<lparr>op_id = i, op_kind = kind, op_status = Running, op_actor = actor, op_mode = None,
      op_progress = None, op_resource_type = ty, op_resource_id = ri, op_result_id = None,
      op_drift = None, op_findings = None, op_created_at = now,
      op_started_at = Some now, op_finished_at = None, op_message = None, op_error = None\<rparr>"
  obtain y s1 where p: "op_put ?r s = (y, s1)" by fastforce
  have x: "s' = s1" "x = (case y of Inl e \<Rightarrow> Inl e | Inr _ \<Rightarrow> Inr i)"
    using assms(2) False p by (auto simp: begin_op_def create_record_def bind_st_def Let_def split: sum.splits)
  from assms(1) p show ?thesis
    by (cases rule: op_put_cases) (auto simp: x same_ops_def)
qed

lemma finish_record:
  assumes "ops_inv s" and "records (journal s) i = Some r" and "op_status r = Running"
  shows "\<exists>r'. records (journal (snd (finish now i st ty ri m e s))) i = Some r' \<and> op_status r' \<in> {Running, st}"
proof -
  obtain x s1 where g: "on_journal (Store.get i) s = (x, s1)" by fastforce
  note s1 = on_journal_get_same [OF assms(1) g]
  have inv1: "ops_inv s1" and r1: "records (journal s1) = records (journal s)" using s1(1) by (auto simp: same_ops_def)
  have key: "op_id r = i" using assms(1,2) by (simp add: ops_inv_def)
  show ?thesis
  proof (cases x)
    case (Inl err)
    with g r1 assms show ?thesis by (simp add: finish_def bind_st_def)
  next
    case (Inr y)
    with s1(2) assms(2) have y: "y = Some r" by simp
    let ?r = "r\<lparr>op_status := st, op_resource_type := or_else ty (op_resource_type r),
        op_resource_id := or_else ri (op_resource_id r), op_finished_at := Some now,
        op_progress := (if st = Succeeded then Some 100 else op_progress r),
        op_message := or_else m (op_message r), op_error := e\<rparr>"
    obtain z s2 where p: "op_put ?r s1 = (z, s2)" by fastforce
    have fin: "finish now i st ty ri m e s = (z, s2)" using g Inr y p by (simp add: finish_def bind_st_def)
    from inv1 p show ?thesis
      by (cases rule: op_put_cases) (use fin key r1 assms(2,3) in \<open>auto simp: same_ops_def\<close>)
  qed
qed

text \<open>
  The journal tells the truth about a synchronous workflow: the work starts only after its
  record is durable as running, the caller gets exactly what the work returned, and afterwards the
  record says that it succeeded only if it did and that it failed only if it did; if the journal could
  not be finalized it still says running, which recovery turns into a review.
\<close>

theorem run_outcome_recorded:
  assumes "ops_inv s" and "run_op i now now' kind ty ri actor work s = (x, s')"
    and "begin_op i now kind ty ri actor s = (y, s1)"
    and "\<And>s1 z s2. ops_inv s1 \<Longrightarrow> work s1 = (z, s2) \<Longrightarrow>
           ops_inv s2 \<and> records (journal s2) i = records (journal s1) i"
  shows "case y of
           Inl e \<Rightarrow> x = Inl e \<and> s' = s1
         | Inr _ \<Rightarrow> map_option op_status (records (journal s1) i) = Some Running \<and> x = fst (work s1) \<and>
             map_option op_status (records (journal s') i) \<in>
               {Some Running, Some (case x of Inl _ \<Rightarrow> Failed | Inr _ \<Rightarrow> Succeeded)}"
proof (cases y)
  case (Inl e)
  with assms(2,3) show ?thesis by (auto simp: run_op_def bind_st_def)
next
  case (Inr j)
  note b = begin_op_cases [OF assms(1,3)]
  then obtain r where r: "j = i" "ops_inv s1" "records (journal s1) i = Some r" "op_status r = Running"
    using Inr by auto
  obtain z s2 where w: "work s1 = (z, s2)" by fastforce
  have s2: "ops_inv s2" "records (journal s2) i = Some r" using assms(4) [OF r(2) w] r(3) by auto
  have x: "x = z \<and> s' = (case z of Inr _ \<Rightarrow> snd (succeed now' i ty ri None s2)
      | Inl e \<Rightarrow> snd (fail now' i (err_message e) s2))"
    using assms(2,3) Inr w r(1) by (auto simp: run_op_def bind_st_def split: sum.splits)
  have "\<exists>r'. records (journal s') i = Some r' \<and>
      op_status r' \<in> {Running, case z of Inl _ \<Rightarrow> Failed | Inr _ \<Rightarrow> Succeeded}"
    using x finish_record [OF s2 r(4)] by (cases z) (auto simp: succeed_def fail_def)
  then show ?thesis using Inr r x w by (auto split: sum.splits)
qed

theorem run_outcome_recorded_witness:
  "map_option op_status (records (journal (snd (run_op ''n1'' ''t1'' ''t2'' ''vm.start'' None None None
      (\<lambda>s. (Inl (internal ''boom'') :: unit api_result, s)) sample_ops))) ''n1'') \<in> {Some Running, Some Failed}"
proof -
  obtain x s' where x: "run_op ''n1'' ''t1'' ''t2'' ''vm.start'' None None None
      (\<lambda>s. (Inl (internal ''boom'') :: unit api_result, s)) sample_ops = (x, s')" by fastforce
  have "fst (begin_op ''n1'' ''t1'' ''vm.start'' None None None sample_ops) = Inr ''n1''" by code_simp
  then obtain s1 where b: "begin_op ''n1'' ''t1'' ''vm.start'' None None None sample_ops = (Inr ''n1'', s1)"
    by (metis prod.collapse)
  from run_outcome_recorded [OF sample_ops_inv x b] x show ?thesis by auto
qed

subsection \<open>Where the single use of an approval fails\<close>

text \<open>\<open>consume_approval\<close> reads the marker and then decides on what it read; no lock spans the two.\<close>

definition consume_decide ::
  "str \<Rightarrow> str \<Rightarrow> consumed_approval option \<Rightarrow> operation_service \<Rightarrow> unit api_result \<times> operation_service" where
  "consume_decide now i x s =
     (if x \<noteq> None
      then (Inl (conflict ''this dry-run approval has already been used for a repair''), s)
      else on_consumed (Store.put i \<lparr>ca_id = i, ca_consumed_at = now\<rparr>) s)"

lemma consume_approval_split:
  "consume_approval now i s = bind_st (on_consumed (Store.get i) s) (\<lambda>x s. consume_decide now i x s)"
  by (simp add: consume_approval_def consume_decide_def)

text \<open>
  Two repair requests with one approval, each reading the marker before the other writes it, are
  both granted, on a disk that never fails: the approval is single use only when requests do not
  overlap.
\<close>

theorem approval_race:
  assumes "safe_id i" and "faults (consumed s) = []" and "map_of (files (consumed s)) (i @ ''.json'') = None"
  shows "\<exists>a s1 b s2 s3 s4.
    on_consumed (Store.get i) s = (Inr a, s1) \<and> on_consumed (Store.get i) s1 = (Inr b, s2) \<and>
    consume_decide now i a s2 = (Inr (), s3) \<and> consume_decide now' i b s3 = (Inr (), s4)"
proof -
  have get: "on_consumed (Store.get i) s = (Inr None, s)"
    using get_no_faults [OF assms] by (simp add: on_consumed_def)
  obtain c where p: "Store.put i \<lparr>ca_id = i, ca_consumed_at = now\<rparr> (consumed s) = (Inr (), c)" "faults c = []"
    using put_no_faults [OF assms(1,2)] by blast
  obtain c' where p': "Store.put i \<lparr>ca_id = i, ca_consumed_at = now'\<rparr> c = (Inr (), c')"
    using put_no_faults [OF assms(1) p(2)] by blast
  from get p p' show ?thesis by (auto simp: consume_decide_def on_consumed_def)
qed

theorem approval_race_witness:
  "\<exists>a s1 b s2 s3 s4.
    on_consumed (Store.get ''d1'') sample_ops = (Inr a, s1) \<and> on_consumed (Store.get ''d1'') s1 = (Inr b, s2) \<and>
    consume_decide ''t1'' ''d1'' a s2 = (Inr (), s3) \<and> consume_decide ''t2'' ''d1'' b s3 = (Inr (), s4)"
  by (rule approval_race) code_simp+

text \<open>
  A repair request that names a good approval but leaves \<open>quarantine_unmanaged\<close> out is refused only
  after the approval was spent: the refusal queues nothing, and the corrected request is refused too.
\<close>

theorem refused_repair_spends_approval:
  assumes "ops_inv s" and "rq_mode req = Repair" and "\<not> rq_quarantine_unmanaged req"
    and "approved_findings now req s = (Inr fs, s1)"
  shows "(\<exists>e. enqueue_reconciliation i now req actor s = (Inl e, s1) \<and> err_code e = Validation) \<and>
         records (journal s1) = records (journal s) \<and>
         (records (journal s) i' = None \<longrightarrow>
            (\<exists>e. fst (enqueue_reconciliation i' now' (req\<lparr>rq_quarantine_unmanaged := True\<rparr>) actor s1) = Inl e))"
proof -
  note a = approved_findings_effect [OF assms(1,4)]
  then have g: "granted req fs s s1" and inv: "ops_inv s1" and j: "records (journal s1) = records (journal s)"
    using assms(2) by (auto dest: keeps_inv)
  have "\<exists>e. fst (enqueue_reconciliation i' now' (req\<lparr>rq_quarantine_unmanaged := True\<rparr>) actor s1) = Inl e"
    if "records (journal s) i' = None"
  proof -
    obtain x s2 where x: "enqueue_reconciliation i' now' (req\<lparr>rq_quarantine_unmanaged := True\<rparr>) actor s1 = (x, s2)"
      by fastforce
    from that j have "records (journal s1) i' = None" by simp
    from enqueue_reconciliation_effect [OF inv this x] g assms(2) x show ?thesis
      by (cases x) (auto simp: granted_def)
  qed
  with assms j show ?thesis by (auto simp: enqueue_reconciliation_def bind_st_def)
qed

theorem refused_repair_spends_approval_witness:
  "\<exists>s1. (\<exists>e. enqueue_reconciliation ''n1'' ''t1'' (sample_request\<lparr>rq_quarantine_unmanaged := False\<rparr>) None sample_ops
       = (Inl e, s1) \<and> err_code e = Validation) \<and>
     (\<exists>e. fst (enqueue_reconciliation ''n2'' ''t2'' sample_request None s1) = Inl e)"
proof -
  let ?req = "sample_request\<lparr>rq_quarantine_unmanaged := False\<rparr>"
  have "fst (approved_findings ''t1'' ?req sample_ops) = Inr [vm_missing ''v1'']" by code_simp
  then obtain s1 where a: "approved_findings ''t1'' ?req sample_ops = (Inr [vm_missing ''v1''], s1)"
    by (metis prod.collapse)
  have "records (journal sample_ops) ''n2'' = None" by code_simp
  moreover have "?req\<lparr>rq_quarantine_unmanaged := True\<rparr> = sample_request" by (simp add: sample_request_def)
  moreover have "rq_mode ?req = Repair" "\<not> rq_quarantine_unmanaged ?req" by (simp_all add: sample_request_def)
  ultimately show ?thesis
    using refused_repair_spends_approval [OF sample_ops_inv _ _ a, of "''n1''" None "''n2''" "''t2''"] by auto
qed

end
