(* ===== verification/Audit_Log.thy ===== *)
theory Audit_Log
  imports Store "HOL-Library.Multiset"
begin

section \<open>The audit log (src/src/services/audit.rs)\<close>

text \<open>
  Security events are written to a record store, best effort, and the oldest are pruned once there are
  more than \<open>MAX_EVENTS\<close>. The identifier and the time of an event are arguments. The property is about
  what pruning may drop, for every outcome of the disk.
\<close>

datatype audit_outcome = Success | Failure

record audit_event =
  ev_id :: str
  ev_at :: str
  ev_actor_id :: "str option"
  ev_actor :: str
  ev_action :: str
  ev_resource_type :: "str option"
  ev_resource_id :: "str option"
  ev_outcome :: audit_outcome
  ev_message :: "str option"
  ev_source_ip :: "str option"

definition MAX_EVENTS :: nat where
  "MAX_EVENTS = 5000"

record new_audit_event =
  ne_actor_id :: "str option"
  ne_actor :: str
  ne_action :: str
  ne_resource_type :: "str option"
  ne_resource_id :: "str option"
  ne_outcome :: audit_outcome
  ne_message :: "str option"
  ne_source_ip :: "str option"

definition default_event :: new_audit_event where
  "default_event = \<lparr>ne_actor_id = None, ne_actor = ''system'', ne_action = [], ne_resource_type = None,
     ne_resource_id = None, ne_outcome = Success, ne_message = None, ne_source_ip = None\<rparr>"

definition make_event :: "str \<Rightarrow> str \<Rightarrow> new_audit_event \<Rightarrow> audit_event" where
  "make_event new_id now ev = \<lparr>ev_id = new_id, ev_at = now, ev_actor_id = ne_actor_id ev,
     ev_actor = ne_actor ev, ev_action = ne_action ev, ev_resource_type = ne_resource_type ev,
     ev_resource_id = ne_resource_id ev, ev_outcome = ne_outcome ev, ev_message = ne_message ev,
     ev_source_ip = ne_source_ip ev\<rparr>"

fun delete_events :: "audit_event list \<Rightarrow> audit_event jstore \<Rightarrow> audit_event jstore" where
  "delete_events [] st = st"
| "delete_events (stale # es) st = delete_events es (snd (Store.delete (ev_id stale) st))"

definition prune :: "audit_event jstore \<Rightarrow> audit_event jstore" where
  "prune st =
     (case Store.list st of
        (Inl _, st) \<Rightarrow> st
      | (Inr es, st) \<Rightarrow>
          if length es \<le> MAX_EVENTS then st
          else delete_events (take (length es - MAX_EVENTS) (sort_key ev_at es)) st)"

definition record_event :: "str \<Rightarrow> str \<Rightarrow> new_audit_event \<Rightarrow> audit_event jstore \<Rightarrow> audit_event jstore" where
  "record_event new_id now ev st =
     (let e = make_event new_id now ev in
      case Store.put (ev_id e) e st of (Inl _, st) \<Rightarrow> st | (Inr _, st) \<Rightarrow> prune st)"

definition audit_list :: "nat \<Rightarrow> audit_event jstore \<Rightarrow> audit_event list api_result \<times> audit_event jstore" where
  "audit_list limit st =
     bind_st (Store.list st) (\<lambda>es st. (Inr (take limit (sort_desc ev_at es)), st))"

subsection \<open>Pruning\<close>

interpretation audit_js: keyed_store store_wf records Store.put Store.get Store.delete Store.list ev_id
  by unfold_locales

definition audit_inv :: "audit_event jstore \<Rightarrow> bool" where
  "audit_inv st \<longleftrightarrow> store_wf st \<and> (\<forall>i e. records st i = Some e \<longrightarrow> ev_id e = i)"

lemma delete_events_effect:
  assumes "audit_inv st"
  shows "audit_inv (delete_events es st) \<and> records (delete_events es st) \<subseteq>\<^sub>m records st \<and>
    (\<forall>i. i \<notin> ev_id ` set es \<longrightarrow> records (delete_events es st) i = records st i)"
  using assms
proof (induction es arbitrary: st)
  case (Cons e es)
  obtain x st1 where d: "Store.delete (ev_id e) st = (x, st1)" by fastforce
  have wf: "store_wf st" using Cons.prems by (simp add: audit_inv_def)
  have st1: "store_wf st1" "records st1 = records st \<or> records st1 = (records st)(ev_id e := None)"
    using wf d by (cases rule: js.delete_cases; simp)+
  have "audit_inv st1" using Cons.prems st1 by (auto simp: audit_inv_def split: if_splits)
  note IH = Cons.IH [OF this]
  moreover have "records st1 \<subseteq>\<^sub>m records st" using st1(2) by (auto simp: map_le_def split: if_splits)
  ultimately have "records (delete_events es st1) \<subseteq>\<^sub>m records st" by (blast intro: map_le_trans)
  with IH st1(2) d show ?case by auto
qed (simp add: audit_inv_def)

lemma delete_events_all:
  assumes "audit_inv st" and "faults st = []" and "\<forall>e \<in> set es. safe_id (ev_id e)"
  shows "\<forall>i \<in> ev_id ` set es. records (delete_events es st) i = None"
  using assms
proof (induction es arbitrary: st)
  case (Cons e es)
  from Cons.prems obtain b st1 where d: "Store.delete (ev_id e) st = (Inr b, st1)" "faults st1 = []"
    using delete_no_faults [of "ev_id e" st] by auto
  have wf: "store_wf st" using Cons.prems(1) by (simp add: audit_inv_def)
  have st1: "store_wf st1" "records st1 = (records st)(ev_id e := None)" using js.delete_ok [OF wf d(1)] by auto
  have inv: "audit_inv st1" using Cons.prems(1) st1 by (auto simp: audit_inv_def split: if_splits)
  have "records (delete_events es st1) (ev_id e) = None"
    using delete_events_effect [OF inv, of es] st1(2) by (auto simp: map_le_def dom_def)
  with Cons.IH [OF inv d(2)] Cons.prems(3) d(1) show ?case by simp
qed simp

lemma sorted_split:
  assumes "e \<in> set (take k (sort_key f es))" and "e' \<in> set (drop k (sort_key f es))"
  shows "f e \<le> f e'"
proof -
  have "sorted (map f (take k (sort_key f es)) @ map f (drop k (sort_key f es)))"
    by (metis append_take_drop_id map_append sorted_sort_key)
  with assms show ?thesis by (auto simp: sorted_append)
qed

lemma listing:
  assumes "audit_inv st" and "Store.list st = (Inr es, st1)"
  shows "audit_inv st1" and "records st1 = records st" and "distinct (map ev_id es)"
    and "dom (records st) = ev_id ` set es" and "e \<in> set es \<longleftrightarrow> records st (ev_id e) = Some e"
proof -
  have inv: "store_wf st" "\<forall>i e. records st i = Some e \<longrightarrow> ev_id e = i" using assms(1) by (auto simp: audit_inv_def)
  have l: "store_wf st1" "records st1 = records st" "set es = ran (records st)"
    using js.list_ok [OF inv(1) assms(2)] by auto
  show "audit_inv st1" "records st1 = records st" using l inv by (auto simp: audit_inv_def)
  show "distinct (map ev_id es)" using js.list_once [OF inv(1) assms(2) inv(2)] .
  show e: "e \<in> set es \<longleftrightarrow> records st (ev_id e) = Some e" for e
    using inv(2) unfolding l(3) by (auto simp: ran_def)
  show "dom (records st) = ev_id ` set es"
  proof (rule set_eqI)
    fix i
    show "i \<in> dom (records st) \<longleftrightarrow> i \<in> ev_id ` set es"
    proof
      assume "i \<in> dom (records st)"
      then obtain v where v: "records st i = Some v" by blast
      with inv(2) have "ev_id v = i" by blast
      with v e [of v] show "i \<in> ev_id ` set es" by blast
    next
      assume "i \<in> ev_id ` set es"
      then obtain v where "v \<in> set es" "i = ev_id v" by blast
      with e [of v] show "i \<in> dom (records st)" by blast
    qed
  qed
qed

lemma prune_overflow:
  assumes "audit_inv st" and "Store.list st = (Inr es, st1)" and "MAX_EVENTS < length es"
  defines "V \<equiv> take (length es - MAX_EVENTS) (sort_key ev_at es)"
    and "K \<equiv> drop (length es - MAX_EVENTS) (sort_key ev_at es)"
  shows "prune st = delete_events V st1" and "card (ev_id ` set K) = MAX_EVENTS"
    and "ev_id ` set K \<inter> ev_id ` set V = {}" and "dom (records st) = ev_id ` set V \<union> ev_id ` set K"
    and "v \<in> set V \<Longrightarrow> e \<in> set K \<Longrightarrow> ev_at v \<le> ev_at e" and "e \<in> set V \<union> set K \<longleftrightarrow> e \<in> set es"
proof -
  note l = listing [OF assms(1,2)]
  have vk: "V @ K = sort_key ev_at es" by (simp add: V_def K_def)
  have "mset (map ev_id (V @ K)) = mset (map ev_id es)" unfolding vk by simp
  then have d: "distinct (map ev_id (V @ K))" using l(3) by (metis mset_eq_imp_distinct_iff)
  have len: "length K = MAX_EVENTS" using assms(3) by (simp add: K_def)
  have kd: "distinct (map ev_id K)" using d by simp
  show "prune st = delete_events V st1" using assms(2,3) by (simp add: prune_def V_def)
  show "card (ev_id ` set K) = MAX_EVENTS" using distinct_card [OF kd] len by simp
  show "ev_id ` set K \<inter> ev_id ` set V = {}" using d by auto
  have set: "set V \<union> set K = set es" by (metis vk set_append set_sort)
  then show "e \<in> set V \<union> set K \<longleftrightarrow> e \<in> set es" by simp
  show "dom (records st) = ev_id ` set V \<union> ev_id ` set K" unfolding l(4) set [symmetric] by auto
  show "v \<in> set V \<Longrightarrow> e \<in> set K \<Longrightarrow> ev_at v \<le> ev_at e" unfolding V_def K_def by (rule sorted_split)
qed

lemma prune_effect:
  assumes "audit_inv st"
  shows "audit_inv (prune st) \<and> records (prune st) \<subseteq>\<^sub>m records st \<and>
    (\<forall>i e. records st i = Some e \<and> records (prune st) i = None \<longrightarrow>
       MAX_EVENTS \<le> card {j. \<exists>e'. records (prune st) j = Some e' \<and> ev_at e \<le> ev_at e'})"
proof -
  have wf: "store_wf st" using assms by (simp add: audit_inv_def)
  obtain x st1 where l: "Store.list st = (x, st1)" by fastforce
  show ?thesis
  proof (cases "\<exists>es. x = Inr es \<and> MAX_EVENTS < length es")
    case False
    then have "prune st = st1" using l by (auto simp: prune_def split: sum.splits)
    moreover have "store_wf st1 \<and> records st1 = records st" using wf l by (cases rule: js.list_cases) auto
    ultimately show ?thesis using assms by (auto simp: audit_inv_def)
  next
    case True
    then obtain es where es: "Store.list st = (Inr es, st1)" "MAX_EVENTS < length es" using l by blast
    let ?V = "take (length es - MAX_EVENTS) (sort_key ev_at es)"
    let ?K = "drop (length es - MAX_EVENTS) (sort_key ev_at es)"
    note li = listing [OF assms es(1)] and o = prune_overflow [OF assms es]
    note d = delete_events_effect [OF li(1), of ?V]
    have kept: "records (prune st) (ev_id e) = Some e" if "e \<in> set ?K" for e
    proof -
      have "ev_id e \<notin> ev_id ` set ?V" using o(3) that by blast
      with d have "records (prune st) (ev_id e) = records st (ev_id e)" unfolding o(1) li(2) by blast
      moreover have "e \<in> set es" using o(6) that by blast
      ultimately show ?thesis using li(5) by simp
    qed
    have "MAX_EVENTS \<le> card {j. \<exists>e'. records (prune st) j = Some e' \<and> ev_at e \<le> ev_at e'}"
      if i: "records st i = Some e" "records (prune st) i = None" for i e
    proof -
      have id: "ev_id e = i" using assms i(1) by (simp add: audit_inv_def)
      then have "e \<in> set es" using li(5) i(1) by simp
      then have v: "e \<in> set ?V" using o(6) kept [of e] i(2) id by auto
      let ?S = "{j. \<exists>e'. records (prune st) j = Some e' \<and> ev_at e \<le> ev_at e'}"
      have sub: "ev_id ` set ?K \<subseteq> ?S" using kept o(5) [OF v] by blast
      have "?S \<subseteq> dom (records (prune st))" by blast
      also have "\<dots> \<subseteq> dom (records st)"
        using d unfolding o(1) li(2) by (intro map_le_implies_dom_le) blast
      finally have "finite ?S" by (rule finite_subset) (simp add: li(4))
      from card_mono [OF this sub] show ?thesis unfolding o(2) .
    qed
    moreover have "audit_inv (prune st)" "records (prune st) \<subseteq>\<^sub>m records st" using d unfolding o(1) li(2) by blast+
    ultimately show ?thesis by blast
  qed
qed

lemma prune_bound:
  assumes "audit_inv st" and "faults st = []"
  shows "card (dom (records (prune st))) \<le> MAX_EVENTS"
proof -
  obtain es where es: "Store.list st = (Inr es, st)" using list_no_faults [OF assms(2)] by blast
  note li = listing [OF assms(1) es]
  show ?thesis
  proof (cases "MAX_EVENTS < length es")
    case False
    then have "prune st = st" by (simp add: prune_def es)
    with False li(4) card_length [of "map ev_id es"] show ?thesis by (simp add: le_trans)
  next
    case True
    let ?V = "take (length es - MAX_EVENTS) (sort_key ev_at es)"
    let ?K = "drop (length es - MAX_EVENTS) (sort_key ev_at es)"
    note o = prune_overflow [OF assms(1) es True]
    have "\<forall>e \<in> set ?V. safe_id (ev_id e)"
      using o(6) li(5) by (auto simp: records_Some)
    then have gone: "\<forall>i \<in> ev_id ` set ?V. records (prune st) i = None"
      unfolding o(1) by (rule delete_events_all [OF assms])
    have "dom (records (prune st)) \<subseteq> dom (records st)"
      using prune_effect [OF assms(1)] map_le_implies_dom_le by blast
    with gone have "dom (records (prune st)) \<subseteq> ev_id ` set ?K" unfolding o(4) by auto
    with o(2) show ?thesis by (metis card_mono finite_imageI List.finite_set)
  qed
qed

subsection \<open>Properties\<close>

text \<open>
  The audit log loses only its oldest events: whatever the disk does, recording an event changes
  no other event, and an event disappears only if at least \<open>MAX_EVENTS\<close> events that are at least as recent
  remain; when the disk works, the log holds at most \<open>MAX_EVENTS\<close> events afterwards.
\<close>

theorem audit_keeps_newest:
  assumes "audit_inv st" and "record_event i now ev st = st'"
  shows "audit_inv st' \<and>
    (\<forall>j e. records st' j = Some e \<longrightarrow> records st j = Some e \<or> j = i \<and> e = make_event i now ev) \<and>
    (\<forall>j e. j \<noteq> i \<and> records st j = Some e \<and> records st' j = None \<longrightarrow>
       MAX_EVENTS \<le> card {k. \<exists>e'. records st' k = Some e' \<and> ev_at e \<le> ev_at e'}) \<and>
    (safe_id i \<and> faults st = [] \<longrightarrow> card (dom (records st')) \<le> MAX_EVENTS)"
proof -
  let ?e = "make_event i now ev"
  have wf: "store_wf st" using assms(1) by (simp add: audit_inv_def)
  have id: "ev_id ?e = i" by (simp add: make_event_def)
  obtain x st1 where p: "Store.put i ?e st = (x, st1)" by fastforce
  have st': "st' = (case x of Inl _ \<Rightarrow> st1 | Inr _ \<Rightarrow> prune st1)"
    using p assms(2) by (auto simp: record_event_def Let_def id split: sum.splits)
  from wf p show ?thesis
  proof (cases rule: js.put_cases)
    case ok
    have inv: "audit_inv st1" using assms(1) ok(2,3) id by (auto simp: audit_inv_def split: if_splits)
    note pr = prune_effect [OF inv]
    have "records st j = Some e \<or> j = i \<and> e = ?e" if "records (prune st1) j = Some e" for j e
    proof -
      have "records st1 j = Some e" using pr that by (metis domI map_le_def)
      then show ?thesis using ok(3) by (simp split: if_splits)
    qed
    moreover have "card (dom (records (prune st1))) \<le> MAX_EVENTS" if "safe_id i" "faults st = []"
      using put_no_faults [OF that, of ?e] p prune_bound [OF inv] by auto
    moreover have "MAX_EVENTS \<le> card {k. \<exists>e'. records (prune st1) k = Some e' \<and> ev_at e \<le> ev_at e'}"
      if "j \<noteq> i" "records st j = Some e" "records (prune st1) j = None" for j e
    proof -
      have "records st1 j = Some e" using that(1,2) ok(3) by simp
      with pr that(3) show ?thesis by blast
    qed
    moreover have "st' = prune st1" using ok(1) st' by simp
    ultimately show ?thesis using pr by blast
  next
    case (failed err)
    have "\<not> (safe_id i \<and> faults st = [])" using put_no_faults [of i st ?e] p failed(1) by auto
    with failed assms(1) show ?thesis unfolding st' by (auto simp: audit_inv_def)
  qed
qed

theorem audit_keeps_newest_witness:
  "let st = \<lparr>dir_display = ''/s'', dir_exists = True, files = [], faults = []\<rparr> in
     audit_inv st \<and> card (dom (records (record_event ''e1'' ''t1'' default_event st))) \<le> MAX_EVENTS"
proof -
  let ?st = "\<lparr>dir_display = ''/s'', dir_exists = True, files = [], faults = []\<rparr>"
  have inv: "audit_inv ?st" by (simp add: audit_inv_def store_wf_def records_def)
  moreover have "safe_id ''e1''" by code_simp
  ultimately show ?thesis using audit_keeps_newest [OF inv refl, of "''e1''" "''t1''" default_event] by simp
qed

end
