(* ===== verification/Api_Token.thy ===== *)
theory Api_Token
  imports Auth
begin

section \<open>API tokens (src/src/services/api_token.rs)\<close>

text \<open>
  Long-lived bearer tokens in a record store, of which only the SHA-256 is kept. The clock, the random
  secret and the hash come from \<open>auth_env\<close>; \<open>parse_ts\<close> stands for chrono's RFC 3339 parser and \<open>plus_days\<close>
  for its addition, where \<open>None\<close> is the panic of a date out of range, so that a creation that panics has
  no result. The properties: a token never grants what its creator did not hold, only the owner can
  revoke it, a revoked or expired token does not authenticate, and a token outlives a demotion.
\<close>

definition TOKEN_PREFIX :: str where
  "TOKEN_PREFIX = ''dgv_''"

record stored_api_token =
  tk_id :: str
  tk_name :: str
  tk_prefix :: str
  tk_sha256 :: str
  tk_user_id :: str
  tk_owner :: str
  tk_permissions :: "permission list"
  tk_created_at :: str
  tk_expires_at :: "str option"
  tk_last_used_at :: "str option"

record api_token =
  at_id :: str
  at_name :: str
  at_prefix :: str
  at_permissions :: "permission list"
  at_owner :: str
  at_created_at :: str
  at_expires_at :: "str option"
  at_last_used_at :: "str option"

definition view :: "stored_api_token \<Rightarrow> api_token" where
  "view t = \<lparr>at_id = tk_id t, at_name = tk_name t, at_prefix = tk_prefix t, at_permissions = tk_permissions t,
     at_owner = tk_owner t, at_created_at = tk_created_at t, at_expires_at = tk_expires_at t,
     at_last_used_at = tk_last_used_at t\<rparr>"

definition is_expired :: "(str \<Rightarrow> int option) \<Rightarrow> str option \<Rightarrow> int \<Rightarrow> bool" where
  "is_expired parse_ts exp_at at_time =
     (case exp_at of
        None \<Rightarrow> False
      | Some ts \<Rightarrow> (case parse_ts ts of Some e \<Rightarrow> e \<le> at_time | None \<Rightarrow> True))"

record token_auth =
  ta_user_id :: str
  ta_permissions :: "permission list"

definition mint_secret :: "auth_env \<Rightarrow> str" where
  "mint_secret e = hex_lower (token_bytes e)"

definition sha256_hex :: "auth_env \<Rightarrow> str \<Rightarrow> str" where
  "sha256_hex e v = hex_lower (sha256 e v)"

record create_token_request =
  ct_name :: str
  ct_permissions :: "permission list"
  ct_expires_in_days :: "nat option"

definition valid_token_name :: "str \<Rightarrow> bool" where
  "valid_token_name n \<longleftrightarrow> n \<noteq> [] \<and> length n \<le> 64 \<and> \<not> list_ex is_control (chars n)"

text \<open>The permissions a request may have: all of the owner's when it names none.\<close>

definition scope_grant ::
  "(permission \<Rightarrow> str) \<Rightarrow> permission list \<Rightarrow> permission list \<Rightarrow> permission list api_result" where
  "scope_grant show_permission owned requested =
     (if requested = [] then Inr owned
      else case find (\<lambda>p. p \<notin> set owned) requested of
             Some p \<Rightarrow> Inl (forbidden (''cannot grant a permission you do not hold: '' @ show_permission p))
           | None \<Rightarrow> Inr requested)"

definition expiry_of ::
  "auth_env \<Rightarrow> (int \<Rightarrow> nat \<Rightarrow> int option) \<Rightarrow> nat option \<Rightarrow> str option api_result option" where
  "expiry_of e plus_days days =
     (case days of
        None \<Rightarrow> Some (Inr None)
      | Some d \<Rightarrow>
          if d = 0 then Some (Inl (validation ''expires_in_days must be >= 1''))
          else map_option (\<lambda>t. Inr (Some (rfc3339 e t))) (plus_days (now e) d))"

definition token_record ::
  "auth_env \<Rightarrow> str \<Rightarrow> str \<Rightarrow> str \<Rightarrow> permission list \<Rightarrow> str option \<Rightarrow> stored_api_token" where
  "token_record e name uid owner perms exp =
     \<lparr>tk_id = fresh_id e, tk_name = name, tk_prefix = TOKEN_PREFIX @ take 8 (mint_secret e),
      tk_sha256 = sha256_hex e (TOKEN_PREFIX @ mint_secret e), tk_user_id = uid, tk_owner = owner,
      tk_permissions = perms, tk_created_at = now_ts e, tk_expires_at = exp, tk_last_used_at = None\<rparr>"

definition create_token ::
  "auth_env \<Rightarrow> (permission \<Rightarrow> str) \<Rightarrow> (int \<Rightarrow> nat \<Rightarrow> int option) \<Rightarrow> str \<Rightarrow> str \<Rightarrow> permission list
     \<Rightarrow> create_token_request \<Rightarrow> stored_api_token jstore
     \<Rightarrow> (str \<times> api_token) api_result option \<times> stored_api_token jstore" where
  "create_token e show_permission plus_days uid owner owned req st =
     (let name = trim (ct_name req) in
      if \<not> valid_token_name name
      then (Some (Inl (validation ''token name must be 1..=64 characters with no control characters'')), st)
      else
        (case scope_grant show_permission owned (ct_permissions req) of
           Inl er \<Rightarrow> (Some (Inl er), st)
         | Inr perms \<Rightarrow>
             (case expiry_of e plus_days (ct_expires_in_days req) of
                None \<Rightarrow> (None, st)
              | Some (Inl er) \<Rightarrow> (Some (Inl er), st)
              | Some (Inr exp) \<Rightarrow>
                  (let r = token_record e name uid owner perms exp in
                   case Store.put (tk_id r) r st of
                     (Inl er, st) \<Rightarrow> (Some (Inl er), st)
                   | (Inr _, st) \<Rightarrow> (Some (Inr (TOKEN_PREFIX @ mint_secret e, view r)), st)))))"

definition list_for ::
  "str \<Rightarrow> stored_api_token jstore \<Rightarrow> api_token list api_result \<times> stored_api_token jstore" where
  "list_for uid st =
     bind_st (Store.list st) (\<lambda>ts st.
       (Inr (map view (sort_desc tk_created_at (filter (\<lambda>t. tk_user_id t = uid) ts))), st))"

definition delete_token ::
  "str \<Rightarrow> str \<Rightarrow> stored_api_token jstore \<Rightarrow> unit api_result \<times> stored_api_token jstore" where
  "delete_token uid i st =
     bind_st (Store.get i st) (\<lambda>x st.
       case x of
         None \<Rightarrow> (Inl (not_found ''no such API token''), st)
       | Some t \<Rightarrow>
           if tk_user_id t = uid then bind_st (Store.delete i st) (\<lambda>_ st. (Inr (), st))
           else (Inl (not_found ''no such API token''), st))"

definition HOUR_SECS :: int where
  "HOUR_SECS = 3600"

definition touch_last_used ::
  "auth_env \<Rightarrow> (str \<Rightarrow> int option) \<Rightarrow> stored_api_token \<Rightarrow> stored_api_token jstore \<Rightarrow> stored_api_token jstore" where
  "touch_last_used e parse_ts t st =
     (if (case tk_last_used_at t of
            None \<Rightarrow> False
          | Some ts \<Rightarrow> (case parse_ts ts of None \<Rightarrow> False | Some prev \<Rightarrow> now e - prev < HOUR_SECS))
      then st
      else snd (Store.put (tk_id t) (t\<lparr>tk_last_used_at := Some (rfc3339 e (now e))\<rparr>) st))"

definition token_authenticate ::
  "auth_env \<Rightarrow> (str \<Rightarrow> int option) \<Rightarrow> str \<Rightarrow> stored_api_token jstore
     \<Rightarrow> token_auth option \<times> stored_api_token jstore" where
  "token_authenticate e parse_ts token st =
     (if \<not> starts_with token TOKEN_PREFIX then (None, st)
      else
        (let hash = sha256_hex e token in
         case Store.list st of
           (Inl _, st) \<Rightarrow> (None, st)
         | (Inr ts, st) \<Rightarrow>
             (case find (\<lambda>t. tk_sha256 t = hash) ts of
                None \<Rightarrow> (None, st)
              | Some t \<Rightarrow>
                  if is_expired parse_ts (tk_expires_at t) (now e) then (None, st)
                  else (Some \<lparr>ta_user_id = tk_user_id t, ta_permissions = tk_permissions t\<rparr>,
                        touch_last_used e parse_ts t st))))"

subsection \<open>Invariant\<close>

interpretation token_js: keyed_store store_wf records Store.put Store.get Store.delete Store.list tk_id
  by unfold_locales

definition token_inv :: "stored_api_token jstore \<Rightarrow> bool" where
  "token_inv st \<longleftrightarrow> store_wf st \<and> (\<forall>i t. records st i = Some t \<longrightarrow> tk_id t = i)"

text \<open>What a token is, apart from when it was last used.\<close>

definition same_token :: "stored_api_token option \<Rightarrow> stored_api_token option \<Rightarrow> bool" where
  "same_token a b \<longleftrightarrow>
     map_option (\<lambda>t. t\<lparr>tk_last_used_at := None\<rparr>) a = map_option (\<lambda>t. t\<lparr>tk_last_used_at := None\<rparr>) b"

lemma same_token_refl [simp]: "same_token a a"
  by (simp add: same_token_def)

lemma same_token_trans: "same_token a b \<Longrightarrow> same_token b c \<Longrightarrow> same_token a c"
  by (simp add: same_token_def)

lemma same_token_Some:
  assumes "same_token (Some t) b"
  obtains u where "b = Some u" and "t\<lparr>tk_last_used_at := None\<rparr> = u\<lparr>tk_last_used_at := None\<rparr>"
  using assms by (cases b) (auto simp: same_token_def)

lemma same_token_fields:
  assumes "t\<lparr>tk_last_used_at := None\<rparr> = u\<lparr>tk_last_used_at := None\<rparr>"
  shows "tk_id t = tk_id u \<and> tk_user_id t = tk_user_id u \<and> tk_permissions t = tk_permissions u \<and>
    tk_sha256 t = tk_sha256 u \<and> tk_expires_at t = tk_expires_at u"
  using arg_cong [OF assms, of tk_id] arg_cong [OF assms, of tk_user_id] arg_cong [OF assms, of tk_permissions]
    arg_cong [OF assms, of tk_sha256] arg_cong [OF assms, of tk_expires_at] by simp

lemma token_inv_upd:
  assumes "token_inv st" and "store_wf st'" and "records st' = (records st)(i \<mapsto> u)" and "tk_id u = i"
  shows "token_inv st'"
proof -
  have "tk_id v = j" if "records st' j = Some v" for j v
    using that assms(1,4) unfolding assms(3) token_inv_def by (cases "j = i") auto
  with assms(2) show ?thesis unfolding token_inv_def by blast
qed

lemma touch_effect:
  assumes "token_inv st" and "records st (tk_id t) = Some t"
  shows "token_inv (touch_last_used e parse_ts t st)"
    and "same_token (records st i) (records (touch_last_used e parse_ts t st) i)"
proof -
  let ?t = "t\<lparr>tk_last_used_at := Some (rfc3339 e (now e))\<rparr>"
  have wf: "store_wf st" using assms(1) by (simp add: token_inv_def)
  obtain x st' where p: "Store.put (tk_id t) ?t st = (x, st')" by fastforce
  have put: "token_inv st' \<and> same_token (records st i) (records st' i)"
    using wf p
  proof (cases rule: js.put_cases)
    case ok
    have "token_inv st'" by (rule token_inv_upd [OF assms(1) ok(2,3)]) simp
    moreover have "same_token (records st i) (records st' i)"
      using assms(2) unfolding ok(3) by (simp add: same_token_def)
    ultimately show ?thesis ..
  qed (use assms in \<open>auto simp: token_inv_def\<close>)
  show "token_inv (touch_last_used e parse_ts t st)"
    using put p assms(1) unfolding touch_last_used_def by (simp split: option.split)
  show "same_token (records st i) (records (touch_last_used e parse_ts t st) i)"
    using put p unfolding touch_last_used_def by (simp split: option.split)
qed

lemma token_authenticate_effect:
  assumes "token_inv st" and "token_authenticate e parse_ts token st = (r, st')"
  shows "token_inv st'" and "same_token (records st i) (records st' i)"
    and "r = Some a \<Longrightarrow> starts_with token TOKEN_PREFIX \<and>
      (\<exists>t. records st (tk_id t) = Some t \<and> tk_sha256 t = sha256_hex e token \<and>
         \<not> is_expired parse_ts (tk_expires_at t) (now e) \<and>
         a = \<lparr>ta_user_id = tk_user_id t, ta_permissions = tk_permissions t\<rparr>)"
proof -
  have wf: "store_wf st" and key: "\<forall>i t. records st i = Some t \<longrightarrow> tk_id t = i"
    using assms(1) by (auto simp: token_inv_def)
  obtain x st1 where l: "Store.list st = (x, st1)" by fastforce
  have st1: "store_wf st1" "records st1 = records st" using js.list_cases [OF wf l] by metis+
  then have inv1: "token_inv st1" using key by (simp add: token_inv_def)
  consider (none) "r = None" "st' = st \<or> st' = st1"
    | (some) ts t where "x = Inr ts" "find (\<lambda>t. tk_sha256 t = sha256_hex e token) ts = Some t"
        "\<not> is_expired parse_ts (tk_expires_at t) (now e)" "starts_with token TOKEN_PREFIX"
        "r = Some \<lparr>ta_user_id = tk_user_id t, ta_permissions = tk_permissions t\<rparr>"
        "st' = touch_last_used e parse_ts t st1"
    using assms(2) l
    by (auto simp: token_authenticate_def Let_def split: if_splits sum.splits option.splits)
  then have "token_inv st' \<and> same_token (records st i) (records st' i) \<and> (\<forall>a. r = Some a \<longrightarrow>
      starts_with token TOKEN_PREFIX \<and>
      (\<exists>t. records st (tk_id t) = Some t \<and> tk_sha256 t = sha256_hex e token \<and>
         \<not> is_expired parse_ts (tk_expires_at t) (now e) \<and>
         a = \<lparr>ta_user_id = tk_user_id t, ta_permissions = tk_permissions t\<rparr>))"
  proof cases
    case none
    then show ?thesis using assms(1) inv1 st1 by auto
  next
    case some
    have "t \<in> set ts" and hash: "tk_sha256 t = sha256_hex e token" using some(2) by (auto simp: find_Some_iff)
    moreover have "set ts = ran (records st)" using js.list_ok [OF wf] l some(1) by blast
    ultimately obtain j where "records st j = Some t" by (auto simp: ran_def)
    with key have t: "records st (tk_id t) = Some t" by metis
    then have t1: "records st1 (tk_id t) = Some t" by (simp add: st1(2))
    show ?thesis
      using touch_effect(1) [OF inv1 t1, of e parse_ts] touch_effect(2) [OF inv1 t1, of i e parse_ts] t hash some(3-6) st1(2) by auto
  qed
  then show "token_inv st'" "same_token (records st i) (records st' i)"
    "r = Some a \<Longrightarrow> starts_with token TOKEN_PREFIX \<and>
      (\<exists>t. records st (tk_id t) = Some t \<and> tk_sha256 t = sha256_hex e token \<and>
         \<not> is_expired parse_ts (tk_expires_at t) (now e) \<and>
         a = \<lparr>ta_user_id = tk_user_id t, ta_permissions = tk_permissions t\<rparr>)" by auto
qed

lemma scope_grant_subset:
  assumes "scope_grant sp owned requested = Inr perms"
  shows "set perms \<subseteq> set owned \<and> (requested \<noteq> [] \<longrightarrow> perms = requested)"
  using assms by (auto simp: scope_grant_def find_None_iff split: if_splits option.splits)

lemma create_token_cases:
  assumes "token_inv st" and "create_token e sp plus_days uid owner owned req st = (Some (Inr (tok, v)), st1)"
  obtains perms exp where "scope_grant sp owned (ct_permissions req) = Inr perms"
    and "expiry_of e plus_days (ct_expires_in_days req) = Some (Inr exp)"
    and "tok = TOKEN_PREFIX @ mint_secret e"
    and "v = view (token_record e (trim (ct_name req)) uid owner perms exp)"
    and "token_inv st1"
    and "records st1 = (records st)(fresh_id e \<mapsto> token_record e (trim (ct_name req)) uid owner perms exp)"
proof -
  have wf: "store_wf st" using assms(1) by (simp add: token_inv_def)
  from assms(2) obtain perms where g: "scope_grant sp owned (ct_permissions req) = Inr perms"
    by (cases "scope_grant sp owned (ct_permissions req)") (auto simp: create_token_def Let_def split: if_splits)
  from assms(2) g obtain exp where x: "expiry_of e plus_days (ct_expires_in_days req) = Some (Inr exp)"
    by (auto simp: create_token_def Let_def split: if_splits option.splits sum.splits)
  let ?r = "token_record e (trim (ct_name req)) uid owner perms exp"
  have id: "tk_id ?r = fresh_id e" by (simp add: token_record_def)
  obtain y st2 where y: "Store.put (fresh_id e) ?r st = (y, st2)" by fastforce
  have p: "Store.put (fresh_id e) ?r st = (Inr (), st1)"
    and o: "tok = TOKEN_PREFIX @ mint_secret e" "v = view ?r"
    using assms(2) g x y by (auto simp: create_token_def Let_def id split: if_splits sum.splits)
  note r = js.put_ok [OF wf p]
  have "token_inv st1"
    by (rule token_inv_upd [OF assms(1), of _ "fresh_id e"]) (use r in \<open>auto simp: token_record_def\<close>)
  then show thesis using that [OF g x o] r by blast
qed

lemma expiry_exact:
  assumes "expiry_of e plus_days days = Some (Inr exp)" and "\<And>t. parse_ts (rfc3339 e t) = Some t"
  shows "is_expired parse_ts exp at_time \<longleftrightarrow>
    (\<exists>d t. days = Some d \<and> plus_days (now e) d = Some t \<and> t \<le> at_time)"
  using assms by (auto simp: expiry_of_def is_expired_def split: option.splits if_splits)

lemma token_authenticate_found:
  assumes "token_inv st" and "faults st = []" and "records st i = Some t"
    and "starts_with token TOKEN_PREFIX" and "tk_sha256 t = sha256_hex e token"
    and "\<And>j u. records st j = Some u \<Longrightarrow> tk_sha256 u = sha256_hex e token \<Longrightarrow> u = t"
  shows "fst (token_authenticate e parse_ts token st) =
    (if is_expired parse_ts (tk_expires_at t) (now e) then None
     else Some \<lparr>ta_user_id = tk_user_id t, ta_permissions = tk_permissions t\<rparr>)"
proof -
  have wf: "store_wf st" using assms(1) by (simp add: token_inv_def)
  obtain ts where l: "Store.list st = (Inr ts, st)" using list_no_faults [OF assms(2)] by blast
  have ts: "set ts = ran (records st)" using js.list_ok [OF wf l] by blast
  then have "t \<in> set ts" using assms(3) by (auto simp: ran_def)
  then have "find (\<lambda>t. tk_sha256 t = sha256_hex e token) ts \<noteq> None" using assms(5) by (auto simp: find_None_iff)
  then obtain u where u: "find (\<lambda>t. tk_sha256 t = sha256_hex e token) ts = Some u" by blast
  then have "u \<in> set ts" "tk_sha256 u = sha256_hex e token" by (auto simp: find_Some_iff)
  with ts assms(6) have "u = t" by (auto simp: ran_def)
  with u l assms(4) show ?thesis by (simp add: token_authenticate_def Let_def)
qed

subsection \<open>Properties\<close>

text \<open>
  A new token is worth exactly what was asked for and no more than its creator holds: its
  permissions are among the creator's, and the ones requested when any are; while the disk works and
  no other token has its hash, the returned secret authenticates as the creator with exactly those
  permissions until the requested number of days has passed, and never from then on.
\<close>

theorem token_scope_and_lifetime:
  assumes "token_inv st"
    and "create_token e sp plus_days uid owner owned req st = (Some (Inr (tok, v)), st1)"
    and "\<And>t. parse_ts (rfc3339 e t) = Some t"
    and "sha256 e' = sha256 e" and "faults st1 = []"
    and "\<And>j u. records st j = Some u \<Longrightarrow> j \<noteq> fresh_id e \<Longrightarrow> tk_sha256 u \<noteq> sha256_hex e tok"
  shows "set (at_permissions v) \<subseteq> set owned \<and>
    (ct_permissions req \<noteq> [] \<longrightarrow> at_permissions v = ct_permissions req) \<and>
    fst (token_authenticate e' parse_ts tok st1) =
      (if \<exists>d t. ct_expires_in_days req = Some d \<and> plus_days (now e) d = Some t \<and> t \<le> now e' then None
       else Some \<lparr>ta_user_id = uid, ta_permissions = at_permissions v\<rparr>)"
proof -
  obtain perms exp where c: "scope_grant sp owned (ct_permissions req) = Inr perms"
      "expiry_of e plus_days (ct_expires_in_days req) = Some (Inr exp)"
      "tok = TOKEN_PREFIX @ mint_secret e" "v = view (token_record e (trim (ct_name req)) uid owner perms exp)"
      "token_inv st1"
      "records st1 = (records st)(fresh_id e \<mapsto> token_record e (trim (ct_name req)) uid owner perms exp)"
    using create_token_cases [OF assms(1,2)] by metis
  let ?r = "token_record e (trim (ct_name req)) uid owner perms exp"
  have hash: "sha256_hex e' tok = sha256_hex e tok" by (simp add: sha256_hex_def assms(4))
  have "fst (token_authenticate e' parse_ts tok st1) =
      (if is_expired parse_ts (tk_expires_at ?r) (now e') then None
       else Some \<lparr>ta_user_id = tk_user_id ?r, ta_permissions = tk_permissions ?r\<rparr>)"
  proof (rule token_authenticate_found [OF c(5) assms(5)])
    show "records st1 (fresh_id e) = Some ?r" using c(6) by simp
    show "starts_with tok TOKEN_PREFIX" by (simp add: c(3) starts_with_def)
    show "tk_sha256 ?r = sha256_hex e' tok" unfolding hash by (simp add: c(3) token_record_def)
    show "u = ?r" if "records st1 j = Some u" "tk_sha256 u = sha256_hex e' tok" for j u
      using that assms(6) [of j u] unfolding c(6) hash by (auto split: if_splits)
  qed
  moreover have "is_expired parse_ts (tk_expires_at ?r) (now e') \<longleftrightarrow>
      (\<exists>d t. ct_expires_in_days req = Some d \<and> plus_days (now e) d = Some t \<and> t \<le> now e')"
    using expiry_exact [OF c(2) assms(3)] by (simp add: token_record_def)
  moreover have "at_permissions v = perms" "tk_permissions ?r = perms" "tk_user_id ?r = uid"
    by (simp_all add: c(4) view_def token_record_def)
  ultimately show ?thesis using scope_grant_subset [OF c(1)] by simp
qed

text \<open>
  Only the owner revokes a token, and revocation is final: a successful deletion was asked for by
  the owner of that token and afterwards no bearer string with its hash authenticates, unless another
  stored token has the same hash; a refused or failed deletion leaves every token as it was.
\<close>

theorem token_revocation:
  assumes "token_inv st" and "delete_token uid i st = (r, st')"
  shows "token_inv st' \<and>
    (r = Inr () \<longrightarrow> (\<exists>t. records st i = Some t \<and> tk_user_id t = uid \<and> records st' = (records st)(i := None) \<and>
       (\<forall>e parse_ts token. tk_sha256 t = sha256_hex e token \<and>
          (\<forall>j u. records st j = Some u \<and> j \<noteq> i \<longrightarrow> tk_sha256 u \<noteq> tk_sha256 t) \<longrightarrow>
          fst (token_authenticate e parse_ts token st') = None))) \<and>
    (r \<noteq> Inr () \<longrightarrow> records st' = records st)"
proof -
  have wf: "store_wf st" using assms(1) by (simp add: token_inv_def)
  obtain x st1 where g: "Store.get i st = (x, st1)" by fastforce
  have st1: "store_wf st1" "records st1 = records st" using js.get_cases [OF wf g] by metis+
  then have inv1: "token_inv st1" using assms(1) by (simp add: token_inv_def)
  obtain y st2 where d: "Store.delete i st1 = (y, st2)" by fastforce
  consider (stop) "st' = st1" "r \<noteq> Inr ()"
    | (go) t where "x = Inr (Some t)" "tk_user_id t = uid" "st' = st2" "r = (case y of Inl e \<Rightarrow> Inl e | Inr _ \<Rightarrow> Inr ())"
    using assms(2) g d
    by (auto simp: delete_token_def bind_st_def split: sum.splits option.splits if_splits)
  then show ?thesis
  proof cases
    case stop
    with inv1 st1 show ?thesis by simp
  next
    case go
    have t: "records st i = Some t" using js.get_ok [OF wf] g go(1) by metis
    from st1(1) d show ?thesis
    proof (cases rule: js.delete_cases)
      case (ok b)
      have rec: "records st' = (records st)(i := None)" using ok(3) go(3) st1(2) by simp
      have inv: "token_inv st'"
        using assms(1) ok(2) go(3) unfolding token_inv_def rec by (auto split: if_splits)
      have "fst (token_authenticate e parse_ts token st') = None"
        if "tk_sha256 t = sha256_hex e token"
          "\<forall>j u. records st j = Some u \<and> j \<noteq> i \<longrightarrow> tk_sha256 u \<noteq> tk_sha256 t" for e parse_ts token
      proof (cases "fst (token_authenticate e parse_ts token st')")
        case (Some a)
        then obtain st3 where a: "token_authenticate e parse_ts token st' = (Some a, st3)" by (metis prod.collapse)
        from token_authenticate_effect(3) [OF inv a refl] that show ?thesis
          unfolding rec by (auto split: if_splits)
      qed simp
      with inv rec t go ok(1) show ?thesis by auto
    next
      case (failed e)
      with go st1 inv1 show ?thesis by (auto simp: token_inv_def)
    qed
  qed
qed

subsection \<open>Witnesses\<close>

definition sample_clock :: "int \<Rightarrow> str" where
  "sample_clock t = (if t < 0 then replicate (nat (- t)) CHR ''-'' else replicate (nat t) CHR ''+'')"

definition sample_parse :: "str \<Rightarrow> int option" where
  "sample_parse s = Some (if starts_with s ''-'' then - int (length s) else int (length s))"

lemma sample_parse_clock: "sample_parse (sample_clock t) = Some t"
proof (cases "t < 0")
  case True
  then obtain n where "nat (- t) = Suc n" by (metis gr0_implies_Suc neg_0_less_iff_less zero_less_nat_eq)
  with True show ?thesis by (simp add: sample_parse_def sample_clock_def starts_with_def)
next
  case False
  then show ?thesis by (cases "nat t") (auto simp: sample_parse_def sample_clock_def starts_with_def)
qed

definition sample_token_env :: auth_env where
  "sample_token_env = \<lparr>now = 3, rfc3339 = sample_clock, fresh_id = ''k1'', token_bytes = ''ABCDEFGH'',
     code_bytes = [], fresh_secret = [], argon2_hash = (\<lambda>p. Inr p), argon2_verify = (\<lambda>p h. Match),
     sha256 = (\<lambda>x. x), hmac_sha1 = (\<lambda>_ _. []), b32_decode = Some, secret_file = None\<rparr>"

definition sample_tokens :: "stored_api_token jstore" where
  "sample_tokens = \<lparr>dir_display = ''/s'', dir_exists = True, files = [], faults = []\<rparr>"

definition sample_token_request :: create_token_request where
  "sample_token_request = \<lparr>ct_name = '' ci '', ct_permissions = [VmRead], ct_expires_in_days = Some 2\<rparr>"

lemma sample_tokens_inv: "token_inv sample_tokens"
  by (simp add: token_inv_def sample_tokens_def store_wf_def records_def)

theorem token_scope_and_lifetime_witness:
  "\<exists>tok v st1. create_token sample_token_env (\<lambda>_. []) (\<lambda>t d. Some (t + int d)) ''u1'' ''alice'' [VmRead, VmWrite]
       sample_token_request sample_tokens = (Some (Inr (tok, v)), st1) \<and>
     fst (token_authenticate sample_token_env sample_parse tok st1)
       = Some \<lparr>ta_user_id = ''u1'', ta_permissions = [VmRead]\<rparr>"
proof -
  let ?c = "create_token sample_token_env (\<lambda>_. []) (\<lambda>t d. Some (t + int d)) ''u1'' ''alice'' [VmRead, VmWrite]
       sample_token_request sample_tokens"
  have "map_option is_ok (fst ?c) = Some True" by code_simp
  then obtain z where z: "fst ?c = Some z" "is_ok z" by auto
  then obtain tok v st1 where c: "?c = (Some (Inr (tok, v)), st1)"
    by (cases z) (auto simp: is_ok_def prod_eq_iff)
  have "faults (snd ?c) = []" by code_simp
  then have f: "faults st1 = []" by (simp add: c)
  have p: "sample_parse (rfc3339 sample_token_env t) = Some t" for t
    by (simp add: sample_token_env_def sample_parse_clock)
  have n: "records sample_tokens j = None" for j by (simp add: sample_tokens_def records_def)
  have "now sample_token_env = 3" "ct_expires_in_days sample_token_request = Some 2"
      "ct_permissions sample_token_request = [VmRead]"
    by (simp_all add: sample_token_env_def sample_token_request_def)
  with c token_scope_and_lifetime [OF sample_tokens_inv c, of sample_parse, OF p refl f] n show ?thesis
    by simp
qed

theorem token_revocation_witness:
  "\<exists>st1 st2. delete_token ''u1'' ''k1'' st1 = (Inr (), st2) \<and> records st1 ''k1'' \<noteq> None \<and> records st2 ''k1'' = None"
proof -
  let ?st = "sample_tokens\<lparr>files := [(''k1.json'', Json (token_record sample_token_env ''ci'' ''u1'' ''alice'' [VmRead] None))]\<rparr>"
  have k: "i @ ''.json'' = ''k1.json'' \<longleftrightarrow> i = ''k1''" for i
    using record_names_distinct(1) [of i "''k1''"] by simp
  have inv: "token_inv ?st"
    by (auto simp: token_inv_def sample_tokens_def store_wf_def records_def k token_record_def
        sample_token_env_def split: if_splits)
  have "fst (delete_token ''u1'' ''k1'' ?st) = Inr ()" by code_simp
  then obtain st2 where d: "delete_token ''u1'' ''k1'' ?st = (Inr (), st2)" by (metis prod.collapse)
  from token_revocation [OF inv d] obtain t where "records ?st ''k1'' = Some t" "records st2 = (records ?st)(''k1'' := None)"
    by blast
  with d show ?thesis by (intro exI [of _ ?st] exI [of _ st2]) simp
qed

end
