(* ===== verification/Control_Plane.thy ===== *)
theory Control_Plane
  imports Auth_Invariant Acl Throttle Audit_Log Api_Token
begin

section \<open>The control plane's identity endpoints (src/src/auth/mod.rs, src/src/api)\<close>

text \<open>
  The request extractor and the handlers that read or change identities: login, logout, passwords and
  the second factor (api/auth.rs), accounts (api/users.rs), API tokens (api/tokens.rs), the access
  control list (api/acl.rs) and the audit view (api/audit.rs). \<open>app_state\<close> holds the services they
  share; what one request takes from outside is \<open>request_env\<close>. A handler runs as one step; the two
  throttle accesses of a login have their own instants. HTTP status codes of successes are left out.
\<close>

record app_state =
  auth_svc :: auth_service
  acl_svc :: acl_service
  token_svc :: "stored_api_token jstore"
  audit_svc :: "audit_event jstore"
  login_throttle :: throttle

record request_env =
  re_auth :: auth_env
  re_parse_ts :: "str \<Rightarrow> int option"
  re_plus_days :: "int \<Rightarrow> nat \<Rightarrow> int option"
  re_show_permission :: "permission \<Rightarrow> str"
  re_show_role :: "role \<Rightarrow> str"
  re_show_ip :: "ip_addr \<Rightarrow> str"
  re_audit_id :: str
  re_acl_id :: str
  re_instant :: nat
  re_instant_after :: nat

definition audit :: "request_env \<Rightarrow> new_audit_event \<Rightarrow> app_state \<Rightarrow> app_state" where
  "audit r ev s = s\<lparr>audit_svc := record_event (re_audit_id r) (now_ts (re_auth r)) ev (audit_svc s)\<rparr>"

definition by_caller :: "auth_user \<Rightarrow> str \<Rightarrow> new_audit_event" where
  "by_caller u action = default_event\<lparr>ne_actor_id := Some (user_id (cu_user (au_user u))),
     ne_actor := username (cu_user (au_user u)), ne_action := action, ne_outcome := Success\<rparr>"

subsection \<open>The request extractor\<close>

definition exempt_path :: "str \<Rightarrow> bool" where
  "exempt_path uri \<longleftrightarrow>
     ends_with uri ''/auth/me'' \<or> ends_with uri ''/auth/change-password'' \<or> ends_with uri ''/auth/logout''"

definition resolve_caller :: "request_env \<Rightarrow> str \<Rightarrow> app_state \<Rightarrow> current_user api_result \<times> app_state" where
  "resolve_caller r token s =
     (if starts_with token TOKEN_PREFIX then
        (case token_authenticate (re_auth r) (re_parse_ts r) token (token_svc s) of
           (None, st) \<Rightarrow> (Inl (unauthorized ''invalid or expired token''), s\<lparr>token_svc := st\<rparr>)
         | (Some a, st) \<Rightarrow>
             (let s = s\<lparr>token_svc := st\<rparr> in
              case user_by_id (ta_user_id a) (auth_svc s) of
                None \<Rightarrow> (Inl (unauthorized ''token owner no longer exists''), s)
              | Some u \<Rightarrow>
                  (Inr \<lparr>cu_user = u, cu_permissions = ta_permissions a, cu_must_change_password = False,
                        cu_two_factor_enabled = two_factor_enabled (ta_user_id a) (auth_svc s),
                        cu_grants = []\<rparr>, s)))
      else
        (case authenticate (re_auth r) token (auth_svc s) of
           (Inl er, a) \<Rightarrow> (Inl er, s\<lparr>auth_svc := a\<rparr>)
         | (Inr cu, a) \<Rightarrow>
             (let grants = grants_for (roles (cu_user cu)) (entries_for_subject (acl_svc s) (user_id (cu_user cu)))
              in (Inr (cu\<lparr>cu_permissions := effective_permissions_at grants ''/'', cu_grants := grants\<rparr>),
                  s\<lparr>auth_svc := a\<rparr>))))"

definition from_request_parts ::
  "request_env \<Rightarrow> str option \<Rightarrow> str \<Rightarrow> app_state \<Rightarrow> auth_user api_result \<times> app_state" where
  "from_request_parts r header uri s =
     (case Option.bind header (\<lambda>v. strip_prefix v ''Bearer '') of
        None \<Rightarrow> (Inl (unauthorized ''missing bearer token''), s)
      | Some token \<Rightarrow>
          bind_st (resolve_caller r token s) (\<lambda>cu s.
            if cu_must_change_password cu \<and> \<not> exempt_path uri
            then (Inl (forbidden ''change the initial password before using the control plane''), s)
            else (Inr \<lparr>au_user = cu, au_token = token, au_path = resource_path_for uri\<rparr>, s)))"

subsection \<open>Login (src/src/api/auth.rs)\<close>

definition MAX_ENFORCED_SLEEP :: nat where
  "MAX_ENFORCED_SLEEP = secs 10"

text \<open>\<open>Ipv6Addr::to_ipv4_mapped\<close>: the addresses \<open>::ffff:a.b.c.d\<close>.\<close>

definition normalize_ip :: "ip_addr \<Rightarrow> ip_addr" where
  "normalize_ip ip =
     (case ip of V6 w \<Rightarrow> if drop_bit 32 w = 0xffff then V4 (ucast w) else V6 w | V4 _ \<Rightarrow> ip)"

definition too_many_attempts :: "nat \<Rightarrow> app_error" where
  "too_many_attempts retry_after =
     too_many_requests (''too many failed login attempts; try again in ''
       @ show_nat (max (retry_after div 1000000000) 1) @ '' seconds'')"

definition api_login ::
  "request_env \<Rightarrow> ip_addr \<Rightarrow> login_request \<Rightarrow> app_state \<Rightarrow> login_response api_result \<times> app_state" where
  "api_login r peer req s =
     (let ip = normalize_ip peer;
          penalty = penalty_for (login_throttle s) (re_instant r) ip (lr_username req)
      in if MAX_ENFORCED_SLEEP < penalty then
           (let (retry_after, t) = record_failure (login_throttle s) (re_instant r) ip (lr_username req)
            in (Inl (too_many_attempts (max retry_after penalty)), s\<lparr>login_throttle := t\<rparr>))
         else
           (case login (re_auth r) req (auth_svc s) of
              (Inr resp, a) \<Rightarrow>
                (Inr resp,
                 audit r (default_event\<lparr>ne_actor_id := Some (user_id (resp_user resp)),
                            ne_actor := username (resp_user resp), ne_action := ''auth.login'',
                            ne_outcome := Success, ne_source_ip := Some (re_show_ip r ip)\<rparr>)
                   (s\<lparr>auth_svc := a,
                      login_throttle := record_success (login_throttle s) ip (lr_username req)\<rparr>))
            | (Inl er, a) \<Rightarrow>
                if is_two_factor_required er then (Inl er, s\<lparr>auth_svc := a\<rparr>)
                else
                  (let (retry_after, t) =
                         record_failure (login_throttle s) (re_instant_after r) ip (lr_username req);
                       s = audit r (default_event\<lparr>ne_actor := lr_username req, ne_action := ''auth.login'',
                              ne_outcome := Failure, ne_message := Some ''invalid credentials'',
                              ne_source_ip := Some (re_show_ip r ip)\<rparr>)
                             (s\<lparr>auth_svc := a, login_throttle := t\<rparr>)
                   in if MAX_ENFORCED_SLEEP < retry_after then (Inl (too_many_attempts retry_after), s)
                      else (Inl er, s))))"

subsection \<open>The caller's own account\<close>

definition on_auth :: "(auth_service \<Rightarrow> 'a \<times> auth_service) \<Rightarrow> app_state \<Rightarrow> 'a \<times> app_state" where
  "on_auth f s = (let (x, a) = f (auth_svc s) in (x, s\<lparr>auth_svc := a\<rparr>))"

definition on_acl :: "(acl_service \<Rightarrow> 'a \<times> acl_service) \<Rightarrow> app_state \<Rightarrow> 'a \<times> app_state" where
  "on_acl f s = (let (x, a) = f (acl_svc s) in (x, s\<lparr>acl_svc := a\<rparr>))"

definition on_tokens ::
  "(stored_api_token jstore \<Rightarrow> 'a \<times> stored_api_token jstore) \<Rightarrow> app_state \<Rightarrow> 'a \<times> app_state" where
  "on_tokens f s = (let (x, st) = f (token_svc s) in (x, s\<lparr>token_svc := st\<rparr>))"

definition caller_id :: "auth_user \<Rightarrow> str" where
  "caller_id u = user_id (cu_user (au_user u))"

definition api_logout :: "request_env \<Rightarrow> auth_user \<Rightarrow> app_state \<Rightarrow> unit api_result \<times> app_state" where
  "api_logout r u s =
     (Inr (), audit r (by_caller u ''auth.logout'') (s\<lparr>auth_svc := logout (au_token u) (auth_svc s)\<rparr>))"

definition api_change_password ::
  "request_env \<Rightarrow> auth_user \<Rightarrow> str \<Rightarrow> str \<Rightarrow> app_state \<Rightarrow> unit api_result \<times> app_state" where
  "api_change_password r u old_pw new_pw s =
     bind_st (on_auth (change_password (re_auth r) (caller_id u) (au_token u) old_pw new_pw) s) (\<lambda>_ s.
       (Inr (), audit r (by_caller u ''auth.change_password'') s))"

definition api_two_factor_setup ::
  "request_env \<Rightarrow> auth_user \<Rightarrow> app_state \<Rightarrow> (str \<times> str) api_result \<times> app_state" where
  "api_two_factor_setup r u s = on_auth (two_factor_setup (re_auth r) (caller_id u)) s"

definition api_two_factor_confirm ::
  "request_env \<Rightarrow> auth_user \<Rightarrow> str \<Rightarrow> app_state \<Rightarrow> str list api_result \<times> app_state" where
  "api_two_factor_confirm r u code s =
     bind_st (on_auth (two_factor_confirm (re_auth r) (caller_id u) code) s) (\<lambda>codes s.
       (Inr codes, audit r (by_caller u ''auth.2fa.enable'') s))"

definition api_two_factor_disable ::
  "request_env \<Rightarrow> auth_user \<Rightarrow> str \<Rightarrow> app_state \<Rightarrow> unit api_result \<times> app_state" where
  "api_two_factor_disable r u code s =
     bind_st (on_auth (two_factor_disable (re_auth r) (caller_id u) code) s) (\<lambda>_ s.
       (Inr (), audit r (by_caller u ''auth.2fa.disable'') s))"

subsection \<open>Accounts (src/src/api/users.rs)\<close>

definition guarded ::
  "request_env \<Rightarrow> auth_user \<Rightarrow> permission \<Rightarrow> (app_state \<Rightarrow> 'a api_result \<times> app_state) \<Rightarrow> app_state
     \<Rightarrow> 'a api_result \<times> app_state" where
  "guarded r u p f s = (case require u (re_show_permission r) p of Inl er \<Rightarrow> (Inl er, s) | Inr _ \<Rightarrow> f s)"

definition api_list_users :: "request_env \<Rightarrow> auth_user \<Rightarrow> app_state \<Rightarrow> user list api_result \<times> app_state" where
  "api_list_users r u s = guarded r u UserAdmin (\<lambda>s. (Inr (list_users (auth_svc s)), s)) s"

definition api_create_user ::
  "request_env \<Rightarrow> auth_user \<Rightarrow> create_user_request \<Rightarrow> app_state \<Rightarrow> user api_result \<times> app_state" where
  "api_create_user r u req s = guarded r u UserAdmin (\<lambda>s.
     bind_st (on_auth (create_user (re_auth r) req) s) (\<lambda>created s.
       (Inr created,
        audit r ((by_caller u ''user.create'')\<lparr>ne_resource_type := Some ''user'',
           ne_resource_id := Some (user_id created),
           ne_message := Some (''created user '' @ debug_str (username created))\<rparr>) s))) s"

definition api_update_user ::
  "request_env \<Rightarrow> auth_user \<Rightarrow> str \<Rightarrow> update_user_request \<Rightarrow> app_state \<Rightarrow> user api_result \<times> app_state" where
  "api_update_user r u i req s = guarded r u UserAdmin (\<lambda>s.
     bind_st (on_auth (update_user (re_auth r) i req) s) (\<lambda>updated s.
       (Inr updated,
        audit r ((by_caller u ''user.update'')\<lparr>ne_resource_type := Some ''user'',
           ne_resource_id := Some (user_id updated)\<rparr>) s))) s"

definition api_delete_user ::
  "request_env \<Rightarrow> auth_user \<Rightarrow> str \<Rightarrow> app_state \<Rightarrow> unit api_result \<times> app_state" where
  "api_delete_user r u i s = guarded r u UserAdmin (\<lambda>s.
     bind_st (on_auth (delete_user i) s) (\<lambda>_ s.
     bind_st (on_acl (remove_subject i) s) (\<lambda>_ s.
       (Inr (),
        audit r ((by_caller u ''user.delete'')\<lparr>ne_resource_type := Some ''user'', ne_resource_id := Some i\<rparr>) s)))) s"

subsection \<open>API tokens, the access control list and the audit view\<close>

definition api_list_tokens :: "auth_user \<Rightarrow> app_state \<Rightarrow> api_token list api_result \<times> app_state" where
  "api_list_tokens u s = on_tokens (list_for (caller_id u)) s"

definition api_create_token ::
  "request_env \<Rightarrow> auth_user \<Rightarrow> create_token_request \<Rightarrow> app_state
     \<Rightarrow> (str \<times> api_token) api_result option \<times> app_state" where
  "api_create_token r u req s =
     (case on_tokens (create_token (re_auth r) (re_show_permission r) (re_plus_days r) (caller_id u)
             (username (cu_user (au_user u))) (cu_permissions (au_user u)) req) s of
        (None, s) \<Rightarrow> (None, s)
      | (Some (Inl er), s) \<Rightarrow> (Some (Inl er), s)
      | (Some (Inr (token, t)), s) \<Rightarrow>
          (Some (Inr (token, t)),
           audit r ((by_caller u ''api_token.create'')\<lparr>ne_resource_type := Some ''api_token'',
              ne_resource_id := Some (at_id t),
              ne_message := Some (''created token '' @ debug_str (at_name t))\<rparr>) s))"

definition api_delete_token ::
  "request_env \<Rightarrow> auth_user \<Rightarrow> str \<Rightarrow> app_state \<Rightarrow> unit api_result \<times> app_state" where
  "api_delete_token r u i s =
     bind_st (on_tokens (delete_token (caller_id u) i) s) (\<lambda>_ s.
       (Inr (),
        audit r ((by_caller u ''api_token.revoke'')\<lparr>ne_resource_type := Some ''api_token'',
          ne_resource_id := Some i\<rparr>) s))"

record create_acl_request =
  ca_path :: str
  ca_subject :: str
  ca_role :: role
  ca_propagate :: "bool option"

definition api_list_acl :: "request_env \<Rightarrow> auth_user \<Rightarrow> app_state \<Rightarrow> acl_entry list api_result \<times> app_state" where
  "api_list_acl r u s = guarded r u UserAdmin (\<lambda>s. (Inr (acl_list (acl_svc s)), s)) s"

definition api_create_acl ::
  "request_env \<Rightarrow> auth_user \<Rightarrow> create_acl_request \<Rightarrow> app_state \<Rightarrow> acl_entry api_result \<times> app_state" where
  "api_create_acl r u req s = guarded r u UserAdmin (\<lambda>s.
     case user_by_id (ca_subject req) (auth_svc s) of
       None \<Rightarrow> (Inl (validation ''subject user does not exist''), s)
     | Some subject \<Rightarrow>
         bind_st (on_acl (acl_create (re_acl_id r) (now_ts (re_auth r)) (ca_path req) (user_id subject)
                    (username subject) (ca_role req) (case ca_propagate req of None \<Rightarrow> True | Some b \<Rightarrow> b)) s)
           (\<lambda>entry s.
             (Inr entry,
              audit r ((by_caller u ''acl.grant'')\<lparr>ne_resource_type := Some ''acl'',
                 ne_resource_id := Some (entry_id entry),
                 ne_message := Some (re_show_role r (entry_role entry) @ '' to '' @ username subject
                    @ '' on '' @ entry_path entry)\<rparr>) s))) s"

definition api_delete_acl ::
  "request_env \<Rightarrow> auth_user \<Rightarrow> str \<Rightarrow> app_state \<Rightarrow> unit api_result \<times> app_state" where
  "api_delete_acl r u i s = guarded r u UserAdmin (\<lambda>s.
     bind_st (on_acl (acl_delete i) s) (\<lambda>_ s.
       (Inr (),
        audit r ((by_caller u ''acl.revoke'')\<lparr>ne_resource_type := Some ''acl'', ne_resource_id := Some i\<rparr>) s))) s"

definition DEFAULT_LIMIT :: nat where
  "DEFAULT_LIMIT = 200"

definition MAX_LIMIT :: nat where
  "MAX_LIMIT = 1000"

definition api_list_audit ::
  "request_env \<Rightarrow> auth_user \<Rightarrow> nat option \<Rightarrow> app_state \<Rightarrow> audit_event list api_result \<times> app_state" where
  "api_list_audit r u limit s = guarded r u AuditRead (\<lambda>s.
     (let n = min MAX_LIMIT (max 1 (case limit of None \<Rightarrow> DEFAULT_LIMIT | Some n \<Rightarrow> n));
          (x, st) = audit_list n (audit_svc s)
      in (x, s\<lparr>audit_svc := st\<rparr>))) s"

end
