(* ===== verification/Control_Plane_Safety.thy ===== *)
theory Control_Plane_Safety
  imports Control_Plane
begin

section \<open>Safety of the identity endpoints\<close>

text \<open>
  Requests as data, with the route each comes in by, and what a sequence of them can do to the
  accounts. The properties span the services: who may change credentials and grants, what a deleted
  account can still do, what a forced password change leaves open, how a locked login stays locked, and
  that an API token outlives a demotion of its owner.
\<close>

subsection \<open>Requests\<close>

datatype api_request =
    ReqLogin ip_addr login_request
  | ReqMe
  | ReqLogout
  | ReqChangePassword str str
  | ReqTwoFactorSetup
  | ReqTwoFactorConfirm str
  | ReqTwoFactorDisable str
  | ReqListUsers
  | ReqCreateUser create_user_request
  | ReqUpdateUser str update_user_request
  | ReqDeleteUser str
  | ReqListTokens
  | ReqCreateToken create_token_request
  | ReqDeleteToken str
  | ReqListAcl
  | ReqCreateAcl create_acl_request
  | ReqDeleteAcl str
  | ReqListAudit "nat option"

text \<open>The route of a request; the router hands a handler the path below \<open>/api/v1\<close> or the whole path.\<close>

fun api_route :: "api_request \<Rightarrow> str" where
  "api_route (ReqLogin _ _) = ''/auth/login''"
| "api_route ReqMe = ''/auth/me''"
| "api_route ReqLogout = ''/auth/logout''"
| "api_route (ReqChangePassword _ _) = ''/auth/change-password''"
| "api_route ReqTwoFactorSetup = ''/auth/2fa/setup''"
| "api_route (ReqTwoFactorConfirm _) = ''/auth/2fa/confirm''"
| "api_route (ReqTwoFactorDisable _) = ''/auth/2fa/disable''"
| "api_route ReqListUsers = ''/users''"
| "api_route (ReqCreateUser _) = ''/users''"
| "api_route (ReqUpdateUser i _) = ''/users/'' @ i"
| "api_route (ReqDeleteUser i) = ''/users/'' @ i"
| "api_route ReqListTokens = ''/tokens''"
| "api_route (ReqCreateToken _) = ''/tokens''"
| "api_route (ReqDeleteToken i) = ''/tokens/'' @ i"
| "api_route ReqListAcl = ''/acl''"
| "api_route (ReqCreateAcl _) = ''/acl''"
| "api_route (ReqDeleteAcl i) = ''/acl/'' @ i"
| "api_route (ReqListAudit _) = ''/audit''"

fun api_handle :: "request_env \<Rightarrow> auth_user \<Rightarrow> api_request \<Rightarrow> app_state \<Rightarrow> app_state" where
  "api_handle r u (ReqLogin peer req) s = snd (api_login r peer req s)"
| "api_handle r u ReqMe s = s"
| "api_handle r u ReqLogout s = snd (api_logout r u s)"
| "api_handle r u (ReqChangePassword old_pw new_pw) s = snd (api_change_password r u old_pw new_pw s)"
| "api_handle r u ReqTwoFactorSetup s = snd (api_two_factor_setup r u s)"
| "api_handle r u (ReqTwoFactorConfirm code) s = snd (api_two_factor_confirm r u code s)"
| "api_handle r u (ReqTwoFactorDisable code) s = snd (api_two_factor_disable r u code s)"
| "api_handle r u ReqListUsers s = snd (api_list_users r u s)"
| "api_handle r u (ReqCreateUser req) s = snd (api_create_user r u req s)"
| "api_handle r u (ReqUpdateUser i req) s = snd (api_update_user r u i req s)"
| "api_handle r u (ReqDeleteUser i) s = snd (api_delete_user r u i s)"
| "api_handle r u ReqListTokens s = snd (api_list_tokens u s)"
| "api_handle r u (ReqCreateToken req) s = snd (api_create_token r u req s)"
| "api_handle r u (ReqDeleteToken i) s = snd (api_delete_token r u i s)"
| "api_handle r u ReqListAcl s = snd (api_list_acl r u s)"
| "api_handle r u (ReqCreateAcl req) s = snd (api_create_acl r u req s)"
| "api_handle r u (ReqDeleteAcl i) s = snd (api_delete_acl r u i s)"
| "api_handle r u (ReqListAudit n) s = snd (api_list_audit r u n s)"

definition serve :: "request_env \<Rightarrow> str option \<Rightarrow> api_request \<Rightarrow> app_state \<Rightarrow> app_state" where
  "serve r header req s =
     (case req of
        ReqLogin peer lr \<Rightarrow> snd (api_login r peer lr s)
      | _ \<Rightarrow> (case from_request_parts r header (api_route req) s of
                (Inl _, s) \<Rightarrow> s
              | (Inr u, s) \<Rightarrow> api_handle r u req s))"

subsection \<open>Credentials\<close>

text \<open>What an account may do and what opens it.\<close>

definition creds :: "auth_service \<Rightarrow> str \<Rightarrow> (role list \<times> str) option" where
  "creds a i = map_option (\<lambda>u. (roles (su_user u), password_hash u)) (map_of (users a) i)"

definition keeps_creds :: "auth_service \<Rightarrow> 'a \<times> auth_service \<Rightarrow> bool" where
  "keeps_creds a m \<longleftrightarrow> creds (snd m) = creds a"

lemma creds_tokens [simp]: "creds (a\<lparr>tokens := t\<rparr>) = creds a"
  and creds_store [simp]: "creds (a\<lparr>user_store := st\<rparr>) = creds a"
  by (simp_all add: creds_def fun_eq_iff)

lemma keeps_creds_refl [simp]: "keeps_creds a (x, a)"
  by (simp add: keeps_creds_def)

lemma creds_save:
  assumes "save_user i u' a = (x, a')"
  shows "creds a' = creds a \<or> creds a' = (creds a)(i \<mapsto> (roles (su_user u'), password_hash u'))"
  using assms
  by (cases "Store.put i u' (user_store a)")
    (auto simp: save_user_def creds_def fun_eq_iff update_conv' split: sum.splits)

lemma save_keeps_creds:
  assumes "map_of (users a) i = Some u" and "roles (su_user u') = roles (su_user u)"
    and "password_hash u' = password_hash u"
  shows "keeps_creds a (save_user i u' a)"
proof -
  obtain x a' where s: "save_user i u' a = (x, a')" by fastforce
  have "(creds a)(i \<mapsto> (roles (su_user u'), password_hash u')) = creds a"
    using assms by (auto simp: creds_def fun_eq_iff)
  with creds_save [OF s] s show ?thesis by (auto simp: keeps_creds_def)
qed

lemma keeps_creds_bind:
  assumes "keeps_creds a m" and "\<And>x a1. keeps_creds a1 (f x a1)"
  shows "keeps_creds a (bind_st m f)"
proof -
  obtain x a1 where m: "m = (x, a1)" by fastforce
  with assms(1) have "creds a1 = creds a" by (simp add: keeps_creds_def)
  with assms(2) m show ?thesis by (cases x) (auto simp: bind_st_def keeps_creds_def)
qed

lemma keeps_creds_case:
  assumes "keeps_creds a m"
  shows "keeps_creds a (case m of (Inl e, s) \<Rightarrow> (f e s, s) | (Inr x, s) \<Rightarrow> (g x s, s))"
  using assms by (cases m; cases "fst m") (auto simp: keeps_creds_def)

lemma verify_second_factor_creds: "keeps_creds a (verify_second_factor e i secret code a)"
  unfolding verify_second_factor_def Let_def
  by (auto intro!: save_keeps_creds split: option.splits)

lemma two_factor_creds:
  "keeps_creds a (two_factor_setup e i a)" "keeps_creds a (two_factor_confirm e i code a)"
  "keeps_creds a (two_factor_disable e i code a)"
  unfolding two_factor_setup_def two_factor_confirm_def two_factor_disable_def Let_def
  by (auto intro!: keeps_creds_case save_keeps_creds keeps_creds_bind verify_second_factor_creds
      split: option.splits)

lemma mint_session_creds: "keeps_creds a (mint_session e i a)"
  by (auto simp: mint_session_def keeps_creds_def creds_def Let_def fun_eq_iff update_conv' split: option.splits)

lemma login_creds: "keeps_creds a (login e req a)"
  unfolding login_def second_factor_gate_def
  by (auto intro!: keeps_creds_bind mint_session_creds verify_second_factor_creds split: option.splits sum.splits)

lemma authenticate_creds: "keeps_creds a (authenticate e t a)"
  by (auto simp: authenticate_def keeps_creds_def logout_def split: option.splits)

lemma change_password_creds:
  assumes "change_password e i t old_pw new_pw a = (x, a')" and "j \<noteq> i"
  shows "creds a' j = creds a j"
proof -
  have save: "creds a1 j = creds a j" if "save_user i u' a = (y, a1)" for u' y a1
    using creds_save [OF that] assms(2) by auto
  from assms(1) show ?thesis
    by (auto simp: change_password_def save split: if_splits option.splits sum.splits prod.splits)
qed

subsection \<open>The extractor\<close>

definition holds_at :: "auth_user \<Rightarrow> permission \<Rightarrow> str \<Rightarrow> bool" where
  "holds_at u p path \<longleftrightarrow>
     (if cu_grants (au_user u) = [] then p \<in> set (cu_permissions (au_user u))
      else p \<in> set (effective_permissions_at (cu_grants (au_user u)) path))"

lemma require_ok: "require u sp p = Inr () \<longleftrightarrow> holds_at u p (au_path u)"
  by (simp add: require_def require_at_def holds_at_def)

lemma resolve_caller_frame:
  assumes "resolve_caller r token s = (x, s')"
  shows "creds (auth_svc s') = creds (auth_svc s) \<and> acl_svc s' = acl_svc s \<and> audit_svc s' = audit_svc s \<and>
    login_throttle s' = login_throttle s"
proof (cases "starts_with token TOKEN_PREFIX")
  case True
  with assms show ?thesis
    by (auto simp: resolve_caller_def Let_def split: prod.splits option.splits)
next
  case False
  obtain y a where a: "authenticate (re_auth r) token (auth_svc s) = (y, a)" by fastforce
  then have "creds a = creds (auth_svc s)" using authenticate_creds by (metis keeps_creds_def snd_conv)
  with False assms a show ?thesis by (auto simp: resolve_caller_def Let_def split: sum.splits)
qed

lemma from_request_parts_frame:
  assumes "from_request_parts r header uri s = (x, s')"
  shows "creds (auth_svc s') = creds (auth_svc s) \<and> acl_svc s' = acl_svc s \<and> audit_svc s' = audit_svc s \<and>
    login_throttle s' = login_throttle s"
  using assms resolve_caller_frame
  by (fastforce simp: from_request_parts_def bind_st_def split: option.splits prod.splits sum.splits if_splits)

lemma from_request_parts_caller:
  assumes "from_request_parts r header uri s = (Inr u, s')"
  obtains token where "resolve_caller r token s = (Inr (au_user u), s')" and "au_token u = token"
    and "header = Some (''Bearer '' @ token)"
    and "au_path u = resource_path_for uri" and "cu_must_change_password (au_user u) \<longrightarrow> exempt_path uri"
  using assms that
  by (auto simp: from_request_parts_def bind_st_def strip_prefix_Some Option.bind_eq_Some_conv
      split: option.splits prod.splits sum.splits if_splits)

lemma resource_unscoped: "kind \<notin> set scoped_kinds \<Longrightarrow> resource_of_segments (kind # xs) = ''/''"
  by (cases xs) simp_all

lemma route_is_root: "resource_path_for (api_route req) = ''/''"
  by (cases req) (simp_all add: resource_path_for_def uri_segments_def strip_prefix_def starts_with_def
      resource_unscoped scoped_kinds_def)

subsection \<open>What the handlers change\<close>

lemma audit_frame [simp]:
  "auth_svc (audit r ev s) = auth_svc s" "acl_svc (audit r ev s) = acl_svc s"
  "token_svc (audit r ev s) = token_svc s" "login_throttle (audit r ev s) = login_throttle s"
  by (simp_all add: audit_def)

text \<open>A state change that leaves credentials and grants alone.\<close>

definition same_access :: "app_state \<Rightarrow> app_state \<Rightarrow> bool" where
  "same_access s s' \<longleftrightarrow> creds (auth_svc s') = creds (auth_svc s) \<and> acl_cache (acl_svc s') = acl_cache (acl_svc s)"

lemma same_access_refl [simp]: "same_access s s"
  by (simp add: same_access_def)

lemma same_access_simps [simp]:
  "same_access s (audit r ev s1) = same_access s s1" "same_access s (s1\<lparr>token_svc := st\<rparr>) = same_access s s1"
  "same_access s (s1\<lparr>login_throttle := t\<rparr>) = same_access s s1" "same_access s (s1\<lparr>audit_svc := au\<rparr>) = same_access s s1"
  by (simp_all add: same_access_def)

lemma on_auth_same_access: "keeps_creds (auth_svc s) (f (auth_svc s)) \<Longrightarrow> same_access s (snd (on_auth f s))"
  by (auto simp: on_auth_def same_access_def keeps_creds_def split: prod.splits)

lemma same_access_bind_audit:
  "same_access s (snd m) \<Longrightarrow> same_access s (snd (bind_st m (\<lambda>x s. (g x, audit r (ev x) s))))"
  by (cases m; cases "fst m") (auto simp: bind_st_def)

lemma api_login_same_access: "same_access s (snd (api_login r peer req s))"
proof -
  obtain x a where l: "login (re_auth r) req (auth_svc s) = (x, a)" by fastforce
  have "creds a = creds (auth_svc s)" using login_creds l by (metis keeps_creds_def snd_conv)
  then have a: "same_access s (s\<lparr>auth_svc := a\<rparr>)" "same_access s (s\<lparr>auth_svc := a, login_throttle := t\<rparr>)" for t
    by (simp_all add: same_access_def)
  show ?thesis
    by (cases x) (auto simp: api_login_def Let_def l a split: prod.splits)
qed

lemma own_handlers_same_access:
  "same_access s (snd (api_logout r u s))" "same_access s (snd (api_two_factor_setup r u s))"
  "same_access s (snd (api_two_factor_confirm r u code s))" "same_access s (snd (api_two_factor_disable r u code s))"
  unfolding api_two_factor_setup_def api_two_factor_confirm_def api_two_factor_disable_def
  by (auto simp: api_logout_def logout_def same_access_def [of _ "_\<lparr>auth_svc := _\<rparr>"]
      intro!: same_access_bind_audit on_auth_same_access two_factor_creds)

lemma token_handlers_same_access:
  "same_access s (snd (api_list_tokens u s))" "same_access s (snd (api_create_token r u req s))"
  "same_access s (snd (api_delete_token r u i s))"
  by (auto simp: api_list_tokens_def api_create_token_def api_delete_token_def on_tokens_def bind_st_def
      split: prod.splits option.splits sum.splits)

lemma read_handlers_same_access:
  "same_access s (snd (api_list_users r u s))" "same_access s (snd (api_list_acl r u s))"
  "same_access s (snd (api_list_audit r u n s))"
  by (auto simp: api_list_users_def api_list_acl_def api_list_audit_def guarded_def Let_def
      split: sum.splits prod.splits)

lemma change_password_access:
  "acl_svc (snd (api_change_password r u old_pw new_pw s)) = acl_svc s"
  "j \<noteq> caller_id u \<Longrightarrow> creds (auth_svc (snd (api_change_password r u old_pw new_pw s))) j = creds (auth_svc s) j"
proof -
  obtain x a where c: "change_password (re_auth r) (caller_id u) (au_token u) old_pw new_pw (auth_svc s) = (x, a)"
    by fastforce
  show "acl_svc (snd (api_change_password r u old_pw new_pw s)) = acl_svc s"
    by (cases x) (simp_all add: api_change_password_def on_auth_def c bind_st_def)
  show "creds (auth_svc (snd (api_change_password r u old_pw new_pw s))) j = creds (auth_svc s) j" if "j \<noteq> caller_id u"
    using change_password_creds [OF c that] by (cases x) (simp_all add: api_change_password_def on_auth_def c bind_st_def)
qed

lemma guarded_same: "\<not> holds_at u p (au_path u) \<Longrightarrow> snd (guarded r u p f s) = s"
  using require_ok [of u "re_show_permission r" p] by (auto simp: guarded_def split: sum.splits)

lemma admin_handlers_gated:
  assumes "\<not> holds_at u UserAdmin (au_path u)"
  shows "snd (api_create_user r u cr s) = s" "snd (api_update_user r u i ur s) = s"
    "snd (api_delete_user r u i s) = s" "snd (api_create_acl r u ca s) = s" "snd (api_delete_acl r u i s) = s"
  using guarded_same [OF assms]
  by (simp_all add: api_create_user_def api_update_user_def api_delete_user_def api_create_acl_def api_delete_acl_def)

lemma api_handle_access:
  assumes "\<not> holds_at u UserAdmin (au_path u)"
  shows "same_access s (api_handle r u req s) \<or>
    (\<exists>old_pw new_pw. req = ReqChangePassword old_pw new_pw)"
  using admin_handlers_gated [OF assms]
  by (cases req) (simp_all add: api_login_same_access own_handlers_same_access token_handlers_same_access
      read_handlers_same_access)

subsection \<open>Properties\<close>

text \<open>
  C3. Credentials and grants change only by authority: whenever a request changes the roles or the
  password of an account, or creates or deletes one, its bearer token resolved to a caller who holds
  \<open>UserAdmin\<close> at the node root, or who changed the own password; whenever it changes the access control
  list, to a caller who holds \<open>UserAdmin\<close> at the node root. A login, with whatever password, changes neither.
\<close>

theorem credential_changes_authorised:
  assumes "serve r header req s = s'"
  shows "(creds (auth_svc s') i \<noteq> creds (auth_svc s) i \<longrightarrow>
            (\<exists>u s1. from_request_parts r header (api_route req) s = (Inr u, s1) \<and>
               (holds_at u UserAdmin ''/'' \<or> caller_id u = i \<and> (\<exists>old_pw new_pw. req = ReqChangePassword old_pw new_pw)))) \<and>
         (acl_cache (acl_svc s') \<noteq> acl_cache (acl_svc s) \<longrightarrow>
            (\<exists>u s1. from_request_parts r header (api_route req) s = (Inr u, s1) \<and> holds_at u UserAdmin ''/''))"
proof (cases "\<exists>peer lr. req = ReqLogin peer lr")
  case True
  then have "same_access s s'" using assms api_login_same_access by (auto simp: serve_def)
  then show ?thesis by (simp add: same_access_def)
next
  case False
  obtain x s1 where x: "from_request_parts r header (api_route req) s = (x, s1)" by fastforce
  note fr = from_request_parts_frame [OF x]
  have s': "s' = (case x of Inl _ \<Rightarrow> s1 | Inr u \<Rightarrow> api_handle r u req s1)"
    using assms x False by (cases req) (auto simp: serve_def split: sum.splits)
  show ?thesis
  proof (cases x)
    case (Inl e)
    with s' fr show ?thesis by simp
  next
    case (Inr u)
    have path: "au_path u = ''/''"
      using x Inr by (auto elim: from_request_parts_caller simp: route_is_root)
    show ?thesis
    proof (cases "holds_at u UserAdmin ''/''")
      case True
      with x Inr show ?thesis by blast
    next
      case False
      from api_handle_access [of u s1 r req] False path consider
        (same) "same_access s1 s'" | (pw) old_pw new_pw where "req = ReqChangePassword old_pw new_pw"
        using s' Inr by auto
      then show ?thesis
      proof cases
        case same
        with fr show ?thesis by (simp add: same_access_def)
      next
        case pw
        with s' Inr have "s' = snd (api_change_password r u old_pw new_pw s1)" by simp
        with change_password_access(1) [of r u old_pw new_pw s1] change_password_access(2) [of i u r old_pw new_pw s1]
          fr x Inr pw show ?thesis by metis
      qed
    qed
  qed
qed


subsection \<open>A deleted account\<close>

definition serve_all :: "(request_env \<times> str option \<times> api_request) list \<Rightarrow> app_state \<Rightarrow> app_state" where
  "serve_all reqs s = fold (\<lambda>(r, header, req). serve r header req) reqs s"

text \<open>Every request acts on the accounts through calls of the service.\<close>

definition via_calls :: "auth_env \<Rightarrow> auth_service \<Rightarrow> auth_service \<Rightarrow> bool" where
  "via_calls e a a' \<longleftrightarrow> (\<exists>cs. a' = fold (auth_run e) cs a)"

lemma via_calls_refl [simp]: "via_calls e a a"
  unfolding via_calls_def by (rule exI [of _ "[]"]) simp

lemma via_calls_one: "via_calls e a (auth_run e c a)"
  unfolding via_calls_def by (rule exI [of _ "[c]"]) simp

lemma via_calls_trans: "via_calls e a b \<Longrightarrow> via_calls e b c \<Longrightarrow> via_calls e a c"
  unfolding via_calls_def by (metis fold_append comp_apply)

lemmas via_call = via_calls_one [of e a "CallLogin req" for e a req, simplified]
  via_calls_one [of e a "CallLogout t" for e a t, simplified]
  via_calls_one [of e a "CallAuthenticate t" for e a t, simplified]
  via_calls_one [of e a "CallCreateUser cr" for e a cr, simplified]
  via_calls_one [of e a "CallUpdateUser i ur" for e a i ur, simplified]
  via_calls_one [of e a "CallDeleteUser i" for e a i, simplified]
  via_calls_one [of e a "CallChangePassword i t old_pw new_pw" for e a i t old_pw new_pw, simplified]
  via_calls_one [of e a "CallSetup i" for e a i, simplified]
  via_calls_one [of e a "CallConfirm i code" for e a i code, simplified]
  via_calls_one [of e a "CallDisable i code" for e a i code, simplified]

lemma auth_svc_on [simp]:
  "auth_svc (snd (on_auth f s)) = snd (f (auth_svc s))" "auth_svc (snd (on_acl g s)) = auth_svc s"
  "auth_svc (snd (on_tokens h s)) = auth_svc s"
  by (simp_all add: on_auth_def on_acl_def on_tokens_def split: prod.splits)

lemma auth_svc_bind: "(\<And>x s1. auth_svc (snd (f x s1)) = auth_svc s1) \<Longrightarrow> auth_svc (snd (bind_st m f)) = auth_svc (snd m)"
  by (cases m; cases "fst m") (auto simp: bind_st_def)

lemma auth_svc_guarded: "auth_svc (snd (guarded r u p f s)) = auth_svc s \<or> auth_svc (snd (guarded r u p f s)) = auth_svc (snd (f s))"
  by (auto simp: guarded_def split: sum.splits)

lemma via_guarded: "via_calls e (auth_svc s) (auth_svc (snd (f s))) \<Longrightarrow> via_calls e (auth_svc s) (auth_svc (snd (guarded r u p f s)))"
  using auth_svc_guarded [of r u p f s] by auto

lemma api_login_calls: "via_calls (re_auth r) (auth_svc s) (auth_svc (snd (api_login r peer req s)))"
proof -
  obtain x a where l: "login (re_auth r) req (auth_svc s) = (x, a)" by fastforce
  then have "a = snd (login (re_auth r) req (auth_svc s))" by simp
  then have "via_calls (re_auth r) (auth_svc s) a" using via_call(1) by simp
  then show ?thesis by (cases x) (auto simp: api_login_def Let_def l split: prod.splits)
qed

lemma api_handle_calls: "via_calls (re_auth r) (auth_svc s) (auth_svc (api_handle r u req s))"
proof (cases req)
  case (ReqCreateAcl ca)
  then show ?thesis
    by (auto simp: api_create_acl_def auth_svc_bind intro!: via_guarded split: option.splits)
next
  case (ReqCreateToken ct)
  then show ?thesis
    by (auto simp: api_create_token_def on_tokens_def split: prod.splits option.splits sum.splits)
next
  case (ReqListAudit n)
  then show ?thesis by (auto simp: api_list_audit_def Let_def intro!: via_guarded split: prod.splits)
qed (auto simp: api_login_calls api_logout_def api_change_password_def api_two_factor_setup_def
    api_two_factor_confirm_def api_two_factor_disable_def api_list_users_def api_create_user_def
    api_update_user_def api_delete_user_def api_list_tokens_def api_delete_token_def api_list_acl_def
    api_delete_acl_def auth_svc_bind via_call intro!: via_guarded)

lemma resolve_caller_calls:
  "resolve_caller r token s = (x, s1) \<Longrightarrow> via_calls (re_auth r) (auth_svc s) (auth_svc s1)"
  using via_call(3) [of "re_auth r" "auth_svc s" token]
  by (auto simp: resolve_caller_def Let_def split: if_splits prod.splits option.splits sum.splits)

lemma from_request_parts_calls:
  "from_request_parts r header uri s = (x, s1) \<Longrightarrow> via_calls (re_auth r) (auth_svc s) (auth_svc s1)"
  using resolve_caller_calls
  by (fastforce simp: from_request_parts_def bind_st_def split: option.splits prod.splits sum.splits if_splits)

lemma serve_calls: "via_calls (re_auth r) (auth_svc s) (auth_svc (serve r header req s))"
proof -
  obtain x s1 where x: "from_request_parts r header (api_route req) s = (x, s1)" by fastforce
  note step = from_request_parts_calls [OF x]
  have "via_calls (re_auth r) (auth_svc s) (auth_svc (case x of Inl _ \<Rightarrow> s1 | Inr u \<Rightarrow> api_handle r u req s1))"
    using step via_calls_trans [OF step api_handle_calls] by (simp split: sum.splits)
  then show ?thesis
    using x api_login_calls by (cases req) (auto simp: serve_def split: sum.splits)
qed

lemma fold_auth_run_inv: "auth_inv a \<Longrightarrow> auth_inv (fold (auth_run e) cs a)"
  by (induction cs arbitrary: a) (simp_all add: auth_run_inv)

lemma serve_inv: "auth_inv (auth_svc s) \<Longrightarrow> auth_inv (auth_svc (serve r header req s))"
  using serve_calls [of r s header req] fold_auth_run_inv by (auto simp: via_calls_def)

text \<open>An identifier that no account has is not taken by any call but by a creation that mints it.\<close>

lemma save_user_other: "save_user j u a = (x, a') \<Longrightarrow> i \<noteq> j \<Longrightarrow> creds a' i = creds a i"
  using creds_save [of j u a x a'] by auto

lemma keeps_creds_eq: "keeps_creds a m \<Longrightarrow> m = (x, a') \<Longrightarrow> creds a' = creds a"
  by (simp add: keeps_creds_def)

lemma creds_None: "creds a i = None \<longleftrightarrow> map_of (users a) i = None"
  by (simp add: creds_def)

lemma create_user_absent:
  "fresh_id e \<noteq> i \<Longrightarrow> creds a i = None \<Longrightarrow> creds (snd (create_user e cr a)) i = None"
  by (auto simp: create_user_def Let_def dest!: save_user_other [where i = i] split: sum.splits prod.splits)

lemma revoke_creds [simp]: "creds (revoke_user j a) = creds a"
  by (simp add: revoke_user_def)

lemma update_user_absent:
  assumes "creds a i = None"
  shows "creds (snd (update_user e j ur a)) i = None"
proof (cases "j = i")
  case True
  with assms show ?thesis by (simp add: update_user_def creds_None)
next
  case False
  then have "creds a' i = None" if "save_user j u a = (x, a')" for u x a'
    using save_user_other [OF that, of i] assms by simp
  with assms show ?thesis by (auto simp: update_user_def split: option.splits sum.splits prod.splits)
qed

lemma delete_user_absent: "creds a i = None \<Longrightarrow> creds (snd (delete_user j a)) i = None"
  by (auto simp: delete_user_def creds_def delete_conv' revoke_user_def split: option.splits sum.splits prod.splits)

lemma change_password_absent:
  "creds a i = None \<Longrightarrow> creds (snd (change_password e j t old_pw new_pw a)) i = None"
proof (cases "j = i")
  case True
  then show "creds a i = None \<Longrightarrow> ?thesis" by (simp add: change_password_def creds_None)
next
  case False
  then show "creds a i = None \<Longrightarrow> ?thesis"
    using change_password_creds [of e j t old_pw new_pw a _ _ i] by (metis prod.collapse)
qed

lemma auth_run_absent:
  assumes "fresh_id e \<noteq> i" and "creds a i = None"
  shows "creds (auth_run e c a) i = None"
  using assms login_creds authenticate_creds two_factor_creds
  by (cases c) (simp_all add: create_user_absent update_user_absent delete_user_absent change_password_absent
      logout_def keeps_creds_def)

lemma serve_absent:
  assumes "fresh_id (re_auth r) \<noteq> i" and "creds (auth_svc s) i = None"
  shows "creds (auth_svc (serve r header req s)) i = None"
proof -
  have "creds (fold (auth_run (re_auth r)) cs a) i = None" if "creds a i = None" for cs a
    using that by (induction cs arbitrary: a) (simp_all add: auth_run_absent assms(1))
  with serve_calls [of r s header req] assms(2) show ?thesis by (auto simp: via_calls_def)
qed

lemma token_caller_account:
  assumes "resolve_caller r token s = (Inr cu, s1)"
  shows "\<exists>j v. map_of (users (auth_svc s)) j = Some v \<and> su_user v = cu_user cu"
proof (cases "starts_with token TOKEN_PREFIX")
  case True
  with assms show ?thesis
    by (force simp: resolve_caller_def Let_def user_by_id_def split: prod.splits option.splits)
next
  case False
  with assms obtain cu' a where a: "authenticate (re_auth r) token (auth_svc s) = (Inr cu', a)" "cu_user cu = cu_user cu'"
    by (auto simp: resolve_caller_def Let_def split: prod.splits sum.splits)
  then have "fst (authenticate (re_auth r) token (auth_svc s)) = Inr cu'" by simp
  from authenticate_Inr [OF this] a(2) show ?thesis by metis
qed

lemma caller_has_account:
  assumes "auth_inv (auth_svc s)" and "from_request_parts r header uri s = (Inr u, s1)"
  shows "creds (auth_svc s) (caller_id u) \<noteq> None"
proof -
  from assms(2) obtain token where "resolve_caller r token s = (Inr (au_user u), s1)"
    by (rule from_request_parts_caller)
  then obtain j v where v: "map_of (users (auth_svc s)) j = Some v" "su_user v = cu_user (au_user u)"
    using token_caller_account by blast
  with assms(1) have "user_id (su_user v) = j" unfolding auth_inv_def keyed_def by blast
  with v show ?thesis by (auto simp: caller_id_def creds_def)
qed

text \<open>Nor does a grant appear for it.\<close>

definition grant_free :: "str \<Rightarrow> acl_service \<Rightarrow> bool" where
  "grant_free i a \<longleftrightarrow> (\<forall>(_, e) \<in> set (acl_cache a). entry_subject e \<noteq> i)"

lemma grant_free_entries: "grant_free i a \<longleftrightarrow> entries_for_subject a i = []"
  by (auto simp: grant_free_def entries_for_subject_def filter_empty_conv)

lemma grant_free_subset: "grant_free i a \<Longrightarrow> set (acl_cache a') \<subseteq> set (acl_cache a) \<Longrightarrow> grant_free i a'"
  unfolding grant_free_def by blast

lemma acl_create_free:
  assumes "grant_free i a" and "subj \<noteq> i" and "acl_create new_id ts p subj nm rl pr a = (x, a')"
  shows "grant_free i a'"
proof -
  have "acl_cache a' = acl_cache a \<or>
      (\<exists>e. acl_cache a' = AList.update new_id e (acl_cache a) \<and> entry_subject e = subj)"
    using assms(3) by (auto simp: acl_create_def Let_def split: sum.splits option.splits prod.splits)
  with assms(1,2) set_update_subset [of new_id _ "acl_cache a"] show ?thesis
    unfolding grant_free_def by fastforce
qed

lemma acl_delete_free: "grant_free i a \<Longrightarrow> grant_free i (snd (acl_delete j a))"
  by (erule grant_free_subset)
    (auto simp: acl_delete_def dest: subsetD [OF set_delete_subset] split: sum.splits prod.splits)

lemma remove_subject_free: "grant_free i a \<Longrightarrow> grant_free i (snd (remove_subject j a))"
  by (erule grant_free_subset)
    (auto simp: remove_subject_def Let_def dest: subsetD [OF foldl_delete_subset] split: sum.splits prod.splits)

lemma acl_svc_on [simp]:
  "acl_svc (snd (on_auth f s)) = acl_svc s" "acl_svc (snd (on_acl g s)) = snd (g (acl_svc s))"
  "acl_svc (snd (on_tokens h s)) = acl_svc s"
  by (simp_all add: on_auth_def on_acl_def on_tokens_def split: prod.splits)

lemma acl_svc_bind: "(\<And>x s1. acl_svc (snd (f x s1)) = acl_svc s1) \<Longrightarrow> acl_svc (snd (bind_st m f)) = acl_svc (snd m)"
  by (cases m; cases "fst m") (auto simp: bind_st_def)

lemma free_bind:
  "grant_free i (acl_svc (snd m)) \<Longrightarrow> (\<And>x s1. grant_free i (acl_svc s1) \<Longrightarrow> grant_free i (acl_svc (snd (f x s1)))) \<Longrightarrow>
   grant_free i (acl_svc (snd (bind_st m f)))"
  by (cases m; cases "fst m") (auto simp: bind_st_def)

lemma free_guarded:
  "grant_free i (acl_svc s) \<Longrightarrow> grant_free i (acl_svc (snd (f s))) \<Longrightarrow> grant_free i (acl_svc (snd (guarded r u p f s)))"
  by (simp add: guarded_def split: sum.splits)

lemma api_login_acl [simp]: "acl_svc (snd (api_login r peer req s)) = acl_svc s"
  by (auto simp: api_login_def Let_def split: prod.splits sum.splits)

lemma api_create_acl_free:
  assumes "auth_inv (auth_svc s)" and "creds (auth_svc s) i = None" and "grant_free i (acl_svc s)"
  shows "grant_free i (acl_svc (snd (api_create_acl r u ca s)))"
proof (cases "user_by_id (ca_subject ca) (auth_svc s)")
  case None
  then show ?thesis by (simp add: api_create_acl_def free_guarded assms(3))
next
  case (Some v)
  then have "user_id v \<noteq> i"
    using assms(1,2) by (auto simp: user_by_id_def auth_inv_def keyed_def creds_def)
  with assms(3) have "grant_free i (snd (acl_create new_id ts p (user_id v) nm rl pr (acl_svc s)))" for new_id ts p nm rl pr
    using acl_create_free by (metis prod.collapse)
  with Some assms(3) show ?thesis by (simp add: api_create_acl_def free_guarded acl_svc_bind)
qed

lemma api_handle_free:
  assumes "auth_inv (auth_svc s)" and "creds (auth_svc s) i = None" and "grant_free i (acl_svc s)"
  shows "grant_free i (acl_svc (api_handle r u req s))"
proof (cases req)
  case (ReqCreateAcl ca)
  with api_create_acl_free [OF assms] show ?thesis by simp
next
  case (ReqDeleteUser j)
  with assms(3) show ?thesis
    by (auto simp: api_delete_user_def intro!: free_guarded free_bind remove_subject_free)
next
  case (ReqCreateToken ct)
  with assms(3) show ?thesis
    by (auto simp: api_create_token_def on_tokens_def split: prod.splits option.splits sum.splits)
next
  case (ReqListAudit n)
  with assms(3) show ?thesis by (auto simp: api_list_audit_def Let_def intro!: free_guarded split: prod.splits)
qed (use assms(3) in \<open>auto simp: api_logout_def api_change_password_def api_two_factor_setup_def
    api_two_factor_confirm_def api_two_factor_disable_def api_list_users_def api_create_user_def
    api_update_user_def api_list_tokens_def api_delete_token_def api_list_acl_def
    api_delete_acl_def acl_svc_bind acl_delete_free intro!: free_guarded\<close>)

text \<open>What holds of an account that is gone.\<close>

definition gone :: "str \<Rightarrow> app_state \<Rightarrow> bool" where
  "gone i s \<longleftrightarrow> auth_inv (auth_svc s) \<and> creds (auth_svc s) i = None \<and> grant_free i (acl_svc s)"

lemma serve_gone:
  assumes "gone i s" and "fresh_id (re_auth r) \<noteq> i"
  shows "gone i (serve r header req s)"
proof -
  obtain x s1 where x: "from_request_parts r header (api_route req) s = (x, s1)" by fastforce
  have s1: "auth_inv (auth_svc s1)" "creds (auth_svc s1) i = None" "grant_free i (acl_svc s1)"
    using from_request_parts_frame [OF x] from_request_parts_calls [OF x] fold_auth_run_inv assms(1)
    by (auto simp: gone_def via_calls_def)
  have "grant_free i (acl_svc (serve r header req s))"
    using x s1 api_handle_free [OF s1, of r _ req] assms(1)
    by (cases req) (auto simp: serve_def gone_def split: sum.splits)
  with serve_inv serve_absent assms show ?thesis by (simp add: gone_def)
qed

lemma serve_all_gone:
  "gone i s \<Longrightarrow> \<forall>(r, _) \<in> set reqs. fresh_id (re_auth r) \<noteq> i \<Longrightarrow> gone i (serve_all reqs s)"
  unfolding serve_all_def by (induction reqs arbitrary: s) (auto simp: serve_gone)

lemma api_delete_user_gone:
  assumes "auth_inv (auth_svc s)" and "acl_inv (acl_svc s)" and "api_delete_user r u i s = (Inr (), s')"
  shows "gone i s'"
proof -
  obtain a where d: "delete_user i (auth_svc s) = (Inr (), a)" and c: "remove_subject i (acl_svc s) = (Inr (), acl_svc s')"
    and a: "auth_svc s' = a"
    using assms(3)
    by (auto simp: api_delete_user_def guarded_def on_auth_def on_acl_def bind_st_def split: sum.splits prod.splits)
  have "creds a i = None"
    using d by (auto simp: delete_user_def creds_def revoke_user_def delete_conv' split: option.splits if_splits sum.splits prod.splits)
  with a delete_user_inv [OF assms(1) d] no_entries_left [OF assms(2) c] show ?thesis
    by (simp add: gone_def grant_free_entries)
qed

text \<open>
  C16. Deleting an account is final: after a successful deletion, whatever requests are served, with
  whatever tokens (sessions and API tokens alike), none is attributed to that account, and no grant of the
  access control list names it, as long as its identifier, a random UUID, is not minted again.
\<close>

theorem deleted_account_locked_out:
  assumes "auth_inv (auth_svc s)" and "acl_inv (acl_svc s)"
    and "api_delete_user r u i s = (Inr (), s1)"
    and "\<forall>(r, _) \<in> set reqs. fresh_id (re_auth r) \<noteq> i"
    and "from_request_parts r2 header uri (serve_all reqs s1) = (Inr u2, s2)"
  shows "caller_id u2 \<noteq> i \<and> entries_for_subject (acl_svc (serve_all reqs s1)) i = []"
proof -
  have g: "gone i (serve_all reqs s1)"
    using serve_all_gone [OF api_delete_user_gone [OF assms(1-3)] assms(4)] .
  then have "caller_id u2 \<noteq> i" using caller_has_account [OF _ assms(5)] by (auto simp: gone_def)
  with g show ?thesis by (simp add: gone_def grant_free_entries)
qed


subsection \<open>An API token and its owner\<close>

lemma token_caller:
  assumes "starts_with token TOKEN_PREFIX"
  shows "resolve_caller r token s = (Inr cu, s1) \<longleftrightarrow>
    (\<exists>a st v. token_authenticate (re_auth r) (re_parse_ts r) token (token_svc s) = (Some a, st) \<and>
       map_of (users (auth_svc s)) (ta_user_id a) = Some v \<and> s1 = s\<lparr>token_svc := st\<rparr> \<and>
       cu = \<lparr>cu_user = su_user v, cu_permissions = ta_permissions a, cu_must_change_password = False,
             cu_two_factor_enabled = tf_enabled (two_factor v), cu_grants = []\<rparr>)"
  using assms by (auto simp: resolve_caller_def Let_def user_by_id_def two_factor_enabled_def split: prod.splits option.splits)

lemma bearer_token: "strip_prefix (''Bearer '' @ token) ''Bearer '' = Some token"
  by (simp add: strip_prefix_Some)

text \<open>
  An API token outlives a demotion of its owner: when an administrator takes roles away from an
  account, an API token of that account keeps every permission it was created with; only the deletion of the
  account, the token itself or its expiry ends it.
\<close>

theorem token_outlives_demotion:
  assumes "auth_inv (auth_svc s)" and "starts_with token TOKEN_PREFIX"
    and "from_request_parts r (Some (''Bearer '' @ token)) uri s = (Inr u, s1)"
    and "update_user e (caller_id u) req (auth_svc s) = (Inr v, a)"
  shows "\<exists>u' s2. from_request_parts r (Some (''Bearer '' @ token)) uri (s\<lparr>auth_svc := a\<rparr>) = (Inr u', s2) \<and>
           caller_id u' = caller_id u \<and> cu_permissions (au_user u') = cu_permissions (au_user u) \<and>
           cu_grants (au_user u') = [] \<and> roles (cu_user (au_user u')) = roles v"
proof -
  from assms(3) have "resolve_caller r token s = (Inr (au_user u), s1)"
    by (auto elim!: from_request_parts_caller)
  with token_caller [OF assms(2)] obtain ta st w where
      ta: "token_authenticate (re_auth r) (re_parse_ts r) token (token_svc s) = (Some ta, st)"
    and w: "map_of (users (auth_svc s)) (ta_user_id ta) = Some w"
    and u: "cu_user (au_user u) = su_user w" "cu_permissions (au_user u) = ta_permissions ta"
    by fastforce
  have i: "caller_id u = ta_user_id ta" using assms(1) w u by (auto simp: caller_id_def auth_inv_def keyed_def)
  from assms(4) w i obtain w' where w': "map_of (users a) (ta_user_id ta) = Some w'" "su_user w' = v"
    by (auto simp: update_user_def save_user_def revoke_user_def update_conv' split: sum.splits prod.splits if_splits)
  have v: "user_id v = ta_user_id ta"
    using update_user_inv [OF assms(1,4)] w' by (auto simp: auth_inv_def keyed_def)
  let ?cu = "\<lparr>cu_user = su_user w', cu_permissions = ta_permissions ta, cu_must_change_password = False,
             cu_two_factor_enabled = tf_enabled (two_factor w'), cu_grants = []\<rparr>"
  have "resolve_caller r token (s\<lparr>auth_svc := a\<rparr>) = (Inr ?cu, s\<lparr>auth_svc := a, token_svc := st\<rparr>)"
    using token_caller [OF assms(2), of r "s\<lparr>auth_svc := a\<rparr>"] ta w' by simp
  then have "from_request_parts r (Some (''Bearer '' @ token)) uri (s\<lparr>auth_svc := a\<rparr>) =
      (Inr \<lparr>au_user = ?cu, au_token = token, au_path = resource_path_for uri\<rparr>, s\<lparr>auth_svc := a, token_svc := st\<rparr>)"
    by (simp add: from_request_parts_def bearer_token bind_st_def del: append_Cons)
  with u i v w' show ?thesis by (simp add: caller_id_def)
qed

subsection \<open>A locked login\<close>

definition locked :: "throttle \<Rightarrow> nat \<Rightarrow> str \<Rightarrow> bool" where
  "locked t at_time account \<longleftrightarrow> (\<exists>b. map_of (per_account t) account = Some b \<and>
     at_time - last_failure b \<le> QUIET_WINDOW \<and> 5 \<le> unat (failures b))"

lemma required_delay_long: "MAX_ENFORCED_SLEEP < required_delay n \<longleftrightarrow> 5 \<le> unat n"
proof
  show "MAX_ENFORCED_SLEEP < required_delay n" if "5 \<le> unat n"
  proof -
    have "(2 :: nat) ^ 4 \<le> 2 ^ min (unat n - 1) 6" using that by (intro power_increasing) auto
    then show ?thesis by (simp add: MAX_ENFORCED_SLEEP_def required_delay_def secs_def MAX_DELAY_def)
  qed
  show "5 \<le> unat n" if long: "MAX_ENFORCED_SLEEP < required_delay n"
  proof (rule ccontr)
    assume "\<not> 5 \<le> unat n"
    then have "(2 :: nat) ^ min (unat n - 1) 6 \<le> 2 ^ 3" by (intro power_increasing) auto
    with long show False by (simp add: MAX_ENFORCED_SLEEP_def required_delay_def secs_def)
  qed
qed

lemma locked_iff: "locked t at_time (normalize_username name) \<longleftrightarrow>
    MAX_ENFORCED_SLEEP < map_delay at_time (per_account t) (normalize_username name)"
  using required_delay_long
  by (auto simp: locked_def map_delay_def current_delay_def MAX_ENFORCED_SLEEP_def secs_def split: option.splits)

lemma failure_bumps:
  assumes "map_of (per_account t) (normalize_username name) = Some b"
    and "at_time - last_failure b \<le> QUIET_WINDOW" and "5 \<le> unat (failures b)"
  shows "\<exists>b'. map_of (per_account (snd (record_failure t at_time ip name))) (normalize_username name) = Some b' \<and>
    5 \<le> unat (failures b') \<and> last_failure b' = at_time"
proof -
  have "evict at_time (normalize_username name) (per_account t) = per_account t" using assms by (simp add: evict_def)
  moreover have "5 \<le> unat (saturating_inc (failures b))" using assms(3) by (simp add: saturating_inc_unat)
  ultimately show ?thesis
    using assms(1,2)
    by (auto simp: record_failure_def count_failure_def bucket_record_failure_def Let_def update_conv'
        split: prod.splits)
qed

text \<open>Login requests one after the other, with their answers.\<close>

fun login_run :: "(request_env \<times> ip_addr \<times> login_request) list \<Rightarrow> app_state
    \<Rightarrow> login_response api_result list \<times> app_state" where
  "login_run [] s = ([], s)"
| "login_run ((r, peer, req) # rest) s =
     (let (x, s) = api_login r peer req s; (xs, s) = login_run rest s in (x # xs, s))"

text \<open>Each attempt comes at most a quiet window after the one before.\<close>

fun persistent :: "nat \<Rightarrow> (request_env \<times> ip_addr \<times> login_request) list \<Rightarrow> bool" where
  "persistent at_time [] \<longleftrightarrow> True"
| "persistent at_time ((r, _, _) # rest) \<longleftrightarrow> re_instant r - at_time \<le> QUIET_WINDOW \<and> persistent (re_instant r) rest"

lemma locked_login:
  assumes "locked (login_throttle s) (re_instant r) (normalize_username (lr_username req))"
  obtains d where "api_login r peer req s = (Inl (too_many_attempts d),
      s\<lparr>login_throttle := snd (record_failure (login_throttle s) (re_instant r) (normalize_ip peer) (lr_username req))\<rparr>)"
proof -
  have "MAX_ENFORCED_SLEEP < penalty_for (login_throttle s) (re_instant r) (normalize_ip peer) (lr_username req)"
    using assms locked_iff by (fastforce simp: penalty_for_def)
  then show ?thesis
    by (cases "record_failure (login_throttle s) (re_instant r) (normalize_ip peer) (lr_username req)")
      (auto simp: api_login_def Let_def intro!: that)
qed

text \<open>
  A locked account stays locked as long as anybody keeps trying: once an account has five
  consecutive failures, every login request for it that comes within fifteen minutes of the one before, from
  any address and with whatever credentials, the right ones included, is answered 429 without a look at the
  credentials, counts as a further failure, and changes no account. Waiting the at most sixty seconds that
  the answer asks for does not help.
\<close>

theorem locked_login_stays_locked:
  assumes "\<forall>(r, peer, req) \<in> set attempts. normalize_username (lr_username req) = normalize_username name"
    and "\<exists>b. map_of (per_account (login_throttle s)) (normalize_username name) = Some b \<and> 5 \<le> unat (failures b) \<and>
           persistent (last_failure b) attempts"
  shows "(\<forall>x \<in> set (fst (login_run attempts s)). \<exists>d. x = Inl (too_many_attempts d)) \<and>
         auth_svc (snd (login_run attempts s)) = auth_svc s"
  using assms
proof (induction attempts arbitrary: s)
  case (Cons a attempts)
  obtain r peer req where a: "a = (r, peer, req)" by (cases a)
  have name: "normalize_username (lr_username req) = normalize_username name" using Cons.prems(1) a by simp
  from Cons.prems(2) a obtain b where b: "map_of (per_account (login_throttle s)) (normalize_username name) = Some b"
      "5 \<le> unat (failures b)" "re_instant r - last_failure b \<le> QUIET_WINDOW" and p: "persistent (re_instant r) attempts" by auto
  then have l: "locked (login_throttle s) (re_instant r) (normalize_username (lr_username req))"
    by (auto simp: locked_def name)
  then obtain d where d: "api_login r peer req s = (Inl (too_many_attempts d),
      s\<lparr>login_throttle := snd (record_failure (login_throttle s) (re_instant r) (normalize_ip peer) (lr_username req))\<rparr>)"
    by (rule locked_login)
  let ?s = "snd (api_login r peer req s)"
  have "\<exists>b. map_of (per_account (login_throttle ?s)) (normalize_username name) = Some b \<and>
     5 \<le> unat (failures b) \<and> last_failure b = re_instant r"
    using failure_bumps [of "login_throttle s" "lr_username req" b "re_instant r" "normalize_ip peer"] b
    by (simp add: d name)
  then have "\<exists>b. map_of (per_account (login_throttle ?s)) (normalize_username name) = Some b \<and>
     5 \<le> unat (failures b) \<and> persistent (last_failure b) attempts" using p by auto
  note IH = Cons.IH [OF _ this]
  show ?case
    using IH Cons.prems(1) by (cases "login_run attempts ?s") (auto simp: a d)
qed simp


subsection \<open>Witnesses\<close>

definition sample_viewer :: stored_user where
  "sample_viewer = \<lparr>su_user = \<lparr>user_id = ''u2'', username = ''bob'', roles = [Operator], created_at = ''t'',
       last_login_at = None\<rparr>, password_hash = ''password2'', must_change_password = False,
     two_factor = no_two_factor\<rparr>"

definition sample_accounts :: auth_service where
  "sample_accounts = \<lparr>user_store = \<lparr>dir_display = ''/s'', dir_exists = True,
       files = [(''u1.json'', Json sample_user), (''u2.json'', Json sample_viewer)], faults = []\<rparr>,
     users = [(''u1'', sample_user), (''u2'', sample_viewer)],
     tokens = [(''tok'', \<lparr>session_user = ''u1'', expires_at = 500\<rparr>), (''bob'', \<lparr>session_user = ''u2'', expires_at = 500\<rparr>)],
     token_ttl_secs = 3600\<rparr>"

definition sample_api_token :: stored_api_token where
  "sample_api_token = \<lparr>tk_id = ''k1'', tk_name = ''ci'', tk_prefix = ''dgv_x'', tk_sha256 = hex_lower ''dgv_x'',
     tk_user_id = ''u2'', tk_owner = ''bob'', tk_permissions = [VmPower], tk_created_at = ''t'', tk_expires_at = None, tk_last_used_at = None\<rparr>"

definition sample_state :: app_state where
  "sample_state = \<lparr>auth_svc = sample_accounts, acl_svc = sample_acl, token_svc =
      \<lparr>dir_display = ''/s'', dir_exists = True, files = [(''k1.json'', Json sample_api_token)], faults = []\<rparr>,
     audit_svc = \<lparr>dir_display = ''/s'', dir_exists = True, files = [], faults = []\<rparr>,
     login_throttle = \<lparr>per_ip = [], per_account = [(''bob'', \<lparr>failures = 5, last_failure = 0\<rparr>)]\<rparr>\<rparr>"

definition sample_request :: request_env where
  "sample_request = \<lparr>re_auth = sample_auth_env, re_parse_ts = (\<lambda>_. None), re_plus_days = (\<lambda>t n. Some t),
     re_show_permission = (\<lambda>_. []), re_show_role = (\<lambda>_. []), re_show_ip = (\<lambda>_. []), re_audit_id = ''a1'',
     re_acl_id = ''e9'', re_instant = 60, re_instant_after = 61\<rparr>"

lemma sample_accounts_records: "records (user_store sample_accounts) = [''u1'' \<mapsto> sample_user, ''u2'' \<mapsto> sample_viewer]"
proof -
  have e: "i @ ''.json'' = ''u1.json'' \<longleftrightarrow> i = ''u1''" "i @ ''.json'' = ''u2.json'' \<longleftrightarrow> i = ''u2''" for i
    using record_names_distinct(1) [of i "''u1''"] record_names_distinct(1) [of i "''u2''"] by simp_all
  have "safe_id ''u1''" "safe_id ''u2''" by code_simp+
  then show ?thesis by (auto simp: records_def sample_accounts_def e fun_eq_iff)
qed

lemma sample_accounts_inv: "auth_inv sample_accounts"
proof -
  have "\<not> eq_ignore_ascii_case ''bob'' ''admin''" "\<not> eq_ignore_ascii_case ''admin'' ''bob''" by code_simp+
  then have "unique_names [''u1'' \<mapsto> sample_user, ''u2'' \<mapsto> sample_viewer]"
    by (auto simp: unique_names_def sample_user_def sample_viewer_def split: if_splits)
  then show ?thesis
    unfolding auth_inv_def sample_accounts_records
    by (auto simp: sample_accounts_def store_wf_def keyed_def sample_user_def sample_viewer_def fun_eq_iff fun_upd_twist)
qed

lemma map_sum_InrE:
  assumes "map_sum id g (fst m) = Inr y"
  obtains x s where "m = (Inr x, s)" and "g x = y"
  using assms by (cases m; cases "fst m") auto

theorem credential_changes_authorised_witness:
  "creds (auth_svc (serve sample_request (Some ''Bearer bob'') (ReqChangePassword ''password2'' ''password3'') sample_state)) ''u2''
     = Some ([Operator], ''password3'') \<and>
   (\<exists>u s1. from_request_parts sample_request (Some ''Bearer bob'') ''/auth/change-password'' sample_state = (Inr u, s1) \<and>
      (holds_at u UserAdmin ''/'' \<or> caller_id u = ''u2''))"
proof -
  let ?q = "ReqChangePassword ''password2'' ''password3''"
  have c: "creds (auth_svc (serve sample_request (Some ''Bearer bob'') ?q sample_state)) ''u2'' = Some ([Operator], ''password3'')"
    "creds (auth_svc sample_state) ''u2'' = Some ([Operator], ''password2'')" by code_simp+
  then have "creds (auth_svc (serve sample_request (Some ''Bearer bob'') ?q sample_state)) ''u2'' \<noteq> creds (auth_svc sample_state) ''u2''"
    by simp
  with credential_changes_authorised [of sample_request "Some ''Bearer bob''" ?q sample_state, OF refl, of "''u2''"] c(1)
  show ?thesis by (metis api_route.simps(4))
qed

definition sample_admin :: auth_user where
  "sample_admin = \<lparr>au_user = \<lparr>cu_user = su_user sample_user, cu_permissions = [UserAdmin], cu_must_change_password = False,
     cu_two_factor_enabled = False, cu_grants = []\<rparr>, au_token = ''tok'', au_path = ''/''\<rparr>"

theorem deleted_account_locked_out_witness:
  "\<exists>s1 u2 s2. api_delete_user sample_request sample_admin ''u2'' sample_state = (Inr (), s1) \<and>
     from_request_parts sample_request (Some ''Bearer tok'') ''/users'' (serve_all [(sample_request, None, ReqMe)] s1) = (Inr u2, s2) \<and>
     caller_id u2 \<noteq> ''u2''"
proof -
  have "fst (api_delete_user sample_request sample_admin ''u2'' sample_state) = Inr ()" by code_simp
  then obtain s1 where d: "api_delete_user sample_request sample_admin ''u2'' sample_state = (Inr (), s1)" by (metis prod.collapse)
  have "is_ok (fst (from_request_parts sample_request (Some ''Bearer tok'') ''/users''
      (serve_all [(sample_request, None, ReqMe)] (snd (api_delete_user sample_request sample_admin ''u2'' sample_state)))))"
    by code_simp
  then obtain u2 where "fst (from_request_parts sample_request (Some ''Bearer tok'') ''/users''
      (serve_all [(sample_request, None, ReqMe)] s1)) = Inr u2" by (auto simp: d is_ok_def split: sum.splits)
  then obtain s2 where f: "from_request_parts sample_request (Some ''Bearer tok'') ''/users''
      (serve_all [(sample_request, None, ReqMe)] s1) = (Inr u2, s2)" by (metis prod.collapse)
  have i: "auth_inv (auth_svc sample_state)" "acl_inv (acl_svc sample_state)"
    "\<forall>(r, _) \<in> set [(sample_request, None :: str option, ReqMe)]. fresh_id (re_auth r) \<noteq> ''u2''"
    by (simp_all add: sample_state_def sample_accounts_inv sample_acl_inv sample_request_def sample_auth_env_def)
  from deleted_account_locked_out [OF i(1,2) d i(3) f] d f show ?thesis by blast
qed

theorem token_outlives_demotion_witness:
  "\<exists>(u :: auth_user) v a u' s2. update_user sample_auth_env ''u2'' \<lparr>ur_roles = Some [Viewer], ur_password = None\<rparr> sample_accounts = (Inr v, a) \<and>
     roles v = [Viewer] \<and>
     from_request_parts sample_request (Some ''Bearer dgv_x'') ''/vms'' (sample_state\<lparr>auth_svc := a\<rparr>) = (Inr u', s2) \<and>
     cu_permissions (au_user u') = cu_permissions (au_user u)"
proof -
  let ?f = "from_request_parts sample_request (Some (''Bearer '' @ ''dgv_x'')) ''/vms'' sample_state"
  let ?q = "\<lparr>ur_roles = Some [Viewer], ur_password = None\<rparr>"
  let ?u = "update_user sample_auth_env ''u2'' ?q sample_accounts"
  have "map_sum id caller_id (fst ?f) = Inr ''u2''" by code_simp
  then obtain u s1 where f: "?f = (Inr u, s1)" and i: "caller_id u = ''u2''"
    by (rule map_sum_InrE)
  have "map_sum id roles (fst ?u) = Inr [Viewer]" by code_simp
  then obtain v a where v: "?u = (Inr v, a)" "roles v = [Viewer]" by (rule map_sum_InrE)
  have s: "auth_svc sample_state = sample_accounts" by (simp add: sample_state_def)
  have p: "starts_with ''dgv_x'' TOKEN_PREFIX" by code_simp
  have inv: "auth_inv (auth_svc sample_state)" by (simp only: s sample_accounts_inv)
  have upd: "update_user sample_auth_env (caller_id u) ?q (auth_svc sample_state) = (Inr v, a)" by (simp only: i s v)
  have h: "Some (''Bearer '' @ ''dgv_x'') = Some ''Bearer dgv_x''" by simp
  from token_outlives_demotion [OF inv p f upd] obtain u' s2 where
    "from_request_parts sample_request (Some ''Bearer dgv_x'') ''/vms'' (sample_state\<lparr>auth_svc := a\<rparr>) = (Inr u', s2)"
    "cu_permissions (au_user u') = cu_permissions (au_user u)"
    unfolding h by blast
  with v show ?thesis by blast
qed

theorem locked_login_stays_locked_witness:
  "\<exists>d. fst (api_login sample_request (V4 1) \<lparr>lr_username = ''Bob'', lr_password = ''password2'', lr_totp_code = None\<rparr> sample_state)
     = Inl (too_many_attempts d)"
proof -
  let ?q = "\<lparr>lr_username = ''Bob'', lr_password = ''password2'', lr_totp_code = None\<rparr>"
  let ?as = "[(sample_request, V4 1, ?q)]"
  have n: "normalize_username ''Bob'' = ''bob''" by code_simp
  have "\<forall>(r, peer, req) \<in> set ?as. normalize_username (lr_username req) = normalize_username ''Bob''" by simp
  moreover have "\<exists>b. map_of (per_account (login_throttle sample_state)) (normalize_username ''Bob'') = Some b \<and>
      5 \<le> unat (failures b) \<and> persistent (last_failure b) ?as"
    unfolding n by (simp add: sample_state_def sample_request_def QUIET_WINDOW_def secs_def)
  ultimately have "\<exists>d. x = Inl (too_many_attempts d)" if "x \<in> set (fst (login_run ?as sample_state))" for x
    using locked_login_stays_locked that by blast
  then show ?thesis by (simp split: prod.splits)
qed

end
