(* ===== verification/Broker_Client.thy ===== *)
theory Broker_Client
  imports Broker_Server
begin

section \<open>The broker client (src/src/broker/client.rs)\<close>

text \<open>
  What the backend does on its side of the socket. \<open>transport\<close> is what happens to one connection:
  whether it comes up, whether a write fails, and the bytes the broker sends before it closes (or before
  the deadline of a unary call, \<open>tr_timeout\<close>). Serde and base64 are the values they compute, as in
  the server's model; \<open>serde_laws\<close> states the documented round trips. The properties put client and
  server together: the bytes the client reads are the ones \<open>handle_connection\<close> puts on the wire for
  the bytes the client wrote.
\<close>

datatype broker_error =
    BrokerUnavailable str
  | BrokerSpawnNotFound str
  | BrokerExec str
  | BrokerProtocol str

fun show_broker_error :: "broker_error \<Rightarrow> str" where
  "show_broker_error (BrokerUnavailable m) = ''broker unavailable: '' @ m"
| "show_broker_error (BrokerSpawnNotFound m) = ''broker: '' @ m"
| "show_broker_error (BrokerExec m) = ''broker: '' @ m"
| "show_broker_error (BrokerProtocol m) = ''broker protocol error: '' @ m"

record client_codec =
  enc_request :: "request \<Rightarrow> str"
  enc_frame :: "stream_frame \<Rightarrow> str"
  dec_response :: "str \<Rightarrow> str + response"
  cl_dec_frame :: "str \<Rightarrow> str + stream_frame"
  cl_b64_encode :: "str \<Rightarrow> str"
  cl_b64_decode :: "str \<Rightarrow> str + str"

datatype connect_result = ConnectTimedOut | ConnectFailed str | ConnectOk

record transport =
  tr_connect :: connect_result
  tr_write_error :: "str option"
  tr_timeout :: bool
  tr_incoming :: str

definition STREAM_TIMEOUT_SECS :: u64 where
  "STREAM_TIMEOUT_SECS = EXEC_TIMEOUT_CAP"

definition connect :: "transport \<Rightarrow> broker_error + unit" where
  "connect tr =
     (case tr_connect tr of
        ConnectTimedOut \<Rightarrow> Inl (BrokerUnavailable ''connect timed out'')
      | ConnectFailed e \<Rightarrow> Inl (BrokerUnavailable (''connect '' @ e))
      | ConnectOk \<Rightarrow> Inr ())"

definition make_request :: "str \<Rightarrow> op \<Rightarrow> request" where
  "make_request i operation = \<lparr>req_v = PROTOCOL_VERSION, req_id = i, req_op = operation\<rparr>"

text \<open>\<open>framing::write_json\<close> on the socket: the frame is built and then sent.\<close>

definition send_json :: "('a \<Rightarrow> str) \<Rightarrow> 'a \<Rightarrow> str option \<Rightarrow> broker_error + unit" where
  "send_json enc v write_error =
     (case write_json enc v of
        Inl e \<Rightarrow> Inl (BrokerProtocol (frame_error_msg e))
      | Inr _ \<Rightarrow> (case write_error of Some e \<Rightarrow> Inl (BrokerProtocol e) | None \<Rightarrow> Inr ()))"

datatype unary_outcome = UnaryResponse response | UnaryStream stream_frame

definition unary :: "client_codec \<Rightarrow> transport \<Rightarrow> request \<Rightarrow> broker_error + unary_outcome" where
  "unary c tr req =
     bind_res (send_json (enc_request c) req (tr_write_error tr)) (\<lambda>_.
       if tr_timeout tr then Inl (BrokerExec ''broker reply timed out'')
       else case read_frame (tr_incoming tr) of
              Inl e \<Rightarrow> Inl (BrokerProtocol (frame_error_msg e))
            | Inr (bytes, _) \<Rightarrow>
                (case cl_dec_frame c bytes of
                   Inr (Exit code err timed_out) \<Rightarrow> Inr (UnaryStream (Exit code err timed_out))
                 | _ \<Rightarrow>
                     (case dec_response c bytes of
                        Inl e \<Rightarrow> Inl (BrokerProtocol (''parse response: '' @ e))
                      | Inr resp \<Rightarrow> Inr (UnaryResponse resp))))"

definition unwrap_or :: "'a option \<Rightarrow> 'a \<Rightarrow> 'a" where
  "unwrap_or x d = (case x of None \<Rightarrow> d | Some v \<Rightarrow> v)"

definition response_to_output :: "response \<Rightarrow> broker_error + str" where
  "response_to_output r =
     (if resp_ok r then Inr (resp_stdout r)
      else Inl (if resp_error_kind r = Some ''spawn_not_found''
                then BrokerSpawnNotFound (unwrap_or (resp_error r) ''not found'')
                else if resp_error_kind r = Some ''exec''
                then BrokerExec (unwrap_or (resp_error r) ''exec failed'')
                else BrokerProtocol (unwrap_or (resp_error r) ''unknown failure'')))"

definition response_to_unit :: "response \<Rightarrow> broker_error + unit" where
  "response_to_unit r = bind_res (response_to_output r) (\<lambda>_. Inr ())"

text \<open>The shape of every unary call: connect, send, and refuse a stream frame as the answer.\<close>

definition unary_call ::
  "client_codec \<Rightarrow> transport \<Rightarrow> str \<Rightarrow> op \<Rightarrow> str \<Rightarrow> (response \<Rightarrow> broker_error + 'a) \<Rightarrow> broker_error + 'a" where
  "unary_call c tr i operation what f =
     bind_res (connect tr) (\<lambda>_.
     bind_res (unary c tr (make_request i operation)) (\<lambda>out.
       case out of
         UnaryResponse resp \<Rightarrow> f resp
       | UnaryStream _ \<Rightarrow> Inl (BrokerProtocol (''unexpected streaming frame on '' @ what))))"

definition client_ping :: "client_codec \<Rightarrow> transport \<Rightarrow> bool \<Rightarrow> str \<Rightarrow> broker_error + unit" where
  "client_ping c tr two_seconds_over i =
     (if two_seconds_over then Inl (BrokerUnavailable ''ping timed out'')
      else unary_call c tr i Ping ''broker ping'' response_to_unit)"

definition client_exec ::
  "client_codec \<Rightarrow> transport \<Rightarrow> str \<Rightarrow> str \<Rightarrow> str list \<Rightarrow> broker_error + str" where
  "client_exec c tr i program args =
     unary_call c tr i (Exec program args False False default_timeout_secs) ''a unary exec'' response_to_output"

definition client_pci_write ::
  "client_codec \<Rightarrow> transport \<Rightarrow> str \<Rightarrow> pci_write_kind \<Rightarrow> str \<Rightarrow> broker_error + unit" where
  "client_pci_write c tr i kind address =
     unary_call c tr i (PciWrite kind address) ''a PCI write'' response_to_unit"

definition client_lxc_config_append ::
  "client_codec \<Rightarrow> transport \<Rightarrow> str \<Rightarrow> str \<Rightarrow> str \<Rightarrow> broker_error + unit" where
  "client_lxc_config_append c tr i name block =
     unary_call c tr i (LxcConfigAppend name block) ''an LXC config append'' response_to_unit"

definition client_lxc_rootfs_set ::
  "client_codec \<Rightarrow> transport \<Rightarrow> str \<Rightarrow> str \<Rightarrow> str \<Rightarrow> broker_error + unit" where
  "client_lxc_rootfs_set c tr i name dataset =
     unary_call c tr i (LxcRootfsSet name dataset) ''an LXC rootfs set'' response_to_unit"

subsection \<open>Streams\<close>

text \<open>The receive loop of \<open>exec_streamed\<close>, over the bytes that arrive: the result, and the bytes that reached
  the sink. The list of sink outcomes has an error text for a write (or the final flush) that fails.\<close>

function recv_loop ::
  "client_codec \<Rightarrow> str \<Rightarrow> str list \<Rightarrow> str option list \<Rightarrow> str \<Rightarrow> (broker_error + unit) \<times> str" where
  "recv_loop c program args sink inp =
     (case read_json (cl_dec_frame c) inp of
        Inl e \<Rightarrow> (Inl (BrokerProtocol (frame_error_msg e)), [])
      | Inr (Stdout d, rest) \<Rightarrow>
          (case cl_b64_decode c d of
             Inl e \<Rightarrow> (Inl (BrokerProtocol (''bad stdout chunk: '' @ e)), [])
           | Inr bytes \<Rightarrow>
               (case sink of
                  Some e # _ \<Rightarrow> (Inl (BrokerExec (''write stream: '' @ e)), [])
                | _ \<Rightarrow> (let (r, out) = recv_loop c program args (tl sink) rest in (r, bytes @ out))))
      | Inr (Exit code err timed_out, rest) \<Rightarrow>
          (case sink of
             Some e # _ \<Rightarrow> (Inl (BrokerExec (''flush stream: '' @ e)), [])
           | _ \<Rightarrow>
               (if code = 0 then Inr ()
                else if timed_out then Inl (BrokerExec (''`'' @ program @ ''` timed out in the broker after ''
                       @ show_u64 STREAM_TIMEOUT_SECS @ ''s''))
                else Inl (BrokerExec (''`'' @ program @ '' '' @ join '' '' args @ ''` failed: '' @ trim err)), []))
      | Inr (Stdin _, rest) \<Rightarrow> (Inl (BrokerProtocol ''broker sent an stdin frame to the client''), [])
      | Inr (StdinEof, rest) \<Rightarrow> (Inl (BrokerProtocol ''broker sent an stdin frame to the client''), []))"
  by pat_completeness auto
termination
  by (relation "measure (\<lambda>(_, _, _, _, inp). length inp)") (auto dest: read_json_shorter)

declare recv_loop.simps [simp del]

text \<open>The pump: one \<open>Stdin\<close> frame per chunk read from the source, then \<open>StdinEof\<close>. A read of the source is
  \<open>None\<close> when it fails, and an empty chunk at its end.\<close>

fun pump :: "client_codec \<Rightarrow> str option list \<Rightarrow> stream_frame list" where
  "pump c [] = [StdinEof]"
| "pump c (None # _) = [StdinEof]"
| "pump c (Some chunk # src) =
     (if chunk = [] then [StdinEof] else Stdin (cl_b64_encode c chunk) # pump c src)"

definition client_exec_streamed ::
  "client_codec \<Rightarrow> transport \<Rightarrow> str \<Rightarrow> str \<Rightarrow> str list \<Rightarrow> bool \<Rightarrow> str option list \<Rightarrow> (broker_error + unit) \<times> str" where
  "client_exec_streamed c tr i program args has_source sink =
     (case bind_res (connect tr) (\<lambda>_. send_json (enc_request c)
             (make_request i (Exec program args True has_source STREAM_TIMEOUT_SECS)) (tr_write_error tr)) of
        Inl e \<Rightarrow> (Inl e, [])
      | Inr _ \<Rightarrow> recv_loop c program args sink (tr_incoming tr))"

subsection \<open>Consoles\<close>

definition client_console_attach ::
  "client_codec \<Rightarrow> transport \<Rightarrow> str \<Rightarrow> str \<Rightarrow> u64 \<Rightarrow> broker_error + unit" where
  "client_console_attach c tr i pty timeout_secs =
     bind_res (connect tr) (\<lambda>_. send_json (enc_request c) (make_request i (ConsoleAttach pty timeout_secs)) (tr_write_error tr))"

definition client_lxc_console_attach ::
  "client_codec \<Rightarrow> transport \<Rightarrow> str \<Rightarrow> str \<Rightarrow> u64 \<Rightarrow> broker_error + unit" where
  "client_lxc_console_attach c tr i name timeout_secs =
     bind_res (connect tr) (\<lambda>_. send_json (enc_request c) (make_request i (LxcConsoleAttach name timeout_secs)) (tr_write_error tr))"

definition console_recv :: "client_codec \<Rightarrow> str \<Rightarrow> (str \<times> str) option" where
  "console_recv c inp =
     (case read_json (cl_dec_frame c) inp of
        Inr (Stdout d, rest) \<Rightarrow> (case cl_b64_decode c d of Inr bytes \<Rightarrow> Some (bytes, rest) | Inl _ \<Rightarrow> None)
      | _ \<Rightarrow> None)"

text \<open>\<open>slice::chunks\<close>.\<close>

function chunks_of :: "nat \<Rightarrow> 'a list \<Rightarrow> 'a list list" where
  "chunks_of n xs = (if xs = [] \<or> n = 0 then [] else take n xs # chunks_of n (drop n xs))"
  by pat_completeness auto
termination
  by (relation "measure (\<lambda>(_, xs). length xs)") (auto simp: neq_Nil_conv)

declare chunks_of.simps [simp del]

text \<open>One \<open>Stdin\<close> frame per part; the list of write outcomes has an error text for a write that fails.\<close>

fun console_send_loop :: "client_codec \<Rightarrow> str option list \<Rightarrow> str list \<Rightarrow> broker_error + unit" where
  "console_send_loop c writes [] = Inr ()"
| "console_send_loop c writes (part # parts) =
     bind_res (send_json (enc_frame c) (Stdin (cl_b64_encode c part)) (case writes of [] \<Rightarrow> None | w # _ \<Rightarrow> w)) (\<lambda>_.
       console_send_loop c (tl writes) parts)"

definition console_send :: "client_codec \<Rightarrow> str option list \<Rightarrow> str \<Rightarrow> broker_error + unit" where
  "console_send c writes bytes = console_send_loop c writes (chunks_of CHUNK_PAYLOAD_MAX bytes)"


section \<open>Client and server together\<close>

text \<open>What the code relies on of serde and base64: a value that was encoded on one side is decoded on the
  other, no encoding is empty, and the JSON of a \<open>Response\<close>, which has no tag, is not a stream frame.\<close>

definition serde_laws :: "client_codec \<Rightarrow> codec \<Rightarrow> (message \<Rightarrow> str) \<Rightarrow> bool" where
  "serde_laws c sc enc \<longleftrightarrow>
     (\<forall>r. dec_request sc (enc_request c r) = Inr r \<and> enc_request c r \<noteq> []) \<and>
     (\<forall>f. dec_frame sc (enc_frame c f) = Inr f \<and> enc_frame c f \<noteq> []) \<and>
     (\<forall>r. dec_response c (enc (Reply r)) = Inr r \<and> enc (Reply r) \<noteq> []) \<and>
     (\<forall>f. cl_dec_frame c (enc (Frame f)) = Inr f \<and> enc (Frame f) \<noteq> []) \<and>
     (\<forall>r f. cl_dec_frame c (enc (Reply r)) \<noteq> Inr f) \<and>
     (\<forall>x. cl_b64_decode c (b64_encode sc x) = Inr x \<and> b64_decode sc (cl_b64_encode c x) = Some x)"

definition fits :: "str \<Rightarrow> bool" where
  "fits body \<longleftrightarrow> length body \<le> CONTROL_FRAME_MAX"

definition frame_bytes :: "str \<Rightarrow> str" where
  "frame_bytes body = to_le_bytes (of_nat (length body)) @ body"

lemma write_json_fits: "write_json enc v = (if fits (enc v) then Inr (frame_bytes (enc v)) else Inl FrameBodyTooLarge)"
  by (simp add: write_json_def write_frame_cases fits_def frame_bytes_def)

lemma read_frame_bytes: "fits body \<Longrightarrow> body \<noteq> [] \<Longrightarrow> read_frame (frame_bytes body @ rest) = Inr (body, rest)"
  using read_frame_written by (simp add: frame_bytes_def fits_def)

lemma read_json_bytes: "fits body \<Longrightarrow> body \<noteq> [] \<Longrightarrow> of_json body = Inr v \<Longrightarrow> read_json of_json (frame_bytes body @ rest) = Inr (v, rest)"
  by (simp add: read_json_def read_frame_bytes)

text \<open>A live connection: the peer may be the backend, and the bytes it reads are the answer of the broker
  to the bytes it wrote.\<close>

definition connected_to ::
  "client_codec \<Rightarrow> codec \<Rightarrow> (message \<Rightarrow> str) \<Rightarrow> broker_config \<Rightarrow> host_env \<Rightarrow> u32 \<Rightarrow> request \<Rightarrow> str \<Rightarrow> transport" where
  "connected_to c sc enc config env uid req rest =
     \<lparr>tr_connect = ConnectOk, tr_write_error = None, tr_timeout = False,
      tr_incoming = wire enc (snd (handle_connection sc config env (Inr uid) (frame_bytes (enc_request c req) @ rest)))\<rparr>"

text \<open>What the broker does to the host for a request.\<close>

definition answered ::
  "client_codec \<Rightarrow> codec \<Rightarrow> broker_config \<Rightarrow> host_env \<Rightarrow> u32 \<Rightarrow> request \<Rightarrow> host_action list" where
  "answered c sc config env uid req = fst (handle_connection sc config env (Inr uid) (frame_bytes (enc_request c req)))"

definition exec_request :: "str \<Rightarrow> str \<Rightarrow> str list \<Rightarrow> request" where
  "exec_request i program args = make_request i (Exec program args False False default_timeout_secs)"

definition valid_id :: "str \<Rightarrow> bool" where
  "valid_id i \<longleftrightarrow> i \<noteq> [] \<and> length i \<le> 128 \<and> \<not> contains_char i (CHR 0x00)"

lemma handle_own_request:
  assumes "serde_laws c sc enc" and "uid = allowed_uid config \<or> uid = 0" and "valid_id i"
    and "fits (enc_request c (make_request i operation))"
  shows "handle_connection sc config env (Inr uid) (frame_bytes (enc_request c (make_request i operation)) @ rest) =
    (case validate_op operation of
       Inl reason \<Rightarrow> ([], [Reply (failure (''request rejected: '' @ reject_msg reason))])
     | Inr _ \<Rightarrow> perform sc env rest operation)"
proof -
  let ?req = "make_request i operation"
  have "read_json (dec_request sc) (frame_bytes (enc_request c ?req) @ rest) = Inr (?req, rest)"
    using assms(1,4) by (intro read_json_bytes) (simp_all add: serde_laws_def)
  moreover have "validate_request ?req = validate_op operation"
    using assms(3) by (simp add: validate_request_def make_request_def valid_id_def)
  ultimately show ?thesis
    using assms(2) by (auto simp: handle_connection_def check_peer_uid_def make_request_def split: sum.splits)
qed

lemma unary_reply:
  assumes "serde_laws c sc enc" and "fits (enc_request c req)" and "tr_connect tr = ConnectOk"
    and "tr_write_error tr = None" and "\<not> tr_timeout tr" and "tr_incoming tr = wire enc [Reply resp]"
    and "req = make_request i operation"
  shows "unary_call c tr i operation what f =
    (if fits (enc (Reply resp)) then f resp else Inl (BrokerProtocol (frame_error_msg ReadLengthPrefix)))"
proof -
  have send: "send_json (enc_request c) req None = Inr ()"
    using assms(2) by (simp add: send_json_def write_json_fits)
  show ?thesis
  proof (cases "fits (enc (Reply resp))")
    case True
    have "read_frame (frame_bytes (enc (Reply resp)) @ []) = Inr (enc (Reply resp), [])"
      by (rule read_frame_bytes [OF True]) (use assms(1) in \<open>simp add: serde_laws_def\<close>)
    moreover obtain e where "cl_dec_frame c (enc (Reply resp)) = Inl e"
      using assms(1) by (cases "cl_dec_frame c (enc (Reply resp))") (auto simp: serde_laws_def)
    moreover have "dec_response c (enc (Reply resp)) = Inr resp" using assms(1) by (simp add: serde_laws_def)
    ultimately show ?thesis
      using True assms send by (simp add: unary_call_def connect_def unary_def write_json_fits)
  next
    case False
    have "read_frame [] = Inl ReadLengthPrefix" by (simp add: read_frame_def read_exact_def)
    with False assms send show ?thesis by (simp add: unary_call_def connect_def unary_def write_json_fits)
  qed
qed

text \<open>What a remote command should be: the outcome of the child on the host.\<close>

definition exec_spec :: "host_env \<Rightarrow> str \<Rightarrow> str list \<Rightarrow> str \<Rightarrow> broker_error + str" where
  "exec_spec env program args exe =
     (case spawn env exe args of
        SpawnMissing e \<Rightarrow> Inl (BrokerSpawnNotFound e)
      | SpawnFailed e \<Rightarrow> Inl (BrokerExec (''spawn failed: '' @ e))
      | Spawned \<Rightarrow>
          (case wait_with_output env of
             WaitTimeout \<Rightarrow> Inl (BrokerExec (''`'' @ program @ ''` timed out after 300s''))
           | WaitFailed e \<Rightarrow> Inl (BrokerExec (''wait for child: '' @ e))
           | Output out err status \<Rightarrow>
               if status = Some 0 then Inr out
               else Inl (BrokerExec (''`'' @ program @ '' '' @ join '' '' args @ ''` failed: '' @ trim err))))"

lemma valid_program: "validate_exec program args = Inr () \<Longrightarrow> \<exists>exe. program_path program = Some exe"
  by (auto simp: validate_exec_def res_simps)

lemma default_timeout_valid: "validate_timeout default_timeout_secs = Inr ()"
  by (simp add: validate_timeout_def default_timeout_secs_def EXEC_TIMEOUT_CAP_def)

lemma min_default_timeout: "min_u64 default_timeout_secs EXEC_TIMEOUT_CAP = 300"
  by (simp add: min_u64_def default_timeout_secs_def EXEC_TIMEOUT_CAP_def)

lemma show_300: "show_u64 300 = ''300''"
  by code_simp

text \<open>The single reply of a unary execution, and what the client makes of it.\<close>

definition unary_reply_of :: "host_env \<Rightarrow> str \<Rightarrow> str list \<Rightarrow> response" where
  "unary_reply_of env program args =
     (case snd (unary_exec env program args default_timeout_secs) of Inr resp \<Rightarrow> resp | Inl e \<Rightarrow> to_response e)"

lemma response_to_output_spec:
  assumes "program_path program = Some exe"
  shows "response_to_output (unary_reply_of env program args) = exec_spec env program args exe"
    and "fst (unary_exec env program args default_timeout_secs) = [Spawn exe args 300]"
  using assms
  by (auto simp: unary_reply_of_def unary_exec_def exec_spec_def Let_def min_default_timeout show_300
      response_to_output_def success_def exec_failed_def spawn_not_found_def unwrap_or_def
      split: spawn_result.splits wait_output.splits option.splits)

text \<open>
  C4. A command through the broker is the command on the host. With the backend's uid, the answer that
  \<open>BrokerClient::exec\<close> returns is the outcome of the child that the broker spawned (its standard output, or
  the reason it did not start, failed or was killed), and the host sees exactly that one child, with a time-out of
  300 seconds, if the broker accepts the command; otherwise nothing runs and the error carries the
  broker's reason. The one exception is an answer larger than a control frame, which the client
  reports as a broken connection although the child ran.
\<close>

theorem exec_end_to_end:
  assumes "serde_laws c sc enc" and "uid = allowed_uid config \<or> uid = 0" and "valid_id i"
    and "fits (enc_request c (exec_request i program args))"
  shows "case validate_exec program args of
      Inl reason \<Rightarrow> answered c sc config env uid (exec_request i program args) = [] \<and>
        (fits (enc (Reply (failure (''request rejected: '' @ reject_msg reason)))) \<longrightarrow>
         client_exec c (connected_to c sc enc config env uid (exec_request i program args) []) i program args
           = Inl (BrokerProtocol (''request rejected: '' @ reject_msg reason)))
    | Inr _ \<Rightarrow> (\<exists>exe. program_path program = Some exe \<and>
        answered c sc config env uid (exec_request i program args) = [Spawn exe args 300] \<and>
        client_exec c (connected_to c sc enc config env uid (exec_request i program args) []) i program args =
          (if fits (enc (Reply (unary_reply_of env program args))) then exec_spec env program args exe
           else Inl (BrokerProtocol ''read length prefix: early eof'')))"
proof -
  let ?op = "Exec program args False False default_timeout_secs"
  let ?tr = "connected_to c sc enc config env uid (exec_request i program args) []"
  define conn where "conn = handle_connection sc config env (Inr uid) (frame_bytes (enc_request c (exec_request i program args)))"
  have fits: "fits (enc_request c (make_request i ?op))" using assms(4) by (simp add: exec_request_def)
  have conn: "conn = (case validate_op ?op of
       Inl reason \<Rightarrow> ([], [Reply (failure (''request rejected: '' @ reject_msg reason))])
     | Inr _ \<Rightarrow> perform sc env [] ?op)"
    using handle_own_request [OF assms(1-3) fits, of env "[]"] by (simp add: conn_def exec_request_def)
  have tr: "tr_connect ?tr = ConnectOk" "tr_write_error ?tr = None" "\<not> tr_timeout ?tr"
      "tr_incoming ?tr = wire enc (snd conn)"
    by (simp_all add: connected_to_def conn_def)
  have ans: "answered c sc config env uid (exec_request i program args) = fst conn" by (simp add: answered_def conn_def)
  show ?thesis
  proof (cases "validate_exec program args")
    case (Inl reason)
    let ?resp = "failure (''request rejected: '' @ reject_msg reason)"
    have c: "conn = ([], [Reply ?resp])" using Inl by (simp add: conn)
    then have inc: "tr_incoming ?tr = wire enc [Reply ?resp]" by (simp only: tr(4) snd_conv)
    have "response_to_output ?resp = Inl (BrokerProtocol (''request rejected: '' @ reject_msg reason))"
      by (simp add: response_to_output_def failure_def unwrap_or_def)
    with c Inl unary_reply [OF assms(1) fits tr(1-3) inc refl, of "''a unary exec''" response_to_output]
    show ?thesis by (simp only: client_exec_def ans sum.case fst_conv) (simp split: if_split)
  next
    case (Inr u)
    then obtain exe where exe: "program_path program = Some exe" using valid_program by (cases u) blast
    have c: "conn = perform sc env [] ?op" using Inr by (simp add: conn default_timeout_valid)
    have p: "fst conn = [Spawn exe args 300]" "snd conn = [Reply (unary_reply_of env program args)]"
      using response_to_output_spec(2) [OF exe, of env args]
      by (cases "unary_exec env program args default_timeout_secs"; simp add: c unary_reply_of_def)+
    then have inc: "tr_incoming ?tr = wire enc [Reply (unary_reply_of env program args)]" by (simp only: tr(4))
    from unary_reply [OF assms(1) fits tr(1-3) inc refl, of "''a unary exec''" response_to_output]
      p(1) Inr exe response_to_output_spec(1) [OF exe, of env args]
    show ?thesis by (simp add: client_exec_def ans)
  qed
qed


subsection \<open>Streams\<close>

lemma read_frame_cut:
  assumes "fits body" and "k < length (frame_bytes body)"
  shows "\<exists>e. read_frame (take k (frame_bytes body @ rest)) = Inl e"
  using read_frame_truncated [of body k] assms by (simp add: frame_bytes_def fits_def)

lemma take_frame: "length (frame_bytes body) \<le> k \<Longrightarrow>
    take k (frame_bytes body @ rest) = frame_bytes body @ take (k - length (frame_bytes body)) rest"
  by simp

text \<open>The client's loop on a connection cut at any point: success means that the terminal frame arrived and
  every frame before it is a chunk.\<close>

lemma recv_loop_ok:
  assumes "serde_laws c sc enc" and "recv_loop c program args sink (take k (wire enc ms)) = (Inr (), out)"
  shows "\<exists>ds bs err timed_out post. ms = map (\<lambda>d. Frame (Stdout d)) ds @ Frame (Exit 0 err timed_out) # post \<and>
    map (cl_b64_decode c) ds = map Inr bs \<and> out = concat bs"
  using assms(2)
proof (induction ms arbitrary: k sink out)
  case Nil
  then show ?case by (simp add: recv_loop.simps [of c program args sink "[]"] read_json_def read_frame_def read_exact_def)
next
  case (Cons m ms)
  let ?w = "take k (wire enc (m # ms))"
  note step = recv_loop.simps [of c program args sink ?w]
  have stuck: "False" if "\<exists>e. read_json (cl_dec_frame c) ?w = Inl e"
    using that Cons.prems step by auto
  have fits: "fits (enc m)"
  proof (rule ccontr)
    assume "\<not> fits (enc m)"
    then show False using stuck by (simp add: write_json_fits read_json_def read_frame_def read_exact_def)
  qed
  have long: "length (frame_bytes (enc m)) \<le> k"
  proof (rule ccontr)
    assume "\<not> ?thesis"
    then have "\<exists>e. read_frame ?w = Inl e" using read_frame_cut [OF fits, of k "wire enc ms"] fits by (simp add: write_json_fits)
    then show False using stuck by (auto simp: read_json_def)
  qed
  define k' where "k' = k - length (frame_bytes (enc m))"
  have w: "?w = frame_bytes (enc m) @ take k' (wire enc ms)"
    using long fits by (simp add: write_json_fits k'_def)
  obtain f where m: "m = Frame f"
  proof (cases m)
    case (Reply r)
    have "enc m \<noteq> []" using assms(1) Reply by (simp add: serde_laws_def)
    then have "read_frame ?w = Inr (enc m, take k' (wire enc ms))" using read_frame_bytes [OF fits] w by simp
    moreover obtain e where "cl_dec_frame c (enc m) = Inl e"
      using assms(1) Reply by (cases "cl_dec_frame c (enc m)") (auto simp: serde_laws_def)
    ultimately show ?thesis using stuck by (simp add: read_json_def)
  qed
  have r: "read_json (cl_dec_frame c) ?w = Inr (f, take k' (wire enc ms))"
    unfolding w using assms(1) by (intro read_json_bytes [OF fits]) (simp_all add: m serde_laws_def)
  show ?case
  proof (cases f)
    case (Stdout d)
    from Cons.prems r Stdout obtain b out' where b: "cl_b64_decode c d = Inr b" "out = b @ out'"
      and rest: "recv_loop c program args (tl sink) (take k' (wire enc ms)) = (Inr (), out')"
      unfolding step by (auto split: sum.splits list.splits option.splits prod.splits)
    from Cons.IH [OF rest] obtain ds bs err timed_out post where
      "ms = map (\<lambda>d. Frame (Stdout d)) ds @ Frame (Exit 0 err timed_out) # post"
      "map (cl_b64_decode c) ds = map Inr bs" "out' = concat bs" by blast
    with b m Stdout show ?thesis
      by (intro exI [of _ "d # ds"] exI [of _ "b # bs"] exI [of _ err] exI [of _ timed_out] exI [of _ post]) simp
  next
    case (Exit code err timed_out)
    with Cons.prems r have "code = 0" "out = []"
      unfolding step by (auto split: list.splits option.splits if_splits)
    with m Exit show ?thesis
      by (intro exI [of _ "[]"] exI [of _ "[]"] exI [of _ err] exI [of _ timed_out] exI [of _ ms]) simp
  qed (use Cons.prems r step in auto)
qed

definition stream_request :: "str \<Rightarrow> str \<Rightarrow> str list \<Rightarrow> bool \<Rightarrow> request" where
  "stream_request i program args has_source = make_request i (Exec program args True has_source STREAM_TIMEOUT_SECS)"

lemma decode_encoded:
  assumes "serde_laws c sc enc" and "map (cl_b64_decode c) (map (b64_encode sc) xs) = map Inr bs"
  shows "bs = xs"
  using assms(2)
proof (induction xs arbitrary: bs)
  case (Cons x xs)
  with assms(1) show ?case by (cases bs) (auto simp: serde_laws_def)
qed simp

lemma frames_prefix_unique:
  assumes "map (\<lambda>d. Frame (Stdout d)) ds @ Frame (Exit a b e) # post = map (\<lambda>d. Frame (Stdout d)) ds' @ Frame (Exit a' b' e') # post'"
  shows "ds = ds'"
  using assms
proof (induction ds arbitrary: ds')
  case Nil
  then show ?case by (cases ds') auto
next
  case (Cons d ds)
  then show ?case by (cases ds') auto
qed

text \<open>
  C33. A backup stream that the client reports as complete is complete: whatever happens on the host and
  wherever the connection is cut, if \<open>exec_streamed\<close> returns success then the broker accepted and started
  the command, the child's output was read to its end, the child exited with status 0, and the bytes
  written to the file are exactly that output.
\<close>

theorem streamed_backup_is_complete:
  assumes "serde_laws c sc enc" and "uid = allowed_uid config \<or> uid = 0" and "valid_id i"
    and "fits (enc_request c (stream_request i program args has_source))"
    and "tr_incoming tr = take k (tr_incoming (connected_to c sc enc config env uid (stream_request i program args has_source) rest))"
    and "client_exec_streamed c tr i program args has_source sink = (Inr (), out)"
  shows "validate_exec program args = Inr () \<and>
    (\<exists>exe chs more. program_path program = Some exe \<and> spawn env exe args = Spawned \<and>
       reads env = map ReadOk chs @ ReadOk [] # more \<and> [] \<notin> set chs \<and> wait_status env = Inr (Some 0) \<and>
       out = concat chs)"
proof -
  let ?op = "Exec program args True has_source STREAM_TIMEOUT_SECS"
  let ?ms = "snd (handle_connection sc config env (Inr uid) (frame_bytes (enc_request c (make_request i ?op)) @ rest))"
  have fits: "fits (enc_request c (make_request i ?op))" using assms(4) by (simp add: stream_request_def)
  have ms: "?ms = snd (case validate_op ?op of
       Inl reason \<Rightarrow> ([], [Reply (failure (''request rejected: '' @ reject_msg reason))])
     | Inr _ \<Rightarrow> perform sc env rest ?op)"
    using handle_own_request [OF assms(1-3) fits, of env rest] by simp
  from assms(6) have "recv_loop c program args sink (tr_incoming tr) = (Inr (), out)"
    by (auto simp: client_exec_streamed_def split: sum.splits)
  then have "recv_loop c program args sink (take k (wire enc ?ms)) = (Inr (), out)"
    by (simp add: assms(5) connected_to_def stream_request_def)
  from recv_loop_ok [OF assms(1) this] obtain ds bs err timed_out post where
    f: "?ms = map (\<lambda>d. Frame (Stdout d)) ds @ Frame (Exit 0 err timed_out) # post"
      "map (cl_b64_decode c) ds = map Inr bs" "out = concat bs" by blast
  have exit: "Frame (Exit 0 err timed_out) \<in> set ?ms" unfolding f(1) by simp
  have v: "validate_op ?op = Inr ()"
  proof (cases "validate_op ?op")
    case (Inl reason)
    with exit show ?thesis unfolding ms by simp
  qed simp
  then have v': "validate_exec program args = Inr ()" by (simp add: res_simps)
  have ms': "?ms = snd (stream_exec sc env program args has_source STREAM_TIMEOUT_SECS rest)"
    using ms v by simp
  from exit obtain exe where exe: "program_path program = Some exe" "spawn env exe args = Spawned"
    and fr: "?ms = map Frame (stream_loop (b64_encode sc) (trim (stderr_text env)) (wait_status env) (reads env))"
    unfolding ms' by (auto simp: stream_exec_def Let_def split: option.split_asm spawn_result.split_asm)
  with exit have "Exit 0 err timed_out \<in> set (stream_loop (b64_encode sc) (trim (stderr_text env)) (wait_status env) (reads env))"
    by auto
  from stream_loop_exit_0 [OF this] obtain chs more where
    o: "reads env = map ReadOk chs @ ReadOk [] # more" "[] \<notin> set chs" "wait_status env = Inr (Some 0)"
      "stream_loop (b64_encode sc) (trim (stderr_text env)) (wait_status env) (reads env) =
        map (\<lambda>x. Stdout (b64_encode sc x)) chs @ [Exit 0 (trim (stderr_text env)) False]" by blast
  from f(1) fr o(4) have "map (\<lambda>d. Frame (Stdout d)) ds @ Frame (Exit 0 err timed_out) # post =
      map (\<lambda>d. Frame (Stdout d)) (map (b64_encode sc) chs) @ Frame (Exit 0 (trim (stderr_text env)) False) # []"
    by (simp add: comp_def)
  then have "ds = map (b64_encode sc) chs" by (rule frames_prefix_unique)
  with f(2) decode_encoded [OF assms(1)] have "bs = chs" by blast
  with v' exe o f(3) show ?thesis by blast
qed


definition pump_wire :: "client_codec \<Rightarrow> stream_frame list \<Rightarrow> str" where
  "pump_wire c frames = concat (map (\<lambda>f. frame_bytes (enc_frame c f)) frames)"

definition sendable :: "client_codec \<Rightarrow> str \<Rightarrow> bool" where
  "sendable c chunk \<longleftrightarrow> chunk \<noteq> [] \<and> length chunk \<le> CHUNK_PAYLOAD_MAX \<and> fits (enc_frame c (Stdin (cl_b64_encode c chunk)))"

lemma pump_frames:
  assumes "[] \<notin> set chs"
  shows "pump c (map Some chs @ [Some []]) = map (\<lambda>x. Stdin (cl_b64_encode c x)) chs @ [StdinEof]"
    and "pump c (map Some chs @ None # src) = map (\<lambda>x. Stdin (cl_b64_encode c x)) chs @ [StdinEof]"
  using assms by (induction chs) auto

lemma feed_pumped:
  assumes "serde_laws c sc enc" and "list_all (sendable c) chs" and "fits (enc_frame c StdinEof)"
  shows "feed_stdin (dec_frame sc) (b64_decode sc) (replicate (length chs) True @ oks)
    (pump_wire c (map (\<lambda>x. Stdin (cl_b64_encode c x)) chs @ [StdinEof])) = chs"
  using assms(2)
proof (induction chs)
  case Nil
  have "read_json (dec_frame sc) (frame_bytes (enc_frame c StdinEof) @ []) = Inr (StdinEof, [])"
    using assms(1,3) by (intro read_json_bytes) (simp_all add: serde_laws_def)
  then show ?case by (simp add: pump_wire_def feed_stdin.simps)
next
  case (Cons x chs)
  let ?f = "Stdin (cl_b64_encode c x)"
  let ?rest = "pump_wire c (map (\<lambda>x. Stdin (cl_b64_encode c x)) chs @ [StdinEof])"
  have "read_json (dec_frame sc) (frame_bytes (enc_frame c ?f) @ ?rest) = Inr (?f, ?rest)"
    using assms(1) Cons.prems by (intro read_json_bytes) (simp_all add: serde_laws_def sendable_def)
  with assms(1) Cons show ?case
    by (simp add: pump_wire_def feed_stdin.simps [of _ _ _ "frame_bytes (enc_frame c ?f) @ _"] sendable_def serde_laws_def)
qed

text \<open>
  A restore feeds the child the source, and hides that the source broke off. The chunks of the file arrive
  at the child's standard input in order and complete, followed by the end of input; but when
  reading the file fails half way, the child gets the chunks before the failure followed by the same
  clean end of input, so that neither the broker nor the client can tell the truncated stream from a whole one.
\<close>

theorem restore_feed_complete_or_cut:
  assumes "serde_laws c sc enc" and "list_all (sendable c) chs" and "fits (enc_frame c StdinEof)"
  shows "feed_stdin (dec_frame sc) (b64_decode sc) (replicate (length chs) True)
           (pump_wire c (pump c (map Some chs @ [Some []]))) = chs \<and>
         pump c (map Some chs @ None # src) = pump c (map Some chs @ [Some []])"
proof -
  have "[] \<notin> set chs" using assms(2) by (auto simp: list_all_iff sendable_def)
  with feed_pumped [OF assms, of "[]"] show ?thesis by (simp add: pump_frames)
qed

subsection \<open>Witnesses\<close>

text \<open>A codec with the documented laws: a value is the sequence of its fields, numbers in unary, strings and
  lists behind their length, and a tag per constructor.\<close>

definition put_nat :: "nat \<Rightarrow> str" where
  "put_nat n = replicate n (CHR ''1'') @ ''0''"

definition get_nat :: "str \<Rightarrow> nat \<times> str" where
  "get_nat x = (let n = length (takeWhile (\<lambda>b. b = CHR ''1'') x) in (n, drop (Suc n) x))"

definition put_str :: "str \<Rightarrow> str" where
  "put_str s = put_nat (length s) @ s"

definition get_str :: "str \<Rightarrow> str \<times> str" where
  "get_str x = (let (n, r) = get_nat x in (take n r, drop n r))"

definition put_bool :: "bool \<Rightarrow> str" where
  "put_bool b = put_nat (if b then 1 else 0)"

definition get_bool :: "str \<Rightarrow> bool \<times> str" where
  "get_bool x = (let (n, r) = get_nat x in (n = 1, r))"

definition put_int :: "int \<Rightarrow> str" where
  "put_int i = put_bool (i < 0) @ put_nat (nat \<bar>i\<bar>)"

definition get_int :: "str \<Rightarrow> int \<times> str" where
  "get_int x = (let (neg, r) = get_bool x; (n, r) = get_nat r in (if neg then - int n else int n, r))"

fun put_all :: "str list \<Rightarrow> str" where
  "put_all [] = []"
| "put_all (w # ws) = put_str w @ put_all ws"

fun get_all :: "nat \<Rightarrow> str \<Rightarrow> str list \<times> str" where
  "get_all 0 x = ([], x)"
| "get_all (Suc n) x = (let (w, r) = get_str x; (ws, r) = get_all n r in (w # ws, r))"

definition put_opt :: "('a \<Rightarrow> str) \<Rightarrow> 'a option \<Rightarrow> str" where
  "put_opt p v = (case v of None \<Rightarrow> put_bool False | Some a \<Rightarrow> put_bool True @ p a)"

definition get_opt :: "(str \<Rightarrow> 'a \<times> str) \<Rightarrow> str \<Rightarrow> 'a option \<times> str" where
  "get_opt g x = (let (b, r) = get_bool x in if b then (let (a, r) = g r in (Some a, r)) else (None, r))"

lemma get_put_nat [simp]: "get_nat (put_nat n @ r) = (n, r)"
  by (induction n) (simp_all add: get_nat_def put_nat_def Let_def)

lemma get_put_basic [simp]:
  "get_str (put_str s @ r) = (s, r)" "get_bool (put_bool b @ r) = (b, r)" "get_int (put_int i @ r) = (i, r)"
  "get_all (length ws) (put_all ws @ r) = (ws, r)"
proof -
  show str: "get_str (put_str s @ r) = (s, r)" for s r by (simp add: get_str_def put_str_def)
  show bool: "get_bool (put_bool b @ r) = (b, r)" for b r by (simp add: get_bool_def put_bool_def)
  show "get_int (put_int i @ r) = (i, r)" by (simp add: get_int_def put_int_def bool)
  show "get_all (length ws) (put_all ws @ r) = (ws, r)" by (induction ws) (simp_all add: str)
qed

lemma get_put_opt [simp]: "(\<And>a r. g (p a @ r) = (a, r)) \<Longrightarrow> get_opt g (put_opt p v @ r) = (v, r)"
  by (cases v) (simp_all add: get_opt_def put_opt_def)

fun put_kind :: "pci_write_kind \<Rightarrow> nat" where
  "put_kind Unbind = 0"
| "put_kind Override = 1"
| "put_kind Bind = 2"

definition get_kind :: "nat \<Rightarrow> pci_write_kind" where
  "get_kind n = (if n = 0 then Unbind else if n = 1 then Override else Bind)"

lemma get_put_kind [simp]: "get_kind (put_kind k) = k"
  by (cases k) (simp_all add: get_kind_def)

fun put_op :: "op \<Rightarrow> str" where
  "put_op Ping = put_nat 0"
| "put_op (Exec p as st si t) = put_nat 1 @ put_str p @ put_nat (length as) @ put_all as @ put_bool st @ put_bool si @ put_nat (unat t)"
| "put_op (PciWrite k a) = put_nat 2 @ put_nat (put_kind k) @ put_str a"
| "put_op (LxcConfigAppend n b) = put_nat 3 @ put_str n @ put_str b"
| "put_op (LxcRootfsSet n d) = put_nat 4 @ put_str n @ put_str d"
| "put_op (ConsoleAttach p t) = put_nat 5 @ put_str p @ put_nat (unat t)"
| "put_op (LxcConsoleAttach n t) = put_nat 6 @ put_str n @ put_nat (unat t)"

definition get_op :: "str \<Rightarrow> op" where
  "get_op x =
     (let (tag, r) = get_nat x in
      if tag = 0 then Ping
      else if tag = 1 then
        (let (p, r) = get_str r; (n, r) = get_nat r; (as, r) = get_all n r; (st, r) = get_bool r; (si, r) = get_bool r
         in Exec p as st si (of_nat (fst (get_nat r))))
      else if tag = 2 then (let (k, r) = get_nat r in PciWrite (get_kind k) (fst (get_str r)))
      else if tag = 3 then (let (n, r) = get_str r in LxcConfigAppend n (fst (get_str r)))
      else if tag = 4 then (let (n, r) = get_str r in LxcRootfsSet n (fst (get_str r)))
      else if tag = 5 then (let (p, r) = get_str r in ConsoleAttach p (of_nat (fst (get_nat r))))
      else (let (n, r) = get_str r in LxcConsoleAttach n (of_nat (fst (get_nat r)))))"

lemma get_put_end [simp]: "get_nat (put_nat n) = (n, [])" "get_str (put_str s) = (s, [])"
  using get_put_nat [of n "[]"] get_put_basic(1) [of s "[]"] by simp_all

lemma get_put_op [simp]: "get_op (put_op operation) = operation"
  by (cases operation) (simp_all add: get_op_def)

fun put_frame :: "stream_frame \<Rightarrow> str" where
  "put_frame (Stdin d) = put_nat 0 @ put_str d"
| "put_frame StdinEof = put_nat 1"
| "put_frame (Stdout d) = put_nat 2 @ put_str d"
| "put_frame (Exit code err timed_out) = put_nat 3 @ put_int code @ put_bool timed_out @ put_str err"

definition get_frame :: "str \<Rightarrow> stream_frame" where
  "get_frame x =
     (let (tag, r) = get_nat x in
      if tag = 0 then Stdin (fst (get_str r)) else if tag = 1 then StdinEof
      else if tag = 2 then Stdout (fst (get_str r))
      else (let (code, r) = get_int r; (t, r) = get_bool r in Exit code (fst (get_str r)) t))"

lemma get_put_frame [simp]: "get_frame (put_frame f) = f"
  by (cases f) (simp_all add: get_frame_def)

definition put_response :: "response \<Rightarrow> str" where
  "put_response r = put_bool (resp_ok r) @ put_str (resp_stdout r) @ put_str (resp_stderr r) @
     put_opt put_int (resp_code r) @ put_opt put_str (resp_error_kind r) @ put_opt put_str (resp_error r)"

definition get_response :: "str \<Rightarrow> response" where
  "get_response x =
     (let (ok, r) = get_bool x; (out, r) = get_str r; (err, r) = get_str r; (code, r) = get_opt get_int r;
          (kind, r) = get_opt get_str r
      in \<lparr>resp_ok = ok, resp_stdout = out, resp_stderr = err, resp_code = code, resp_error_kind = kind,
          resp_error = fst (get_opt get_str r)\<rparr>)"

lemma get_put_opt_end [simp]: "(\<And>a r. g (p a @ r) = (a, r)) \<Longrightarrow> get_opt g (put_opt p v) = (v, [])"
  using get_put_opt [of g p v "[]"] by simp

lemma get_put_response [simp]: "get_response (put_response r) = r"
  unfolding put_response_def get_response_def by simp

definition put_message :: "message \<Rightarrow> str" where
  "put_message m = (case m of Reply r \<Rightarrow> CHR ''R'' # put_response r | Frame f \<Rightarrow> CHR ''F'' # put_frame f)"

definition put_request :: "request \<Rightarrow> str" where
  "put_request r = put_nat (unat (req_v r)) @ put_str (req_id r) @ put_op (req_op r)"

definition get_request :: "str \<Rightarrow> request" where
  "get_request x = (let (v, r) = get_nat x; (i, r) = get_str r in \<lparr>req_v = of_nat v, req_id = i, req_op = get_op r\<rparr>)"

lemma get_put_request [simp]: "get_request (put_request r) = r"
  by (simp add: get_request_def put_request_def)

definition wire_codec :: codec where
  "wire_codec = \<lparr>dec_request = (\<lambda>x. Inr (get_request x)), dec_frame = (\<lambda>x. Inr (get_frame (tl x))),
     b64_encode = (\<lambda>x. x), b64_decode = Some\<rparr>"

definition wire_client :: client_codec where
  "wire_client = \<lparr>enc_request = put_request, enc_frame = (\<lambda>f. put_message (Frame f)),
     dec_response = (\<lambda>x. Inr (get_response (tl x))),
     cl_dec_frame = (\<lambda>x. if starts_with x ''F'' then Inr (get_frame (tl x)) else Inl ''no tag''),
     cl_b64_encode = (\<lambda>x. x), cl_b64_decode = Inr\<rparr>"

lemma wire_serde_laws: "serde_laws wire_client wire_codec put_message"
proof -
  have "put_request r \<noteq> []" for r by (simp add: put_request_def put_nat_def)
  then show ?thesis by (simp add: serde_laws_def wire_client_def wire_codec_def put_message_def starts_with_def)
qed

lemma put_lengths:
  "length (put_nat n) = Suc n" "length (put_str s) = Suc (2 * length s)" "length (put_bool b) \<le> 2"
  "length (put_opt put_str v) \<le> 3 + (case v of None \<Rightarrow> 0 | Some a \<Rightarrow> 2 * length a)"
  by (simp_all add: put_nat_def put_str_def put_bool_def put_opt_def split: option.splits)

theorem exec_end_to_end_witness:
  "client_exec wire_client (connected_to wire_client wire_codec put_message \<lparr>allowed_uid = 1000\<rparr> sample_env 1000
      (exec_request ''r1'' ''zfs'' [''list'']) []) ''r1'' ''zfs'' [''list''] = Inr [] \<and>
   answered wire_client wire_codec \<lparr>allowed_uid = 1000\<rparr> sample_env 1000 (exec_request ''r1'' ''zfs'' [''list''])
     = [Spawn ''/usr/sbin/zfs'' [''list''] 300]"
proof -
  have v: "validate_exec ''zfs'' [''list''] = Inr ()" by code_simp
  have p: "program_path ''zfs'' = Some ''/usr/sbin/zfs''" by code_simp
  have i: "valid_id ''r1''" by code_simp
  have f: "fits (enc_request wire_client (exec_request ''r1'' ''zfs'' [''list'']))"
    by (simp add: fits_def wire_client_def exec_request_def make_request_def put_request_def PROTOCOL_VERSION_def
        put_lengths put_bool_def default_timeout_secs_def CONTROL_FRAME_MAX_def)
  have r: "unary_reply_of sample_env ''zfs'' [''list''] = success [] [] 0"
    by (simp add: unary_reply_of_def unary_exec_def p sample_env_def Let_def)
  have fr: "fits (put_message (Reply (unary_reply_of sample_env ''zfs'' [''list''])))"
    by (simp add: r fits_def put_message_def put_response_def success_def put_lengths put_bool_def put_opt_def put_int_def
        CONTROL_FRAME_MAX_def)
  have s: "exec_spec sample_env ''zfs'' [''list''] ''/usr/sbin/zfs'' = Inr []"
    by (simp add: exec_spec_def sample_env_def)
  show ?thesis
    using exec_end_to_end [OF wire_serde_laws _ i f, of 1000 "\<lparr>allowed_uid = 1000\<rparr>" sample_env] v p fr s by simp
qed

theorem streamed_backup_is_complete_witness:
  "client_exec_streamed wire_client (connected_to wire_client wire_codec put_message \<lparr>allowed_uid = 1000\<rparr> sample_env 1000
      (stream_request ''r1'' ''zfs'' [''send'', ''tank/a@b''] False) []) ''r1'' ''zfs'' [''send'', ''tank/a@b''] False []
     = (Inr (), ''data'') \<and>
   (\<exists>chs more. reads sample_env = map ReadOk chs @ ReadOk [] # more \<and> ''data'' = concat chs)"
proof -
  let ?req = "stream_request ''r1'' ''zfs'' [''send'', ''tank/a@b''] False"
  let ?tr = "connected_to wire_client wire_codec put_message \<lparr>allowed_uid = 1000\<rparr> sample_env 1000 ?req []"
  let ?in = "tr_incoming ?tr"
  have i: "valid_id ''r1''" by code_simp
  have f: "fits (enc_request wire_client ?req)"
    by (simp add: fits_def wire_client_def stream_request_def make_request_def put_request_def PROTOCOL_VERSION_def
        put_lengths put_bool_def STREAM_TIMEOUT_SECS_def EXEC_TIMEOUT_CAP_def CONTROL_FRAME_MAX_def)
  have v: "validate_exec ''zfs'' [''send'', ''tank/a@b''] = Inr ()" by code_simp
  have p: "program_path ''zfs'' = Some ''/usr/sbin/zfs''" by code_simp
  have ms: "snd (handle_connection wire_codec \<lparr>allowed_uid = 1000\<rparr> sample_env (Inr 1000)
      (frame_bytes (enc_request wire_client ?req) @ [])) = [Frame (Stdout ''data''), Frame (Exit 0 [] False)]"
    unfolding stream_request_def
    by (subst handle_own_request [OF wire_serde_laws _ i f [unfolded stream_request_def]])
      (simp_all add: v validate_timeout_def STREAM_TIMEOUT_SECS_def EXEC_TIMEOUT_CAP_def stream_exec_def p sample_env_def
        Let_def wire_codec_def trim_def trim_start_def trim_end_def)
  have fits: "fits (put_message (Frame (Stdout ''data'')))" "fits (put_message (Frame (Exit 0 [] False)))"
    by (simp_all add: fits_def put_message_def put_lengths put_int_def put_bool_def CONTROL_FRAME_MAX_def)
  have inc: "?in = frame_bytes (put_message (Frame (Stdout ''data''))) @ frame_bytes (put_message (Frame (Exit 0 [] False))) @ []"
    using ms fits by (simp add: connected_to_def write_json_fits)
  have dec: "cl_dec_frame wire_client (put_message (Frame g)) = Inr g" "put_message (Frame g) \<noteq> []" for g
    using wire_serde_laws by (simp_all add: serde_laws_def)
  have b64: "cl_b64_decode wire_client x = Inr x" for x by (simp add: wire_client_def)
  have rd: "read_json (cl_dec_frame wire_client) (frame_bytes (put_message (Frame g)) @ w) = Inr (g, w)"
    if "fits (put_message (Frame g))" for g w
    by (rule read_json_bytes [OF that]) (rule dec)+
  have loop: "recv_loop wire_client ''zfs'' [''send'', ''tank/a@b''] [] ?in = (Inr (), ''data'')"
    unfolding inc
    by (simp only: recv_loop.simps [of _ _ _ _ "frame_bytes _ @ _"] rd [OF fits(1)] rd [OF fits(2)])
      (simp add: b64 recv_loop.simps [of _ _ _ _ "frame_bytes _"] rd [OF fits(2), of "[]", simplified])
  have run: "client_exec_streamed wire_client ?tr ''r1'' ''zfs'' [''send'', ''tank/a@b''] False [] = (Inr (), ''data'')"
    using loop f by (simp add: client_exec_streamed_def connect_def connected_to_def send_json_def write_json_fits stream_request_def)
  have cut: "?in = take (length ?in) ?in" by simp
  show ?thesis
    using streamed_backup_is_complete [OF wire_serde_laws _ i f cut run] run by auto
qed

theorem restore_feed_complete_or_cut_witness:
  "feed_stdin (dec_frame wire_codec) (b64_decode wire_codec) [True]
     (pump_wire wire_client (pump wire_client [Some ''data'', None])) = [''data'']"
proof -
  have s: "list_all (sendable wire_client) [''data'']" "fits (enc_frame wire_client StdinEof)"
    by (simp_all add: sendable_def CHUNK_PAYLOAD_MAX_def fits_def wire_client_def put_message_def put_lengths CONTROL_FRAME_MAX_def)
  from restore_feed_complete_or_cut [OF wire_serde_laws s, of "[]"] show ?thesis by simp
qed

end
