(* ===== verification/Command.thy ===== *)
theory Command
  imports Broker_Client Service_Base
begin

section \<open>Command routing (src/src/services/command.rs)\<close>

text \<open>
  The one way the services reach the host. \<open>host\<close> is what a sequence of calls sees of it: whether a
  broker socket is configured, the answers that \<open>BrokerClient\<close> returns (\<open>Broker_Client\<close> says what they are)
  or the outcomes of the direct development path, in order, the files that the direct path and the backup
  streams touch, with a schedule of file system faults, and the log of operations asked of the host so far, in the broker's vocabulary. A property about every
  host is a property about every list of answers. Output is the text \<open>from_utf8_lossy\<close> gives.
\<close>

definition COMMAND_TIMEOUT :: nat where
  "COMMAND_TIMEOUT = 300"

datatype direct_outcome =
    DirectTimeout
  | DirectMissing str
  | DirectError str
  | DirectOutput bool str str

text \<open>A streamed command on the direct path, with the bytes that were copied before it ended.\<close>

datatype direct_stream =
    SpawnFailed str
  | CopyTimedOut str
  | CopyFailed str str
  | FlushFailed str str
  | WaitFailed str str
  | Exited str bool str

record host =
  broker_socket :: bool
  broker_answers :: "(broker_error + str) list"
  direct_answers :: "direct_outcome list"
  broker_streams :: "((broker_error + unit) \<times> str) list"
  direct_streams :: "direct_stream list"
  host_files :: "(str \<times> str) list"
  file_errors :: "str option list"
  issued :: "op list"

text \<open>The allowlist of the backend, a second copy of the broker's.\<close>

definition host_program_table :: "(str \<times> str) list" where
  "host_program_table =
    [(''bridge'', ''/usr/sbin/bridge''),
     (''ip'', ''/usr/sbin/ip''),
     (''lxc-cgroup'', ''/usr/bin/lxc-cgroup''),
     (''lxc-console'', ''/usr/bin/lxc-console''),
     (''lxc-create'', ''/usr/bin/lxc-create''),
     (''lxc-destroy'', ''/usr/bin/lxc-destroy''),
     (''lxc-freeze'', ''/usr/bin/lxc-freeze''),
     (''lxc-info'', ''/usr/bin/lxc-info''),
     (''lxc-ls'', ''/usr/bin/lxc-ls''),
     (''lxc-start'', ''/usr/bin/lxc-start''),
     (''lxc-stop'', ''/usr/bin/lxc-stop''),
     (''lxc-unfreeze'', ''/usr/bin/lxc-unfreeze''),
     (''mount'', ''/usr/bin/mount''),
     (''nft'', ''/usr/sbin/nft''),
     (''genisoimage'', ''/usr/bin/genisoimage''),
     (''xorriso'', ''/usr/bin/xorriso''),
     (''qemu-img'', ''/usr/bin/qemu-img''),
     (''smartctl'', ''/usr/sbin/smartctl''),
     (''wipefs'', ''/usr/sbin/wipefs''),
     (''umount'', ''/usr/bin/umount''),
     (''virsh'', ''/usr/bin/virsh''),
     (''zfs'', ''/usr/sbin/zfs''),
     (''zpool'', ''/usr/sbin/zpool'')]"

definition host_program_path :: "str \<Rightarrow> str option" where
  "host_program_path program = map_of host_program_table program"

definition validate_program :: "str \<Rightarrow> str api_result" where
  "validate_program program =
     ok_or (host_program_path program) (internal (''host program `'' @ program @ ''` is not permitted''))"

definition broker_err :: "broker_error \<Rightarrow> app_error" where
  "broker_err e = hypervisor (''root-owned broker request failed: '' @ show_broker_error e)"

subsection \<open>Asking the host\<close>

definition ask :: "op \<Rightarrow> host \<Rightarrow> host" where
  "ask operation h = h\<lparr>issued := issued h @ [operation]\<rparr>"

definition next_broker :: "host \<Rightarrow> (broker_error + str) \<times> host" where
  "next_broker h =
     (case broker_answers h of
        [] \<Rightarrow> (Inl (BrokerUnavailable ''connect timed out''), h)
      | a # as \<Rightarrow> (a, h\<lparr>broker_answers := as\<rparr>))"

definition next_direct :: "host \<Rightarrow> direct_outcome \<times> host" where
  "next_direct h =
     (case direct_answers h of [] \<Rightarrow> (DirectTimeout, h) | a # as \<Rightarrow> (a, h\<lparr>direct_answers := as\<rparr>))"

definition next_file_error :: "host \<Rightarrow> str option \<times> host" where
  "next_file_error h =
     (case file_errors h of [] \<Rightarrow> (None, h) | e # es \<Rightarrow> (e, h\<lparr>file_errors := es\<rparr>))"

definition exec_op :: "str \<Rightarrow> str list \<Rightarrow> op" where
  "exec_op program args = Exec program args False False default_timeout_secs"

definition command_failed :: "str \<Rightarrow> str list \<Rightarrow> str \<Rightarrow> app_error" where
  "command_failed program args err =
     hypervisor (''`'' @ program @ '' '' @ join '' '' args @ ''` failed: '' @ trim err)"

definition timed_out_error :: "str \<Rightarrow> app_error" where
  "timed_out_error what = hypervisor (''`'' @ what @ ''` timed out after '' @ show_nat COMMAND_TIMEOUT @ '' seconds'')"

definition run :: "str \<Rightarrow> str list \<Rightarrow> host \<Rightarrow> str api_result \<times> host" where
  "run program args h =
     (case validate_program program of
        Inl e \<Rightarrow> (Inl e, h)
      | Inr executable \<Rightarrow>
          (let h = ask (exec_op program args) h in
           if broker_socket h then
             (case next_broker h of
                (Inl e, h) \<Rightarrow> (Inl (broker_err e), h)
              | (Inr out, h) \<Rightarrow> (Inr out, h))
           else
             (case next_direct h of
                (DirectTimeout, h) \<Rightarrow> (Inl (timed_out_error executable), h)
              | (DirectMissing e, h) \<Rightarrow> (Inl (hypervisor (''failed to run `'' @ executable @ ''`: '' @ e)), h)
              | (DirectError e, h) \<Rightarrow> (Inl (hypervisor (''failed to run `'' @ executable @ ''`: '' @ e)), h)
              | (DirectOutput ok out err, h) \<Rightarrow>
                  (if ok then Inr out else Inl (command_failed program args err), h))))"

definition run_ok :: "str \<Rightarrow> str list \<Rightarrow> host \<Rightarrow> unit api_result \<times> host" where
  "run_ok program args h = bind_st (run program args h) (\<lambda>_ h. (Inr (), h))"

definition run_optional :: "str \<Rightarrow> str list \<Rightarrow> host \<Rightarrow> str option api_result \<times> host" where
  "run_optional program args h =
     (case validate_program program of
        Inl e \<Rightarrow> (Inl e, h)
      | Inr executable \<Rightarrow>
          (let h = ask (exec_op program args) h in
           if broker_socket h then
             (case next_broker h of
                (Inr out, h) \<Rightarrow> (Inr (Some out), h)
              | (Inl (BrokerSpawnNotFound _), h) \<Rightarrow> (Inr None, h)
              | (Inl e, h) \<Rightarrow> (Inl (broker_err e), h))
           else
             (case next_direct h of
                (DirectOutput ok out err, h) \<Rightarrow>
                  (if ok then Inr (Some out) else Inl (command_failed program args err), h)
              | (DirectMissing _, h) \<Rightarrow> (Inr None, h)
              | (DirectError e, h) \<Rightarrow> (Inl (hypervisor (''failed to run `'' @ program @ ''`: '' @ e)), h)
              | (DirectTimeout, h) \<Rightarrow> (Inl (timed_out_error program), h))))"

subsection \<open>Constrained writes\<close>

definition broker_unit :: "op \<Rightarrow> host \<Rightarrow> unit api_result \<times> host" where
  "broker_unit operation h =
     (case next_broker (ask operation h) of
        (Inl e, h) \<Rightarrow> (Inl (broker_err e), h)
      | (Inr _, h) \<Rightarrow> (Inr (), h))"

text \<open>The direct path reads and writes files of the host; a read of a missing file fails.\<close>

definition read_file :: "str \<Rightarrow> host \<Rightarrow> (str + str) \<times> host" where
  "read_file path h =
     (case next_file_error h of
        (Some e, h) \<Rightarrow> (Inl e, h)
      | (None, h) \<Rightarrow> (ok_or (map_of (host_files h) path) ''No such file or directory (os error 2)'', h))"

definition write_file :: "str \<Rightarrow> str \<Rightarrow> host \<Rightarrow> (str + unit) \<times> host" where
  "write_file path text h =
     (case next_file_error h of
        (Some e, h) \<Rightarrow> (Inl e, h)
      | (None, h) \<Rightarrow> (Inr (), h\<lparr>host_files := AList.update path text (host_files h)\<rparr>))"

definition validated :: "verdict \<Rightarrow> unit api_result" where
  "validated v = (case v of Inl reason \<Rightarrow> Inl (validation (reject_msg reason)) | Inr _ \<Rightarrow> Inr ())"

definition pci_write :: "pci_write_kind \<Rightarrow> str \<Rightarrow> host \<Rightarrow> unit api_result \<times> host" where
  "pci_write kind address h =
     (case validated (validate_pci_address address) of
        Inl e \<Rightarrow> (Inl e, h)
      | Inr _ \<Rightarrow>
          if broker_socket h then broker_unit (PciWrite kind address) h
          else
            (let (path, value) = pci_write_target kind address in
             case write_file path value (ask (PciWrite kind address) h) of
               (Inl e, h) \<Rightarrow> (Inl (hypervisor (''write '' @ path @ '': '' @ e)), h)
             | (Inr _, h) \<Rightarrow> (Inr (), h)))"

definition set_lxc_rootfs :: "str \<Rightarrow> str \<Rightarrow> host \<Rightarrow> unit api_result \<times> host" where
  "set_lxc_rootfs name dataset h =
     (case bind_res (validated (validate_lxc_name name)) (\<lambda>_. validated (validate_zfs_dataset_path dataset)) of
        Inl e \<Rightarrow> (Inl e, h)
      | Inr _ \<Rightarrow>
          if broker_socket h then broker_unit (LxcRootfsSet name dataset) h
          else
            (let path = lxc_config_path name in
             case read_file path (ask (LxcRootfsSet name dataset) h) of
               (Inl e, h) \<Rightarrow> (Inl (hypervisor (''read '' @ path @ '': '' @ e)), h)
             | (Inr text, h) \<Rightarrow>
                 (case rewrite_rootfs dataset text of
                    None \<Rightarrow> (Inl (hypervisor ''container config has no lxc.rootfs.path line to replace''), h)
                  | Some out \<Rightarrow>
                      (case write_file path out h of
                         (Inl e, h) \<Rightarrow> (Inl (hypervisor (''write '' @ path @ '': '' @ e)), h)
                       | (Inr _, h) \<Rightarrow> (Inr (), h)))))"

definition append_lxc_config :: "str \<Rightarrow> str \<Rightarrow> host \<Rightarrow> unit api_result \<times> host" where
  "append_lxc_config name block h =
     (case bind_res (validated (validate_lxc_name name)) (\<lambda>_. validated (validate_lxc_config_block block)) of
        Inl e \<Rightarrow> (Inl e, h)
      | Inr _ \<Rightarrow>
          if broker_socket h then broker_unit (LxcConfigAppend name block) h
          else
            (let path = lxc_config_path name;
                 (existing, h) = read_file path (ask (LxcConfigAppend name block) h);
                 text = (case existing of Inl _ \<Rightarrow> [] | Inr t \<Rightarrow> t)
             in case write_file path (text @ block) h of
                  (Inl e, h) \<Rightarrow> (Inl (hypervisor (''write '' @ path @ '': '' @ e)), h)
                | (Inr _, h) \<Rightarrow> (Inr (), h)))"

subsection \<open>Streams to and from files\<close>

definition next_broker_stream :: "host \<Rightarrow> ((broker_error + unit) \<times> str) \<times> host" where
  "next_broker_stream h =
     (case broker_streams h of
        [] \<Rightarrow> ((Inl (BrokerUnavailable ''connect timed out''), []), h)
      | a # as \<Rightarrow> (a, h\<lparr>broker_streams := as\<rparr>))"

definition next_direct_stream :: "host \<Rightarrow> direct_stream \<times> host" where
  "next_direct_stream h =
     (case direct_streams h of [] \<Rightarrow> (CopyTimedOut [], h) | a # as \<Rightarrow> (a, h\<lparr>direct_streams := as\<rparr>))"

definition set_file :: "str \<Rightarrow> str \<Rightarrow> host \<Rightarrow> host" where
  "set_file path body h = h\<lparr>host_files := AList.update path body (host_files h)\<rparr>"

text \<open>\<open>tokio::fs::remove_file\<close> whose failure is ignored.\<close>

definition remove_file :: "str \<Rightarrow> host \<Rightarrow> host" where
  "remove_file path h =
     (case next_file_error h of
        (Some _, h) \<Rightarrow> h
      | (None, h) \<Rightarrow> h\<lparr>host_files := AList.delete path (host_files h)\<rparr>)"

text \<open>\<open>File::create\<close> truncates; \<open>File::open\<close> fails on a missing file.\<close>

definition create_file :: "str \<Rightarrow> host \<Rightarrow> unit api_result \<times> host" where
  "create_file path h =
     (case write_file path [] h of
        (Inl e, h) \<Rightarrow> (Inl (internal (''create '' @ path @ '': '' @ e)), h)
      | (Inr _, h) \<Rightarrow> (Inr (), h))"

definition open_file :: "str \<Rightarrow> host \<Rightarrow> str api_result \<times> host" where
  "open_file path h =
     (case read_file path h of
        (Inl e, h) \<Rightarrow> (Inl (internal (''open '' @ path @ '': '' @ e)), h)
      | (Inr body, h) \<Rightarrow> (Inr body, h))"

definition stream_op :: "str \<Rightarrow> str list \<Rightarrow> bool \<Rightarrow> op" where
  "stream_op program args with_stdin = Exec program args True with_stdin STREAM_TIMEOUT_SECS"

fun copied_bytes :: "direct_stream \<Rightarrow> str" where
  "copied_bytes (SpawnFailed _) = []"
| "copied_bytes (CopyTimedOut bytes) = bytes"
| "copied_bytes (CopyFailed bytes _) = bytes"
| "copied_bytes (FlushFailed bytes _) = bytes"
| "copied_bytes (WaitFailed bytes _) = bytes"
| "copied_bytes (Exited bytes _ _) = bytes"

text \<open>The error of a direct stream that does not end well, \<open>copying\<close> being what the copy is called in it. A copy
  into standard input has no flush of its own, so that \<open>FlushFailed\<close> does not occur there.\<close>

fun stream_error :: "str \<Rightarrow> str \<Rightarrow> direct_stream \<Rightarrow> app_error option" where
  "stream_error program copying (SpawnFailed e) = Some (hypervisor (''failed to start '' @ program @ '': '' @ e))"
| "stream_error program copying (CopyTimedOut _) = Some (hypervisor (program @ '' stream timed out''))"
| "stream_error program copying (CopyFailed _ e) = Some (internal (copying @ '' stream: '' @ e))"
| "stream_error program copying (FlushFailed _ e) = Some (internal (''flush stream: '' @ e))"
| "stream_error program copying (WaitFailed _ e) = Some (hypervisor (''wait for '' @ program @ '': '' @ e))"
| "stream_error program copying (Exited _ ok err) =
     (if ok then None else Some (hypervisor (program @ '' stream failed: '' @ trim err)))"

fun exited :: "direct_stream \<Rightarrow> bool" where
  "exited (Exited _ _ _) = True"
| "exited _ = False"

fun spawned :: "direct_stream \<Rightarrow> bool" where
  "spawned (SpawnFailed _) = False"
| "spawned _ = True"

definition stream_to_file :: "str \<Rightarrow> str list \<Rightarrow> str \<Rightarrow> host \<Rightarrow> nat api_result \<times> host" where
  "stream_to_file program args path h =
     (if broker_socket h then
        bind_st (create_file path h) (\<lambda>_ h.
          case next_broker_stream (ask (stream_op program args False) h) of
            ((Inl e, bytes), h) \<Rightarrow> (Inl (broker_err e), set_file path bytes h)
          | ((Inr _, bytes), h) \<Rightarrow>
              (case next_file_error (set_file path bytes h) of
                 (Some e, h) \<Rightarrow> (Inl (internal (''stat '' @ path @ '': '' @ e)), h)
               | (None, h) \<Rightarrow> (Inr (length bytes), h)))
      else
        bind_st (validate_program program, h) (\<lambda>_ h.
          let (out, h) = next_direct_stream (ask (stream_op program args False) h) in
          if \<not> spawned out then (Inl (the (stream_error program ''write'' out)), h)
          else
            bind_st (create_file path h) (\<lambda>_ h.
              let h = set_file path (copied_bytes out) h in
              case stream_error program ''write'' out of
                None \<Rightarrow> (Inr (length (copied_bytes out)), h)
              | Some e \<Rightarrow> (Inl e, if exited out then remove_file path h else h))))"

definition stream_from_file :: "str \<Rightarrow> str list \<Rightarrow> str \<Rightarrow> host \<Rightarrow> unit api_result \<times> host" where
  "stream_from_file program args path h =
     (if broker_socket h then
        bind_st (open_file path h) (\<lambda>_ h.
          case next_broker_stream (ask (stream_op program args True) h) of
            ((Inl e, _), h) \<Rightarrow> (Inl (broker_err e), h)
          | ((Inr _, _), h) \<Rightarrow> (Inr (), h))
      else
        bind_st (validate_program program, h) (\<lambda>_ h.
          let (out, h) = next_direct_stream (ask (stream_op program args True) h) in
          if \<not> spawned out then (Inl (the (stream_error program ''read'' out)), h)
          else
            bind_st (open_file path h) (\<lambda>_ h.
              case stream_error program ''read'' out of None \<Rightarrow> (Inr (), h) | Some e \<Rightarrow> (Inl e, h))))"

subsection \<open>Consoles\<close>

definition CONSOLE_IDLE_TIMEOUT_SECS :: u64 where
  "CONSOLE_IDLE_TIMEOUT_SECS = 900"

text \<open>The two halves of a bridge, by where they lead; the descriptors are the environment's.\<close>

datatype console_bridge = BrokerBridge | DirectPty | ChildProcess

definition console_attach :: "str \<Rightarrow> host \<Rightarrow> console_bridge api_result \<times> host" where
  "console_attach pty h =
     (case validated (validate_console_pty pty) of
        Inl e \<Rightarrow> (Inl e, h)
      | Inr _ \<Rightarrow>
          if broker_socket h then
            bind_st (broker_unit (ConsoleAttach pty CONSOLE_IDLE_TIMEOUT_SECS) h) (\<lambda>_ h. (Inr BrokerBridge, h))
          else
            (let h = ask (ConsoleAttach pty CONSOLE_IDLE_TIMEOUT_SECS) h in
             case next_file_error h of
               (Some e, h) \<Rightarrow> (Inl (hypervisor (''open console '' @ pty @ '': '' @ e)), h)
             | (None, h) \<Rightarrow>
                 (case next_file_error h of
                    (Some e, h) \<Rightarrow> (Inl (hypervisor (''open console '' @ pty @ '': '' @ e)), h)
                  | (None, h) \<Rightarrow> (Inr DirectPty, h))))"

definition lxc_console_attach :: "str \<Rightarrow> host \<Rightarrow> console_bridge api_result \<times> host" where
  "lxc_console_attach name h =
     (case validated (validate_lxc_name name) of
        Inl e \<Rightarrow> (Inl e, h)
      | Inr _ \<Rightarrow>
          if broker_socket h then
            bind_st (broker_unit (LxcConsoleAttach name CONSOLE_IDLE_TIMEOUT_SECS) h) (\<lambda>_ h. (Inr BrokerBridge, h))
          else
            bind_st (validate_program ''lxc-console'', h) (\<lambda>_ h.
              case next_direct_stream (ask (LxcConsoleAttach name CONSOLE_IDLE_TIMEOUT_SECS) h) of
                (SpawnFailed e, h) \<Rightarrow> (Inl (hypervisor (''start lxc-console: '' @ e)), h)
              | (_, h) \<Rightarrow> (Inr ChildProcess, h)))"

text \<open>\<open>recv\<close> on what the half has to read: the frames of the broker, or what a read of the descriptor gave
  (\<open>None\<close> for an error). A chunk of the direct halves has at most 16384 bytes.\<close>

definition half_recv :: "client_codec \<Rightarrow> console_bridge \<Rightarrow> str \<Rightarrow> str option \<Rightarrow> str option" where
  "half_recv c bridge frames chunk =
     (case bridge of
        BrokerBridge \<Rightarrow> map_option fst (console_recv c frames)
      | _ \<Rightarrow> (case chunk of None \<Rightarrow> None | Some bytes \<Rightarrow> if bytes = [] then None else Some (take 16384 bytes)))"

definition half_send ::
  "client_codec \<Rightarrow> console_bridge \<Rightarrow> str option list \<Rightarrow> str option \<Rightarrow> str option \<Rightarrow> str \<Rightarrow> unit api_result" where
  "half_send c bridge writes write_error flush_error bytes =
     (case bridge of
        BrokerBridge \<Rightarrow> (case console_send c writes bytes of Inl e \<Rightarrow> Inl (broker_err e) | Inr _ \<Rightarrow> Inr ())
      | _ \<Rightarrow>
          (case write_error of
             Some e \<Rightarrow> Inl (hypervisor (''console write: '' @ e))
           | None \<Rightarrow>
               (case flush_error of Some e \<Rightarrow> Inl (hypervisor (''console flush: '' @ e)) | None \<Rightarrow> Inr ())))"

section \<open>What is asked of the host\<close>

lemma host_program_path_agrees: "host_program_path = program_path"
  by (simp add: host_program_path_def program_path_def host_program_table_def program_table_def fun_eq_iff)

text \<open>
  The contract between a service and the broker: each operation the service asks for passes the broker's
  validation. \<open>log\<close> is where a state of the service keeps the operations asked so far.
\<close>

definition accepted :: "op \<Rightarrow> bool" where
  "accepted operation \<longleftrightarrow> validate_op operation = Inr ()"

locale command_log =
  fixes log :: "'s \<Rightarrow> op list"
    and post :: "op \<Rightarrow> 's \<Rightarrow> 's"
  assumes log_post: "log (post operation s) = log s @ [operation]"
begin

definition only :: "(op \<Rightarrow> bool) \<Rightarrow> 's \<Rightarrow> 'a \<times> 's \<Rightarrow> bool" where
  "only P s m \<longleftrightarrow> (\<exists>ops. log (snd m) = log s @ ops \<and> list_all P ops)"

lemma only_same: "log s' = log s \<Longrightarrow> only P s (x, s')"
  by (simp add: only_def)

lemma only_nothing [simp]: "only P s (x, s)"
  by (simp add: only_same)

lemma only_post: "P operation \<Longrightarrow> only P s (x, post operation s)"
  by (simp add: only_def log_post)

lemma only_result: "only P s (x, s') \<longleftrightarrow> only P s (y, s')"
  by (simp add: only_def)

lemma only_mono: "only P s m \<Longrightarrow> (\<And>operation. P operation \<Longrightarrow> Q operation) \<Longrightarrow> only Q s m"
  unfolding only_def using list.pred_mono_strong by blast

lemma only_trans:
  assumes "only P s (x, s1)" and "only P s1 m"
  shows "only P s m"
proof -
  from assms obtain a b where "log s1 = log s @ a" "list_all P a" "log (snd m) = log s1 @ b" "list_all P b"
    by (auto simp: only_def)
  then show ?thesis unfolding only_def by (intro exI [of _ "a @ b"]) simp
qed

lemma only_bind:
  assumes "only P s m" and "\<And>x s1. m = (Inr x, s1) \<Longrightarrow> only P s1 (f x s1)"
  shows "only P s (bind_st m f)"
proof -
  obtain x s1 where m: "m = (x, s1)" by fastforce
  show ?thesis
  proof (cases x)
    case (Inl e)
    with assms(1) m show ?thesis by (auto simp: only_def)
  next
    case (Inr v)
    with assms m show ?thesis by (auto intro: only_trans)
  qed
qed

definition script :: "op list \<Rightarrow> 's \<Rightarrow> ('e + 'a) \<times> 's \<Rightarrow> bool" where
  "script ops s m \<longleftrightarrow>
     (\<exists>ran. log (snd m) = log s @ ran \<and> prefix ran ops \<and> (\<forall>x. fst m = Inr x \<longrightarrow> ran = ops))"

lemma script_Inr: "script ops s (Inr x, s') \<longleftrightarrow> log s' = log s @ ops"
  by (auto simp: script_def)

lemma script_Inl: "script ops s (Inl e, s') \<longleftrightarrow> (\<exists>ran. log s' = log s @ ran \<and> prefix ran ops)"
  by (auto simp: script_def)

lemma script_nothing [simp]: "script [] s (x, s)" "script ops s (Inl e, s)"
  by (auto simp: script_def)

lemma script_step: "log s' = log s @ [operation] \<Longrightarrow> script [operation] s (x, s')"
  by (auto simp: script_def)

lemma script_bind:
  assumes "script ops1 s m" and "\<And>x s1. m = (Inr x, s1) \<Longrightarrow> script ops2 s1 (f x s1)"
  shows "script (ops1 @ ops2) s (bind_st m f)"
proof -
  obtain x s1 where m: "m = (x, s1)" by fastforce
  show ?thesis
  proof (cases x)
    case (Inl e)
    with assms(1) m show ?thesis by (auto simp: script_Inl intro: prefix_prefix)
  next
    case (Inr v)
    obtain y s2 where f: "f v s1 = (y, s2)" by fastforce
    from assms m Inr f have "log s1 = log s @ ops1" "script ops2 s1 (y, s2)" by (auto simp: script_Inr)
    then show ?thesis using m Inr f by (cases y) (auto simp: script_Inr script_Inl)
  qed
qed

definition asks :: "'s \<Rightarrow> 'a \<times> 's \<Rightarrow> bool" where
  "asks s m \<longleftrightarrow> only accepted s m"

lemma asks_iff: "asks s m \<longleftrightarrow> (\<exists>ops. log (snd m) = log s @ ops \<and> list_all accepted ops)"
  by (simp add: asks_def only_def)

lemma asks_nothing [simp]: "asks s (x, s)"
  by (simp add: asks_def)

lemma asks_result: "asks s (x, s') \<longleftrightarrow> asks s (y, s')"
  by (simp add: asks_iff)

lemmas asks_post = only_post [where P = accepted, folded asks_def]
  and asks_same = only_same [where P = accepted, folded asks_def]
  and asks_trans = only_trans [where P = accepted, folded asks_def]
  and asks_bind = only_bind [where P = accepted, folded asks_def]

end

interpretation hl: command_log issued ask
  by unfold_locales (simp add: ask_def)

definition asked_since :: "host \<Rightarrow> host \<Rightarrow> op list" where
  "asked_since h h' = drop (length (issued h)) (issued h')"

lemma only_asked_since: "hl.only P h m \<Longrightarrow> list_all P (asked_since h (snd m))"
  by (auto simp: hl.only_def asked_since_def)

lemma next_broker_issued: "next_broker h = (x, h') \<Longrightarrow> issued h' = issued h \<and> broker_socket h' = broker_socket h"
  by (auto simp: next_broker_def split: list.splits)

lemma next_direct_issued: "next_direct h = (x, h') \<Longrightarrow> issued h' = issued h \<and> broker_socket h' = broker_socket h"
  by (auto simp: next_direct_def split: list.splits)

lemma next_file_error_issued: "next_file_error h = (x, h') \<Longrightarrow> issued h' = issued h \<and> host_files h' = host_files h"
  by (auto simp: next_file_error_def split: list.splits)

lemma ask_fields [simp]: "issued (ask operation h) = issued h @ [operation]" "broker_socket (ask operation h) = broker_socket h"
  "host_files (ask operation h) = host_files h"
  by (simp_all add: ask_def)

lemma run_issued:
  assumes "run program args h = (x, h')"
  shows "issued h' = issued h @ (if host_program_path program = None then [] else [exec_op program args])"
proof (cases "host_program_path program")
  case None
  with assms show ?thesis by (simp add: run_def validate_program_def)
next
  case (Some exe)
  obtain a h1 where a: "next_broker (ask (exec_op program args) h) = (a, h1)" by fastforce
  obtain b h2 where b: "next_direct (ask (exec_op program args) h) = (b, h2)" by fastforce
  from assms Some a b next_broker_issued [OF a] next_direct_issued [OF b] show ?thesis
    by (auto simp: run_def validate_program_def Let_def split: if_splits sum.splits direct_outcome.splits)
qed

lemma run_optional_issued:
  assumes "run_optional program args h = (x, h')"
  shows "issued h' = issued h @ (if host_program_path program = None then [] else [exec_op program args])"
proof (cases "host_program_path program")
  case None
  with assms show ?thesis by (simp add: run_optional_def validate_program_def)
next
  case (Some exe)
  obtain a h1 where a: "next_broker (ask (exec_op program args) h) = (a, h1)" by fastforce
  obtain b h2 where b: "next_direct (ask (exec_op program args) h) = (b, h2)" by fastforce
  from assms Some a b next_broker_issued [OF a] next_direct_issued [OF b] show ?thesis
    by (auto simp: run_optional_def validate_program_def Let_def
        split: if_splits sum.splits broker_error.splits direct_outcome.splits)
qed

lemma run_ok_issued:
  assumes "run_ok program args h = (x, h')"
  shows "issued h' = issued h @ (if host_program_path program = None then [] else [exec_op program args])"
proof -
  obtain y h1 where "run program args h = (y, h1)" by fastforce
  with run_issued [OF this] assms show ?thesis by (cases y) (auto simp: run_ok_def)
qed

lemma accepted_exec: "accepted (exec_op program args) \<longleftrightarrow> validate_exec program args = Inr ()"
  by (simp add: accepted_def exec_op_def res_simps default_timeout_valid)

lemma exec_issued_asks:
  assumes "validate_exec program args = Inr ()"
    and "issued (snd m) = issued h @ (if host_program_path program = None then [] else [exec_op program args])"
  shows "hl.asks h m"
  unfolding hl.asks_iff using assms
  by (intro exI [of _ "if host_program_path program = None then [] else [exec_op program args]"]) (simp add: accepted_exec)

lemma run_asks:
  assumes "validate_exec program args = Inr ()"
  shows "hl.asks h (run program args h)" "hl.asks h (run_ok program args h)" "hl.asks h (run_optional program args h)"
proof -
  obtain x h' where "run program args h = (x, h')" by fastforce
  then show "hl.asks h (run program args h)"
    by (intro exec_issued_asks [OF assms]) (simp add: run_issued)
  obtain y h2 where "run_ok program args h = (y, h2)" by fastforce
  then show "hl.asks h (run_ok program args h)"
    by (intro exec_issued_asks [OF assms]) (simp add: run_ok_issued)
  obtain z h3 where "run_optional program args h = (z, h3)" by fastforce
  then show "hl.asks h (run_optional program args h)"
    by (intro exec_issued_asks [OF assms]) (simp add: run_optional_issued)
qed

text \<open>The constrained writes check what they ask for themselves.\<close>

lemma broker_unit_asks: "accepted operation \<Longrightarrow> hl.asks h (broker_unit operation h)"
proof -
  assume ok: "accepted operation"
  obtain x h1 where n: "next_broker (ask operation h) = (x, h1)" by fastforce
  then have "issued h1 = issued h @ [operation]" using next_broker_issued by fastforce
  with n ok show ?thesis
    unfolding hl.asks_iff by (intro exI [of _ "[operation]"]) (auto simp: broker_unit_def split: sum.splits)
qed

lemma read_file_issued: "read_file path h = (x, h') \<Longrightarrow> issued h' = issued h"
  using next_file_error_issued by (fastforce simp: read_file_def split: option.splits prod.splits)

lemma write_file_issued: "write_file path body h = (x, h') \<Longrightarrow> issued h' = issued h"
  using next_file_error_issued by (fastforce simp: write_file_def split: option.splits prod.splits)

lemma validated_Inr: "validated v = Inr u \<longleftrightarrow> v = Inr ()"
  by (auto simp: validated_def split: sum.splits)

lemma write_asks:
  assumes "accepted operation" and "issued h1 = issued h @ [operation]"
  shows "hl.asks h (case write_file path body h1 of (Inl e, h) \<Rightarrow> (f e, h) | (Inr _, h) \<Rightarrow> (g, h))"
  using write_file_issued [of path body h1] assms
  by (auto simp: hl.asks_iff split: prod.splits sum.splits intro!: exI [of _ "[operation]"])

subsection \<open>What the commands leave unchanged\<close>

lemma next_files:
  "next_broker h = (x, h') \<Longrightarrow> host_files h' = host_files h"
  "next_direct h = (y, h') \<Longrightarrow> host_files h' = host_files h"
  "next_broker_stream h = (z, h') \<Longrightarrow> host_files h' = host_files h \<and> issued h' = issued h"
  "next_direct_stream h = (w, h') \<Longrightarrow> host_files h' = host_files h \<and> issued h' = issued h"
  by (auto simp: next_broker_def next_direct_def next_broker_stream_def next_direct_stream_def split: list.splits)

lemma run_optional_files: "run_optional program args h = (x, h') \<Longrightarrow> host_files h' = host_files h"
  using next_files(1) [of "ask (exec_op program args) h"] next_files(2) [of "ask (exec_op program args) h"]
  by (auto simp: run_optional_def Let_def split: sum.splits prod.splits if_splits broker_error.splits direct_outcome.splits)

lemma run_files: "run program args h = (x, h') \<Longrightarrow> host_files h' = host_files h"
  using next_files(1) [of "ask (exec_op program args) h"] next_files(2) [of "ask (exec_op program args) h"]
  by (auto simp: run_def Let_def split: sum.splits prod.splits if_splits direct_outcome.splits)

lemma run_ok_files: "run_ok program args h = (x, h') \<Longrightarrow> host_files h' = host_files h"
  using run_files by (fastforce simp: run_ok_def elim!: bind_st_cases)

lemma open_file_ok:
  "open_file path h = (x, h') \<Longrightarrow> host_files h' = host_files h \<and> issued h' = issued h \<and>
     (\<forall>body. x = Inr body \<longrightarrow> map_of (host_files h) path = Some body)"
  using next_file_error_issued [of h]
  by (auto simp: open_file_def read_file_def res_simps split: prod.splits option.splits sum.splits)

lemma only_run:
  assumes "P (exec_op program args)"
  shows "hl.only P h (run_optional program args h)" "hl.only P h (run_ok program args h)" "hl.only P h (run program args h)"
proof -
  have r: "hl.only P h m" if "issued (snd m) = issued h @ (if host_program_path program = None then [] else [exec_op program args])"
    for m :: "'c \<times> host"
    using assms that unfolding hl.only_def
    by (intro exI [of _ "if host_program_path program = None then [] else [exec_op program args]"]) simp
  show "hl.only P h (run_optional program args h)" by (rule r) (metis run_optional_issued prod.collapse)
  show "hl.only P h (run_ok program args h)" by (rule r) (metis run_ok_issued prod.collapse)
  show "hl.only P h (run program args h)" by (rule r) (metis run_issued prod.collapse)
qed

lemma run_script:
  assumes "host_program_path program \<noteq> None"
  shows "hl.script [exec_op program args] h (run_ok program args h)" "hl.script [exec_op program args] h (run_optional program args h)"
    "hl.script [exec_op program args] h (run program args h)"
proof -
  obtain x h1 y h2 z h3 where r: "run_ok program args h = (x, h1)" "run_optional program args h = (y, h2)" "run program args h = (z, h3)"
    by fastforce
  show "hl.script [exec_op program args] h (run_ok program args h)" "hl.script [exec_op program args] h (run_optional program args h)"
    "hl.script [exec_op program args] h (run program args h)"
    using r run_ok_issued [OF r(1)] run_optional_issued [OF r(2)] run_issued [OF r(3)] assms
    by (auto intro: hl.script_step)
qed

lemma stream_from_file_only:
  assumes "P (stream_op program args True)"
  shows "hl.only P h (stream_from_file program args path h)"
proof -
  have n: "issued (snd (next_broker_stream h')) = issued h'" "issued (snd (next_direct_stream h')) = issued h'" for h'
    by (metis next_files(3,4) prod.collapse)+
  have o: "issued (snd (open_file path h')) = issued h'" for h' by (metis open_file_ok prod.collapse)
  have "\<exists>ops. issued (snd (stream_from_file program args path h)) = issued h @ ops \<and> set ops \<subseteq> {stream_op program args True}"
  proof (cases "broker_socket h")
    case True
    obtain y h1 where f: "open_file path h = (y, h1)" by fastforce
    obtain a b h2 where s: "next_broker_stream (ask (stream_op program args True) h1) = ((a, b), h2)" by (metis prod.collapse)
    have "issued h1 = issued h" "issued h2 = issued h1 @ [stream_op program args True]"
      using o [of h] n(1) [of "ask (stream_op program args True) h1"] f s by simp_all
    with True f s show ?thesis by (cases y; cases a) (auto simp: stream_from_file_def)
  next
    case False
    obtain a h1 where s: "next_direct_stream (ask (stream_op program args True) h) = (a, h1)" by fastforce
    obtain y h2 where f: "open_file path h1 = (y, h2)" by fastforce
    have "issued h1 = issued h @ [stream_op program args True]" "issued h2 = issued h1"
      using o [of h1] n(2) [of "ask (stream_op program args True) h"] f s by simp_all
    with False f s show ?thesis
      by (cases "validate_program program"; cases y)
        (auto simp: stream_from_file_def Let_def split: option.splits)
  qed
  then obtain ops where "issued (snd (stream_from_file program args path h)) = issued h @ ops" "set ops \<subseteq> {stream_op program args True}"
    by blast
  with assms show ?thesis unfolding hl.only_def by (intro exI [of _ ops]) (auto simp: list_all_iff)
qed

end
