(* ===== verification/Net_Text.thy ===== *)
theory Net_Text
  imports Service_Base
begin

section \<open>Numbers and addresses from text (the parsers of the standard library)\<close>

text \<open>
  \<open>FromStr\<close> of the integer types and of \<open>IpAddr\<close>, as the services use them, and \<open>ensure_safe_cidr\<close>
  (src/src/services/mod.rs), which guards every address before it reaches a command line or an nftables batch.
  A parser of the address grammar takes the remaining input and gives the value and what is left, or
  \<open>None\<close> and no progress (\<open>read_atomically\<close>).
\<close>

subsection \<open>Integers\<close>

definition dec_value :: "str \<Rightarrow> nat" where
  "dec_value ds = foldl (\<lambda>n d. 10 * n + (byte d - 48)) 0 ds"

text \<open>An unsigned type: an optional plus sign and at least one digit.\<close>

definition parse_unsigned :: "nat \<Rightarrow> str \<Rightarrow> nat option" where
  "parse_unsigned limit s =
     (let ds = (if starts_with s ''+'' then tl s else s) in
      if ds = [] \<or> \<not> list_all is_ascii_digit ds \<or> limit < dec_value ds then None else Some (dec_value ds))"

definition parse_u8 :: "str \<Rightarrow> nat option" where
  "parse_u8 = parse_unsigned 255"

definition parse_u64 :: "str \<Rightarrow> nat option" where
  "parse_u64 = parse_unsigned (2 ^ 64 - 1)"

definition parse_i64 :: "str \<Rightarrow> int option" where
  "parse_i64 s =
     (let neg = starts_with s ''-''; ds = (if neg \<or> starts_with s ''+'' then tl s else s);
          v = (if neg then - int (dec_value ds) else int (dec_value ds))
      in if ds = [] \<or> \<not> list_all is_ascii_digit ds \<or> v < - (2 ^ 63) \<or> 2 ^ 63 \<le> v then None else Some v)"

subsection \<open>Addresses\<close>

definition read_given_char :: "char \<Rightarrow> str \<Rightarrow> str option" where
  "read_given_char d s = (case s of c # r \<Rightarrow> if c = d then Some r else None | [] \<Rightarrow> None)"

definition digit_of :: "nat \<Rightarrow> char \<Rightarrow> nat option" where
  "digit_of radix c =
     (if is_ascii_digit c then Some (byte c - 48)
      else if radix = 16 \<and> 97 \<le> byte c \<and> byte c \<le> 102 then Some (byte c - 87)
      else if radix = 16 \<and> 65 \<le> byte c \<and> byte c \<le> 70 then Some (byte c - 55)
      else None)"

definition is_digit_of :: "nat \<Rightarrow> char \<Rightarrow> bool" where
  "is_digit_of radix c \<longleftrightarrow> digit_of radix c \<noteq> None"

definition read_number :: "nat \<Rightarrow> nat \<Rightarrow> bool \<Rightarrow> nat \<Rightarrow> str \<Rightarrow> (nat \<times> str) option" where
  "read_number radix max_digits allow_zero_prefix limit s =
     (let ds = takeWhile (is_digit_of radix) s;
          v = foldl (\<lambda>n d. radix * n + the (digit_of radix d)) 0 ds
      in if ds = [] \<or> max_digits < length ds \<or> (\<not> allow_zero_prefix \<and> starts_with s ''0'' \<and> 1 < length ds) \<or> limit < v
         then None else Some (v, drop (length ds) s))"

definition read_separator :: "char \<Rightarrow> nat \<Rightarrow> (str \<Rightarrow> ('a \<times> str) option) \<Rightarrow> str \<Rightarrow> ('a \<times> str) option" where
  "read_separator sep i inner s = (if 0 < i then Option.bind (read_given_char sep s) inner else inner s)"

definition read_octet :: "nat \<Rightarrow> str \<Rightarrow> (nat \<times> str) option" where
  "read_octet i = read_separator (CHR ''.'') i (read_number 10 3 False 255)"

definition read_ipv4_addr :: "str \<Rightarrow> (nat list \<times> str) option" where
  "read_ipv4_addr s =
     Option.bind (read_octet 0 s) (\<lambda>(a, s).
     Option.bind (read_octet 1 s) (\<lambda>(b, s).
     Option.bind (read_octet 2 s) (\<lambda>(c, s).
     Option.bind (read_octet 3 s) (\<lambda>(d, s). Some ([a, b, c, d], s)))))"

function read_groups :: "nat \<Rightarrow> nat \<Rightarrow> str \<Rightarrow> nat list \<times> bool \<times> str" where
  "read_groups limit i s =
     (if limit \<le> i then ([], False, s)
      else case (if Suc i < limit then read_separator (CHR '':'') i read_ipv4_addr s else None) of
             Some (octets, r) \<Rightarrow>
               ([256 * octets ! 0 + octets ! 1, 256 * octets ! 2 + octets ! 3], True, r)
           | None \<Rightarrow>
               (case read_separator (CHR '':'') i (read_number 16 4 True 65535) s of
                  None \<Rightarrow> ([], False, s)
                | Some (g, r) \<Rightarrow> (let (gs, v4, r) = read_groups limit (Suc i) r in (g # gs, v4, r))))"
  by pat_completeness auto
termination
  by (relation "measure (\<lambda>(limit, i, _). limit - i)") auto

declare read_groups.simps [simp del]

definition read_ipv6_addr :: "str \<Rightarrow> (nat list \<times> str) option" where
  "read_ipv6_addr s =
     (let (head, head_ipv4, r) = read_groups 8 0 s in
      if length head = 8 then Some (head, r)
      else if head_ipv4 then None
      else Option.bind (read_given_char (CHR '':'') r) (\<lambda>r.
           Option.bind (read_given_char (CHR '':'') r) (\<lambda>r.
             let (tail, _, r) = read_groups (8 - (length head + 1)) 0 r
             in Some (head @ replicate (8 - length head - length tail) 0 @ tail, r))))"

datatype parsed_ip = ParsedV4 "nat list" | ParsedV6 "nat list"

definition read_ip_addr :: "str \<Rightarrow> (parsed_ip \<times> str) option" where
  "read_ip_addr s =
     (case read_ipv4_addr s of
        Some (os, r) \<Rightarrow> Some (ParsedV4 os, r)
      | None \<Rightarrow> map_option (\<lambda>(gs, r). (ParsedV6 gs, r)) (read_ipv6_addr s))"

definition parse_ip :: "str \<Rightarrow> parsed_ip option" where
  "parse_ip s = (case read_ip_addr s of Some (ip, []) \<Rightarrow> Some ip | _ \<Rightarrow> None)"

fun is_v4 :: "parsed_ip \<Rightarrow> bool" where
  "is_v4 (ParsedV4 _) \<longleftrightarrow> True"
| "is_v4 (ParsedV6 _) \<longleftrightarrow> False"

subsection \<open>CIDR\<close>

definition ensure_safe_cidr :: "str \<Rightarrow> str \<Rightarrow> str api_result" where
  "ensure_safe_cidr cidr field =
     (case split_once (CHR ''/'') cidr of
        None \<Rightarrow> Inl (validation (field @ '' must be an address in CIDR notation''))
      | Some (address, prfx) \<Rightarrow>
          (case parse_ip address of
             None \<Rightarrow> Inl (validation (field @ '' contains an invalid address''))
           | Some ip \<Rightarrow>
               (case parse_u8 prfx of
                  None \<Rightarrow> Inl (validation (field @ '' contains an invalid prefix''))
                | Some n \<Rightarrow>
                    if (if is_v4 ip then 32 else 128) < n
                    then Inl (validation (field @ '' contains an invalid prefix''))
                    else Inr cidr)))"

subsection \<open>What a parsed address can contain\<close>

definition addr_byte :: "char \<Rightarrow> bool" where
  "addr_byte b \<longleftrightarrow> is_ascii_hexdigit b \<or> b = CHR '':'' \<or> b = CHR ''.''"

text \<open>A reader that consumes only such bytes.\<close>

definition consumes :: "(str \<Rightarrow> ('a \<times> str) option) \<Rightarrow> bool" where
  "consumes f \<longleftrightarrow> (\<forall>s v r. f s = Some (v, r) \<longrightarrow> (\<exists>used. s = used @ r \<and> list_all addr_byte used))"

lemma consumesD: "consumes f \<Longrightarrow> f s = Some (v, r) \<Longrightarrow> \<exists>used. s = used @ r \<and> list_all addr_byte used"
  by (simp add: consumes_def)

lemma digit_addr_byte: "is_digit_of radix b \<Longrightarrow> addr_byte b"
  by (auto simp: is_digit_of_def digit_of_def addr_byte_def is_ascii_hexdigit_def split: if_splits)

lemma read_number_consumes: "consumes (read_number radix m z limit)"
  unfolding consumes_def
proof (intro allI impI)
  fix s v r assume "read_number radix m z limit s = Some (v, r)"
  then have "r = drop (length (takeWhile (is_digit_of radix) s)) s"
    by (auto simp: read_number_def Let_def split: if_splits)
  then have "s = takeWhile (is_digit_of radix) s @ r"
    by (metis dropWhile_eq_drop takeWhile_dropWhile_id)
  moreover have "list_all addr_byte (takeWhile (is_digit_of radix) s)"
    by (auto simp: list_all_iff dest!: set_takeWhileD intro: digit_addr_byte)
  ultimately show "\<exists>used. s = used @ r \<and> list_all addr_byte used" by blast
qed

lemma read_separator_consumes:
  assumes "consumes f" and "addr_byte sep"
  shows "consumes (read_separator sep i f)"
  unfolding consumes_def
proof (intro allI impI)
  fix s v r assume a: "read_separator sep i f s = Some (v, r)"
  show "\<exists>used. s = used @ r \<and> list_all addr_byte used"
  proof (cases "0 < i")
    case True
    with a obtain s1 where s1: "s = sep # s1" "f s1 = Some (v, r)"
      by (auto simp: read_separator_def read_given_char_def Option.bind_eq_Some_conv split: list.splits if_splits)
    with consumesD [OF assms(1) s1(2)] obtain used where "s1 = used @ r" "list_all addr_byte used" by blast
    with s1 assms(2) show ?thesis by (intro exI [of _ "sep # used"]) simp
  next
    case False
    with a show ?thesis using consumesD [OF assms(1)] by (simp add: read_separator_def)
  qed
qed

lemma consumes_bind:
  assumes "consumes f" and "\<And>v. consumes (g v)"
  shows "consumes (\<lambda>s. Option.bind (f s) (\<lambda>(v, s). g v s))"
  unfolding consumes_def
proof (intro allI impI)
  fix s v r assume "Option.bind (f s) (\<lambda>(v, s). g v s) = Some (v, r)"
  then obtain w s1 where w: "f s = Some (w, s1)" "g w s1 = Some (v, r)"
    by (auto simp: Option.bind_eq_Some_conv)
  from consumesD [OF assms(1) w(1)] consumesD [OF assms(2) w(2)] obtain a b where
    "s = a @ s1" "list_all addr_byte a" "s1 = b @ r" "list_all addr_byte b" by blast
  then show "\<exists>used. s = used @ r \<and> list_all addr_byte used" by (intro exI [of _ "a @ b"]) simp
qed

lemma consumes_Some: "consumes (\<lambda>s. Some (v, s))"
  by (simp add: consumes_def)

lemma separators: "addr_byte (CHR ''.'')" "addr_byte (CHR '':'')"
  by (simp_all add: addr_byte_def)

lemma read_ipv4_consumes: "consumes read_ipv4_addr"
  unfolding read_ipv4_addr_def read_octet_def
  by (intro consumes_bind consumes_Some read_separator_consumes read_number_consumes separators)

lemma read_groups_consumes:
  "read_groups limit i s = (gs, v4, r) \<Longrightarrow> \<exists>used. s = used @ r \<and> list_all addr_byte used"
proof (induction limit i s arbitrary: gs v4 r rule: read_groups.induct)
  case (1 limit i s)
  note step = read_groups.simps [of limit i s]
  consider (stop) "r = s"
    | (v4) os where "read_separator (CHR '':'') i read_ipv4_addr s = Some (os, r)"
    | (group) g s1 gs' where "\<not> limit \<le> i" "(if Suc i < limit then read_separator (CHR '':'') i read_ipv4_addr s else None) = None"
        "read_separator (CHR '':'') i (read_number 16 4 True 65535) s = Some (g, s1)"
        "read_groups limit (Suc i) s1 = (gs', v4, r)"
    using 1(2) unfolding step by (auto split: if_splits option.splits prod.splits)
  then show ?case
  proof cases
    case stop
    then show ?thesis by (intro exI [of _ "[]"]) simp
  next
    case v4
    then show ?thesis
      using consumesD [OF read_separator_consumes [OF read_ipv4_consumes separators(2)]] by blast
  next
    case group
    from consumesD [OF read_separator_consumes [OF read_number_consumes separators(2)] group(3)]
    obtain a where a: "s = a @ s1" "list_all addr_byte a" by blast
    from "1.IH" [OF group(1,2,3) refl group(4)] obtain b where "s1 = b @ r" "list_all addr_byte b" by blast
    with a show ?thesis by (intro exI [of _ "a @ b"]) simp
  qed
qed

lemma read_ipv6_consumes: "consumes read_ipv6_addr"
  unfolding consumes_def
proof (intro allI impI)
  fix s v r assume a: "read_ipv6_addr s = Some (v, r)"
  obtain head h4 r1 where h: "read_groups 8 0 s = (head, h4, r1)" by (metis prod_cases3)
  from read_groups_consumes [OF h] obtain p where p: "s = p @ r1" "list_all addr_byte p" by blast
  show "\<exists>used. s = used @ r \<and> list_all addr_byte used"
  proof (cases "length head = 8")
    case True
    with a h p show ?thesis by (auto simp: read_ipv6_addr_def)
  next
    case False
    with a h obtain r2 where r2: "r1 = CHR '':'' # CHR '':'' # r2"
      and g: "snd (snd (read_groups (8 - (length head + 1)) 0 r2)) = r"
      by (auto simp: read_ipv6_addr_def Option.bind_eq_Some_conv read_given_char_def split: if_splits list.splits prod.splits)
    obtain tail t4 where "read_groups (8 - (length head + 1)) 0 r2 = (tail, t4, r)"
      using g by (cases "read_groups (8 - (length head + 1)) 0 r2") auto
    from read_groups_consumes [OF this] obtain q where "r2 = q @ r" "list_all addr_byte q" by blast
    with p r2 show ?thesis by (intro exI [of _ "p @ ''::'' @ q"]) (simp add: separators)
  qed
qed

lemma parse_ip_bytes: "parse_ip s = Some ip \<Longrightarrow> list_all addr_byte s"
  using consumesD [OF read_ipv4_consumes, of s] consumesD [OF read_ipv6_consumes, of s]
  by (fastforce simp: parse_ip_def read_ip_addr_def split: option.splits prod.splits list.splits)

lemma parse_ip_not_Nil: "parse_ip s = Some ip \<Longrightarrow> s \<noteq> []"
  by (rule notI) (simp add: parse_ip_def read_ip_addr_def read_ipv4_addr_def read_octet_def read_separator_def
      read_number_def read_ipv6_addr_def read_groups.simps [of 8 0 "[]"] read_given_char_def)

lemma parse_unsigned_bytes: "parse_unsigned n s = Some v \<Longrightarrow> list_all (\<lambda>b. is_ascii_digit b \<or> b = CHR ''+'') s \<and> s \<noteq> [] \<and> v \<le> n"
  by (cases s) (auto simp: parse_unsigned_def Let_def starts_with_def list_all_iff split: if_splits)

lemma ensure_safe_cidr_ok:
  assumes "ensure_safe_cidr cidr field = Inr x"
  shows "x = cidr \<and> list_all (\<lambda>b. addr_byte b \<or> b = CHR ''/'' \<or> b = CHR ''+'') cidr \<and> \<not> starts_with cidr ''/'' \<and>
    (\<exists>address prfx ip. cidr = address @ ''/'' @ prfx \<and> CHR ''/'' \<notin> set address \<and> parse_ip address = Some ip)"
proof -
  from assms obtain address prfx ip n where c: "split_once (CHR ''/'') cidr = Some (address, prfx)"
      "parse_ip address = Some ip" "parse_u8 prfx = Some n" "x = cidr"
    by (auto simp: ensure_safe_cidr_def split: option.splits if_splits)
  then have e: "cidr = address @ ''/'' @ prfx" "CHR ''/'' \<notin> set address" by (simp_all add: str_simps)
  have "list_all (\<lambda>b. is_ascii_digit b \<or> b = CHR ''+'') prfx"
    using parse_unsigned_bytes c(3) by (simp add: parse_u8_def)
  then have "list_all (\<lambda>b. addr_byte b \<or> b = CHR ''/'' \<or> b = CHR ''+'') cidr"
    using parse_ip_bytes [OF c(2)] e by (auto simp: list_all_iff addr_byte_def is_ascii_hexdigit_def)
  moreover have "\<not> starts_with cidr ''/''" using e parse_ip_not_Nil [OF c(2)] by (cases address) (auto simp: starts_with_def)
  ultimately show ?thesis using c e by blast
qed

subsection \<open>Printed numbers are read back\<close>

lemma dec_value_snoc: "dec_value (ds @ [d]) = 10 * dec_value ds + (byte d - 48)"
  by (simp add: dec_value_def)

lemma dec_value_show [simp]: "dec_value (show_nat n) = n"
proof (induction n rule: show_nat.induct)
  case (1 n)
  show ?case
  proof (cases "n < 10")
    case True
    then show ?thesis by (simp add: show_nat.simps [of n] dec_value_def)
  next
    case False
    with 1 show ?thesis by (simp add: show_nat.simps [of n] dec_value_snoc)
  qed
qed

lemma show_nat_not_Nil [simp]: "show_nat n \<noteq> []"
  by (subst show_nat.simps) simp

lemma digit_alnum: "is_ascii_digit b \<Longrightarrow> is_ascii_alphanumeric b"
  by (simp add: is_ascii_alphanumeric_def)

lemma digits_trim: "list_all is_ascii_digit s \<Longrightarrow> trim s = s"
  by (rule trim_tag) (auto simp: list_all_iff tag_byte_def digit_alnum)

lemma show_nat_all: "list_all is_ascii_digit (show_nat n)"
  using show_nat_digits by (auto simp: list_all_iff)

lemma show_nat_no_sign: "\<not> starts_with (show_nat n) ''+''" "\<not> starts_with (show_nat n) ''-''"
proof -
  have "byte (CHR ''+'') = 43" "byte (CHR ''-'') = 45" by (simp_all add: byte_def)
  then show "\<not> starts_with (show_nat n) ''+''" "\<not> starts_with (show_nat n) ''-''"
    using show_nat_all [of n] by (cases "show_nat n"; auto simp: starts_with_def is_ascii_digit_def)+
qed

lemma parse_show_i64: "n < 2 ^ 63 \<Longrightarrow> parse_i64 (trim (show_nat n)) = Some (int n)"
  by (simp add: digits_trim [OF show_nat_all] parse_i64_def show_nat_no_sign show_nat_all Let_def)

end
