(* ===== verification/Zfs.thy ===== *)
theory Zfs
  imports Command Net_Text
begin

section \<open>ZFS storage (src/src/services/zfs.rs)\<close>

text \<open>
  Pools, datasets, snapshots, clones and raw disks. The service keeps no state; each operation talks to the
  host through \<open>Command\<close> and parses what comes back. What it reads of sysfs and of \<open>/proc/mounts\<close> is
  \<open>block_env\<close>; the \<open>smartctl\<close> JSON and the rendering of a time stamp belong to serde\_json and chrono and are
  arguments. Sizes are the \<open>u64\<close> values, as naturals.
\<close>

definition DATASET_COLS :: str where
  "DATASET_COLS = ''name,used,avail,mountpoint,compression,type,creation''"

datatype pool_health = Online | Degraded | Faulted | Offline | Unavail

datatype dataset_kind = Filesystem | Volume

datatype pool_layout = Stripe | Mirror | Raidz1 | Raidz2 | Raidz3

record pool =
  pool_name :: str
  size_bytes :: nat
  allocated_bytes :: nat
  free_bytes :: nat
  fragmentation_pct :: nat
  pool_state :: pool_health

record dataset =
  ds_id :: str
  ds_name :: str
  ds_kind :: dataset_kind
  ds_used :: nat
  ds_available :: nat
  ds_mountpoint :: "str option"
  ds_compression :: str
  ds_created_at :: str

record snapshot =
  snap_id :: str
  snap_name :: str
  snap_dataset :: str
  snap_used :: nat
  snap_created_at :: str

record raw_disk =
  rd_path :: str
  rd_model :: str
  rd_serial :: "str option"
  rd_size_bytes :: nat
  rd_rotational :: bool
  rd_in_use :: bool

record smart_data =
  sr_path :: str
  sr_supported :: bool
  sr_passed :: "bool option"
  sr_health :: "str option"
  sr_temperature_c :: "int option"
  sr_power_on_hours :: "nat option"
  sr_checked_at :: str

text \<open>What sysfs shows of one block device; a read that fails is \<open>None\<close>.\<close>

record sys_disk =
  sd_name :: str
  sd_partition :: bool
  sd_size :: "str option"
  sd_model :: "str option"
  sd_serial :: "str option"
  sd_rotational :: "str option"
  sd_holder :: bool

record block_env =
  sys_block :: "(str + sys_disk) list option"
  proc_mounts :: "str option"

subsection \<open>Parsing\<close>

definition parse_u64_or_0 :: "str \<Rightarrow> nat" where
  "parse_u64_or_0 s = unwrap_or (parse_u64 (trim s)) 0"

definition trim_end_percent :: "str \<Rightarrow> str" where
  "trim_end_percent s = rev (dropWhile (\<lambda>b. b = CHR ''%'') (rev s))"

definition parse_pct :: "str \<Rightarrow> nat" where
  "parse_pct s = unwrap_or (parse_u8 (trim_end_percent (trim s))) 0"

definition parse_health :: "str \<Rightarrow> pool_health" where
  "parse_health s =
     (let u = to_ascii_uppercase (trim s) in
      if u = ''ONLINE'' then Online else if u = ''DEGRADED'' then Degraded else if u = ''FAULTED'' then Faulted
      else if u = ''OFFLINE'' then Offline else Unavail)"

text \<open>\<open>from_timestamp\<close> and \<open>to_rfc3339\<close> of chrono are the argument.\<close>

definition unix_to_rfc3339 :: "(int \<Rightarrow> str option) \<Rightarrow> str \<Rightarrow> str" where
  "unix_to_rfc3339 stamp secs = unwrap_or (Option.bind (parse_i64 (trim secs)) stamp) []"

definition parse_dataset_line :: "(int \<Rightarrow> str option) \<Rightarrow> str \<Rightarrow> dataset option" where
  "parse_dataset_line stamp line =
     (let f = split_on (CHR 0x09) line in
      if length f < 7 then None
      else
        (let kind = (if trim (f ! 5) = ''volume'' then Volume else Filesystem);
             m = trim (f ! 3);
             mountpoint = (if m \<in> {[], ''-'', ''none'', ''legacy''} then None else Some m)
         in Some \<lparr>ds_id = f ! 0, ds_name = f ! 0, ds_kind = kind, ds_used = parse_u64_or_0 (f ! 1),
                  ds_available = parse_u64_or_0 (f ! 2), ds_mountpoint = mountpoint,
                  ds_compression = trim (f ! 4), ds_created_at = unix_to_rfc3339 stamp (f ! 6)\<rparr>))"

definition parse_snapshot_line :: "(int \<Rightarrow> str option) \<Rightarrow> str \<Rightarrow> snapshot option" where
  "parse_snapshot_line stamp line =
     (let f = split_on (CHR 0x09) line in
      if length f < 3 then None
      else Some \<lparr>snap_id = f ! 0, snap_name = f ! 0, snap_dataset = hd (split_on (CHR ''@'') (f ! 0)),
                 snap_used = parse_u64_or_0 (f ! 1), snap_created_at = unix_to_rfc3339 stamp (f ! 2)\<rparr>)"

definition parse_pool_line :: "str \<Rightarrow> pool option" where
  "parse_pool_line line =
     (let f = split_on (CHR 0x09) line in
      if length f < 6 then None
      else Some \<lparr>pool_name = f ! 0, size_bytes = parse_u64_or_0 (f ! 1), allocated_bytes = parse_u64_or_0 (f ! 2),
                 free_bytes = parse_u64_or_0 (f ! 3), fragmentation_pct = parse_pct (f ! 4),
                 pool_state = parse_health (f ! 5)\<rparr>)"

text \<open>\<open>lines().filter(..).filter_map(..)\<close> of a listing.\<close>

definition listing_rows :: "str \<Rightarrow> str list" where
  "listing_rows out = filter (\<lambda>l. trim l \<noteq> []) (lines out)"

subsection \<open>Validators\<close>

definition is_physical_disk_name :: "str \<Rightarrow> bool" where
  "is_physical_disk_name name \<longleftrightarrow>
     \<not> (starts_with name ''loop'' \<or> starts_with name ''ram'' \<or> starts_with name ''zram'' \<or>
        starts_with name ''dm-'' \<or> starts_with name ''md'' \<or> starts_with name ''sr'')"

definition ensure_pool_name :: "str \<Rightarrow> unit api_result" where
  "ensure_pool_name name =
     (if name = [] \<or> 64 < length name \<or> starts_with name ''-'' \<or>
         \<not> list_all (\<lambda>b. is_ascii_alphanumeric b \<or> b \<in> set ''._-'') name
      then Inl (validation ''pool name must be a safe single component'') else Inr ())"

fun min_devices :: "pool_layout \<Rightarrow> nat" where
  "min_devices Stripe = 1"
| "min_devices Mirror = 2"
| "min_devices Raidz1 = 3"
| "min_devices Raidz2 = 4"
| "min_devices Raidz3 = 5"

fun layout_arg :: "pool_layout \<Rightarrow> str list" where
  "layout_arg Stripe = []"
| "layout_arg Mirror = [''mirror'']"
| "layout_arg Raidz1 = [''raidz1'']"
| "layout_arg Raidz2 = [''raidz2'']"
| "layout_arg Raidz3 = [''raidz3'']"

text \<open>\<open>Debug\<close> of the layout.\<close>

fun show_layout :: "pool_layout \<Rightarrow> str" where
  "show_layout Stripe = ''Stripe''"
| "show_layout Mirror = ''Mirror''"
| "show_layout Raidz1 = ''Raidz1''"
| "show_layout Raidz2 = ''Raidz2''"
| "show_layout Raidz3 = ''Raidz3''"

definition numbered :: "str \<Rightarrow> str \<Rightarrow> nat \<Rightarrow> bool" where
  "numbered value prfx highest =
     (case Option.bind (strip_prefix value prfx) parse_u8 of None \<Rightarrow> False | Some level \<Rightarrow> 1 \<le> level \<and> level \<le> highest)"

definition is_safe_compression :: "str \<Rightarrow> bool" where
  "is_safe_compression v =
     (let value = to_ascii_lowercase v in
      value \<in> {''on'', ''off'', ''lz4'', ''gzip'', ''zle'', ''zstd'', ''zstd-fast''} \<or>
      numbered value ''gzip-'' 9 \<or> numbered value ''zstd-'' 16)"

subsection \<open>Raw disks\<close>

definition read_trimmed_file :: "str option \<Rightarrow> str option" where
  "read_trimmed_file text =
     (case text of None \<Rightarrow> None | Some v \<Rightarrow> if trim v = [] then None else Some (trim v))"

fun mounted_name :: "str list \<Rightarrow> str option" where
  "mounted_name [] = None"
| "mounted_name (device # _) =
     map_option (\<lambda>name. hd (split_on (CHR ''/'') name)) (strip_prefix device ''/dev/'')"

definition mounted_device_names :: "block_env \<Rightarrow> str list" where
  "mounted_device_names env =
     (case proc_mounts env of
        None \<Rightarrow> []
      | Some text \<Rightarrow> List.map_filter (\<lambda>line. mounted_name (split_whitespace line)) (lines text))"

definition zpool_device_paths :: "host \<Rightarrow> str list api_result \<times> host" where
  "zpool_device_paths h =
     bind_st (run_optional ''zpool'' [''status'', ''-P'', ''-L''] h) (\<lambda>out h.
       (Inr (case out of None \<Rightarrow> [] | Some v \<Rightarrow> filter (\<lambda>t. starts_with t ''/dev/'') (split_whitespace v)), h))"

text \<open>One entry of \<open>/sys/block\<close>.\<close>

definition is_mounted :: "block_env \<Rightarrow> str \<Rightarrow> bool" where
  "is_mounted env name \<longleftrightarrow>
     list_ex (\<lambda>m. m = name \<or>
       (case strip_prefix m name of None \<Rightarrow> False | Some sffx \<Rightarrow> list_all (char_is is_ascii_digit) (chars sffx)))
       (mounted_device_names env)"

definition disk_of :: "block_env \<Rightarrow> str list \<Rightarrow> sys_disk \<Rightarrow> raw_disk" where
  "disk_of env zpool_devices d =
     (let path = ''/dev/'' @ sd_name d in
      \<lparr>rd_path = path,
       rd_model = unwrap_or (read_trimmed_file (sd_model d)) [],
       rd_serial = read_trimmed_file (sd_serial d),
       rd_size_bytes = min (unwrap_or (Option.bind (sd_size d) (\<lambda>v. parse_u64 (trim v))) 0 * 512) (2 ^ 64 - 1),
       rd_rotational = (read_trimmed_file (sd_rotational d) = Some ''1''),
       rd_in_use = (sd_holder d \<or> is_mounted env (sd_name d) \<or> path \<in> set zpool_devices)\<rparr>)"

fun disks_loop :: "block_env \<Rightarrow> str list \<Rightarrow> (str + sys_disk) list \<Rightarrow> raw_disk list api_result" where
  "disks_loop env zp [] = Inr []"
| "disks_loop env zp (Inl e # _) = Inl (internal (''read /sys/block: '' @ e))"
| "disks_loop env zp (Inr d # rest) =
     (if \<not> is_physical_disk_name (sd_name d) \<or> sd_partition d then disks_loop env zp rest
      else bind_res (disks_loop env zp rest) (\<lambda>ds. Inr (disk_of env zp d # ds)))"

definition list_raw_disks :: "block_env \<Rightarrow> host \<Rightarrow> raw_disk list api_result \<times> host" where
  "list_raw_disks env h =
     (case sys_block env of
        None \<Rightarrow> (Inr [], h)
      | Some entries \<Rightarrow>
          bind_st (zpool_device_paths h) (\<lambda>zp h.
            (bind_res (disks_loop env zp entries) (\<lambda>ds. Inr (sort_key rd_path ds)), h)))"

definition find_disk :: "block_env \<Rightarrow> str \<Rightarrow> host \<Rightarrow> raw_disk api_result \<times> host" where
  "find_disk env path h =
     bind_st (list_raw_disks env h) (\<lambda>ds h.
       (ok_or (find (\<lambda>d. rd_path d = path) ds) (not_found (''raw disk '' @ path @ '' not found'')), h))"

text \<open>serde\_json, by what it computes: \<open>from_str\<close>, \<open>pointer\<close> and the scalar views.\<close>

record 'j json_api =
  js_parse :: "str \<Rightarrow> str + 'j"
  js_pointer :: "'j \<Rightarrow> str \<Rightarrow> 'j option"
  js_bool :: "'j \<Rightarrow> bool option"
  js_i64 :: "'j \<Rightarrow> int option"
  js_u64 :: "'j \<Rightarrow> nat option"

definition as_i32 :: "int \<Rightarrow> int" where
  "as_i32 v = (v + 2 ^ 31) mod 2 ^ 32 - 2 ^ 31"

definition smart_report ::
  "'j json_api \<Rightarrow> str \<Rightarrow> block_env \<Rightarrow> str \<Rightarrow> host \<Rightarrow> smart_data api_result \<times> host" where
  "smart_report js checked_at env path h =
     bind_st (find_disk env path h) (\<lambda>disk h.
     bind_st (run_optional ''smartctl'' [''-j'', ''-a'', rd_path disk] h) (\<lambda>out h.
       (case out of
          None \<Rightarrow> Inr \<lparr>sr_path = rd_path disk, sr_supported = False, sr_passed = None, sr_health = None,
                       sr_temperature_c = None, sr_power_on_hours = None, sr_checked_at = checked_at\<rparr>
        | Some text \<Rightarrow>
            (case js_parse js text of
               Inl e \<Rightarrow> Inl (hypervisor (''parse smartctl JSON: '' @ e))
             | Inr value \<Rightarrow>
                 (let passed = Option.bind (js_pointer js value ''smart_status.passed'') (js_bool js) in
                  Inr \<lparr>sr_path = rd_path disk,
                       sr_supported = unwrap_or (Option.bind (js_pointer js value ''smart_support.available'') (js_bool js)) True,
                       sr_passed = passed,
                       sr_health = map_option (\<lambda>ok. if ok then ''PASSED'' else ''FAILED'') passed,
                       sr_temperature_c = map_option as_i32
                         (Option.bind (js_pointer js value ''temperature.current'') (js_i64 js)),
                       sr_power_on_hours = Option.bind (js_pointer js value ''power_on_time.hours'') (js_u64 js),
                       sr_checked_at = checked_at\<rparr>)), h)))"

definition wipe_disk :: "block_env \<Rightarrow> str \<Rightarrow> str \<Rightarrow> host \<Rightarrow> unit api_result \<times> host" where
  "wipe_disk env path confirm h =
     bind_st (find_disk env path h) (\<lambda>disk h.
       if confirm \<noteq> rd_path disk then (Inl (validation ''confirm must exactly match the disk path''), h)
       else if rd_in_use disk then (Inl (conflict ''refusing to wipe a disk that is in use''), h)
       else run_ok ''wipefs'' [''-a'', rd_path disk] h)"

subsection \<open>Pools\<close>

definition list_pools :: "host \<Rightarrow> pool list api_result \<times> host" where
  "list_pools h =
     bind_st (run_optional ''zpool'' [''list'', ''-Hp'', ''-o'', ''name,size,alloc,free,frag,health''] h) (\<lambda>out h.
       (Inr (case out of None \<Rightarrow> [] | Some text \<Rightarrow> List.map_filter parse_pool_line (listing_rows text)), h))"

record create_pool_request =
  cp_name :: str
  cp_layout :: pool_layout
  cp_devices :: "str list"
  cp_force :: bool

fun pick_devices :: "raw_disk list \<Rightarrow> str list \<Rightarrow> str list \<Rightarrow> str list api_result" where
  "pick_devices disks seen [] = Inr []"
| "pick_devices disks seen (path # rest) =
     (case find (\<lambda>d. rd_path d = path) disks of
        None \<Rightarrow> Inl (not_found (''raw disk '' @ path @ '' not found''))
      | Some disk \<Rightarrow>
          if path \<in> set seen then Inl (validation ''pool devices must be unique'')
          else if rd_in_use disk then Inl (conflict (''disk '' @ path @ '' is in use''))
          else bind_res (pick_devices disks (path # seen) rest) (\<lambda>ps. Inr (rd_path disk # ps)))"

definition create_pool :: "block_env \<Rightarrow> create_pool_request \<Rightarrow> host \<Rightarrow> pool api_result \<times> host" where
  "create_pool env req h =
     (case ensure_pool_name (cp_name req) of
        Inl e \<Rightarrow> (Inl e, h)
      | Inr _ \<Rightarrow>
          if length (cp_devices req) < min_devices (cp_layout req)
          then (Inl (validation (show_layout (cp_layout req) @ '' requires at least ''
                  @ show_nat (min_devices (cp_layout req)) @ '' devices'')), h)
          else
            bind_st (list_raw_disks env h) (\<lambda>disks h.
              case pick_devices disks [] (cp_devices req) of
                Inl e \<Rightarrow> (Inl e, h)
              | Inr paths \<Rightarrow>
                  bind_st (run_ok ''zpool'' ([''create''] @ (if cp_force req then [''-f''] else []) @ [cp_name req] @
                      layout_arg (cp_layout req) @ paths) h) (\<lambda>_ h.
                  bind_st (list_pools h) (\<lambda>pools h.
                    (ok_or (find (\<lambda>p. pool_name p = cp_name req) pools)
                       (hypervisor ''pool was created but could not be read back''), h)))))"

subsection \<open>Datasets and snapshots\<close>

definition list_datasets :: "(int \<Rightarrow> str option) \<Rightarrow> host \<Rightarrow> dataset list api_result \<times> host" where
  "list_datasets stamp h =
     bind_st (run_optional ''zfs'' [''list'', ''-Hp'', ''-o'', DATASET_COLS] h) (\<lambda>out h.
       (Inr (case out of None \<Rightarrow> [] | Some text \<Rightarrow> List.map_filter (parse_dataset_line stamp) (listing_rows text)), h))"

definition first_line :: "str \<Rightarrow> str option" where
  "first_line out = (case lines out of [] \<Rightarrow> None | l # _ \<Rightarrow> Some l)"

definition get_dataset :: "(int \<Rightarrow> str option) \<Rightarrow> str \<Rightarrow> host \<Rightarrow> dataset api_result \<times> host" where
  "get_dataset stamp name h =
     bind_st (run ''zfs'' [''list'', ''-Hp'', ''-o'', DATASET_COLS, name] h) (\<lambda>out h.
       (ok_or (Option.bind (first_line out) (parse_dataset_line stamp))
          (hypervisor (''dataset '' @ name @ '' not found after create'')), h))"

record create_dataset_request =
  cd_name :: str
  cd_kind :: dataset_kind
  cd_size_gib :: "nat option"
  cd_compression :: "str option"

definition create_dataset ::
  "(int \<Rightarrow> str option) \<Rightarrow> str \<Rightarrow> create_dataset_request \<Rightarrow> host \<Rightarrow> dataset api_result \<times> host" where
  "create_dataset stamp default_pool req h =
     (case bind_res (ensure_safe_zfs_dataset (cd_name req)) (\<lambda>_.
           bind_res (ensure_safe_zfs_dataset default_pool) (\<lambda>_.
           bind_res (ensure (\<not> (cd_kind req = Volume \<and> unwrap_or (cd_size_gib req) 0 = 0))
             (validation ''size_gib must be >= 1 for volumes'')) (\<lambda>_.
           bind_res (ensure (case cd_compression req of None \<Rightarrow> True | Some c \<Rightarrow> is_safe_compression c)
             (validation ''invalid compression property'')) (\<lambda>_.
             ensure (\<not> (cd_kind req = Filesystem \<and> cd_size_gib req \<noteq> None))
               (validation ''size_gib is only valid for volume datasets''))))) of
        Inl e \<Rightarrow> (Inl e, h)
      | Inr _ \<Rightarrow>
          bind_st (run_ok ''zfs'' ([''create''] @
              (case cd_compression req of None \<Rightarrow> [] | Some c \<Rightarrow> [''-o'', ''compression='' @ c]) @
              (if cd_kind req = Volume then [''-V'', show_nat (unwrap_or (cd_size_gib req) 0) @ ''G''] else []) @
              [cd_name req]) h) (\<lambda>_ h.
            get_dataset stamp (cd_name req) h))"

definition snapshot_list_args :: "str \<Rightarrow> str list" where
  "snapshot_list_args target = [''list'', ''-t'', ''snapshot'', ''-Hp'', ''-o'', ''name,used,creation'', target]"

definition list_snapshots :: "(int \<Rightarrow> str option) \<Rightarrow> str \<Rightarrow> host \<Rightarrow> snapshot list api_result \<times> host" where
  "list_snapshots stamp dataset_id h =
     (case ensure_safe_zfs_dataset dataset_id of
        Inl e \<Rightarrow> (Inl e, h)
      | Inr _ \<Rightarrow>
          bind_st (run_optional ''zfs'' (snapshot_list_args dataset_id) h) (\<lambda>out h.
            (Inr (case out of
                    None \<Rightarrow> []
                  | Some text \<Rightarrow> List.map_filter (parse_snapshot_line stamp)
                      (filter (\<lambda>l. starts_with l (dataset_id @ ''@'')) (listing_rows text))), h)))"

definition create_snapshot ::
  "(int \<Rightarrow> str option) \<Rightarrow> str \<Rightarrow> str \<Rightarrow> bool \<Rightarrow> host \<Rightarrow> snapshot api_result \<times> host" where
  "create_snapshot stamp dataset_id name recursive h =
     (case bind_res (ensure_safe_zfs_dataset dataset_id) (\<lambda>_. ensure_safe_zfs_snapshot (trim name)) of
        Inl e \<Rightarrow> (Inl e, h)
      | Inr snap \<Rightarrow>
          (let full = dataset_id @ ''@'' @ snap in
           bind_st (run_ok ''zfs'' ([''snapshot''] @ (if recursive then [''-r''] else []) @ [full]) h) (\<lambda>_ h.
           bind_st (run ''zfs'' (snapshot_list_args full) h) (\<lambda>out h.
             (ok_or (Option.bind (first_line out) (parse_snapshot_line stamp))
                (hypervisor (''snapshot '' @ full @ '' not found after create'')), h)))))"

definition clone_snapshot ::
  "(int \<Rightarrow> str option) \<Rightarrow> str \<Rightarrow> str \<Rightarrow> host \<Rightarrow> dataset api_result \<times> host" where
  "clone_snapshot stamp snapshot_id target h =
     (case bind_res (ensure_safe_zfs_snapshot_ref snapshot_id) (\<lambda>_. ensure_safe_zfs_dataset target) of
        Inl e \<Rightarrow> (Inl e, h)
      | Inr _ \<Rightarrow>
          bind_st (run_ok ''zfs'' [''clone'', snapshot_id, target] h) (\<lambda>_ h. get_dataset stamp target h))"

end
