(* ===== verification/Arguments.thy ===== *)
theory Arguments
  imports Command
begin

section \<open>Arguments that pass the generic checks\<close>

text \<open>
  The checks of \<open>validate_exec\<close> that do not depend on the program: an argument of printable ASCII bytes and
  bounded length passes them. The services' theories use these lemmas to show that what they ask is accepted.
\<close>

definition plain :: "str \<Rightarrow> bool" where
  "plain a \<longleftrightarrow> list_all (\<lambda>b. 32 \<le> byte b \<and> byte b < 127) a"

lemma plain_no_control:
  assumes "plain a"
  shows "\<not> has_control a" and "\<not> contains_char a (CHR 0x00)"
proof -
  have "chars a = map (\<lambda>b. [b]) a" using assms by (intro chars_ascii) (auto simp: plain_def list_all_iff)
  with assms show "\<not> has_control a" by (auto simp: has_control_def list_ex_iff plain_def list_all_iff)
  show "\<not> contains_char a (CHR 0x00)"
    using assms by (auto simp: contains_char_def plain_def list_all_iff byte_def)
qed

lemma plain_append [simp]: "plain (a @ b) \<longleftrightarrow> plain a \<and> plain b"
  by (simp add: plain_def)

lemma plain_args_ok:
  assumes "list_all (\<lambda>a. plain a \<and> length a \<le> 4096) args"
  shows "for_each (\<lambda>arg. bind_res (validate_arg arg) (\<lambda>_. ensure (\<not> has_control arg) ArgumentControl)) args = Inr ()"
  using assms plain_no_control by (auto simp: res_simps validate_arg_def list_all_iff)

lemma validate_exec_intro:
  assumes "program_path program \<noteq> None" and "length args \<le> 256"
    and "list_all (\<lambda>a. plain a \<and> length a \<le> 4096) args"
    and "shape_allowed program args" and "validate_exec_args program args = Inr ()"
  shows "validate_exec program args = Inr ()"
  using assms plain_args_ok [OF assms(3)] by (simp add: validate_exec_def validate_exec_shape_def)

lemma alnum_plain: "is_ascii_alphanumeric b \<Longrightarrow> 32 \<le> byte b \<and> byte b < 127"
  by (auto dest: alphanumeric_ascii)

definition arg_byte :: "char \<Rightarrow> bool" where
  "arg_byte b \<longleftrightarrow> is_ascii_alphanumeric b \<or> b \<in> set ''._-:/@=,%+ ''"

lemma arg_byte_plain: "arg_byte b \<Longrightarrow> 32 \<le> byte b \<and> byte b < 127"
  unfolding arg_byte_def by (elim disjE) (auto simp: byte_def dest: alnum_plain [unfolded byte_def])

lemma bytes_plain: "list_all (\<lambda>b. is_ascii_alphanumeric b \<or> b \<in> set S) a \<Longrightarrow> set S \<subseteq> set ''._-:/@=,%+ '' \<Longrightarrow> plain a"
  unfolding plain_def list_all_iff by (blast intro: arg_byte_plain [unfolded arg_byte_def, THEN conjunct1]
      arg_byte_plain [unfolded arg_byte_def, THEN conjunct2])

definition short :: "str \<Rightarrow> bool" where
  "short s \<longleftrightarrow> length s \<le> 2000"

subsection \<open>Lines\<close>

lemma lines_unlines:
  assumes "list_all (\<lambda>l. CHR 0x0A \<notin> set l \<and> CHR 0x0D \<notin> set l) ls"
  shows "lines (unlines ls) = ls"
proof -
  have "split_on (CHR 0x0A) (unlines ls) = ls @ [[]]" using assms by (intro split_on_unlines) (auto simp: list_all_iff)
  moreover have "map strip_cr ls = ls"
    using assms by (intro map_idI) (auto simp: strip_cr_def list_all_iff dest: last_in_set)
  ultimately show ?thesis by (simp add: lines_def)
qed

end
