(* ===== verification/Zfs_Safety.thy ===== *)
theory Zfs_Safety
  imports Zfs Arguments
begin

section \<open>What the ZFS service asks of the host\<close>

text \<open>
  The service and the broker check arguments independently. The lemmas relate the two sets of checks, and the
  properties say that the service never asks for a command that the broker refuses, which disks its
  destructive commands can reach, and where the test for a disk in use falls short.
\<close>

subsection \<open>Arguments of the broker are plain\<close>

lemma safe_dataset_plain: "safe_dataset d \<Longrightarrow> plain d"
  by (rule bytes_plain [of "''._-:/''"]) (simp_all add: safe_dataset_def)

lemma safe_snapshot_plain: "safe_snapshot_ref d \<Longrightarrow> plain d"
proof -
  assume "safe_snapshot_ref d"
  then obtain a b where d: "d = a @ ''@'' @ b" "safe_dataset a" "list_all (\<lambda>b. is_ascii_alphanumeric b \<or> b \<in> set ''._-:'') b"
    by (auto simp: safe_snapshot_ref_def str_simps split: option.splits)
  have "plain ''@''" by code_simp
  moreover have "plain b" using d(3) by (rule bytes_plain) simp
  ultimately show "plain d" unfolding d(1) plain_append using safe_dataset_plain [OF d(2)] by blast
qed

lemma safe_value_plain: "safe_zfs_value d \<Longrightarrow> plain d"
  by (rule bytes_plain [of "''._-:/@=,%''"]) (simp only: safe_zfs_value_def, simp)

lemma safe_block_device_plain: "safe_block_device d \<Longrightarrow> plain d"
proof -
  assume "safe_block_device d"
  then obtain n where d: "d = ''/dev/'' @ n" and n: "list_all (\<lambda>b. is_ascii_alphanumeric b \<or> b \<in> set ''._-'') n"
    by (auto simp: safe_block_device_def strip_prefix_Some split: option.splits)
  have "plain n" using n by (rule bytes_plain) simp
  moreover have "plain ''/dev/''" by code_simp
  ultimately show "plain d" unfolding d plain_append by blast
qed

subsection \<open>The service's checks imply the broker's\<close>

lemma dataset_accepted:
  assumes "ensure_safe_zfs_dataset name = Inr x"
  shows "x = name \<and> safe_dataset name"
proof -
  from assms have "x = name" and "\<not> starts_with name ''-''" "\<not> starts_with name ''/''" "\<not> ends_with name ''/''"
    and parts: "\<forall>p \<in> set (split_on (CHR ''/'') name). p \<noteq> [] \<and> p \<noteq> ''.'' \<and> p \<noteq> ''..''"
    and bytes: "\<forall>b \<in> set name. is_ascii_alphanumeric b \<or> b \<in> set ''.-_:/''"
    by (auto simp: ensure_safe_zfs_dataset_def list_ex_iff list_all_iff split: if_splits)
  moreover have "CHR ''@'' \<notin> set name"
    using bytes by (auto simp: is_ascii_alphanumeric_def is_ascii_digit_def is_ascii_lower_def is_ascii_upper_def byte_def)
  ultimately show ?thesis by (auto simp: safe_dataset_def contains_char_def list_all_iff)
qed

lemma snapshot_accepted:
  assumes "safe_dataset d" and "ensure_safe_zfs_snapshot n = Inr x"
  shows "x = n \<and> safe_snapshot_ref (d @ ''@'' @ n)"
proof -
  have "CHR ''@'' \<notin> set d" using assms(1) by (simp add: safe_dataset_def contains_char_def)
  then have "split_once (CHR ''@'') (d @ ''@'' @ n) = Some (d, n)" by (simp add: str_simps)
  with assms show ?thesis
    by (auto simp: safe_snapshot_ref_def ensure_safe_zfs_snapshot_def list_all_iff split: if_splits)
qed

lemma snapshot_ref_accepted:
  assumes "ensure_safe_zfs_snapshot_ref r = Inr x"
  shows "x = r \<and> safe_snapshot_ref r"
proof -
  from assms obtain d n y z where r: "r = d @ ''@'' @ n" "x = r" "ensure_safe_zfs_dataset d = Inr y"
      "ensure_safe_zfs_snapshot n = Inr z"
    by (auto simp: ensure_safe_zfs_snapshot_ref_def res_simps str_simps split: if_splits)
  with snapshot_accepted [OF conjunct2 [OF dataset_accepted [OF r(3)]] r(4)] show ?thesis by simp
qed

lemma not_dash: "safe_dataset d \<Longrightarrow> \<not> starts_with d ''-''" "safe_snapshot_ref d \<Longrightarrow> \<not> starts_with d ''-''"
proof -
  show "safe_dataset d \<Longrightarrow> \<not> starts_with d ''-''" for d by (simp add: safe_dataset_def)
  show "safe_snapshot_ref d \<Longrightarrow> \<not> starts_with d ''-''"
    using safe_positional_no_dash [of d] by (auto simp: zfs_positional_def)
qed

lemma loop_positional:
  assumes "safe_dataset a \<or> safe_snapshot_ref a" and "c \<noteq> ''set''"
  shows "zfs_args_loop c at_one (a # rest) = zfs_args_loop c False rest"
proof -
  have dash: "\<not> starts_with a ''-''" using assms(1) not_dash by blast
  then have "a \<notin> {''-H'', ''-h'', ''-p'', ''-Hp'', ''-r'', ''-F''}" "a \<notin> {''-o'', ''-t'', ''-d'', ''-V''}" "a \<noteq> ''-i''"
    by (auto simp: starts_with_def)
  moreover have "safe_snapshot_ref a \<Longrightarrow> contains_char a (CHR ''@'')"
    by (cases "split_once (CHR ''@'') a") (auto simp: safe_snapshot_ref_def contains_char_def split_once_Some)
  moreover have "safe_dataset a \<Longrightarrow> \<not> contains_char a (CHR ''@'')" by (simp add: safe_dataset_def)
  ultimately show ?thesis using assms dash by auto
qed

lemma loop_flag: "a \<in> {''-H'', ''-h'', ''-p'', ''-Hp'', ''-r'', ''-F''} \<Longrightarrow> zfs_args_loop c at_one (a # rest) = zfs_args_loop c False rest"
  by (simp only: zfs_args_loop.simps if_True)

lemma loop_value:
  "a \<in> {''-o'', ''-t'', ''-d'', ''-V''} \<Longrightarrow> safe_zfs_value v \<Longrightarrow> zfs_args_loop c at_one (a # v # rest) = zfs_args_loop c False rest"
  by auto

text \<open>A \<open>zfs\<close> command line is accepted when its subcommand is on the list and its arguments pass the loop.\<close>

lemma zfs_accepted:
  assumes "c \<in> set zfs_subcommands" and "zfs_args_loop c True rest = Inr ()" and "length rest \<le> 255"
    and "list_all (\<lambda>a. plain a \<and> length a \<le> 4096) rest"
  shows "validate_exec ''zfs'' (c # rest) = Inr ()"
proof (rule validate_exec_intro)
  show "program_path ''zfs'' \<noteq> None" by code_simp
  have "plain c \<and> length c \<le> 4096" using assms(1) by (auto simp: zfs_subcommands_def plain_def byte_def)
  with assms(4) show "list_all (\<lambda>a. plain a \<and> length a \<le> 4096) (c # rest)" by simp
  show "shape_allowed ''zfs'' (c # rest)" using assms(1) by (simp add: shape_allowed_def opt_in_def first_arg_def)
  show "validate_exec_args ''zfs'' (c # rest) = Inr ()" using assms(2) by (simp add: validate_exec_args_def validate_zfs_args_def)
qed (use assms in auto)

lemma cols_safe: "safe_zfs_value DATASET_COLS" "safe_zfs_value ''name,used,creation''" "safe_zfs_value ''snapshot''"
  "length DATASET_COLS \<le> 4096"
  by code_simp+

lemma plain_flags: "plain ''-Hp''" "plain ''-o''" "plain ''-t''" "plain ''-r''" "plain ''-V''"
  by code_simp+

lemma dataset_list_ok: "safe_dataset d \<Longrightarrow> short d \<Longrightarrow> validate_exec ''zfs'' [''list'', ''-Hp'', ''-o'', DATASET_COLS, d] = Inr ()"
  by (rule zfs_accepted) (simp_all add: zfs_subcommands_def loop_flag loop_value loop_positional cols_safe plain_flags
      safe_value_plain safe_dataset_plain short_def del: zfs_args_loop.simps(2))

lemma snapshot_list_ok: "safe_dataset d \<or> safe_snapshot_ref d \<Longrightarrow> length d \<le> 4096 \<Longrightarrow>
    validate_exec ''zfs'' (snapshot_list_args d) = Inr ()"
  unfolding snapshot_list_args_def
  by (rule zfs_accepted) (auto simp: zfs_subcommands_def loop_flag loop_value loop_positional cols_safe plain_flags
      safe_value_plain safe_dataset_plain safe_snapshot_plain simp del: zfs_args_loop.simps(2))


subsection \<open>Numbers and properties on the command line\<close>

text \<open>A value of letters, digits and a few signs without a dash in front or a slash is safe.\<close>

lemma simple_byte: "is_ascii_alphanumeric b \<or> b \<in> set ''-='' \<Longrightarrow> 32 < byte b \<and> byte b < 127 \<and> byte b \<noteq> 47"
  by (elim disjE) (auto simp: byte_def dest: alphanumeric_ascii [unfolded byte_def])

lemma safe_value_simple:
  assumes "list_all (\<lambda>b. is_ascii_alphanumeric b \<or> b \<in> set ''-='') v" and "\<not> starts_with v ''-''"
  shows "safe_zfs_value v"
proof -
  have bytes: "32 < byte b \<and> byte b < 127 \<and> byte b \<noteq> 47" if "b \<in> set v" for b
    using assms(1) that unfolding list_all_iff by (intro simple_byte) blast
  have "chars v = map (\<lambda>b. [b]) v" using bytes by (intro chars_ascii) fastforce
  moreover have "\<not> (is_control [b] \<or> is_whitespace [b])" if "b \<in> set v" for b using bytes [OF that] by simp
  ultimately have "\<not> list_ex (\<lambda>c. is_control c \<or> is_whitespace c) (chars v)"
    unfolding list_ex_iff by (simp del: is_control.simps is_whitespace.simps)
  moreover have "byte (CHR ''/'') = 47" by (simp add: byte_def)
  then have "CHR ''/'' \<notin> set v" using bytes by blast
  then have "\<not> contains_str v ''/../''" "\<not> ends_with v ''/..''"
    by (auto simp: str_simps sublist_def suffix_def)
  moreover have "list_all (\<lambda>b. is_ascii_alphanumeric b \<or> b \<in> set ''._-:/@=,%'') v"
    using assms(1) by (rule list.pred_mono_strong) auto
  ultimately show ?thesis using assms(2) by (simp only: safe_zfs_value_def simp_thms)
qed

lemma lower_alnum: "is_ascii_alphanumeric (to_lower_byte b) \<Longrightarrow> is_ascii_alphanumeric b"
  by (auto simp: to_lower_byte_def is_ascii_alphanumeric_def split: if_splits)

lemma lower_dash: "to_lower_byte b = CHR ''-'' \<Longrightarrow> b = CHR ''-''" "to_lower_byte b = CHR ''+'' \<Longrightarrow> b = CHR ''+''"
proof -
  have "byte (CHR ''-'') = 45" "byte (CHR ''+'') = 43" by (simp_all add: byte_def)
  then show "to_lower_byte b = CHR ''-'' \<Longrightarrow> b = CHR ''-''" "to_lower_byte b = CHR ''+'' \<Longrightarrow> b = CHR ''+''"
    by (auto simp: to_lower_byte_def is_ascii_upper_def split: if_splits dest!: arg_cong [where f = byte])
qed

lemma compression_bytes:
  assumes "is_safe_compression c" and "CHR ''+'' \<notin> set c"
  shows "list_all (\<lambda>b. is_ascii_alphanumeric b \<or> b \<in> set ''-='') c"
proof -
  let ?l = "to_ascii_lowercase c"
  have fixed: "list_all (\<lambda>b. is_ascii_alphanumeric b \<or> b = CHR ''-'' \<or> b = CHR ''+'') w"
    if "w \<in> {''on'', ''off'', ''lz4'', ''gzip'', ''zle'', ''zstd'', ''zstd-fast'', ''gzip-'', ''zstd-''}" for w
    using that by (auto simp: is_ascii_alphanumeric_def is_ascii_digit_def is_ascii_lower_def byte_def)
  have num: "list_all (\<lambda>b. is_ascii_alphanumeric b \<or> b = CHR ''-'' \<or> b = CHR ''+'') ?l"
    if n: "numbered ?l w m" and w: "w = ''gzip-'' \<or> w = ''zstd-''" for w m
  proof -
    from n obtain level k where l: "?l = w @ level" and k: "parse_u8 level = Some k"
      by (auto simp: numbered_def Option.bind_eq_Some_conv strip_prefix_Some split: option.splits)
    have "list_all (\<lambda>b. is_ascii_digit b \<or> b = CHR ''+'') level"
      using k parse_unsigned_bytes by (simp add: parse_u8_def)
    then have "list_all (\<lambda>b. is_ascii_alphanumeric b \<or> b = CHR ''-'' \<or> b = CHR ''+'') level"
      by (rule list.pred_mono_strong) (auto simp: digit_alnum)
    with fixed [of w] w show ?thesis unfolding l by auto
  qed
  have "list_all (\<lambda>b. is_ascii_alphanumeric b \<or> b = CHR ''-'' \<or> b = CHR ''+'') ?l"
    using assms(1) fixed num by (auto simp: is_safe_compression_def Let_def)
  then have "\<forall>b \<in> set c. is_ascii_alphanumeric b \<or> b = CHR ''-'' \<or> b = CHR ''+''"
    using lower_alnum lower_dash by (fastforce simp: to_ascii_lowercase_def list_all_iff)
  with assms(2) show ?thesis by (auto simp: list_all_iff)
qed

lemma compression_value_safe:
  assumes "is_safe_compression c" and "CHR ''+'' \<notin> set c"
  shows "safe_zfs_value (''compression='' @ c)"
proof (rule safe_value_simple)
  have "list_all (\<lambda>b. is_ascii_alphanumeric b \<or> b \<in> set ''-='') ''compression=''"
    by (simp add: is_ascii_alphanumeric_def is_ascii_lower_def byte_def)
  with compression_bytes [OF assms]
  show "list_all (\<lambda>b. is_ascii_alphanumeric b \<or> b \<in> set ''-='') (''compression='' @ c)" by (simp only: list_all_append)
qed (simp add: starts_with_def)

lemma size_value_safe: "safe_zfs_value (show_nat n @ ''G'')"
proof (rule safe_value_simple)
  have G: "is_ascii_alphanumeric (CHR ''G'')" by (simp add: is_ascii_alphanumeric_def is_ascii_upper_def byte_def)
  show "list_all (\<lambda>b. is_ascii_alphanumeric b \<or> b \<in> set ''-='') (show_nat n @ ''G'')"
    using show_nat_digits [of _ n] G by (auto simp: list_all_iff digit_alnum)
  have "hd (show_nat n @ ''G'') \<noteq> CHR ''-''"
    using show_nat_digits [of "hd (show_nat n)" n] by (cases "show_nat n") (auto simp: is_ascii_digit_def byte_def)
  then show "\<not> starts_with (show_nat n @ ''G'') ''-''" by (cases "show_nat n @ ''G''") (auto simp: starts_with_def)
qed

lemma create_dataset_ok:
  assumes "safe_dataset d" and "short d" and "\<forall>c. cmpr = Some c \<longrightarrow> is_safe_compression c \<and> CHR ''+'' \<notin> set c \<and> short c"
    and "n < 2 ^ 64"
  shows "validate_exec ''zfs'' ([''create''] @ (case cmpr of None \<Rightarrow> [] | Some c \<Rightarrow> [''-o'', ''compression='' @ c]) @
      (if vol then [''-V'', show_nat n @ ''G''] else []) @ [d]) = Inr ()"
proof -
  have len: "length (show_nat n) \<le> 20" using length_show_nat [of n 20] assms(4) by simp
  have cmpr: "safe_zfs_value (''compression='' @ c)" "length c \<le> 2000" if "cmpr = Some c" for c
    using assms(3) that compression_value_safe by (auto simp: short_def)
  have c1: "validate_exec ''zfs'' (''create'' # (case cmpr of None \<Rightarrow> [] | Some c \<Rightarrow> [''-o'', ''compression='' @ c]) @
      (if vol then [''-V'', show_nat n @ ''G''] else []) @ [d]) = Inr ()"
  proof (rule zfs_accepted)
    show "zfs_args_loop ''create'' True ((case cmpr of None \<Rightarrow> [] | Some c \<Rightarrow> [''-o'', ''compression='' @ c]) @
      (if vol then [''-V'', show_nat n @ ''G''] else []) @ [d]) = Inr ()"
      using assms(1) size_value_safe [of n]
      by (cases cmpr; cases vol) (use cmpr(1) in \<open>simp_all add: loop_value loop_positional del: zfs_args_loop.simps(2)\<close>)
    show "list_all (\<lambda>a. plain a \<and> length a \<le> 4096) ((case cmpr of None \<Rightarrow> [] | Some c \<Rightarrow> [''-o'', ''compression='' @ c]) @
      (if vol then [''-V'', show_nat n @ ''G''] else []) @ [d])"
      using cmpr assms(1,2) len safe_value_plain [OF cmpr(1)] safe_value_plain [OF size_value_safe, of n] safe_dataset_plain [OF assms(1)]
      by (auto simp: short_def plain_flags split: option.splits)
  qed (simp_all add: zfs_subcommands_def split: option.splits)
  then show ?thesis by simp
qed


subsection \<open>Disks\<close>

lemma disks_loop_from:
  assumes "disks_loop env zp entries = Inr ds" and "d \<in> set ds"
  shows "\<exists>e. Inr e \<in> set entries \<and> is_physical_disk_name (sd_name e) \<and> \<not> sd_partition e \<and> d = disk_of env zp e"
  using assms
proof (induction env zp entries arbitrary: ds rule: disks_loop.induct)
  case (3 env zp e rest)
  show ?case
  proof (cases "\<not> is_physical_disk_name (sd_name e) \<or> sd_partition e")
    case True
    with 3 show ?thesis by auto
  next
    case False
    with "3.prems"(1) obtain ds' where "disks_loop env zp rest = Inr ds'" "ds = disk_of env zp e # ds'"
      by (auto simp: res_simps)
    with 3 False show ?thesis by auto
  qed
qed simp_all

lemma list_raw_disks_from:
  assumes "list_raw_disks env h = (Inr ds, h')" and "d \<in> set ds"
  shows "\<exists>entries e zp h1. sys_block env = Some entries \<and> Inr e \<in> set entries \<and> is_physical_disk_name (sd_name e) \<and>
    \<not> sd_partition e \<and> zpool_device_paths h = (Inr zp, h1) \<and> d = disk_of env zp e"
proof -
  from assms obtain entries zp h1 ds' where l: "sys_block env = Some entries" "zpool_device_paths h = (Inr zp, h1)"
      "disks_loop env zp entries = Inr ds'" "set ds = set ds'"
    by (auto simp: list_raw_disks_def res_simps split: option.splits)
  with disks_loop_from [OF l(3)] assms(2) show ?thesis by blast
qed

lemma disk_of_path [simp]: "rd_path (disk_of env zp e) = ''/dev/'' @ sd_name e"
  by (simp add: disk_of_def Let_def)

lemma disk_of_in_use: "rd_in_use (disk_of env zp e) \<longleftrightarrow> sd_holder e \<or> is_mounted env (sd_name e) \<or> ''/dev/'' @ sd_name e \<in> set zp"
  by (simp add: disk_of_def Let_def)

lemma find_disk_from:
  assumes "find_disk env path h = (Inr d, h')"
  shows "\<exists>entries e zp h1. sys_block env = Some entries \<and> Inr e \<in> set entries \<and> is_physical_disk_name (sd_name e) \<and>
    \<not> sd_partition e \<and> zpool_device_paths h = (Inr zp, h1) \<and> d = disk_of env zp e \<and> path = ''/dev/'' @ sd_name e"
proof -
  from assms obtain ds h1 where "list_raw_disks env h = (Inr ds, h1)" "find (\<lambda>d. rd_path d = path) ds = Some d"
    by (auto simp: find_disk_def res_simps)
  then have "d \<in> set ds" "rd_path d = path" by (auto simp: find_Some_iff)
  with list_raw_disks_from [OF \<open>list_raw_disks env h = _\<close>] show ?thesis by fastforce
qed

lemma pick_devices_ok:
  assumes "pick_devices disks seen paths = Inr ps"
  shows "ps = paths \<and> distinct paths \<and> set paths \<inter> set seen = {} \<and>
    (\<forall>p \<in> set paths. \<exists>d \<in> set disks. rd_path d = p \<and> \<not> rd_in_use d)"
  using assms
proof (induction disks seen paths arbitrary: ps rule: pick_devices.induct)
  case (2 disks seen path rest)
  from "2.prems" obtain d ps' where d: "find (\<lambda>d. rd_path d = path) disks = Some d" "path \<notin> set seen" "\<not> rd_in_use d"
      "pick_devices disks (path # seen) rest = Inr ps'" "ps = rd_path d # ps'"
    by (auto simp: res_simps split: option.splits if_splits)
  have "d \<in> set disks" "rd_path d = path" using d(1) by (auto simp: find_Some_iff)
  with d "2.IH" [OF d(1,2,3) d(4)] show ?case by auto
qed simp

subsection \<open>Every command is one the broker accepts\<close>

datatype zfs_call =
    ZListPools
  | ZListDisks
  | ZSmart str
  | ZWipe str str
  | ZCreatePool create_pool_request
  | ZListDatasets
  | ZCreateDataset create_dataset_request
  | ZListSnapshots str
  | ZCreateSnapshot str str bool
  | ZCloneSnapshot str str

fun zfs_run :: "'j json_api \<Rightarrow> (int \<Rightarrow> str option) \<Rightarrow> str \<Rightarrow> block_env \<Rightarrow> zfs_call \<Rightarrow> host \<Rightarrow> host" where
  "zfs_run js stamp dpool env ZListPools h = snd (list_pools h)"
| "zfs_run js stamp dpool env ZListDisks h = snd (list_raw_disks env h)"
| "zfs_run js stamp dpool env (ZSmart path) h = snd (smart_report js [] env path h)"
| "zfs_run js stamp dpool env (ZWipe path confirm) h = snd (wipe_disk env path confirm h)"
| "zfs_run js stamp dpool env (ZCreatePool req) h = snd (create_pool env req h)"
| "zfs_run js stamp dpool env ZListDatasets h = snd (list_datasets stamp h)"
| "zfs_run js stamp dpool env (ZCreateDataset req) h = snd (create_dataset stamp dpool req h)"
| "zfs_run js stamp dpool env (ZListSnapshots d) h = snd (list_snapshots stamp d h)"
| "zfs_run js stamp dpool env (ZCreateSnapshot d n recursive) h = snd (create_snapshot stamp d n recursive h)"
| "zfs_run js stamp dpool env (ZCloneSnapshot snap target) h = snd (clone_snapshot stamp snap target h)"

text \<open>Bounds on the request that the service does not check itself: names of at most 2000 bytes, at most 250
  devices, no plus sign in the level of a compression property, and a size of a \<open>u64\<close>.\<close>

fun zfs_call_bounded :: "zfs_call \<Rightarrow> bool" where
  "zfs_call_bounded (ZCreatePool req) \<longleftrightarrow> length (cp_devices req) \<le> 250"
| "zfs_call_bounded (ZCreateDataset req) \<longleftrightarrow> short (cd_name req) \<and> unwrap_or (cd_size_gib req) 0 < 2 ^ 64 \<and>
     (case cd_compression req of None \<Rightarrow> True | Some c \<Rightarrow> short c \<and> CHR ''+'' \<notin> set c)"
| "zfs_call_bounded (ZListSnapshots d) \<longleftrightarrow> short d"
| "zfs_call_bounded (ZCreateSnapshot d n _) \<longleftrightarrow> short d \<and> short (trim n)"
| "zfs_call_bounded (ZCloneSnapshot snap target) \<longleftrightarrow> short snap \<and> short target"
| "zfs_call_bounded _ \<longleftrightarrow> True"

text \<open>The names of block devices are ones the broker has in its grammar.\<close>

definition plain_disk_names :: "block_env \<Rightarrow> bool" where
  "plain_disk_names env \<longleftrightarrow>
     (case sys_block env of
        None \<Rightarrow> True
      | Some entries \<Rightarrow> \<forall>e. Inr e \<in> set entries \<longrightarrow> safe_block_device (''/dev/'' @ sd_name e) \<and> short (sd_name e))"

lemma fixed_commands_ok:
  "validate_exec ''zpool'' [''status'', ''-P'', ''-L''] = Inr ()"
  "validate_exec ''zpool'' [''list'', ''-Hp'', ''-o'', ''name,size,alloc,free,frag,health''] = Inr ()"
  by code_simp+

lemma list_datasets_ok: "validate_exec ''zfs'' [''list'', ''-Hp'', ''-o'', DATASET_COLS] = Inr ()"
  by (rule zfs_accepted) (simp_all add: zfs_subcommands_def loop_flag loop_value cols_safe plain_flags safe_value_plain
      del: zfs_args_loop.simps(2))

lemma disk_commands_ok:
  assumes "safe_block_device p" and "length p \<le> 4096"
  shows "validate_exec ''smartctl'' [''-j'', ''-a'', p] = Inr ()" "validate_exec ''wipefs'' [''-a'', p] = Inr ()"
proof -
  have f: "plain ''-j''" "plain ''-a''" "plain p" by (code_simp, code_simp, rule safe_block_device_plain [OF assms(1)])
  have pr: "program_path ''smartctl'' \<noteq> None" "program_path ''wipefs'' \<noteq> None" by code_simp+
  show "validate_exec ''smartctl'' [''-j'', ''-a'', p] = Inr ()"
    by (rule validate_exec_intro [OF pr(1)]) (use f assms in \<open>simp_all add: shape_allowed_def validate_exec_args_def
        validate_smartctl_args_def lxc_tools_def\<close>)
  show "validate_exec ''wipefs'' [''-a'', p] = Inr ()"
    by (rule validate_exec_intro [OF pr(2)]) (use f assms in \<open>simp_all add: shape_allowed_def validate_exec_args_def
        validate_wipefs_args_def lxc_tools_def\<close>)
qed

lemma zpool_create_ok:
  assumes "ensure_pool_name n = Inr u" and "devices \<noteq> []" and "length devices \<le> 250"
    and "\<forall>p \<in> set devices. safe_block_device p \<and> length p \<le> 4096"
  shows "validate_exec ''zpool'' ([''create''] @ (if force then [''-f''] else []) @ [n] @ layout_arg l @ devices) = Inr ()"
proof (rule validate_exec_intro)
  have n: "n \<noteq> []" "length n \<le> 64" "\<not> starts_with n ''-''" "list_all (\<lambda>b. is_ascii_alphanumeric b \<or> b \<in> set ''._-'') n"
    using assms(1) by (auto simp: ensure_pool_name_def split: if_splits)
  have pn: "plain n" using n(4) by (rule bytes_plain) simp
  have cn: "safe_cli_name n" using n by (auto simp: safe_cli_name_def list_all_iff)
  have nf: "n \<noteq> ''-f''" using n(3) by (auto simp: starts_with_def)
  show "program_path ''zpool'' \<noteq> None" by code_simp
  show "length ([''create''] @ (if force then [''-f''] else []) @ [n] @ layout_arg l @ devices) \<le> 256"
    using assms(3) by (cases l) simp_all
  have w: "plain ''create''" "plain ''-f''" "plain ''mirror''" "plain ''raidz1''" "plain ''raidz2''" "plain ''raidz3''"
    by code_simp+
  show "list_all (\<lambda>a. plain a \<and> length a \<le> 4096) ([''create''] @ (if force then [''-f''] else []) @ [n] @ layout_arg l @ devices)"
    using w pn n(2) assms(4) safe_block_device_plain by (cases l) (auto simp: list_all_iff)
  show "shape_allowed ''zpool'' ([''create''] @ (if force then [''-f''] else []) @ [n] @ layout_arg l @ devices)"
    by (simp add: shape_allowed_def opt_in_def first_arg_def)
  have "hd devices \<notin> {''mirror'', ''raidz1'', ''raidz2'', ''raidz3''}"
    using assms(2,4) by (cases devices) (auto simp: safe_block_device_def strip_prefix_def starts_with_def split: option.splits)
  then show "validate_exec_args ''zpool'' ([''create''] @ (if force then [''-f''] else []) @ [n] @ layout_arg l @ devices) = Inr ()"
    using assms(2,4) cn nf
    by (cases l; cases force) (auto simp: validate_exec_args_def validate_zpool_args_def Let_def res_simps)
qed


lemma asks_snd: "hl.asks h m \<Longrightarrow> hl.asks h ((), snd m)"
  by (simp add: hl.asks_iff)

lemma asks_bind_pure: "hl.asks h m \<Longrightarrow> hl.asks h (bind_st m (\<lambda>x h. (g x, h)))"
  by (rule hl.asks_bind) simp_all

lemmas asks_fixed = run_asks [OF fixed_commands_ok(1)] run_asks [OF fixed_commands_ok(2)] run_asks [OF list_datasets_ok]

lemma list_pools_asks: "hl.asks h (list_pools h)"
  unfolding list_pools_def by (rule asks_bind_pure) (rule asks_fixed)

lemma zpool_device_paths_asks: "hl.asks h (zpool_device_paths h)"
  unfolding zpool_device_paths_def by (rule asks_bind_pure) (rule asks_fixed)

lemma list_raw_disks_asks: "hl.asks h (list_raw_disks env h)"
  by (auto simp: list_raw_disks_def intro!: asks_bind_pure zpool_device_paths_asks split: option.splits)

lemma find_disk_asks: "hl.asks h (find_disk env path h)"
  unfolding find_disk_def by (rule asks_bind_pure) (rule list_raw_disks_asks)

lemma disk_plain:
  assumes "plain_disk_names env" and "find_disk env path h = (Inr d, h')"
  shows "safe_block_device (rd_path d) \<and> length (rd_path d) \<le> 4096"
proof -
  from find_disk_from [OF assms(2)] obtain entries e zp where
    "sys_block env = Some entries" "Inr e \<in> set entries" "d = disk_of env zp e" by blast
  with assms(1) have "safe_block_device (''/dev/'' @ sd_name e)" "short (sd_name e)" "d = disk_of env zp e"
    unfolding plain_disk_names_def by auto
  then show ?thesis by (simp add: short_def)
qed

lemma smart_report_asks: "plain_disk_names env \<Longrightarrow> hl.asks h (smart_report js at_time env path h)"
  unfolding smart_report_def
  by (intro hl.asks_bind find_disk_asks asks_bind_pure run_asks disk_commands_ok) (auto dest: disk_plain)

lemma wipe_disk_asks: "plain_disk_names env \<Longrightarrow> hl.asks h (wipe_disk env path confirm h)"
  unfolding wipe_disk_def
  by (intro hl.asks_bind find_disk_asks) (auto intro!: run_asks disk_commands_ok dest: disk_plain)

lemma create_pool_asks:
  assumes "plain_disk_names env" and "length (cp_devices req) \<le> 250"
  shows "hl.asks h (create_pool env req h)"
proof (cases "ensure_pool_name (cp_name req)")
  case (Inl e)
  then show ?thesis by (simp add: create_pool_def)
next
  case (Inr u)
  have ok: "validate_exec ''zpool'' ([''create''] @ (if cp_force req then [''-f''] else []) @ [cp_name req] @
      layout_arg (cp_layout req) @ paths) = Inr ()"
    if l: "list_raw_disks env h = (Inr disks, h1)" and p: "pick_devices disks [] (cp_devices req) = Inr paths"
      and n: "\<not> length (cp_devices req) < min_devices (cp_layout req)" for disks h1 paths
  proof (rule zpool_create_ok [OF Inr])
    note pd = pick_devices_ok [OF p]
    show "paths \<noteq> []" using pd n by (cases "cp_layout req") auto
    show "length paths \<le> 250" using pd assms(2) by simp
    show "\<forall>q \<in> set paths. safe_block_device q \<and> length q \<le> 4096"
      using pd list_raw_disks_from [OF l] assms(1) by (fastforce simp: plain_disk_names_def short_def)
  qed
  show ?thesis
    unfolding create_pool_def using Inr ok
    by (auto simp del: append_Cons append_Nil intro!: hl.asks_bind list_raw_disks_asks run_asks list_pools_asks split: sum.splits)
qed

lemma get_dataset_asks: "safe_dataset d \<Longrightarrow> short d \<Longrightarrow> hl.asks h (get_dataset stamp d h)"
  unfolding get_dataset_def by (rule asks_bind_pure) (rule run_asks, rule dataset_list_ok)

lemma create_dataset_asks:
  assumes "zfs_call_bounded (ZCreateDataset req)"
  shows "hl.asks h (create_dataset stamp dpool req h)"
proof -
  have "hl.asks h (bind_st (run_ok ''zfs'' ([''create''] @
              (case cd_compression req of None \<Rightarrow> [] | Some c \<Rightarrow> [''-o'', ''compression='' @ c]) @
              (if cd_kind req = Volume then [''-V'', show_nat (unwrap_or (cd_size_gib req) 0) @ ''G''] else []) @
              [cd_name req]) h) (\<lambda>_ h. get_dataset stamp (cd_name req) h))"
    if d: "ensure_safe_zfs_dataset (cd_name req) = Inr x"
      and c: "case cd_compression req of None \<Rightarrow> True | Some c \<Rightarrow> is_safe_compression c" for x
  proof (intro hl.asks_bind run_asks(2) create_dataset_ok get_dataset_asks)
    show "safe_dataset (cd_name req)" "safe_dataset (cd_name req)" using dataset_accepted [OF d] by simp_all
  qed (use assms c in \<open>auto split: option.splits\<close>)
  then show ?thesis
    by (auto simp: create_dataset_def res_simps simp del: append_Cons append_Nil split: sum.splits)
qed

lemma snapshot_asks:
  assumes "zfs_call_bounded (ZCreateSnapshot d n recursive)"
  shows "hl.asks h (create_snapshot stamp d n recursive h)"
proof (cases "bind_res (ensure_safe_zfs_dataset d) (\<lambda>_. ensure_safe_zfs_snapshot (trim n))")
  case (Inl e)
  then show ?thesis by (simp add: create_snapshot_def)
next
  case (Inr snap)
  then obtain x where d: "ensure_safe_zfs_dataset d = Inr x" and sn: "ensure_safe_zfs_snapshot (trim n) = Inr snap"
    by (auto simp: res_simps)
  let ?full = "d @ ''@'' @ snap"
  have full: "safe_snapshot_ref ?full" "snap = trim n"
    using snapshot_accepted [OF conjunct2 [OF dataset_accepted [OF d]] sn] by auto
  then have len: "length ?full \<le> 4096" using assms by (simp add: short_def)
  have "validate_exec ''zfs'' (''snapshot'' # (if recursive then [''-r''] else []) @ [?full]) = Inr ()"
  proof (rule zfs_accepted)
    show "zfs_args_loop ''snapshot'' True ((if recursive then [''-r''] else []) @ [?full]) = Inr ()"
      using full(1) by (auto simp: loop_flag loop_positional simp del: zfs_args_loop.simps(2))
    show "list_all (\<lambda>a. plain a \<and> length a \<le> 4096) ((if recursive then [''-r''] else []) @ [?full])"
      using safe_snapshot_plain [OF full(1)] len plain_flags(4) by simp
  qed (simp_all add: zfs_subcommands_def)
  then have "hl.asks h (run_ok ''zfs'' ([''snapshot''] @ (if recursive then [''-r''] else []) @ [?full]) h)"
    by (intro run_asks) simp
  moreover have "hl.asks h1 (bind_st (run ''zfs'' (snapshot_list_args ?full) h1) (\<lambda>out h. (g out, h)))" for h1 g
    using full(1) len by (intro asks_bind_pure run_asks snapshot_list_ok) auto
  ultimately show ?thesis using Inr by (simp only: create_snapshot_def sum.case Let_def) (rule hl.asks_bind)
qed

lemma list_snapshots_asks: "short d \<Longrightarrow> hl.asks h (list_snapshots stamp d h)"
  by (auto simp: list_snapshots_def short_def intro!: asks_bind_pure run_asks snapshot_list_ok
      dest: dataset_accepted split: sum.splits)

lemma clone_asks:
  assumes "short snap" and "short target"
  shows "hl.asks h (clone_snapshot stamp snap target h)"
proof -
  have "hl.asks h (bind_st (run_ok ''zfs'' [''clone'', snap, target] h) (\<lambda>_ h. get_dataset stamp target h))"
    if "safe_snapshot_ref snap" "safe_dataset target"
  proof (intro hl.asks_bind run_asks get_dataset_asks zfs_accepted)
    show "zfs_args_loop ''clone'' True [snap, target] = Inr ()"
      using that by (simp add: loop_positional del: zfs_args_loop.simps(2))
  qed (use that assms safe_snapshot_plain safe_dataset_plain in \<open>simp_all add: zfs_subcommands_def short_def\<close>)
  then show ?thesis
    by (auto simp: clone_snapshot_def res_simps dest!: snapshot_ref_accepted dataset_accepted split: sum.splits)
qed

text \<open>
  C5. The service and the broker agree: whatever the host answers, every command that an operation of the ZFS service
  asks for, on every branch, is one that the broker's validation accepts, for requests within stated bounds
  (names of 2000 bytes, 250 devices, no plus sign in a compression level) and kernel device names.
\<close>

theorem zfs_commands_accepted:
  assumes "zfs_call_bounded call" and "plain_disk_names env"
  shows "\<exists>ops. issued (zfs_run js stamp dpool env call h) = issued h @ ops \<and>
    list_all (\<lambda>operation. validate_op operation = Inr ()) ops"
proof -
  have "hl.asks h ((), zfs_run js stamp dpool env call h)"
    using assms
    by (cases call) (simp_all add: asks_snd list_pools_asks list_raw_disks_asks smart_report_asks wipe_disk_asks create_pool_asks
        create_dataset_asks snapshot_asks list_snapshots_asks clone_asks asks_bind_pure list_datasets_def asks_fixed
        del: zfs_call_bounded.simps(2,4))
  then show ?thesis unfolding hl.asks_iff accepted_def [abs_def] by simp
qed


subsection \<open>Destructive commands\<close>

definition free_disk :: "block_env \<Rightarrow> host \<Rightarrow> str \<Rightarrow> bool" where
  "free_disk env h path \<longleftrightarrow>
     (\<exists>entries e zp h1. sys_block env = Some entries \<and> Inr e \<in> set entries \<and> path = ''/dev/'' @ sd_name e \<and>
        is_physical_disk_name (sd_name e) \<and> \<not> sd_partition e \<and> \<not> sd_holder e \<and> \<not> is_mounted env (sd_name e) \<and>
        zpool_device_paths h = (Inr zp, h1) \<and> path \<notin> set zp)"

abbreviation status_op :: op where
  "status_op \<equiv> exec_op ''zpool'' [''status'', ''-P'', ''-L'']"

abbreviation pools_op :: op where
  "pools_op \<equiv> exec_op ''zpool'' [''list'', ''-Hp'', ''-o'', ''name,size,alloc,free,frag,health'']"

lemma zpool_program: "host_program_path ''zpool'' \<noteq> None" "host_program_path ''wipefs'' \<noteq> None"
  by code_simp+

lemma bind_issued:
  assumes "bind_st m f = (x, h')" and "issued (snd m) = k" and "\<And>v h1 y h2. f v h1 = (y, h2) \<Longrightarrow> issued h2 = issued h1"
  shows "issued h' = k"
  using assms by (cases m; cases "fst m") auto

lemma list_raw_disks_issued:
  assumes "list_raw_disks env h = (x, h')"
  shows "\<exists>k. issued h' = issued h @ k \<and> set k \<subseteq> {status_op}"
proof (cases "sys_block env")
  case None
  with assms show ?thesis by (auto simp: list_raw_disks_def)
next
  case (Some entries)
  obtain y h1 where r: "run_optional ''zpool'' [''status'', ''-P'', ''-L''] h = (y, h1)" by fastforce
  have "issued h1 = issued h @ [status_op]" using run_optional_issued [OF r] zpool_program by simp
  moreover have "h' = h1"
    using assms Some r by (cases y) (auto simp: list_raw_disks_def zpool_device_paths_def)
  ultimately show ?thesis by simp
qed

lemma find_disk_issued:
  assumes "find_disk env path h = (x, h')"
  shows "\<exists>k. issued h' = issued h @ k \<and> set k \<subseteq> {status_op}"
proof -
  obtain y h1 where l: "list_raw_disks env h = (y, h1)" by fastforce
  with assms have "h' = h1" by (cases y) (auto simp: find_disk_def)
  with list_raw_disks_issued [OF l] show ?thesis by simp
qed

lemma list_pools_issued:
  assumes "list_pools h = (x, h')"
  shows "issued h' = issued h @ [pools_op]"
proof -
  obtain y h1 where r: "run_optional ''zpool'' [''list'', ''-Hp'', ''-o'', ''name,size,alloc,free,frag,health''] h = (y, h1)" by fastforce
  with assms have "h' = h1" by (cases y) (auto simp: list_pools_def)
  with run_optional_issued [OF r] zpool_program show ?thesis by simp
qed

lemma wipe_disk_issued:
  assumes "wipe_disk env path confirm h = (x, h')"
  shows "\<exists>k. set k \<subseteq> {status_op} \<and>
    (issued h' = issued h @ k \<or>
     issued h' = issued h @ k @ [exec_op ''wipefs'' [''-a'', path]] \<and> confirm = path \<and> free_disk env h path)"
proof -
  obtain y h1 where f: "find_disk env path h = (y, h1)" by fastforce
  from find_disk_issued [OF f] obtain k where k: "issued h1 = issued h @ k" "set k \<subseteq> {status_op}" by blast
  show ?thesis
  proof (cases "\<exists>d. y = Inr d \<and> confirm = rd_path d \<and> \<not> rd_in_use d")
    case False
    with assms f have "h' = h1" by (cases y) (auto simp: wipe_disk_def split: if_splits)
    with k show ?thesis by blast
  next
    case True
    then obtain d where d: "y = Inr d" "confirm = rd_path d" "\<not> rd_in_use d" by blast
    from find_disk_from [OF f [unfolded d(1)]] obtain entries e zp h2 where
      e: "sys_block env = Some entries" "Inr e \<in> set entries" "is_physical_disk_name (sd_name e)" "\<not> sd_partition e"
        "zpool_device_paths h = (Inr zp, h2)" "d = disk_of env zp e" "path = ''/dev/'' @ sd_name e" by blast
    have p: "rd_path d = path" by (simp only: e(6,7) disk_of_path)
    have "free_disk env h path"
      unfolding free_disk_def using e d(3) by (metis disk_of_in_use)
    moreover obtain z where "run_ok ''wipefs'' [''-a'', path] h1 = (z, h')"
      using assms f d p by (cases "run_ok ''wipefs'' [''-a'', path] h1") (auto simp: wipe_disk_def)
    then have "issued h' = issued h1 @ [exec_op ''wipefs'' [''-a'', path]]"
      using run_ok_issued zpool_program(2) by simp
    ultimately show ?thesis using k d(2) p by auto
  qed
qed

lemma create_pool_issued:
  assumes "create_pool env req h = (x, h')"
  shows "\<exists>k. set k \<subseteq> {status_op} \<and>
    (issued h' = issued h @ k \<or>
     (\<exists>post. issued h' = issued h @ k @ [exec_op ''zpool'' ([''create''] @ (if cp_force req then [''-f''] else []) @ [cp_name req] @
         layout_arg (cp_layout req) @ cp_devices req)] @ post \<and> set post \<subseteq> {pools_op}) \<and>
     min_devices (cp_layout req) \<le> length (cp_devices req) \<and> distinct (cp_devices req) \<and>
     (\<forall>p \<in> set (cp_devices req). free_disk env h p))"
proof -
  let ?args = "[''create''] @ (if cp_force req then [''-f''] else []) @ [cp_name req] @ layout_arg (cp_layout req) @ cp_devices req"
  obtain y h1 where l: "list_raw_disks env h = (y, h1)" by fastforce
  from list_raw_disks_issued [OF l] obtain k where k: "issued h1 = issued h @ k" "set k \<subseteq> {status_op}" by blast
  consider (none) "h' = h" | (listed) "h' = h1"
    | (go) disks paths where "y = Inr disks" "pick_devices disks [] (cp_devices req) = Inr paths"
        "min_devices (cp_layout req) \<le> length (cp_devices req)"
        "bind_st (run_ok ''zpool'' ([''create''] @ (if cp_force req then [''-f''] else []) @ [cp_name req] @ layout_arg (cp_layout req) @ paths) h1)
          (\<lambda>_ h. bind_st (list_pools h) (\<lambda>pools h.
            (ok_or (find (\<lambda>p. pool_name p = cp_name req) pools) (hypervisor ''pool was created but could not be read back''), h)))
          = (x, h')"
    using assms l
    by (cases y) (auto simp: create_pool_def split: sum.splits if_splits simp del: append_Cons append_Nil)
  then show ?thesis
  proof cases
    case none
    then show ?thesis by (intro exI [of _ "[]"]) simp
  next
    case listed
    with k show ?thesis by blast
  next
    case go
    note pd = pick_devices_ok [OF go(2)]
    obtain r h2 where r: "run_ok ''zpool'' ?args h1 = (r, h2)" by fastforce
    have i2: "issued h2 = issued h1 @ [exec_op ''zpool'' ?args]" using run_ok_issued [OF r] zpool_program(1) by simp
    have "\<exists>post. issued h' = issued h2 @ post \<and> set post \<subseteq> {pools_op}"
    proof (cases r)
      case (Inl e)
      with go(4) r pd show ?thesis by simp
    next
      case (Inr v)
      obtain q h3 where q: "list_pools h2 = (q, h3)" by fastforce
      with go(4) r pd Inr have "h' = h3" by (cases q) auto
      with list_pools_issued [OF q] show ?thesis by simp
    qed
    moreover have "free_disk env h p" if "p \<in> set (cp_devices req)" for p
    proof -
      from that pd obtain d where d: "d \<in> set disks" "rd_path d = p" "\<not> rd_in_use d" by blast
      from list_raw_disks_from [OF l [unfolded go(1)] d(1)] d(2,3) show ?thesis
        unfolding free_disk_def by (metis disk_of_in_use disk_of_path)
    qed
    ultimately show ?thesis using k i2 pd go(3) by (intro exI [of _ k]) auto
  qed
qed



text \<open>
  The test for a disk in use has gaps: a disk counts as free when every file system mounted from it is on an
  NVMe-style partition (\<open>nvme0n1p2\<close>), when every pool member listed is a partition of it, and when what holds it holds
  its partitions and not the disk itself; and a volume of ZFS (\<open>zd0\<close>) counts as a physical disk.
\<close>

theorem busy_disk_counts_as_free:
  assumes "\<not> sd_holder d" and "\<forall>m \<in> set (mounted_device_names env). \<exists>n. m = sd_name d @ ''p'' @ n"
    and "\<forall>t \<in> set zp. \<exists>n. n \<noteq> [] \<and> t = ''/dev/'' @ sd_name d @ n"
  shows "\<not> rd_in_use (disk_of env zp d) \<and> is_physical_disk_name (''zd'' @ n)"
proof
  have "\<not> (m = sd_name d \<or> (case strip_prefix m (sd_name d) of None \<Rightarrow> False
      | Some sffx \<Rightarrow> list_all (char_is is_ascii_digit) (chars sffx)))"
    if m: "m \<in> set (mounted_device_names env)" for m
  proof -
    from assms(2) m obtain n where n: "m = sd_name d @ ''p'' @ n" by blast
    then have "strip_prefix m (sd_name d) = Some (''p'' @ n)" by (simp add: strip_prefix_Some)
    moreover have "byte (CHR ''p'') = 112" by (simp add: byte_def)
    ultimately show ?thesis using n by (simp add: char_is_def is_ascii_digit_def)
  qed
  then have "\<not> is_mounted env (sd_name d)" unfolding is_mounted_def list_ex_iff by blast
  moreover have "''/dev/'' @ sd_name d \<notin> set zp" using assms(3) by fastforce
  ultimately show "\<not> rd_in_use (disk_of env zp d)" using assms(1) by (simp add: disk_of_in_use)
  show "is_physical_disk_name (''zd'' @ n)" by (simp add: is_physical_disk_name_def starts_with_def)
qed

text \<open>
  A SMART report never says anything: the four JSON pointers are written with dots and without the leading slash
  of RFC 6901, so that none of them resolves; on a host with \<open>smartctl\<close> each report claims support and knows neither
  health nor temperature nor hours, also for a disk that reports its failure.
\<close>

theorem smart_report_is_blank:
  assumes "\<forall>v p. p \<noteq> [] \<and> \<not> starts_with p ''/'' \<longrightarrow> js_pointer js v p = None"
    and "smart_report js checked_at env path h = (Inr r, h')"
  shows "sr_passed r = None \<and> sr_health r = None \<and> sr_temperature_c r = None \<and> sr_power_on_hours r = None"
proof -
  have "js_pointer js v ''smart_status.passed'' = None" "js_pointer js v ''smart_support.available'' = None"
    "js_pointer js v ''temperature.current'' = None" "js_pointer js v ''power_on_time.hours'' = None" for v
    using assms(1) by (simp_all add: starts_with_def)
  note p = this
  from assms(2) obtain disk h1 out where "find_disk env path h = (Inr disk, h1)"
      and o: "run_optional ''smartctl'' [''-j'', ''-a'', rd_path disk] h1 = (Inr out, h')"
    by (auto simp: smart_report_def res_simps)
  with assms(2) show ?thesis
    by (cases out; cases "js_parse js (the out)") (auto simp: smart_report_def p)
qed

subsection \<open>Listings\<close>

lemma parse_show_u64: "n < 2 ^ 64 \<Longrightarrow> parse_u64_or_0 (show_nat n) = n"
  by (simp add: parse_u64_or_0_def digits_trim [OF show_nat_all] parse_u64_def parse_unsigned_def show_nat_no_sign
      show_nat_all unwrap_or_def Let_def)

text \<open>A row of \<open>zfs list -Hp\<close>: the columns separated by tabs, numbers in full.\<close>

definition dataset_row :: "str \<Rightarrow> nat \<Rightarrow> nat \<Rightarrow> str \<Rightarrow> str \<Rightarrow> str \<Rightarrow> nat \<Rightarrow> str" where
  "dataset_row name used avail mountpoint compression kind created =
     join [CHR 0x09] [name, show_nat used, show_nat avail, mountpoint, compression, kind, show_nat created]"

text \<open>
  Listings are read back: a row that \<open>zfs list -Hp\<close> prints for a dataset is parsed to that dataset, with its exact sizes
  for every \<open>u64\<close>, its kind, its mount point unless there is none, and its creation time.
\<close>

theorem dataset_row_roundtrip:
  assumes "CHR 0x09 \<notin> set name" and "used < 2 ^ 64" and "avail < 2 ^ 64" and "created < 2 ^ 63"
    and "CHR 0x09 \<notin> set mountpoint" and "trim mountpoint = mountpoint"
    and "CHR 0x09 \<notin> set compression" and "trim compression = compression"
    and "kind = ''volume'' \<or> kind = ''filesystem''"
  shows "parse_dataset_line stamp (dataset_row name used avail mountpoint compression kind created) =
    Some \<lparr>ds_id = name, ds_name = name, ds_kind = (if kind = ''volume'' then Volume else Filesystem),
          ds_used = used, ds_available = avail,
          ds_mountpoint = (if mountpoint \<in> {[], ''-'', ''none'', ''legacy''} then None else Some mountpoint),
          ds_compression = compression, ds_created_at = unwrap_or (stamp (int created)) []\<rparr>"
proof -
  have t: "CHR 0x09 \<notin> set (show_nat n)" for n
    using show_nat_digits [of "CHR 0x09" n] by (auto simp: is_ascii_digit_def byte_def)
  have k: "CHR 0x09 \<notin> set kind" "trim kind = kind" using assms(9) by (auto, code_simp+)
  have "split_on (CHR 0x09) (dataset_row name used avail mountpoint compression kind created) =
      [name, show_nat used, show_nat avail, mountpoint, compression, kind, show_nat created]"
    unfolding dataset_row_def by (rule split_join) (simp add: assms t k)
  then show ?thesis
    using assms k by (simp add: parse_dataset_line_def Let_def parse_show_u64 unix_to_rfc3339_def parse_show_i64)
qed


subsection \<open>Witnesses\<close>

definition sample_host :: host where
  "sample_host = \<lparr>broker_socket = True, broker_answers = [Inr [], Inr []], direct_answers = [], broker_streams = [],
     direct_streams = [], host_files = [],
     file_errors = [], issued = []\<rparr>"

definition sample_disk :: sys_disk where
  "sample_disk = \<lparr>sd_name = ''nvme0n1'', sd_partition = False, sd_size = Some ''8'', sd_model = None, sd_serial = None,
     sd_rotational = None, sd_holder = False\<rparr>"

definition sample_blocks :: block_env where
  "sample_blocks = \<lparr>sys_block = Some [Inr sample_disk], proc_mounts = Some ''/dev/nvme0n1p2 / ext4 rw 0 0''\<rparr>"

definition sample_json :: "str json_api" where
  "sample_json = \<lparr>js_parse = Inr, js_pointer = (\<lambda>v p. if p = [] \<or> starts_with p ''/'' then Some v else None),
     js_bool = (\<lambda>_. Some False), js_i64 = (\<lambda>_. Some 70), js_u64 = (\<lambda>_. Some 9)\<rparr>"

lemma sample_disk_names: "plain_disk_names sample_blocks"
proof -
  have "safe_block_device (''/dev/'' @ ''nvme0n1'')" by code_simp
  then show ?thesis by (simp add: plain_disk_names_def sample_blocks_def sample_disk_def short_def)
qed

lemma sample_find_disk:
  "find_disk sample_blocks ''/dev/nvme0n1'' sample_host =
     (Inr (disk_of sample_blocks [] sample_disk), sample_host\<lparr>broker_answers := [Inr []], issued := [status_op]\<rparr>)"
proof -
  have z: "zpool_device_paths sample_host = (Inr [], sample_host\<lparr>broker_answers := [Inr []], issued := [status_op]\<rparr>)"
    by code_simp
  have "is_physical_disk_name (sd_name sample_disk)" "\<not> sd_partition sample_disk" by code_simp+
  then have "disks_loop sample_blocks [] [Inr sample_disk] = Inr [disk_of sample_blocks [] sample_disk]" by simp
  then show ?thesis
    using z by (simp add: find_disk_def list_raw_disks_def sample_blocks_def [THEN arg_cong, of sys_block] sample_disk_def)
qed

lemma sample_disk_free: "\<not> rd_in_use (disk_of sample_blocks [] sample_disk)" "rd_path (disk_of sample_blocks [] sample_disk) = ''/dev/nvme0n1''"
proof -
  have "\<not> is_mounted sample_blocks (sd_name sample_disk)" by code_simp
  then show "\<not> rd_in_use (disk_of sample_blocks [] sample_disk)" by (simp add: disk_of_in_use sample_disk_def)
  show "rd_path (disk_of sample_blocks [] sample_disk) = ''/dev/nvme0n1''" by (simp add: sample_disk_def)
qed

theorem zfs_commands_accepted_witness:
  "\<exists>ops. issued (zfs_run sample_json (\<lambda>_. None) ''tank'' sample_blocks (ZCloneSnapshot ''tank/a@s'' ''tank/b'') sample_host) = ops \<and>
     ops \<noteq> [] \<and> list_all (\<lambda>operation. validate_op operation = Inr ()) ops"
proof -
  let ?h = "zfs_run sample_json (\<lambda>_. None) ''tank'' sample_blocks (ZCloneSnapshot ''tank/a@s'' ''tank/b'') sample_host"
  have b: "zfs_call_bounded (ZCloneSnapshot ''tank/a@s'' ''tank/b'')" by (simp add: short_def)
  have "issued ?h \<noteq> []" by code_simp
  moreover have "issued sample_host = []" by (simp add: sample_host_def)
  ultimately show ?thesis
    using zfs_commands_accepted [OF b sample_disk_names, of sample_json "\<lambda>_. None" "''tank''" sample_host] by auto
qed


theorem busy_disk_counts_as_free_witness:
  "\<not> rd_in_use (disk_of sample_blocks [''/dev/nvme0n1p3''] sample_disk) \<and>
   mounted_device_names sample_blocks = [''nvme0n1p2'']"
proof -
  have m: "mounted_device_names sample_blocks = [''nvme0n1p2'']" by code_simp
  have "\<not> rd_in_use (disk_of sample_blocks [''/dev/nvme0n1p3''] sample_disk)"
    using busy_disk_counts_as_free [of sample_disk sample_blocks "[''/dev/nvme0n1p3'']"] m by (simp add: sample_disk_def)
  with m show ?thesis by blast
qed

theorem smart_report_is_blank_witness:
  "\<exists>r h'. smart_report sample_json ''t'' sample_blocks ''/dev/nvme0n1'' sample_host = (Inr r, h') \<and>
     sr_supported r \<and> sr_passed r = None \<and> js_bool sample_json [] = Some False"
proof -
  let ?r = "smart_report sample_json ''t'' sample_blocks ''/dev/nvme0n1'' sample_host"
  have o: "run_optional ''smartctl'' [''-j'', ''-a'', ''/dev/nvme0n1''] (sample_host\<lparr>broker_answers := [Inr []], issued := [status_op]\<rparr>) =
      (Inr (Some []), sample_host\<lparr>broker_answers := [], issued := [status_op, exec_op ''smartctl'' [''-j'', ''-a'', ''/dev/nvme0n1'']]\<rparr>)"
    by code_simp
  have "map_sum id sr_supported (fst ?r) = Inr True"
    by (simp add: smart_report_def sample_find_disk sample_disk_free o del: disk_of_path) (simp add: sample_json_def starts_with_def unwrap_or_def)
  then obtain r h' where r: "?r = (Inr r, h')" "sr_supported r" by (cases ?r; cases "fst ?r") auto
  have "\<forall>v p. p \<noteq> [] \<and> \<not> starts_with p ''/'' \<longrightarrow> js_pointer sample_json v p = None" by (simp add: sample_json_def)
  from smart_report_is_blank [OF this r(1)] r show ?thesis by (simp add: sample_json_def)
qed

theorem dataset_row_roundtrip_witness:
  "\<exists>d. parse_dataset_line (\<lambda>_. None) (dataset_row ''tank/a'' 42 7 ''/tank/a'' ''lz4'' ''volume'' 5) = Some d \<and>
     ds_used d = 42 \<and> ds_kind d = Volume \<and> ds_mountpoint d = Some ''/tank/a''"
proof -
  have t: "trim ''/tank/a'' = ''/tank/a''" "trim ''lz4'' = ''lz4''" by code_simp+
  show ?thesis
    using dataset_row_roundtrip [of "''tank/a''" 42 7 5 "''/tank/a''" "''lz4''" "''volume''" "\<lambda>_. None"] t by simp
qed

end
