(* ===== verification/Backup.thy ===== *)
theory Backup
  imports Command Operations
begin

section \<open>Backups (src/src/services/backup.rs)\<close>

text \<open>
  Plans, artifacts, the run of a backup and the restore. The state is that of the service (its two record
  stores and the set of plans that are running), of the operations journal the jobs report to, and of the
  host. What the KVM and LXC services say about a guest, the outcome of \<open>canonicalize\<close>, SHA-256 and chrono's
  date arithmetic are arguments; an addition of seconds is \<open>None\<close> where chrono panics. Notifications are
  recorded in the order they are sent.
\<close>

subsection \<open>Data\<close>

definition MIN_INTERVAL_SECS :: nat where
  "MIN_INTERVAL_SECS = 60"

definition MAX_RETENTION :: nat where
  "MAX_RETENTION = 3650"

datatype backup_source_type = SourceVm | SourceContainer | SourceDataset

record backup_plan =
  bp_id :: str
  bp_name :: str
  bp_source_type :: backup_source_type
  bp_source_id :: str
  bp_destination :: str
  bp_interval_secs :: "nat option"
  bp_retention_count :: nat
  bp_from_snapshot :: "str option"
  bp_verify :: bool
  bp_enabled :: bool
  bp_created_at :: str
  bp_updated_at :: "str option"
  bp_last_run_at :: "str option"
  bp_next_run_at :: "str option"

record backup_file =
  bf_dataset :: str
  bf_snapshot :: str
  bf_incremental_from :: "str option"
  bf_path :: str
  bf_size_bytes :: nat
  bf_sha256 :: str

record backup_artifact =
  ba_id :: str
  ba_plan_id :: str
  ba_source_type :: backup_source_type
  ba_source_id :: str
  ba_created_at :: str
  ba_total_size_bytes :: nat
  ba_verified :: bool
  ba_files :: "backup_file list"

datatype notification = BackupSucceeded str str | BackupFailed str str

record backup_state =
  bk_plans :: "backup_plan jstore"
  bk_artifacts :: "backup_artifact jstore"
  bk_running :: "str list"
  bk_ops :: operation_service
  bk_host :: host
  bk_notes :: "notification list"

text \<open>What the service is configured with and what it asks of its surroundings.\<close>

record backup_env =
  backup_dir :: str
  default_pool :: str
  add_seconds :: "str \<Rightarrow> nat \<Rightarrow> str option"
  canonicalize :: "str \<Rightarrow> str + str"
  sha256 :: "str \<Rightarrow> str"
  vm_disks :: "str \<Rightarrow> str list api_result"
  container_rootfs :: "str \<Rightarrow> str api_result"

definition on_plans :: "(backup_plan jstore \<Rightarrow> 'a \<times> backup_plan jstore) \<Rightarrow> backup_state \<Rightarrow> 'a \<times> backup_state" where
  "on_plans f s = (let (x, st) = f (bk_plans s) in (x, s\<lparr>bk_plans := st\<rparr>))"

definition on_artifacts ::
  "(backup_artifact jstore \<Rightarrow> 'a \<times> backup_artifact jstore) \<Rightarrow> backup_state \<Rightarrow> 'a \<times> backup_state" where
  "on_artifacts f s = (let (x, st) = f (bk_artifacts s) in (x, s\<lparr>bk_artifacts := st\<rparr>))"

definition on_ops :: "(operation_service \<Rightarrow> 'a \<times> operation_service) \<Rightarrow> backup_state \<Rightarrow> 'a \<times> backup_state" where
  "on_ops f s = (let (x, o1) = f (bk_ops s) in (x, s\<lparr>bk_ops := o1\<rparr>))"

definition on_host :: "(host \<Rightarrow> 'a \<times> host) \<Rightarrow> backup_state \<Rightarrow> 'a \<times> backup_state" where
  "on_host f s = (let (x, h) = f (bk_host s) in (x, s\<lparr>bk_host := h\<rparr>))"

subsection \<open>Validation\<close>

definition validate_interval :: "nat option \<Rightarrow> unit api_result" where
  "validate_interval value =
     (if (case value of None \<Rightarrow> False | Some secs \<Rightarrow> secs < MIN_INTERVAL_SECS)
      then Inl (validation ''backup interval must be at least 60 seconds'') else Inr ())"

definition validate_retention :: "nat \<Rightarrow> unit api_result" where
  "validate_retention value =
     (if value = 0 \<or> MAX_RETENTION < value
      then Inl (validation (''retention_count must be 1..='' @ show_nat MAX_RETENTION)) else Inr ())"

definition validate_destination :: "str \<Rightarrow> unit api_result" where
  "validate_destination value =
     (if trim value = [] \<or> starts_with value ''/'' \<or> CHR 0x5C \<in> set value \<or> 128 < length value
      then Inl (validation ''destination must be a relative backup directory'')
      else if list_ex (\<lambda>part. part = [] \<or> part = ''.'' \<or> part = ''..'') (split_on (CHR ''/'') value) \<or>
              \<not> list_all (\<lambda>b. is_ascii_alphanumeric b \<or> b \<in> set ''.-_/'') value
      then Inl (validation ''destination contains invalid path components'')
      else Inr ())"

definition safe_destination :: "str \<Rightarrow> str \<Rightarrow> str api_result" where
  "safe_destination root relative =
     bind_res (validate_destination relative) (\<lambda>_.
       let path = root @ ''/'' @ relative in
       if ''..'' \<in> set (split_on (CHR ''/'') path) then Inl (validation ''destination escapes backup root'')
       else Inr path)"

definition validate_from_snapshot :: "str \<Rightarrow> str option api_result" where
  "validate_from_snapshot tag =
     (let tag = trim tag in
      if tag = [] then Inr None else bind_res (ensure_safe_zfs_snapshot tag) (\<lambda>safe. Inr (Some safe)))"

definition zfs_incremental_send_args :: "str \<Rightarrow> str \<Rightarrow> str list" where
  "zfs_incremental_send_args base snapshot = [''send'', ''-i'', base, snapshot]"

definition ensure_within_managed_pool :: "str \<Rightarrow> str \<Rightarrow> unit api_result" where
  "ensure_within_managed_pool target pool =
     (if \<not> starts_with target (pool @ ''/'')
      then Inl (validation (''restore target must be a dataset under the managed pool '' @ debug_str pool))
      else Inr ())"

record create_plan_request =
  bc_name :: str
  bc_source_type :: backup_source_type
  bc_source_id :: str
  bc_destination :: str
  bc_interval_secs :: "nat option"
  bc_retention_count :: nat
  bc_from_snapshot :: "str option"
  bc_verify :: bool
  bc_enabled :: bool

definition validate_plan_request :: "create_plan_request \<Rightarrow> unit api_result" where
  "validate_plan_request req =
     (if trim (bc_name req) = [] \<or> 64 < length (trim (bc_name req))
      then Inl (validation ''backup plan name must be 1..=64 characters'')
      else if trim (bc_source_id req) = [] then Inl (validation ''backup source_id must not be empty'')
      else
        bind_res (ensure_safe_id (trim (bc_name req))) (\<lambda>_.
        bind_res (validate_interval (bc_interval_secs req)) (\<lambda>_.
        bind_res (validate_retention (bc_retention_count req)) (\<lambda>_.
        bind_res (validate_destination (bc_destination req)) (\<lambda>_.
          case bc_source_type req of
            SourceDataset \<Rightarrow> bind_res (ensure_safe_zfs_dataset (trim (bc_source_id req))) (\<lambda>_. Inr ())
          | _ \<Rightarrow> bind_res (ensure_safe_id (trim (bc_source_id req))) (\<lambda>_. Inr ()))))))"

subsection \<open>Plans\<close>

definition list_plans :: "backup_state \<Rightarrow> backup_plan list api_result \<times> backup_state" where
  "list_plans s = bind_st (on_plans Store.list s) (\<lambda>plans s. (Inr (sort_key bp_name plans), s))"

definition get_plan :: "str \<Rightarrow> backup_state \<Rightarrow> backup_plan api_result \<times> backup_state" where
  "get_plan i s =
     bind_st (ensure_safe_id i, s) (\<lambda>_ s.
     bind_st (on_plans (Store.get i) s) (\<lambda>x s.
       (ok_or x (not_found ''backup plan not found''), s)))"

definition put_plan :: "backup_plan \<Rightarrow> backup_state \<Rightarrow> unit api_result \<times> backup_state" where
  "put_plan p s = on_plans (Store.put (bp_id p) p) s"

definition non_blank :: "str option \<Rightarrow> str option" where
  "non_blank x = (case x of None \<Rightarrow> None | Some t \<Rightarrow> if trim t = [] then None else Some (trim t))"

text \<open>\<open>None\<close> is a panic of the date arithmetic, before anything is stored.\<close>

definition next_run :: "backup_env \<Rightarrow> str \<Rightarrow> nat option \<Rightarrow> str option option" where
  "next_run e now interval =
     (case interval of None \<Rightarrow> Some None | Some secs \<Rightarrow> map_option Some (add_seconds e now secs))"

definition create_plan ::
  "backup_env \<Rightarrow> str \<Rightarrow> str \<Rightarrow> create_plan_request \<Rightarrow> backup_state
     \<Rightarrow> backup_plan api_result option \<times> backup_state" where
  "create_plan e new_id now req s =
     (case bind_st (validate_plan_request req, s) (\<lambda>_ s.
           bind_st (ensure_safe_id (bc_name req), s) (\<lambda>_ s. list_plans s)) of
        (Inl er, s) \<Rightarrow> (Some (Inl er), s)
      | (Inr plans, s) \<Rightarrow>
          if list_ex (\<lambda>p. eq_ignore_ascii_case (bp_name p) (trim (bc_name req))) plans
          then (Some (Inl (conflict ''a backup plan with that name already exists'')), s)
          else
            (case next_run e now (bc_interval_secs req) of
               None \<Rightarrow> (None, s)
             | Some next \<Rightarrow>
                 (let plan = \<lparr>bp_id = new_id, bp_name = trim (bc_name req), bp_source_type = bc_source_type req,
                              bp_source_id = trim (bc_source_id req), bp_destination = trim (bc_destination req),
                              bp_interval_secs = bc_interval_secs req,
                              bp_retention_count = bc_retention_count req,
                              bp_from_snapshot = non_blank (bc_from_snapshot req), bp_verify = bc_verify req,
                              bp_enabled = bc_enabled req, bp_created_at = now, bp_updated_at = None,
                              bp_last_run_at = None, bp_next_run_at = next\<rparr>
                  in map_prod Some id (bind_st (put_plan plan s) (\<lambda>_ s. (Inr plan, s))))))"

record update_plan_request =
  up_interval_secs :: "nat option"
  up_retention_count :: "nat option"
  up_from_snapshot :: "str option"
  up_verify :: "bool option"
  up_enabled :: "bool option"

text \<open>The steps of \<open>update_plan\<close> on the record, in the code's order, with one reading of the clock.\<close>

definition set_interval ::
  "backup_env \<Rightarrow> str \<Rightarrow> nat option \<Rightarrow> backup_plan \<Rightarrow> backup_plan api_result option" where
  "set_interval e now interval p =
     (case interval of
        None \<Rightarrow> Some (Inr p)
      | Some secs \<Rightarrow>
          (case validate_interval (Some secs) of
             Inl er \<Rightarrow> Some (Inl er)
           | Inr _ \<Rightarrow>
               map_option (\<lambda>t. Inr (p\<lparr>bp_interval_secs := Some secs, bp_next_run_at := Some t\<rparr>)) (add_seconds e now secs)))"

definition set_retention :: "nat option \<Rightarrow> backup_plan \<Rightarrow> backup_plan api_result" where
  "set_retention retention p =
     (case retention of
        None \<Rightarrow> Inr p
      | Some n \<Rightarrow> bind_res (validate_retention n) (\<lambda>_. Inr (p\<lparr>bp_retention_count := n\<rparr>)))"

definition set_from_snapshot :: "str option \<Rightarrow> backup_plan \<Rightarrow> backup_plan api_result" where
  "set_from_snapshot tag p =
     (case tag of
        None \<Rightarrow> Inr p
      | Some t \<Rightarrow> bind_res (validate_from_snapshot t) (\<lambda>v. Inr (p\<lparr>bp_from_snapshot := v\<rparr>)))"

definition set_enabled :: "backup_env \<Rightarrow> str \<Rightarrow> bool option \<Rightarrow> backup_plan \<Rightarrow> backup_plan option" where
  "set_enabled e now enabled p =
     (case enabled of
        None \<Rightarrow> Some p
      | Some b \<Rightarrow>
          (let p = p\<lparr>bp_enabled := b\<rparr> in
           if b \<and> bp_interval_secs p \<noteq> None \<and> bp_next_run_at p = None
           then map_option (\<lambda>t. p\<lparr>bp_next_run_at := t\<rparr>) (next_run e now (bp_interval_secs p))
           else Some p))"

definition update_plan ::
  "backup_env \<Rightarrow> str \<Rightarrow> str \<Rightarrow> update_plan_request \<Rightarrow> backup_state
     \<Rightarrow> backup_plan api_result option \<times> backup_state" where
  "update_plan e now i req s =
     (case get_plan i s of
        (Inl er, s) \<Rightarrow> (Some (Inl er), s)
      | (Inr p, s) \<Rightarrow>
          (case set_interval e now (up_interval_secs req) p of
             None \<Rightarrow> (None, s)
           | Some r \<Rightarrow>
               (case bind_res r (\<lambda>p. bind_res (set_retention (up_retention_count req) p)
                       (set_from_snapshot (up_from_snapshot req))) of
                  Inl er \<Rightarrow> (Some (Inl er), s)
                | Inr p \<Rightarrow>
                    (let p = (case up_verify req of None \<Rightarrow> p | Some v \<Rightarrow> p\<lparr>bp_verify := v\<rparr>) in
                     case set_enabled e now (up_enabled req) p of
                       None \<Rightarrow> (None, s)
                     | Some p \<Rightarrow>
                         (let p = p\<lparr>bp_updated_at := Some now\<rparr> in
                          map_prod Some id (bind_st (put_plan p s) (\<lambda>_ s. (Inr p, s))))))))"

definition delete_plan :: "str \<Rightarrow> backup_state \<Rightarrow> unit api_result \<times> backup_state" where
  "delete_plan i s =
     bind_st (get_plan i s) (\<lambda>_ s.
       if i \<in> set (bk_running s) then (Inl (conflict ''backup plan is currently running''), s)
       else bind_st (on_plans (Store.delete i) s) (\<lambda>_ s. (Inr (), s)))"

subsection \<open>Artifacts\<close>

definition list_artifacts :: "str option \<Rightarrow> backup_state \<Rightarrow> backup_artifact list api_result \<times> backup_state" where
  "list_artifacts plan_id s =
     bind_st (on_artifacts Store.list s) (\<lambda>as s.
       (Inr (sort_desc ba_created_at
          (case plan_id of None \<Rightarrow> as | Some p \<Rightarrow> filter (\<lambda>a. ba_plan_id a = p) as)), s))"

definition get_artifact :: "str \<Rightarrow> backup_state \<Rightarrow> backup_artifact api_result \<times> backup_state" where
  "get_artifact i s =
     bind_st (ensure_safe_id i, s) (\<lambda>_ s.
     bind_st (on_artifacts (Store.get i) s) (\<lambda>x s.
       (ok_or x (not_found ''backup artifact not found''), s)))"

definition put_artifact :: "backup_artifact \<Rightarrow> backup_state \<Rightarrow> unit api_result \<times> backup_state" where
  "put_artifact a s = on_artifacts (Store.put (ba_id a) a) s"

definition remove_files :: "backup_file list \<Rightarrow> host \<Rightarrow> host" where
  "remove_files fs h = fold (\<lambda>f. remove_file (bf_path f)) fs h"

fun drop_artifacts :: "backup_artifact list \<Rightarrow> backup_state \<Rightarrow> unit api_result \<times> backup_state" where
  "drop_artifacts [] s = (Inr (), s)"
| "drop_artifacts (a # as) s =
     (let s = s\<lparr>bk_host := remove_files (ba_files a) (bk_host s)\<rparr> in
      bind_st (on_artifacts (Store.delete (ba_id a)) s) (\<lambda>_ s. drop_artifacts as s))"

definition apply_retention :: "backup_plan \<Rightarrow> backup_state \<Rightarrow> unit api_result \<times> backup_state" where
  "apply_retention plan s =
     bind_st (list_artifacts (Some (bp_id plan)) s) (\<lambda>as s.
       if length as \<le> bp_retention_count plan then (Inr (), s)
       else drop_artifacts (drop (bp_retention_count plan) as) s)"

subsection \<open>Checksums\<close>

text \<open>\<open>sha256_file\<close>: the open and the reads may each fail.\<close>

definition sha256_file :: "backup_env \<Rightarrow> str \<Rightarrow> host \<Rightarrow> str api_result \<times> host" where
  "sha256_file e path h =
     bind_st (open_file path h) (\<lambda>body h.
       case next_file_error h of
         (Some er, h) \<Rightarrow> (Inl (internal (''read '' @ path @ '': '' @ er)), h)
       | (None, h) \<Rightarrow> (Inr (sha256 e body), h))"

definition verify_file :: "backup_env \<Rightarrow> backup_file \<Rightarrow> host \<Rightarrow> unit api_result \<times> host" where
  "verify_file e f h =
     bind_st (sha256_file e (bf_path f) h) (\<lambda>actual h.
       (if actual \<noteq> bf_sha256 f then Inl (conflict ''backup checksum verification failed'') else Inr (), h))"

definition verify_checksum :: "backup_env \<Rightarrow> str \<Rightarrow> str \<Rightarrow> host \<Rightarrow> unit api_result \<times> host" where
  "verify_checksum e path expected h =
     bind_st (sha256_file e path h) (\<lambda>actual h.
       (if actual \<noteq> expected then Inl (internal ''backup checksum changed during verification'') else Inr (), h))"

subsection \<open>Running a backup\<close>

text \<open>\<open>collect\<close> of results: the first error, or all the values.\<close>

fun those_res :: "('e + 'a) list \<Rightarrow> 'e + 'a list" where
  "those_res [] = Inr []"
| "those_res (x # xs) = bind_res x (\<lambda>v. bind_res (those_res xs) (\<lambda>vs. Inr (v # vs)))"

definition resolve_sources :: "backup_env \<Rightarrow> backup_plan \<Rightarrow> str list api_result" where
  "resolve_sources e plan =
     (case bp_source_type plan of
        SourceDataset \<Rightarrow> bind_res (ensure_safe_zfs_dataset (bp_source_id plan)) (\<lambda>_. Inr [bp_source_id plan])
      | SourceVm \<Rightarrow>
          bind_res (vm_disks e (bp_source_id plan)) (\<lambda>disks.
            those_res (map (\<lambda>d. ensure_safe_zfs_dataset (trim d)) disks))
      | SourceContainer \<Rightarrow>
          bind_res (container_rootfs e (bp_source_id plan)) (\<lambda>d.
            bind_res (ensure_safe_zfs_dataset d) (\<lambda>d. Inr [d])))"

definition exists_args :: "str \<Rightarrow> str list" where
  "exists_args name = [''list'', ''-H'', ''-o'', ''name'', name]"

text \<open>The pre-flight of an incremental plan.\<close>

fun find_bases :: "str \<Rightarrow> str list \<Rightarrow> host \<Rightarrow> str list api_result \<times> host" where
  "find_bases tag [] h = (Inr [], h)"
| "find_bases tag (d # ds) h =
     (let base = d @ ''@'' @ tag in
      bind_st (run_optional ''zfs'' (exists_args base) h) (\<lambda>out h.
        if out = None
        then (Inl (validation (''incremental base snapshot '' @ base @ '' does not exist on the source'')), h)
        else bind_st (find_bases tag ds h) (\<lambda>bases h. (Inr (base # bases), h))))"

definition preflight :: "backup_plan \<Rightarrow> str list \<Rightarrow> host \<Rightarrow> str option list api_result \<times> host" where
  "preflight plan datasets h =
     (case bp_from_snapshot plan of
        None \<Rightarrow> (Inr (map (\<lambda>_. None) datasets), h)
      | Some tag \<Rightarrow> bind_st (find_bases tag datasets h) (\<lambda>bases h. (Inr (map Some bases), h)))"

definition send_args :: "str option \<Rightarrow> str \<Rightarrow> str list" where
  "send_args incremental_from snapshot =
     (case incremental_from of
        Some base \<Rightarrow> zfs_incremental_send_args base snapshot
      | None \<Rightarrow> [''send'', ''-p'', snapshot])"

definition progress_of :: "nat \<Rightarrow> nat \<Rightarrow> 8 word" where
  "progress_of index count = (let p = of_nat (index * 70 div count) in if p < 5 then 5 else p)"

text \<open>One dataset of a run, after its snapshot was taken.\<close>

definition backup_stream ::
  "backup_env \<Rightarrow> backup_plan \<Rightarrow> str \<Rightarrow> str \<Rightarrow> str option \<Rightarrow> str \<Rightarrow> str \<Rightarrow> backup_state
     \<Rightarrow> backup_file api_result \<times> backup_state" where
  "backup_stream e plan operation_id dataset incremental_from snapshot path s =
     bind_st (on_host (stream_to_file ''zfs'' (send_args incremental_from snapshot) path) s) (\<lambda>size s.
     bind_st (on_host (sha256_file e path) s) (\<lambda>sha s.
     bind_st (if bp_verify plan then
                bind_st (on_ops (update_progress operation_id 75 (Some ''verifying backup checksum'')) s) (\<lambda>_ s.
                  on_host (verify_checksum e path sha) s)
              else (Inr (), s)) (\<lambda>_ s.
       (Inr \<lparr>bf_dataset = dataset, bf_snapshot = snapshot, bf_incremental_from = incremental_from, bf_path = path,
             bf_size_bytes = size, bf_sha256 = sha\<rparr>, s))))"

text \<open>The loop over the datasets; the snapshots that were created are known whatever the outcome.\<close>

fun backup_loop ::
  "backup_env \<Rightarrow> backup_plan \<Rightarrow> str \<Rightarrow> str \<Rightarrow> str \<Rightarrow> str \<Rightarrow> nat \<Rightarrow> nat \<Rightarrow> (str \<times> str option) list \<Rightarrow> backup_state
     \<Rightarrow> backup_file list api_result \<times> str list \<times> backup_state" where
  "backup_loop e plan operation_id artifact_id tag destination count index [] s = (Inr [], [], s)"
| "backup_loop e plan operation_id artifact_id tag destination count index ((dataset, incremental_from) # rest) s =
     (case on_ops (update_progress operation_id (progress_of index count) (Some ''creating backup snapshot'')) s of
        (Inl er, s) \<Rightarrow> (Inl er, [], s)
      | (Inr _, s) \<Rightarrow>
          (let snapshot = dataset @ ''@'' @ tag in
           case on_host (run_ok ''zfs'' [''snapshot'', snapshot]) s of
             (Inl er, s) \<Rightarrow> (Inl er, [], s)
           | (Inr _, s) \<Rightarrow>
               (case backup_stream e plan operation_id dataset incremental_from snapshot
                       (destination @ ''/'' @ artifact_id @ ''-'' @ show_nat index @ ''.zfs'') s of
                  (Inl er, s) \<Rightarrow> (Inl er, [snapshot], s)
                | (Inr f, s) \<Rightarrow>
                    (case backup_loop e plan operation_id artifact_id tag destination count (Suc index) rest s of
                       (Inl er, created, s) \<Rightarrow> (Inl er, snapshot # created, s)
                     | (Inr fs, created, s) \<Rightarrow> (Inr (f # fs), snapshot # created, s)))))"

definition destroy_snapshots :: "str list \<Rightarrow> host \<Rightarrow> host" where
  "destroy_snapshots created h = fold (\<lambda>snapshot h. snd (run_ok ''zfs'' [''destroy'', snapshot] h)) created h"

text \<open>The result block: bases, streams, the artifact record and the retention.\<close>

definition backup_attempt ::
  "backup_env \<Rightarrow> backup_plan \<Rightarrow> str \<Rightarrow> str \<Rightarrow> str \<Rightarrow> str \<Rightarrow> str list \<Rightarrow> backup_state
     \<Rightarrow> backup_artifact api_result \<times> str list \<times> backup_state" where
  "backup_attempt e plan operation_id artifact_id now destination datasets s =
     (case on_host (preflight plan datasets) s of
        (Inl er, s) \<Rightarrow> (Inl er, [], s)
      | (Inr bases, s) \<Rightarrow>
          (case backup_loop e plan operation_id artifact_id
                  (''daygleve-backup-'' @ filter (\<lambda>c. c \<noteq> CHR ''-'') artifact_id) destination
                  (length datasets) 0 (zip datasets bases) s of
             (Inl er, created, s) \<Rightarrow> (Inl er, created, s)
           | (Inr fs, created, s) \<Rightarrow>
               (let artifact = \<lparr>ba_id = artifact_id, ba_plan_id = bp_id plan, ba_source_type = bp_source_type plan,
                                ba_source_id = bp_source_id plan, ba_created_at = now,
                                ba_total_size_bytes = sum_list (map bf_size_bytes fs),
                                ba_verified = bp_verify plan, ba_files = fs\<rparr>;
                    (r, s) = bind_st (put_artifact artifact s) (\<lambda>_ s.
                               bind_st (apply_retention plan s) (\<lambda>_ s. (Inr artifact, s)))
                in (r, created, s))))"

text \<open>\<open>Path::starts_with\<close> on canonical paths compares components.\<close>

definition path_starts_with :: "str \<Rightarrow> str \<Rightarrow> bool" where
  "path_starts_with p root \<longleftrightarrow> p = root \<or> starts_with p (root @ ''/'') \<or> root = ''/''"

definition make_dir :: "str \<Rightarrow> host \<Rightarrow> unit api_result \<times> host" where
  "make_dir what h =
     (case next_file_error h of
        (Some er, h) \<Rightarrow> (Inl (internal (''create backup '' @ what @ '': '' @ er)), h)
      | (None, h) \<Rightarrow> (Inr (), h))"

definition resolved :: "backup_env \<Rightarrow> str \<Rightarrow> str \<Rightarrow> str api_result" where
  "resolved e what path =
     (case canonicalize e path of
        Inl er \<Rightarrow> Inl (internal (''resolve backup '' @ what @ '': '' @ er))
      | Inr p \<Rightarrow> Inr p)"

definition prepare_destination :: "backup_env \<Rightarrow> backup_plan \<Rightarrow> host \<Rightarrow> str api_result \<times> host" where
  "prepare_destination e plan h =
     bind_st (make_dir ''root'' h) (\<lambda>_ h.
     bind_st (safe_destination (backup_dir e) (bp_destination plan), h) (\<lambda>destination h.
     bind_st (make_dir ''destination'' h) (\<lambda>_ h.
     bind_st (resolved e ''root'' (backup_dir e), h) (\<lambda>root h.
     bind_st (resolved e ''destination'' destination, h) (\<lambda>real h.
       if \<not> path_starts_with real root
       then (Inl (validation ''backup destination escapes backup root''), h)
       else (Inr destination, h))))))"

definition prepare_run :: "backup_env \<Rightarrow> backup_plan \<Rightarrow> backup_state \<Rightarrow> (str list \<times> str) api_result \<times> backup_state" where
  "prepare_run e plan s =
     bind_st (resolve_sources e plan, s) (\<lambda>datasets s.
       if datasets = [] then (Inl (validation ''backup source contains no datasets''), s)
       else bind_st (on_host (prepare_destination e plan) s) (\<lambda>destination s. (Inr (datasets, destination), s)))"

text \<open>The schedule is advanced after every attempt that came this far; \<open>None\<close> is a panic.\<close>

definition finish_run ::
  "backup_env \<Rightarrow> str \<Rightarrow> backup_plan \<Rightarrow> backup_artifact api_result \<Rightarrow> backup_state
     \<Rightarrow> backup_artifact api_result option \<times> backup_state" where
  "finish_run e now plan result s =
     (case get_plan (bp_id plan) s of
        (Inl er, s) \<Rightarrow> (Some (Inl er), s)
      | (Inr current, s) \<Rightarrow>
          (let current = (if is_ok result then current\<lparr>bp_last_run_at := Some now\<rparr> else current) in
           case next_run e now (bp_interval_secs current) of
             None \<Rightarrow> (None, s)
           | Some next \<Rightarrow>
               (case put_plan (current\<lparr>bp_next_run_at := next\<rparr>) s of
                  (Inl er, s) \<Rightarrow> (Some (Inl er), s)
                | (Inr _, s) \<Rightarrow> (Some result, s))))"

text \<open>\<open>now\<close> is the time of the artifact, \<open>now'\<close> that of the end of the run.\<close>

definition run_backup ::
  "backup_env \<Rightarrow> str \<Rightarrow> str \<Rightarrow> str \<Rightarrow> backup_plan \<Rightarrow> str \<Rightarrow> backup_state
     \<Rightarrow> backup_artifact api_result option \<times> backup_state" where
  "run_backup e new_id now now' plan operation_id s =
     (case prepare_run e plan s of
        (Inl er, s) \<Rightarrow> (Some (Inl er), s)
      | (Inr (datasets, destination), s) \<Rightarrow>
          (let (result, created, s) = backup_attempt e plan operation_id new_id now destination datasets s
           in finish_run e now' plan result (s\<lparr>bk_host := destroy_snapshots created (bk_host s)\<rparr>)))"

subsection \<open>Jobs\<close>

text \<open>The background task of \<open>OperationService::enqueue\<close> for work on a larger state; a panic of the work
  (\<open>None\<close>) ends the task.\<close>

definition worker_on ::
  "((operation_service \<Rightarrow> unit api_result \<times> operation_service) \<Rightarrow> 's \<Rightarrow> unit api_result \<times> 's)
     \<Rightarrow> str \<Rightarrow> str \<Rightarrow> str \<Rightarrow> str option \<Rightarrow> str option \<Rightarrow> (str \<Rightarrow> 's \<Rightarrow> str option api_result option \<times> 's) \<Rightarrow> 's \<Rightarrow> 's" where
  "worker_on lift now now' i resource_type resource_id work s =
     (case lift (mark_running now i) s of
        (Inl _, s) \<Rightarrow> s
      | (Inr _, s) \<Rightarrow>
          (case work i s of
             (None, s) \<Rightarrow> s
           | (Some (Inr msg), s) \<Rightarrow> snd (lift (succeed now' i resource_type resource_id msg) s)
           | (Some (Inl e), s) \<Rightarrow> snd (lift (fail now' i (err_message e)) s)))"

definition enqueue_backup_for_plan ::
  "str \<Rightarrow> str \<Rightarrow> backup_plan \<Rightarrow> str option \<Rightarrow> backup_state \<Rightarrow> operation_record api_result \<times> backup_state" where
  "enqueue_backup_for_plan op_new_id now plan actor s =
     (if bp_id plan \<in> set (bk_running s)
      then (Inl (conflict ''a backup for this plan is already running''), s)
      else
        (case on_ops (queue_op op_new_id now ''backup.run'' (Some ''backup_plan'') (Some (bp_id plan)) actor)
                (s\<lparr>bk_running := bp_id plan # bk_running s\<rparr>) of
           (Inl e, s) \<Rightarrow> (Inl e, s\<lparr>bk_running := removeAll (bp_id plan) (bk_running s)\<rparr>)
         | (Inr r, s) \<Rightarrow> (Inr r, s)))"

definition enqueue_backup ::
  "str \<Rightarrow> str \<Rightarrow> str \<Rightarrow> str option \<Rightarrow> backup_state \<Rightarrow> operation_record api_result \<times> backup_state" where
  "enqueue_backup op_new_id now plan_id actor s =
     bind_st (get_plan plan_id s) (\<lambda>plan s. enqueue_backup_for_plan op_new_id now plan actor s)"

definition backup_note :: "backup_plan \<Rightarrow> backup_artifact api_result \<Rightarrow> notification" where
  "backup_note plan r =
     (case r of
        Inr a \<Rightarrow> BackupSucceeded (''Backup succeeded: '' @ bp_name plan)
          (''Backup plan '' @ debug_str (bp_name plan) @ '' completed: artifact '' @ ba_id a @ '' (''
             @ show_nat (ba_total_size_bytes a) @ '' bytes).'')
      | Inl e \<Rightarrow> BackupFailed (''Backup failed: '' @ bp_name plan)
          (''Backup plan '' @ debug_str (bp_name plan) @ '' failed: '' @ err_message e))"

definition backup_work ::
  "backup_env \<Rightarrow> str \<Rightarrow> str \<Rightarrow> str \<Rightarrow> backup_plan \<Rightarrow> str \<Rightarrow> backup_state
     \<Rightarrow> str option api_result option \<times> backup_state" where
  "backup_work e new_id now now' plan i s =
     (case run_backup e new_id now now' plan i s of
        (None, s) \<Rightarrow> (None, s)
      | (Some r, s) \<Rightarrow>
          (Some (bind_res r (\<lambda>a. Inr (Some (''created backup '' @ ba_id a @ '' ('' @ show_nat (ba_total_size_bytes a) @ '' bytes)'')))),
           s\<lparr>bk_running := removeAll (bp_id plan) (bk_running s), bk_notes := bk_notes s @ [backup_note plan r]\<rparr>))"

definition backup_job ::
  "backup_env \<Rightarrow> str \<Rightarrow> str \<Rightarrow> str \<Rightarrow> backup_plan \<Rightarrow> str \<Rightarrow> backup_state \<Rightarrow> backup_state" where
  "backup_job e new_id now now' plan i s =
     worker_on on_ops now now' i (Some ''backup_plan'') (Some (bp_id plan)) (backup_work e new_id now now' plan) s"

text \<open>One tick of the scheduler: the jobs it spawns, with their plans.\<close>

definition is_due :: "str \<Rightarrow> backup_plan \<Rightarrow> bool" where
  "is_due now plan \<longleftrightarrow>
     bp_enabled plan \<and> bp_interval_secs plan \<noteq> None \<and>
     (case bp_next_run_at plan of None \<Rightarrow> False | Some at \<Rightarrow> at \<le> now)"

fun start_due ::
  "(nat \<Rightarrow> str) \<Rightarrow> str \<Rightarrow> backup_plan list \<Rightarrow> backup_state \<Rightarrow> (backup_plan \<times> operation_record) list \<times> backup_state" where
  "start_due ids now [] s = ([], s)"
| "start_due ids now (plan # plans) s =
     (if is_due now plan then
        (case enqueue_backup_for_plan (ids (length plans)) now plan None s of
           (Inl _, s) \<Rightarrow> start_due ids now plans s
         | (Inr r, s) \<Rightarrow> (let (jobs, s) = start_due ids now plans s in ((plan, r) # jobs, s)))
      else start_due ids now plans s)"

definition scheduler_tick ::
  "(nat \<Rightarrow> str) \<Rightarrow> str \<Rightarrow> backup_state \<Rightarrow> (backup_plan \<times> operation_record) list \<times> backup_state" where
  "scheduler_tick ids now s =
     (case list_plans s of (Inl _, s) \<Rightarrow> ([], s) | (Inr plans, s) \<Rightarrow> start_due ids now plans s)"

subsection \<open>Restoring\<close>

definition restore_file :: "backup_file \<Rightarrow> str \<Rightarrow> bool \<Rightarrow> host \<Rightarrow> unit api_result \<times> host" where
  "restore_file f target force h =
     bind_st (ensure_safe_zfs_dataset target, h) (\<lambda>_ h.
     bind_st (run_optional ''zfs'' (exists_args target) h) (\<lambda>present h.
       if present \<noteq> None \<and> \<not> force
       then (Inl (conflict ''restore target already exists; set force to replace it''), h)
       else
         bind_st (if present \<noteq> None \<and> force then run_ok ''zfs'' [''destroy'', ''-r'', target] h else (Inr (), h)) (\<lambda>_ h.
           stream_from_file ''zfs'' [''receive'', ''-F'', target] (bf_path f) h)))"

definition restore_incremental_file :: "backup_file \<Rightarrow> str \<Rightarrow> host \<Rightarrow> unit api_result \<times> host" where
  "restore_incremental_file f target h =
     bind_st (ensure_safe_zfs_dataset target, h) (\<lambda>_ h.
     bind_st (run_optional ''zfs'' (exists_args target) h) (\<lambda>present h.
       if present = None
       then (Inl (validation ''incremental restore requires the target dataset to already exist with the base snapshot; restore the base artifact first''), h)
       else stream_from_file ''zfs'' [''receive'', ''-F'', target] (bf_path f) h))"

record restore_request =
  rr_target_id :: "str option"
  rr_base_artifact_id :: "str option"
  rr_force :: bool

definition base_of ::
  "backup_artifact \<Rightarrow> restore_request \<Rightarrow> backup_state \<Rightarrow> backup_file option api_result \<times> backup_state" where
  "base_of artifact req s =
     (let file = hd (ba_files artifact) in
      case rr_base_artifact_id req of
        Some base_id \<Rightarrow>
          bind_st (get_artifact base_id s) (\<lambda>base s.
            if ba_plan_id base \<noteq> ba_plan_id artifact
            then (Inl (validation ''base artifact belongs to a different backup plan''), s)
            else
              case bf_incremental_from file of
                None \<Rightarrow> (Inl (validation ''this artifact is a full stream and needs no base''), s)
              | Some base_snapshot \<Rightarrow>
                  (case find (\<lambda>f. bf_snapshot f = base_snapshot) (ba_files base) of
                     None \<Rightarrow> (Inl (validation ''base artifact does not contain the incremental base snapshot''), s)
                   | Some base_file \<Rightarrow>
                       if \<not> ba_verified base
                       then (Inl (conflict ''base artifact is not verified; verify it before restoring''), s)
                       else (Inr (Some base_file), s)))
      | None \<Rightarrow>
          if bf_incremental_from file \<noteq> None
          then (Inl (validation ''this artifact is an incremental stream; pass base_artifact_id of the full backup it builds on''), s)
          else (Inr None, s))"

definition restore_target :: "backup_artifact \<Rightarrow> restore_request \<Rightarrow> str api_result" where
  "restore_target artifact req =
     (case rr_target_id req of
        Some target \<Rightarrow> Inr (trim target)
      | None \<Rightarrow>
          if ba_source_type artifact = SourceDataset then Inr (ba_source_id artifact)
          else Inl (validation ''target_id is required when restoring a VM or container backup''))"

text \<open>What \<open>enqueue_restore\<close> hands to its job: the base, the file, the target and whether to replace it.\<close>

type_synonym restore_order = "backup_file option \<times> backup_file \<times> str \<times> bool"

definition enqueue_restore ::
  "backup_env \<Rightarrow> str \<Rightarrow> str \<Rightarrow> str \<Rightarrow> restore_request \<Rightarrow> str option \<Rightarrow> backup_state
     \<Rightarrow> (operation_record \<times> restore_order) api_result \<times> backup_state" where
  "enqueue_restore e op_new_id now artifact_id req actor s =
     bind_st (get_artifact artifact_id s) (\<lambda>artifact s.
       if \<not> ba_verified artifact
       then (Inl (conflict ''this artifact was not verified; verify it before restoring''), s)
       else if length (ba_files artifact) \<noteq> 1
       then (Inl (validation ''restore currently supports one-dataset artifacts only''), s)
       else
         bind_st (base_of artifact req s) (\<lambda>base s.
         bind_st (restore_target artifact req, s) (\<lambda>target s.
         bind_st (ensure_safe_zfs_dataset target, s) (\<lambda>_ s.
         bind_st (ensure_within_managed_pool target (default_pool e), s) (\<lambda>_ s.
         bind_st (on_ops (queue_op op_new_id now ''backup.restore'' (Some ''dataset'') (Some target) actor) s) (\<lambda>r s.
           (Inr (r, base, hd (ba_files artifact), target, rr_force req), s)))))))"

definition restore_streams :: "restore_order \<Rightarrow> host \<Rightarrow> unit api_result \<times> host" where
  "restore_streams order h =
     (case order of (base, file, target, force) \<Rightarrow>
        if bf_incremental_from file \<noteq> None then
          bind_st (case base of None \<Rightarrow> (Inr (), h) | Some b \<Rightarrow> restore_file b target force h) (\<lambda>_ h.
            restore_incremental_file file target h)
        else restore_file file target force h)"

definition restore_work ::
  "backup_env \<Rightarrow> restore_order \<Rightarrow> str \<Rightarrow> backup_state \<Rightarrow> str option api_result \<times> backup_state" where
  "restore_work e order i s =
     (case order of (base, file, target, force) \<Rightarrow>
        bind_st (on_ops (update_progress i 10 (Some ''verifying backup file'')) s) (\<lambda>_ s.
        bind_st (case base of None \<Rightarrow> (Inr (), s) | Some b \<Rightarrow> on_host (verify_file e b) s) (\<lambda>_ s.
        bind_st (on_host (verify_file e file) s) (\<lambda>_ s.
        bind_st (on_ops (update_progress i 35 (Some ''restoring ZFS stream'')) s) (\<lambda>_ s.
        bind_st (on_host (restore_streams order) s) (\<lambda>_ s.
          (Inr (Some (''restored '' @ bf_snapshot file @ '' to '' @ target)), s)))))))"

definition restore_job ::
  "backup_env \<Rightarrow> str \<Rightarrow> str \<Rightarrow> restore_order \<Rightarrow> str \<Rightarrow> backup_state \<Rightarrow> backup_state" where
  "restore_job e now now' order i s =
     worker_on on_ops now now' i (Some ''dataset'') (Some (fst (snd (snd order))))
       (\<lambda>i s. map_prod Some id (restore_work e order i s)) s"

end
