(* ===== verification/Backup_Restore.thy ===== *)
theory Backup_Restore
  imports Backup Zfs_Safety
begin

section \<open>What a restore does\<close>

text \<open>
  The commands a restore gives the host: where they can reach, what is verified before the first of them, and
  why a dataset that does not exist cannot be restored. The lemmas on what the helpers of \<open>Backup\<close> leave
  unchanged are shared with \<open>Backup_Jobs\<close>.
\<close>

subsection \<open>Frames\<close>

lemma on_ops_frame [simp]:
  "bk_host (snd (on_ops f s)) = bk_host s" "bk_plans (snd (on_ops f s)) = bk_plans s"
  "bk_artifacts (snd (on_ops f s)) = bk_artifacts s" "bk_running (snd (on_ops f s)) = bk_running s"
  by (simp_all add: on_ops_def split_beta)

lemma on_ops_frame': "on_ops f s = (x, s') \<Longrightarrow> bk_host s' = bk_host s \<and> bk_plans s' = bk_plans s \<and>
    bk_artifacts s' = bk_artifacts s \<and> bk_running s' = bk_running s"
  by (metis on_ops_frame snd_conv)

lemma on_host_frame: "on_host f s = (x, s') \<Longrightarrow> bk_plans s' = bk_plans s \<and> bk_artifacts s' = bk_artifacts s \<and>
    bk_running s' = bk_running s \<and> bk_ops s' = bk_ops s \<and> f (bk_host s) = (x, bk_host s')"
  by (auto simp: on_host_def split: prod.splits)

lemma sha256_file_ok:
  assumes "sha256_file e path h = (x, h')"
  shows "host_files h' = host_files h \<and> issued h' = issued h \<and>
     (\<forall>sha. x = Inr sha \<longrightarrow> (\<exists>body. map_of (host_files h) path = Some body \<and> sha = sha256 e body))"
proof -
  obtain y h1 where o: "open_file path h = (y, h1)" by fastforce
  show ?thesis
    using assms o open_file_ok [OF o] next_file_error_issued [of h1]
    by (cases y) (auto simp: sha256_file_def split: prod.splits option.splits)
qed

definition holds_checksum :: "backup_env \<Rightarrow> host \<Rightarrow> backup_file \<Rightarrow> bool" where
  "holds_checksum e h f \<longleftrightarrow>
     (\<exists>body. map_of (host_files h) (bf_path f) = Some body \<and> sha256 e body = bf_sha256 f)"

lemma verify_file_ok:
  assumes "verify_file e f h = (x, h')"
  shows "host_files h' = host_files h \<and> issued h' = issued h \<and> (x = Inr () \<longrightarrow> holds_checksum e h f)"
proof -
  obtain y h1 where o: "sha256_file e (bf_path f) h = (y, h1)" by fastforce
  show ?thesis
    using assms o sha256_file_ok [OF o] by (cases y) (auto simp: verify_file_def holds_checksum_def split: if_splits)
qed

subsection \<open>Restoring\<close>

text \<open>The commands a restore into \<open>target\<close> may give.\<close>

definition restore_command :: "str \<Rightarrow> bool \<Rightarrow> op \<Rightarrow> bool" where
  "restore_command target force operation \<longleftrightarrow>
     operation = exec_op ''zfs'' (exists_args target) \<or>
     (force \<and> operation = exec_op ''zfs'' [''destroy'', ''-r'', target]) \<or>
     operation = stream_op ''zfs'' [''receive'', ''-F'', target] True"

lemma restore_file_only: "hl.only (restore_command target force) h (restore_file f target force h)"
  unfolding restore_file_def
  by (intro hl.only_bind) (auto intro!: only_run hl.only_bind stream_from_file_only simp: restore_command_def)

lemma restore_incremental_only: "hl.only (restore_command target force) h (restore_incremental_file f target h)"
  unfolding restore_incremental_file_def
  by (intro hl.only_bind) (auto intro!: only_run hl.only_bind stream_from_file_only simp: restore_command_def)

lemma restore_streams_only:
  "hl.only (restore_command target force) h (restore_streams (base, file, target, force) h)"
  by (auto simp: restore_streams_def intro!: hl.only_bind restore_file_only restore_incremental_only split: option.splits)

lemma worker_on_host:
  assumes "\<And>s. bk_host (snd (lift (mark_running now i) s)) = bk_host s"
    and "\<And>f s. bk_host (snd (lift f s)) = bk_host s"
  shows "bk_host (worker_on lift now now' i rt rid work s) = bk_host s \<or>
    (\<exists>s1. bk_host s1 = bk_host s \<and> bk_host (worker_on lift now now' i rt rid work s) = bk_host (snd (work i s1)))"
proof -
  obtain x s1 where m: "lift (mark_running now i) s = (x, s1)" by fastforce
  have h: "bk_host s1 = bk_host s" using assms(1) [of s] m by simp
  obtain y s2 where w: "work i s1 = (y, s2)" by fastforce
  show ?thesis
  proof (cases x)
    case (Inl e)
    with m h show ?thesis by (simp add: worker_on_def)
  next
    case (Inr u)
    have "bk_host (worker_on lift now now' i rt rid work s) = bk_host s2"
      using m w Inr assms(2) by (auto simp: worker_on_def split: option.splits sum.splits)
    with h w show ?thesis by auto
  qed
qed

lemma verify_file_on_host:
  assumes "on_host (verify_file e f) s = (x, s')"
  shows "host_files (bk_host s') = host_files (bk_host s) \<and> issued (bk_host s') = issued (bk_host s) \<and>
    (x = Inr () \<longrightarrow> holds_checksum e (bk_host s) f)"
  using verify_file_ok on_host_frame [OF assms] by blast

lemma holds_checksum_files: "host_files h' = host_files h \<Longrightarrow> holds_checksum e h' f = holds_checksum e h f"
  by (simp add: holds_checksum_def)

text \<open>What a restore does to the host before its streams start, and what is known when they do.\<close>

lemma restore_work_host:
  assumes "restore_work e (base, file, target, force) i s = (x, s')"
  shows "(issued (bk_host s') = issued (bk_host s) \<or>
     holds_checksum e (bk_host s) file \<and> (\<forall>b. base = Some b \<longrightarrow> holds_checksum e (bk_host s) b)) \<and>
     hl.only (restore_command target force) (bk_host s) (x, bk_host s')"
proof -
  obtain x1 s1 where 1: "on_ops (update_progress i 10 (Some ''verifying backup file'')) s = (x1, s1)" by fastforce
  obtain x2 s2 where 2: "(case base of None \<Rightarrow> (Inr (), s1) | Some b \<Rightarrow> on_host (verify_file e b) s1) = (x2, s2)" by fastforce
  obtain x3 s3 where 3: "on_host (verify_file e file) s2 = (x3, s3)" by fastforce
  obtain x4 s4 where 4: "on_ops (update_progress i 35 (Some ''restoring ZFS stream'')) s3 = (x4, s4)" by fastforce
  obtain x5 s5 where 5: "on_host (restore_streams (base, file, target, force)) s4 = (x5, s5)" by fastforce
  have h1: "bk_host s1 = bk_host s" using on_ops_frame' [OF 1] by blast
  have h2: "host_files (bk_host s2) = host_files (bk_host s)" "issued (bk_host s2) = issued (bk_host s)"
      "x2 = Inr () \<Longrightarrow> \<forall>b. base = Some b \<longrightarrow> holds_checksum e (bk_host s) b"
    using 2 h1 verify_file_on_host [of e _ s1 x2 s2] by (auto split: option.splits)
  have h3: "issued (bk_host s3) = issued (bk_host s)" "x3 = Inr () \<Longrightarrow> holds_checksum e (bk_host s) file"
    using verify_file_on_host [OF 3] h2 holds_checksum_files by metis+
  have h4: "bk_host s4 = bk_host s3" using on_ops_frame' [OF 4] by blast
  have "restore_streams (base, file, target, force) (bk_host s4) = (x5, bk_host s5)" using on_host_frame [OF 5] by blast
  then have "hl.only (restore_command target force) (bk_host s4) (x5, bk_host s5)" by (metis restore_streams_only)
  then have o: "hl.only (restore_command target force) (bk_host s) (y, bk_host s5)" for y
    using h3 h4 by (simp add: hl.only_def)
  note d = assms [unfolded restore_work_def, simplified 1 2 3 4 5 prod.case]
  show ?thesis
    using d 1 2 3 4 5 h1 h2 h3 h4 o
    by (cases x1; cases x2; cases x3; cases x4; cases x5) (auto intro: hl.only_same)
qed

lemma enqueue_restore_ok:
  assumes "enqueue_restore e oid now aid req actor s = (Inr (r, base, file, target, force), s1)"
  shows "ensure_safe_zfs_dataset target = Inr target" "starts_with target (default_pool e @ ''/'')" "force = rr_force req"
proof -
  from assms obtain x where t: "ensure_safe_zfs_dataset target = Inr x" "ensure_within_managed_pool target (default_pool e) = Inr ()"
      "force = rr_force req"
    by (auto simp: enqueue_restore_def elim!: bind_st_cases split: if_splits)
  then show "ensure_safe_zfs_dataset target = Inr target" "starts_with target (default_pool e @ ''/'')" "force = rr_force req"
    by (auto simp: ensure_safe_zfs_dataset_def ensure_within_managed_pool_def split: if_splits)
qed

lemma stream_timeout_valid: "validate_timeout STREAM_TIMEOUT_SECS = Inr ()"
  by (simp add: validate_timeout_def STREAM_TIMEOUT_SECS_def EXEC_TIMEOUT_CAP_def)

lemma accepted_stream: "accepted (stream_op program args b) \<longleftrightarrow> validate_exec program args = Inr ()"
  by (simp add: accepted_def stream_op_def res_simps stream_timeout_valid)

lemma backup_flags: "plain ''-H''" "plain ''-F''" "plain ''-p''" "plain ''-i''" "plain ''name''" "safe_zfs_value ''name''"
  by code_simp+

lemma exists_args_ok: "safe_dataset d \<or> safe_snapshot_ref d \<Longrightarrow> length d \<le> 4096 \<Longrightarrow> validate_exec ''zfs'' (exists_args d) = Inr ()"
  unfolding exists_args_def
  by (rule zfs_accepted) (auto simp: zfs_subcommands_def loop_flag loop_value loop_positional plain_flags backup_flags
      safe_dataset_plain safe_snapshot_plain simp del: zfs_args_loop.simps(2))

lemma restore_args_ok:
  assumes "safe_dataset d" and "length d \<le> 4096"
  shows "validate_exec ''zfs'' [''destroy'', ''-r'', d] = Inr ()" "validate_exec ''zfs'' [''receive'', ''-F'', d] = Inr ()"
  by (rule zfs_accepted; use assms in \<open>auto simp: zfs_subcommands_def loop_flag loop_value loop_positional plain_flags backup_flags
      safe_dataset_plain simp del: zfs_args_loop.simps(2)\<close>)+

lemma restore_command_accepted:
  assumes "restore_command target force operation" and "safe_dataset target" and "length target \<le> 4096"
  shows "accepted operation"
  using assms exists_args_ok restore_args_ok by (auto simp: restore_command_def accepted_exec accepted_stream)


subsection \<open>Restores without an existing target\<close>

definition program_missing :: "host \<Rightarrow> bool" where
  "program_missing h \<longleftrightarrow>
     (if broker_socket h then (case broker_answers h of Inl (BrokerSpawnNotFound _) # _ \<Rightarrow> True | _ \<Rightarrow> False)
      else (case direct_answers h of DirectMissing _ # _ \<Rightarrow> True | _ \<Rightarrow> False))"

definition command_succeeds :: "host \<Rightarrow> bool" where
  "command_succeeds h \<longleftrightarrow>
     (if broker_socket h then (case broker_answers h of Inr _ # _ \<Rightarrow> True | _ \<Rightarrow> False)
      else (case direct_answers h of DirectOutput ok _ _ # _ \<Rightarrow> ok | _ \<Rightarrow> False))"

lemma zfs_permitted: "validate_program ''zfs'' = Inr ''/usr/sbin/zfs''"
  by code_simp

lemma run_optional_zfs:
  assumes "run_optional ''zfs'' args h = (x, h')"
  shows "x = Inr None \<longleftrightarrow> program_missing h" and "(\<exists>out. x = Inr (Some out)) \<longleftrightarrow> command_succeeds h"
  using assms
  by (auto simp: run_optional_def zfs_permitted Let_def program_missing_def command_succeeds_def next_broker_def next_direct_def
      ask_def split: if_splits list.splits sum.splits broker_error.splits direct_outcome.splits)

lemma restore_file_fails:
  assumes "\<not> program_missing h" and "force \<longrightarrow> \<not> command_succeeds h"
  shows "\<exists>er h'. restore_file f target force h = (Inl er, h')"
proof -
  obtain x h1 where r: "run_optional ''zfs'' (exists_args target) h = (x, h1)" by fastforce
  note z = run_optional_zfs [OF r]
  show ?thesis
  proof (cases "ensure_safe_zfs_dataset target")
    case (Inr u)
    show ?thesis
    proof (cases x)
      case (Inr out)
      with z assms obtain o1 where "out = Some o1" "\<not> force" by (cases out) auto
      with r Inr \<open>ensure_safe_zfs_dataset target = _\<close> show ?thesis by (simp add: restore_file_def)
    qed (use r \<open>ensure_safe_zfs_dataset target = _\<close> in \<open>simp add: restore_file_def\<close>)
  qed (simp add: restore_file_def)
qed

lemma answers_kept:
  "next_file_error h = (x, h') \<Longrightarrow> broker_answers h' = broker_answers h \<and> direct_answers h' = direct_answers h \<and> broker_socket h' = broker_socket h"
  by (auto simp: next_file_error_def split: list.splits)

lemma verify_answers:
  assumes "verify_file e f h = (x, h')"
  shows "program_missing h' = program_missing h" "command_succeeds h' = command_succeeds h"
proof -
  obtain a h1 where 1: "next_file_error h = (a, h1)" by fastforce
  obtain b h2 where 2: "next_file_error h1 = (b, h2)" by fastforce
  have "h' = h1 \<or> h' = h2"
    using assms 1 2 by (auto simp: verify_file_def sha256_file_def open_file_def read_file_def split: option.splits sum.splits
        elim!: bind_st_cases)
  with answers_kept [OF 1] answers_kept [OF 2]
  have "broker_answers h' = broker_answers h \<and> direct_answers h' = direct_answers h \<and> broker_socket h' = broker_socket h" by auto
  then show "program_missing h' = program_missing h" "command_succeeds h' = command_succeeds h"
    by (simp_all add: program_missing_def command_succeeds_def)
qed

lemma restore_streams_fail:
  assumes "\<not> program_missing h" and "force \<longrightarrow> \<not> command_succeeds h" and "bf_incremental_from file \<noteq> None \<longrightarrow> base \<noteq> None"
  shows "\<exists>er h'. restore_streams (base, file, target, force) h = (Inl er, h')"
proof -
  have r: "\<exists>er h'. restore_file f target force h = (Inl er, h')" for f using restore_file_fails assms(1,2) by blast
  show ?thesis
  proof (cases "bf_incremental_from file")
    case None
    with r [of "file"] show ?thesis by (auto simp: restore_streams_def)
  next
    case (Some b)
    with assms(3) obtain f where "base = Some f" by auto
    with Some r [of f] show ?thesis by (auto simp: restore_streams_def)
  qed
qed

lemma enqueue_restore_base:
  assumes "enqueue_restore e oid now aid req actor s = (Inr (r, base, file, target, force), s1)"
  shows "bf_incremental_from file \<noteq> None \<longrightarrow> base \<noteq> None"
  using assms
  by (auto simp: enqueue_restore_def base_of_def Let_def elim!: bind_st_cases split: if_splits option.splits) (metis)+

text \<open>
  A dataset that does not exist cannot be restored: the existence check of a restore runs \<open>zfs list\<close> with
  \<open>run_optional\<close>, which reports absence only when the \<open>zfs\<close> program is missing. An accepted restore without
  \<open>force\<close> therefore fails on every host that has \<open>zfs\<close>: with a conflict when the target exists, and with the
  error of \<open>zfs list\<close> when it does not. With \<open>force\<close> it fails whenever \<open>zfs list\<close> fails.
\<close>

theorem restore_needs_existing_target:
  assumes "enqueue_restore e oid now aid req actor s = (Inr (r, base, file, target, force), s1)"
    and "\<not> program_missing (bk_host s2)" and "rr_force req \<longrightarrow> \<not> command_succeeds (bk_host s2)"
  shows "\<exists>er s3. restore_work e (base, file, target, force) i s2 = (Inl er, s3)"
proof -
  obtain x1 t1 where 1: "on_ops (update_progress i 10 (Some ''verifying backup file'')) s2 = (x1, t1)" by fastforce
  obtain x2 t2 where 2: "(case base of None \<Rightarrow> (Inr (), t1) | Some b \<Rightarrow> on_host (verify_file e b) t1) = (x2, t2)" by fastforce
  obtain x3 t3 where 3: "on_host (verify_file e file) t2 = (x3, t3)" by fastforce
  obtain x4 t4 where 4: "on_ops (update_progress i 35 (Some ''restoring ZFS stream'')) t3 = (x4, t4)" by fastforce
  let ?same = "\<lambda>t. program_missing (bk_host t) = program_missing (bk_host s2) \<and> command_succeeds (bk_host t) = command_succeeds (bk_host s2)"
  have "?same t1" using on_ops_frame' [OF 1] by simp
  then have "?same t2" using 2 verify_answers on_host_frame by (fastforce split: option.splits)
  then have "?same t3" using verify_answers on_host_frame [OF 3] by blast
  then have "?same t4" using on_ops_frame' [OF 4] by simp
  moreover have "force = rr_force req" using enqueue_restore_ok [OF assms(1)] by blast
  ultimately obtain er h' where "restore_streams (base, file, target, force) (bk_host t4) = (Inl er, h')"
    using restore_streams_fail [OF _ _ enqueue_restore_base [OF assms(1)], of "bk_host t4" force target] assms(2,3) by auto
  then have 5: "on_host (restore_streams (base, file, target, force)) t4 = (Inl er, t4\<lparr>bk_host := h'\<rparr>)"
    by (simp add: on_host_def)
  show ?thesis
    using 1 2 3 4 5 by (cases x1; cases x2; cases x3; cases x4) (auto simp: restore_work_def split: option.splits)
qed

subsection \<open>A sample service\<close>

definition sample_backup_env :: backup_env where
  "sample_backup_env =
     \<lparr>backup_dir = ''/b'', default_pool = ''tank'', add_seconds = (\<lambda>t _. Some (t @ ''1'')), canonicalize = Inr,
      sha256 = (\<lambda>body. ''#'' @ body), vm_disks = (\<lambda>_. Inl (not_found ''vm'')), container_rootfs = (\<lambda>_. Inl (not_found ''ct''))\<rparr>"

definition sample_plan :: "backup_source_type \<Rightarrow> backup_plan" where
  "sample_plan source =
     \<lparr>bp_id = ''p1'', bp_name = ''p1'', bp_source_type = source, bp_source_id = ''tank/a'', bp_destination = ''d'',
      bp_interval_secs = Some 60, bp_retention_count = 1, bp_from_snapshot = None, bp_verify = True, bp_enabled = True,
      bp_created_at = ''1'', bp_updated_at = None, bp_last_run_at = None, bp_next_run_at = Some ''2''\<rparr>"

definition sample_file :: backup_file where
  "sample_file = \<lparr>bf_dataset = ''tank/a'', bf_snapshot = ''tank/a@s'', bf_incremental_from = None, bf_path = ''/b/x'',
     bf_size_bytes = 2, bf_sha256 = ''#zz''\<rparr>"

definition sample_artifact :: backup_artifact where
  "sample_artifact = \<lparr>ba_id = ''a1'', ba_plan_id = ''p1'', ba_source_type = SourceDataset, ba_source_id = ''tank/a'',
     ba_created_at = ''1'', ba_total_size_bytes = 2, ba_verified = True, ba_files = [sample_file]\<rparr>"

definition stream_host :: "(broker_error + str) list \<Rightarrow> host" where
  "stream_host answers = \<lparr>broker_socket = True, broker_answers = answers, direct_answers = [],
     broker_streams = [(Inr (), ''xyz'')], direct_streams = [], host_files = [(''/b/x'', ''zz'')], file_errors = [], issued = []\<rparr>"

definition json_dir :: "(str \<times> 'v) list \<Rightarrow> 'v fault list \<Rightarrow> 'v jstore" where
  "json_dir rs fs = \<lparr>dir_display = ''d'', dir_exists = True, files = map (\<lambda>(i, v). (i @ ''.json'', Json v)) rs, faults = fs\<rparr>"

definition sample_service :: "backup_source_type \<Rightarrow> (broker_error + str) list \<Rightarrow> operation_record fault list \<Rightarrow> backup_state" where
  "sample_service source answers journal_faults =
     \<lparr>bk_plans = json_dir [(''p1'', sample_plan source)] [], bk_artifacts = json_dir [(''a1'', sample_artifact)] [], bk_running = [],
      bk_ops = \<lparr>journal = json_dir [] journal_faults, quarantined = json_dir [] [], consumed = json_dir [] [], host_repairs = []\<rparr>,
      bk_host = stream_host answers, bk_notes = []\<rparr>"

lemma sample_plan_records:
  "records (json_dir [(i, v)] fs) j = (if safe_id j \<and> j = i then Some v else None)"
  by (auto simp: records_def json_dir_def)

lemma sample_plan_id [simp]: "bp_id (sample_plan source) = ''p1''"
  by (simp add: sample_plan_def)


definition queued_restore :: "bool \<Rightarrow> (broker_error + str) list \<Rightarrow> backup_state" where
  "queued_restore force answers = snd (enqueue_restore sample_backup_env ''o1'' ''3'' ''a1''
     \<lparr>rr_target_id = Some ''tank/r'', rr_base_artifact_id = None, rr_force = force\<rparr> None (sample_service SourceDataset answers []))"

lemma restore_is_queued:
  "\<exists>r. enqueue_restore sample_backup_env ''o1'' ''3'' ''a1''
     \<lparr>rr_target_id = Some ''tank/r'', rr_base_artifact_id = None, rr_force = force\<rparr> None (sample_service SourceDataset answers []) =
     (Inr (r, None, sample_file, ''tank/r'', force), queued_restore force answers)"
proof -
  define x where "x = enqueue_restore sample_backup_env ''o1'' ''3'' ''a1''
     \<lparr>rr_target_id = Some ''tank/r'', rr_base_artifact_id = None, rr_force = force\<rparr> None (sample_service SourceDataset answers [])"
  have "map_sum (\<lambda>_. ()) snd (fst x) = Inr (None, sample_file, ''tank/r'', force)" unfolding x_def by code_simp
  then show ?thesis unfolding queued_restore_def x_def [symmetric] by (cases x; cases "fst x") auto
qed


theorem restore_needs_existing_target_witness:
  "\<exists>er s'. restore_work sample_backup_env (None, sample_file, ''tank/r'', False) ''o1''
     (queued_restore False [Inl (BrokerExec ''dataset does not exist'')]) = (Inl er, s')"
proof -
  let ?s = "queued_restore False [Inl (BrokerExec ''dataset does not exist'')]"
  obtain r where q: "enqueue_restore sample_backup_env ''o1'' ''3'' ''a1''
     \<lparr>rr_target_id = Some ''tank/r'', rr_base_artifact_id = None, rr_force = False\<rparr> None
       (sample_service SourceDataset [Inl (BrokerExec ''dataset does not exist'')] []) =
     (Inr (r, None, sample_file, ''tank/r'', False), ?s)" using restore_is_queued by blast
  have "\<not> program_missing (bk_host ?s)" by code_simp
  from restore_needs_existing_target [OF q this, of "''o1''"] show ?thesis by simp
qed

end
