(* ===== verification/Backup_Run.thy ===== *)
theory Backup_Run
  imports Backup_Restore
begin

section \<open>What a backup run leaves\<close>

text \<open>
  A run that succeeds leaves the artifact it reports, with the streams on disk as recorded, and no more
  artifacts of the plan than its retention allows; a run that fails before its first command leaves
  the schedule as it was.
\<close>

subsection \<open>Streams on disk\<close>

abbreviation disk :: "host \<Rightarrow> str \<rightharpoonup> str" where
  "disk h \<equiv> map_of (host_files h)"

definition stored :: "backup_env \<Rightarrow> host \<Rightarrow> backup_file \<Rightarrow> bool" where
  "stored e h f \<longleftrightarrow>
     (\<exists>body. disk h (bf_path f) = Some body \<and> bf_sha256 f = sha256 e body \<and> bf_size_bytes f = length body)"

lemma disk_set_file [simp]: "disk (set_file path body h) = (disk h)(path \<mapsto> body)"
  by (simp add: set_file_def update_conv')

lemma create_file_disk: "create_file path h = (x, h') \<Longrightarrow> p \<noteq> path \<Longrightarrow> disk h' p = disk h p"
  using next_file_error_issued [of h]
  by (auto simp: create_file_def write_file_def update_conv' split: prod.splits option.splits sum.splits)

lemma next_file_error_disk: "next_file_error h = (x, h') \<Longrightarrow> disk h' = disk h"
  using next_file_error_issued by fastforce

lemma remove_file_disk: "p \<noteq> path \<Longrightarrow> disk (remove_file path h) p = disk h p"
proof -
  obtain x h1 where n: "next_file_error h = (x, h1)" by fastforce
  show "p \<noteq> path \<Longrightarrow> ?thesis"
    using next_file_error_disk [OF n] by (cases x) (simp_all add: remove_file_def n delete_conv')
qed

lemma stream_to_file_disk:
  assumes "stream_to_file program args path h = (x, h')"
  shows "(\<forall>p. p \<noteq> path \<longrightarrow> disk h' p = disk h p) \<and>
    (\<forall>n. x = Inr n \<longrightarrow> (\<exists>body. disk h' path = Some body \<and> n = length body))"
proof (cases "broker_socket h")
  case True
  obtain y h1 where 1: "create_file path h = (y, h1)" by fastforce
  obtain a bytes h2 where 2: "next_broker_stream (ask (stream_op program args False) h1) = ((a, bytes), h2)" by (metis prod.collapse)
  obtain er h3 where 3: "next_file_error (set_file path bytes h2) = (er, h3)" by fastforce
  have d: "disk h2 = disk h1" "disk h3 = (disk h2)(path \<mapsto> bytes)"
    using next_files(3) [OF 2] next_file_error_disk [OF 3] by simp_all
  show ?thesis
    using assms True 1 2 3 d create_file_disk [OF 1]
    by (cases y; cases a; cases er) (auto simp: stream_to_file_def)
next
  case False
  obtain out h1 where 1: "next_direct_stream (ask (stream_op program args False) h) = (out, h1)" by fastforce
  obtain y h2 where 2: "create_file path h1 = (y, h2)" by fastforce
  have d: "disk h1 = disk h" using next_files(4) [OF 1] by simp
  show ?thesis
    using assms False 1 2 d create_file_disk [OF 2] remove_file_disk
    by (cases "validate_program program"; cases y)
      (auto simp: stream_to_file_def Let_def split: option.splits if_splits)
qed

lemma backup_stream_disk:
  assumes "backup_stream e plan oid d inc snap path s = (x, s')"
  shows "(\<forall>p. p \<noteq> path \<longrightarrow> disk (bk_host s') p = disk (bk_host s) p) \<and>
    (\<forall>f. x = Inr f \<longrightarrow> stored e (bk_host s') f \<and> bf_path f = path \<and> bf_snapshot f = snap \<and> bf_dataset f = d \<and>
       bf_incremental_from f = inc)"
proof -
  obtain x1 s1 where 1: "on_host (stream_to_file ''zfs'' (send_args inc snap) path) s = (x1, s1)" by fastforce
  obtain x2 s2 where 2: "on_host (sha256_file e path) s1 = (x2, s2)" by fastforce
  obtain x3 s3 where 3: "on_ops (update_progress oid 75 (Some ''verifying backup checksum'')) s2 = (x3, s3)" by fastforce
  have a: "\<forall>p. p \<noteq> path \<longrightarrow> disk (bk_host s1) p = disk (bk_host s) p"
      "\<forall>n. x1 = Inr n \<longrightarrow> (\<exists>body. disk (bk_host s1) path = Some body \<and> n = length body)"
    using stream_to_file_disk on_host_frame [OF 1] by blast+
  have b: "disk (bk_host s2) = disk (bk_host s1)"
      "\<forall>sha. x2 = Inr sha \<longrightarrow> (\<exists>body. disk (bk_host s1) path = Some body \<and> sha = sha256 e body)"
    using sha256_file_ok [of e path "bk_host s1" x2 "bk_host s2"] on_host_frame [OF 2] by auto
  have c: "bk_host s3 = bk_host s2" using on_ops_frame' [OF 3] by simp
  have v: "disk (bk_host t) = disk (bk_host s2)" if "on_host (verify_checksum e path sha) s3 = (y, t)" for sha y t
  proof -
    obtain z h1 where z: "sha256_file e path (bk_host s3) = (z, h1)" by fastforce
    have "bk_host t = h1" using on_host_frame [OF that] z by (cases z) (auto simp: verify_checksum_def split: if_splits)
    with sha256_file_ok [OF z] c show ?thesis by simp
  qed
  show ?thesis
  proof (cases "\<exists>size sha. x1 = Inr size \<and> x2 = Inr sha")
    case True
    then obtain size sha where ok: "x1 = Inr size" "x2 = Inr sha" by blast
    obtain y t where t: "on_host (verify_checksum e path sha) s3 = (y, t)" by fastforce
    from a b ok obtain body where body: "disk (bk_host s2) path = Some body" "size = length body" "sha = sha256 e body" by auto
    show ?thesis
      using assms 1 2 3 ok t v [OF t] a(1) b(1) c body
      by (cases x3; cases y) (auto simp: backup_stream_def stored_def split: if_splits)
  next
    case False
    then show ?thesis using assms 1 2 a b by (cases x1; cases x2) (auto simp: backup_stream_def)
  qed
qed

definition file_path :: "str \<Rightarrow> str \<Rightarrow> nat \<Rightarrow> str" where
  "file_path destination artifact_id index = destination @ ''/'' @ artifact_id @ ''-'' @ show_nat index @ ''.zfs''"

abbreviation service :: "backup_state \<Rightarrow> backup_plan jstore \<times> backup_artifact jstore \<times> str list" where
  "service s \<equiv> (bk_plans s, bk_artifacts s, bk_running s)"

lemma on_service: "on_ops f s = (x, s') \<Longrightarrow> service s' = service s" "on_host g s = (y, s') \<Longrightarrow> service s' = service s"
  by (auto dest: on_ops_frame' on_host_frame)

lemma backup_stream_service: "backup_stream e plan oid d inc snap path s = (x, s') \<Longrightarrow> service s' = service s"
  unfolding backup_stream_def
  by (elim bind_st_cases; auto split: if_splits elim!: bind_st_cases dest!: on_service)

lemma backup_loop_service:
  assumes "backup_loop e plan oid aid tag dest n i ds s = (x, created, s')"
  shows "service s' = service s"
  using assms
proof (induction ds arbitrary: i s x created s')
  case (Cons y rest)
  obtain d inc where y: "y = (d, inc)" by fastforce
  obtain x1 s1 where 1: "on_ops (update_progress oid (progress_of i n) (Some ''creating backup snapshot'')) s = (x1, s1)" by fastforce
  obtain x2 s2 where 2: "on_host (run_ok ''zfs'' [''snapshot'', d @ ''@'' @ tag]) s1 = (x2, s2)" by fastforce
  obtain x3 s3 where 3: "backup_stream e plan oid d inc (d @ ''@'' @ tag) (dest @ ''/'' @ aid @ ''-'' @ show_nat i @ ''.zfs'') s2 = (x3, s3)"
    by fastforce
  obtain x4 c4 s4 where 4: "backup_loop e plan oid aid tag dest n (Suc i) rest s3 = (x4, c4, s4)" by (metis prod.collapse)
  have "service s1 = service s" "service s2 = service s1" "service s3 = service s2" "service s4 = service s3"
    using on_service(1) [OF 1] on_service(2) [OF 2] backup_stream_service [OF 3] Cons.IH [OF 4] .
  with Cons.prems 1 2 3 4 show ?case by (cases x1; cases x2; cases x3; cases x4) (auto simp: y Let_def)
qed simp

lemma file_path_inj [simp]: "file_path d a i = file_path d a j \<longleftrightarrow> i = j"
  unfolding file_path_def by (simp, metis dec_value_show)

lemma backup_loop_disk:
  assumes "backup_loop e plan oid aid tag dest n i ds s = (x, created, s')"
  shows "(\<forall>p. (\<forall>k \<ge> i. p \<noteq> file_path dest aid k) \<longrightarrow> disk (bk_host s') p = disk (bk_host s) p) \<and>
    (\<forall>fs. x = Inr fs \<longrightarrow> map bf_dataset fs = map fst ds \<and> map bf_incremental_from fs = map snd ds \<and>
       map bf_snapshot fs = map (\<lambda>d. fst d @ ''@'' @ tag) ds \<and> created = map bf_snapshot fs \<and>
       map bf_path fs = map (file_path dest aid) [i..<i + length ds] \<and> list_all (stored e (bk_host s')) fs)"
  using assms
proof (induction ds arbitrary: i s x created s')
  case (Cons y rest)
  obtain d inc where y: "y = (d, inc)" by fastforce
  obtain x1 s1 where 1: "on_ops (update_progress oid (progress_of i n) (Some ''creating backup snapshot'')) s = (x1, s1)" by fastforce
  obtain x2 s2 where 2: "on_host (run_ok ''zfs'' [''snapshot'', d @ ''@'' @ tag]) s1 = (x2, s2)" by fastforce
  obtain x3 s3 where 3: "backup_stream e plan oid d inc (d @ ''@'' @ tag) (file_path dest aid i) s2 = (x3, s3)" by fastforce
  obtain x4 c4 s4 where 4: "backup_loop e plan oid aid tag dest n (Suc i) rest s3 = (x4, c4, s4)" by (metis prod.collapse)
  have d1: "disk (bk_host s1) = disk (bk_host s)" using on_ops_frame' [OF 1] by simp
  have d2: "disk (bk_host s2) = disk (bk_host s1)" using on_host_frame [OF 2] run_ok_files by metis
  note d3 = backup_stream_disk [OF 3]
  note ih = Cons.IH [OF 4]
  have other: "disk (bk_host s3) p = disk (bk_host s) p" if "\<forall>k \<ge> i. p \<noteq> file_path dest aid k" for p
    using d1 d2 d3 that by auto
  have other4: "disk (bk_host s4) p = disk (bk_host s) p" if "\<forall>k \<ge> i. p \<noteq> file_path dest aid k" for p
    using ih other [OF that] that by auto
  have keep: "disk (bk_host s4) (file_path dest aid i) = disk (bk_host s3) (file_path dest aid i)"
    using ih by auto
  show ?case
  proof (cases "\<exists>u v f. x1 = Inr u \<and> x2 = Inr v \<and> x3 = Inr f")
    case False
    then have "x = Inl (case x1 of Inl er \<Rightarrow> er | Inr _ \<Rightarrow> (case x2 of Inl er \<Rightarrow> er | Inr _ \<Rightarrow> (case x3 of Inl er \<Rightarrow> er | Inr _ \<Rightarrow> undefined))) \<and>
        (s' = s1 \<or> s' = s2 \<or> s' = s3)"
      using Cons.prems 1 2 3 [unfolded file_path_def] by (cases x1; cases x2; cases x3) (auto simp: y Let_def)
    with other d1 d2 show ?thesis by auto
  next
    case True
    then obtain u v f where ok: "x1 = Inr u" "x2 = Inr v" "x3 = Inr f" by blast
    then have eq: "s' = s4" "(\<forall>fs. x = Inr fs \<longrightarrow> (\<exists>gs. x4 = Inr gs \<and> fs = f # gs \<and> created = (d @ ''@'' @ tag) # c4))"
      using Cons.prems 1 2 3 [unfolded file_path_def] 4 by (cases x4; auto simp: y Let_def)+
    have f: "stored e (bk_host s4) f" "bf_path f = file_path dest aid i" "bf_snapshot f = d @ ''@'' @ tag" "bf_dataset f = d"
        "bf_incremental_from f = inc"
      using d3 ok(3) keep by (auto simp: stored_def)
    have "[i..<i + length (y # rest)] = i # [Suc i..<Suc i + length rest]" by (simp add: upt_conv_Cons del: upt_Suc)
    with eq f ih other4 show ?thesis by (auto simp: y)
  qed
qed simp

subsection \<open>Artifacts and retention\<close>

definition artifacts_inv :: "backup_state \<Rightarrow> bool" where
  "artifacts_inv s \<longleftrightarrow> store_wf (bk_artifacts s) \<and> (\<forall>i a. records (bk_artifacts s) i = Some a \<longrightarrow> ba_id a = i)"

abbreviation arts :: "backup_state \<Rightarrow> str \<rightharpoonup> backup_artifact" where
  "arts s \<equiv> records (bk_artifacts s)"

lemma remove_files_disk: "p \<notin> bf_path ` set fs \<Longrightarrow> disk (remove_files fs h) p = disk h p"
  unfolding remove_files_def by (induction fs arbitrary: h) (auto simp: remove_file_disk)

lemma drop_artifacts_effect:
  assumes "drop_artifacts as s = (Inr u, s')" and "artifacts_inv s"
  shows "artifacts_inv s' \<and> arts s' = arts s |` (- (ba_id ` set as)) \<and>
    (\<forall>p. (\<forall>a \<in> set as. p \<notin> bf_path ` set (ba_files a)) \<longrightarrow> disk (bk_host s') p = disk (bk_host s) p)"
  using assms
proof (induction as arbitrary: s)
  case (Cons a as)
  let ?s = "s\<lparr>bk_host := remove_files (ba_files a) (bk_host s)\<rparr>"
  from Cons.prems(1) obtain b s1 where d: "on_artifacts (Store.delete (ba_id a)) ?s = (Inr b, s1)" "drop_artifacts as s1 = (Inr u, s')"
    by (auto simp: Let_def elim!: bind_st_cases)
  then obtain st where st: "Store.delete (ba_id a) (bk_artifacts s) = (Inr b, st)" "s1 = ?s\<lparr>bk_artifacts := st\<rparr>"
    by (auto simp: on_artifacts_def split: prod.splits)
  have wf: "store_wf (bk_artifacts s)" using Cons.prems(2) by (simp add: artifacts_inv_def)
  from js.delete_ok [OF wf st(1)] have r: "store_wf st" "records st = (arts s)(ba_id a := None)" by auto
  have "artifacts_inv s1" using r st(2) Cons.prems(2) by (auto simp: artifacts_inv_def)
  from Cons.IH [OF d(2) this] r st(2) show ?case
    by (auto simp: restrict_map_def fun_eq_iff remove_files_disk)
qed (simp add: restrict_map_def)

lemma list_artifacts_ok:
  assumes "list_artifacts (Some pid) s = (Inr as, s')" and "artifacts_inv s"
  shows "artifacts_inv s' \<and> arts s' = arts s \<and> bk_host s' = bk_host s \<and> set as = {a \<in> ran (arts s). ba_plan_id a = pid} \<and>
    distinct (map ba_id as) \<and> sorted (rev (map ba_created_at as))"
proof -
  from assms(1) obtain xs st where l: "Store.list (bk_artifacts s) = (Inr xs, st)" "s' = s\<lparr>bk_artifacts := st\<rparr>"
      "as = sort_desc ba_created_at (filter (\<lambda>a. ba_plan_id a = pid) xs)"
    by (auto simp: list_artifacts_def on_artifacts_def split: prod.splits elim!: bind_st_cases)
  have inv: "store_wf (bk_artifacts s)" "\<forall>i a. arts s i = Some a \<longrightarrow> ba_id a = i" using assms(2) by (auto simp: artifacts_inv_def)
  have r: "store_wf st" "records st = arts s" "set xs = ran (arts s)" using js.list_ok [OF inv(1) l(1)] by auto
  have "distinct (map ba_id xs)" using js.list_once [OF inv(1) l(1) inv(2)] .
  then have "distinct (map ba_id (sort_key ba_created_at (rev (filter (\<lambda>a. ba_plan_id a = pid) xs))))"
    by (simp add: distinct_map) (auto simp: inj_on_def)
  then have "distinct (map ba_id as)" using l(3) by (simp add: sort_desc_def rev_map [symmetric])
  with r l(2,3) inv show ?thesis by (auto simp: artifacts_inv_def sorted_sort_desc)
qed

lemma newest_not_dropped:
  assumes "distinct as" and "sorted (rev (map f as))" and "a \<in> set as" and "\<forall>b \<in> set as. b \<noteq> a \<longrightarrow> f b < f a" and "0 < k"
  shows "a \<notin> set (drop k as)"
proof
  assume d: "a \<in> set (drop k as)"
  then obtain b bs where as: "as = b # bs" by (cases as) auto
  with assms(5) d have "a \<in> set bs" by (cases k) (auto dest: in_set_dropD)
  with assms as have "f a \<le> f b" "b \<noteq> a" by (auto simp: sorted_append)
  moreover have "f b < f a" using assms(4) as \<open>b \<noteq> a\<close> by simp
  ultimately show False by simp
qed

lemma apply_retention_ok:
  assumes "apply_retention plan s = (Inr u, s')" and "artifacts_inv s"
    and "arts s (ba_id a) = Some a" and "ba_plan_id a = bp_id plan"
    and "\<forall>b \<in> ran (arts s). b \<noteq> a \<longrightarrow> ba_plan_id b = bp_id plan \<longrightarrow> ba_created_at b < ba_created_at a"
    and "\<forall>b \<in> ran (arts s). b \<noteq> a \<longrightarrow> bf_path ` set (ba_files a) \<inter> bf_path ` set (ba_files b) = {}"
    and "0 < bp_retention_count plan"
  shows "artifacts_inv s' \<and> arts s' (ba_id a) = Some a \<and> card {b \<in> ran (arts s'). ba_plan_id b = bp_id plan} \<le> bp_retention_count plan \<and>
    (\<forall>p \<in> bf_path ` set (ba_files a). disk (bk_host s') p = disk (bk_host s) p)"
proof -
  let ?n = "bp_retention_count plan"
  from assms(1) obtain as s1 where l: "list_artifacts (Some (bp_id plan)) s = (Inr as, s1)"
      "(if length as \<le> ?n then (Inr (), s1) else drop_artifacts (drop ?n as) s1) = (Inr u, s')"
    by (auto simp: apply_retention_def elim!: bind_st_cases)
  note li = list_artifacts_ok [OF l(1) assms(2)]
  have a: "a \<in> set as" using li assms(3,4) by (auto simp: ran_def)
  show ?thesis
  proof (cases "length as \<le> ?n")
    case True
    with l(2) have "s' = s1" by simp
    moreover have "card (set as) \<le> ?n" using True card_length le_trans by blast
    ultimately show ?thesis using li assms(3) by auto
  next
    case False
    with l(2) have d: "drop_artifacts (drop ?n as) s1 = (Inr u, s')" by simp
    have "artifacts_inv s1" using li by blast
    note e = drop_artifacts_effect [OF d this]
    have da: "distinct as" using li by (simp add: distinct_map)
    have na: "a \<notin> set (drop ?n as)"
      using newest_not_dropped [OF da _ a, of ba_created_at ?n] li assms(5,7) by auto
    have id: "x = y" if "x \<in> set as" "y \<in> set as" "ba_id x = ba_id y" for x y
      using li that by (auto simp: distinct_map inj_on_def)
    have drops: "set (drop ?n as) \<subseteq> set as" by (rule set_drop_subset)
    have "ba_id a \<notin> ba_id ` set (drop ?n as)" using na id a drops by auto
    then have keep: "arts s' (ba_id a) = Some a" using e li assms(3) by (simp add: restrict_map_def)
    have "{b \<in> ran (arts s'). ba_plan_id b = bp_id plan} \<subseteq> set (take ?n as)"
    proof
      fix b assume "b \<in> {b \<in> ran (arts s'). ba_plan_id b = bp_id plan}"
      then obtain i where i: "arts s' i = Some b" "ba_plan_id b = bp_id plan" by (auto simp: ran_def)
      then have "arts s i = Some b" "i \<notin> ba_id ` set (drop ?n as)" using e li by (auto simp: restrict_map_def split: if_splits)
      moreover have "ba_id b = i" using calculation(1) assms(2) by (simp add: artifacts_inv_def)
      ultimately have "b \<in> set as" "b \<notin> set (drop ?n as)" using li i(2) by (auto simp: ran_def)
      then show "b \<in> set (take ?n as)" by (metis UnE append_take_drop_id set_append)
    qed
    then have "card {b \<in> ran (arts s'). ba_plan_id b = bp_id plan} \<le> card (set (take ?n as))" by (intro card_mono) simp
    also have "\<dots> \<le> length (take ?n as)" by (rule card_length)
    also have "\<dots> \<le> ?n" by simp
    finally have "card {b \<in> ran (arts s'). ba_plan_id b = bp_id plan} \<le> ?n" .
    moreover have "\<forall>p \<in> bf_path ` set (ba_files a). disk (bk_host s') p = disk (bk_host s) p"
    proof
      fix p assume p: "p \<in> bf_path ` set (ba_files a)"
      have "p \<notin> bf_path ` set (ba_files b)" if "b \<in> set (drop ?n as)" for b
      proof -
        have "b \<in> ran (arts s)" "b \<noteq> a" using that drops li na by auto
        with assms(6) p show ?thesis by blast
      qed
      with e li show "disk (bk_host s') p = disk (bk_host s) p" by auto
    qed
    ultimately show ?thesis using e keep by blast
  qed
qed

lemma destroy_snapshots_frame: "host_files (destroy_snapshots created h) = host_files h"
  unfolding destroy_snapshots_def
proof (induction created arbitrary: h)
  case (Cons c created)
  have "host_files (snd (run_ok ''zfs'' [''destroy'', c] h)) = host_files h" by (metis run_ok_files prod.collapse)
  with Cons show ?case by simp
qed simp

lemma plans_frame: "bk_host (snd (on_plans f s)) = bk_host s" "bk_artifacts (snd (on_plans f s)) = bk_artifacts s"
  by (simp_all add: on_plans_def split_beta)

lemma get_put_plan_frame:
  "get_plan i s = (x, s') \<Longrightarrow> bk_host s' = bk_host s \<and> bk_artifacts s' = bk_artifacts s"
  "put_plan p s = (y, s') \<Longrightarrow> bk_host s' = bk_host s \<and> bk_artifacts s' = bk_artifacts s"
proof -
  obtain z s1 where "on_plans (Store.get i) s = (z, s1)" by fastforce
  moreover from this have "bk_host s1 = bk_host s \<and> bk_artifacts s1 = bk_artifacts s" by (metis plans_frame snd_conv)
  ultimately show "get_plan i s = (x, s') \<Longrightarrow> bk_host s' = bk_host s \<and> bk_artifacts s' = bk_artifacts s"
    by (cases "ensure_safe_id i"; cases z) (auto simp: get_plan_def)
  show "put_plan p s = (y, s') \<Longrightarrow> bk_host s' = bk_host s \<and> bk_artifacts s' = bk_artifacts s"
    unfolding put_plan_def by (metis plans_frame snd_conv)
qed

lemma finish_run_ok:
  assumes "finish_run e now plan r s = (x, s')"
  shows "bk_host s' = bk_host s \<and> bk_artifacts s' = bk_artifacts s \<and> (\<forall>a. x = Some (Inr a) \<longrightarrow> r = Inr a)"
proof -
  obtain y s1 where g: "get_plan (bp_id plan) s = (y, s1)" by fastforce
  have f1: "bk_host s1 = bk_host s \<and> bk_artifacts s1 = bk_artifacts s" by (rule get_put_plan_frame(1) [OF g])
  have f2: "put_plan p s1 = (z, s2) \<Longrightarrow> bk_host s2 = bk_host s1 \<and> bk_artifacts s2 = bk_artifacts s1" for p z s2
    by (rule get_put_plan_frame(2))
  show ?thesis
    using assms g f1 by (auto simp: finish_run_def Let_def split: sum.splits option.splits prod.splits dest!: f2)
qed

lemma prepare_run_ok:
  assumes "prepare_run e plan s = (Inr (ds, dest), s')"
  shows "resolve_sources e plan = Inr ds \<and> bk_artifacts s' = bk_artifacts s"
proof -
  from assms obtain x where r: "resolve_sources e plan = Inr ds" "on_host (prepare_destination e plan) s = (Inr x, s')"
    by (auto simp: prepare_run_def elim!: bind_st_cases split: if_splits)
  with on_host_frame [OF r(2)] show ?thesis by simp
qed

lemma find_bases_length: "find_bases tag ds h = (Inr bases, h') \<Longrightarrow> length bases = length ds"
  by (induction ds arbitrary: h bases h') (auto simp: Let_def elim!: bind_st_cases split: if_splits)

lemma preflight_length: "preflight plan ds h = (Inr bases, h') \<Longrightarrow> length bases = length ds"
  by (auto simp: preflight_def elim!: bind_st_cases dest: find_bases_length split: option.splits)

lemma backup_attempt_ok:
  assumes "backup_attempt e plan oid aid now dest ds s = (Inr a, created, s')" and "artifacts_inv s" and "arts s aid = None"
    and "\<forall>b \<in> ran (arts s). ba_plan_id b = bp_id plan \<longrightarrow> ba_created_at b < now"
    and "\<forall>b \<in> ran (arts s). \<forall>k. file_path dest aid k \<notin> bf_path ` set (ba_files b)"
    and "0 < bp_retention_count plan"
  shows "ba_id a = aid \<and> map bf_dataset (ba_files a) = ds \<and> created = map bf_snapshot (ba_files a) \<and>
    artifacts_inv s' \<and> arts s' aid = Some a \<and> list_all (stored e (bk_host s')) (ba_files a) \<and>
    card {b \<in> ran (arts s'). ba_plan_id b = bp_id plan} \<le> bp_retention_count plan"
proof -
  let ?tag = "''daygleve-backup-'' @ filter (\<lambda>c. c \<noteq> CHR ''-'') aid"
  let ?a = "\<lambda>fs. \<lparr>ba_id = aid, ba_plan_id = bp_id plan, ba_source_type = bp_source_type plan,
                 ba_source_id = bp_source_id plan, ba_created_at = now,
                 ba_total_size_bytes = sum_list (map bf_size_bytes fs), ba_verified = bp_verify plan, ba_files = fs\<rparr>"
  obtain x1 s1 where 1: "on_host (preflight plan ds) s = (x1, s1)" by fastforce
  with assms(1) obtain bases where x1: "x1 = Inr bases" by (cases x1) (auto simp: backup_attempt_def)
  obtain x2 c2 s2 where 2: "backup_loop e plan oid aid ?tag dest (length ds) 0 (zip ds bases) s1 = (x2, c2, s2)" by (metis prod.collapse)
  with assms(1) 1 x1 obtain fs where x2: "x2 = Inr fs" by (cases x2) (auto simp: backup_attempt_def)
  from assms(1) 1 2 x1 x2 obtain s3 where 3: "put_artifact (?a fs) s2 = (Inr (), s3)" "apply_retention plan s3 = (Inr (), s')"
      and a: "a = ?a fs" "created = c2"
    by (auto simp: backup_attempt_def Let_def split: prod.splits elim!: bind_st_cases)
  have len: "length bases = length ds" using preflight_length on_host_frame [OF 1] x1 by metis
  have sv: "bk_artifacts s2 = bk_artifacts s" using on_service(2) [OF 1] backup_loop_service [OF 2] by simp
  note lp = backup_loop_disk [OF 2]
  have fs: "map bf_dataset fs = ds" "c2 = map bf_snapshot fs" "map bf_path fs = map (file_path dest aid) [0..<length ds]"
      "list_all (stored e (bk_host s2)) fs"
    using lp x2 len by simp_all
  from 3(1) obtain st where st: "Store.put aid (?a fs) (bk_artifacts s2) = (Inr (), st)" "s3 = s2\<lparr>bk_artifacts := st\<rparr>"
    by (auto simp: put_artifact_def on_artifacts_def split: prod.splits)
  have wf: "store_wf (bk_artifacts s2)" using assms(2) sv by (simp add: artifacts_inv_def)
  from js.put_ok [OF wf st(1)] have r: "store_wf st" "arts s3 = (arts s)(aid \<mapsto> ?a fs)" using st(2) sv by auto
  have inv3: "artifacts_inv s3" using r st(2) assms(2) by (auto simp: artifacts_inv_def)
  have paths: "bf_path ` set fs = file_path dest aid ` {0..<length ds}"
    using arg_cong [OF fs(3), of set] by simp
  have old: "b \<in> ran (arts s)" if "b \<in> ran (arts s3)" "b \<noteq> ?a fs" for b using that r(2) by (auto simp: ran_def split: if_splits)
  have new: "\<forall>b \<in> ran (arts s3). b \<noteq> ?a fs \<longrightarrow> ba_plan_id b = bp_id plan \<longrightarrow> ba_created_at b < ba_created_at (?a fs)"
    using old assms(4) by auto
  have apart: "\<forall>b \<in> ran (arts s3). b \<noteq> ?a fs \<longrightarrow> bf_path ` set (ba_files (?a fs)) \<inter> bf_path ` set (ba_files b) = {}"
  proof (intro ballI impI)
    fix b assume "b \<in> ran (arts s3)" "b \<noteq> ?a fs"
    then have "\<forall>k. file_path dest aid k \<notin> bf_path ` set (ba_files b)" using old assms(5) by blast
    then show "bf_path ` set (ba_files (?a fs)) \<inter> bf_path ` set (ba_files b) = {}" unfolding paths by (auto simp: paths)
  qed
  have "arts s3 (ba_id (?a fs)) = Some (?a fs)" using r(2) by simp
  from apply_retention_ok [OF 3(2) inv3 this _ new apart assms(6)]
  have e: "artifacts_inv s'" "arts s' aid = Some (?a fs)" "card {b \<in> ran (arts s'). ba_plan_id b = bp_id plan} \<le> bp_retention_count plan"
      "\<forall>p \<in> bf_path ` set fs. disk (bk_host s') p = disk (bk_host s3) p" by simp_all
  have "list_all (stored e (bk_host s')) fs"
    using fs(4) e(4) st(2) unfolding list_all_iff stored_def by simp
  with e fs a show ?thesis by simp
qed

lemma destroy_snapshots_asked:
  "\<exists>ops. issued (destroy_snapshots created h) = issued h @ ops \<and> (\<forall>c \<in> set created. exec_op ''zfs'' [''destroy'', c] \<in> set ops)"
  unfolding destroy_snapshots_def
proof (induction created arbitrary: h)
  case (Cons c created)
  have zfs: "host_program_path ''zfs'' \<noteq> None" by code_simp
  let ?h = "snd (run_ok ''zfs'' [''destroy'', c] h)"
  obtain x h1 where r: "run_ok ''zfs'' [''destroy'', c] h = (x, h1)" by fastforce
  have 1: "issued ?h = issued h @ [exec_op ''zfs'' [''destroy'', c]]" using run_ok_issued [OF r] r zfs by simp
  from Cons.IH [of ?h] obtain ops where "issued (fold (\<lambda>snapshot h. snd (run_ok ''zfs'' [''destroy'', snapshot] h)) created ?h) = issued ?h @ ops"
      "\<forall>c \<in> set created. exec_op ''zfs'' [''destroy'', c] \<in> set ops" by blast
  with 1 show ?case by (intro exI [of _ "exec_op ''zfs'' [''destroy'', c] # ops"]) simp
qed simp

text \<open>
  C23. A backup that reports success is there: its artifact is in the store, it has one file per dataset of the source,
  in order, and each file is on disk with the size and the checksum of its record; the plan has no more artifacts
  than its retention count, and the destruction of every snapshot the run took was asked of the host.
  The clock must have passed the plan's earlier artifacts, and the identifier of the run must be new.
\<close>

theorem backup_success_is_stored:
  assumes "run_backup e nid now now' plan oid s = (Some (Inr a), s')"
    and "artifacts_inv s" and "arts s nid = None" and "0 < bp_retention_count plan"
    and "\<forall>b \<in> ran (arts s). ba_plan_id b = bp_id plan \<longrightarrow> ba_created_at b < now"
    and "\<forall>b \<in> ran (arts s). \<forall>dest k. file_path dest nid k \<notin> bf_path ` set (ba_files b)"
  shows "resolve_sources e plan = Inr (map bf_dataset (ba_files a)) \<and> arts s' nid = Some a \<and>
    list_all (stored e (bk_host s')) (ba_files a) \<and>
    card {b \<in> ran (arts s'). ba_plan_id b = bp_id plan} \<le> bp_retention_count plan \<and>
    list_all (\<lambda>f. exec_op ''zfs'' [''destroy'', bf_snapshot f] \<in> set (issued (bk_host s'))) (ba_files a)"
proof -
  obtain x1 s1 where 1: "prepare_run e plan s = (x1, s1)" by fastforce
  with assms(1) obtain ds dest where x1: "x1 = Inr (ds, dest)" by (cases x1) (auto simp: run_backup_def)
  obtain r c s2 where 2: "backup_attempt e plan oid nid now dest ds s1 = (r, c, s2)" by (metis prod.collapse)
  let ?s2 = "s2\<lparr>bk_host := destroy_snapshots c (bk_host s2)\<rparr>"
  have 3: "finish_run e now' plan r ?s2 = (Some (Inr a), s')" using assms(1) 1 2 x1 by (simp add: run_backup_def)
  have fin: "bk_host s' = bk_host ?s2" "bk_artifacts s' = bk_artifacts ?s2" "r = Inr a" using finish_run_ok [OF 3] by auto
  have p: "resolve_sources e plan = Inr ds" "bk_artifacts s1 = bk_artifacts s" using prepare_run_ok 1 x1 by auto
  have "artifacts_inv s1" "arts s1 nid = None" using assms(2,3) p(2) by (simp_all add: artifacts_inv_def)
  from backup_attempt_ok [OF 2 [unfolded fin(3)] this] assms(4-6) p(2)
  have ok: "map bf_dataset (ba_files a) = ds" "c = map bf_snapshot (ba_files a)" "arts s2 nid = Some a"
      "list_all (stored e (bk_host s2)) (ba_files a)" "card {b \<in> ran (arts s2). ba_plan_id b = bp_id plan} \<le> bp_retention_count plan"
    by simp_all
  have "list_all (stored e (bk_host s')) (ba_files a)"
    using ok(4) fin(1) destroy_snapshots_frame unfolding list_all_iff stored_def by simp
  moreover have "list_all (\<lambda>f. exec_op ''zfs'' [''destroy'', bf_snapshot f] \<in> set (issued (bk_host s'))) (ba_files a)"
    using destroy_snapshots_asked [of c "bk_host s2"] fin(1) ok(2) by (auto simp: list_all_iff)
  ultimately show ?thesis using ok p(1) fin(2) by simp
qed

subsection \<open>Runs that fail early\<close>

lemma prepare_run_failed: "prepare_run e plan s = (Inl er, s') \<Longrightarrow> service s' = service s"
proof -
  obtain x s1 where h: "on_host (prepare_destination e plan) s = (x, s1)" by fastforce
  have "service s1 = service s" by (rule on_service(2) [OF h])
  with h show "prepare_run e plan s = (Inl er, s') \<Longrightarrow> service s' = service s"
    by (cases "resolve_sources e plan"; cases x) (auto simp: prepare_run_def split: if_splits)
qed

text \<open>
  A failure before the first command is retried at every tick: when the source of a plan cannot be resolved (its
  guest is gone) or its destination cannot be prepared, the job that the scheduler started ends with the plan's
  record as it was, so that the plan is due again at once and, with no job left, is started again.
\<close>

theorem early_failure_is_retried:
  assumes "is_due tick plan" and "records (bk_plans s) (bp_id plan) = Some plan"
    and "mark_running now1 i (bk_ops s) = (Inr (), ops)"
    and "prepare_run e plan (s\<lparr>bk_ops := ops\<rparr>) = (Inl er, s1)" and "tick \<le> next_tick"
  shows "let s' = backup_job e nid now1 now2 plan i s in
    records (bk_plans s') (bp_id plan) = Some plan \<and> is_due next_tick plan \<and> bp_id plan \<notin> set (bk_running s')"
proof -
  have sv: "service s1 = service s" using prepare_run_failed [OF assms(4)] by simp
  have "run_backup e nid now1 now2 plan i (s\<lparr>bk_ops := ops\<rparr>) = (Some (Inl er), s1)" using assms(4) by (simp add: run_backup_def)
  then have "backup_work e nid now1 now2 plan i (s\<lparr>bk_ops := ops\<rparr>) = (Some (Inl er),
      s1\<lparr>bk_running := removeAll (bp_id plan) (bk_running s1), bk_notes := bk_notes s1 @ [backup_note plan (Inl er)]\<rparr>)"
    by (simp add: backup_work_def)
  moreover have "on_ops (mark_running now1 i) s = (Inr (), s\<lparr>bk_ops := ops\<rparr>)" using assms(3) by (simp add: on_ops_def)
  ultimately have "backup_job e nid now1 now2 plan i s = snd (on_ops (fail now2 i (err_message er))
      (s1\<lparr>bk_running := removeAll (bp_id plan) (bk_running s1), bk_notes := bk_notes s1 @ [backup_note plan (Inl er)]\<rparr>))"
    by (simp add: backup_job_def worker_on_def)
  moreover have "is_due next_tick plan" using assms(1,5) by (auto simp: is_due_def split: option.splits)
  ultimately show ?thesis using sv assms(2) by (simp add: Let_def)
qed

subsection \<open>Witnesses\<close>

lemma sample_inv: "artifacts_inv (sample_service source answers fs)"
proof -
  have "store_wf (json_dir [(''a1'', sample_artifact)] [])" by (simp add: store_wf_def json_dir_def)
  then show ?thesis
    by (auto simp: artifacts_inv_def sample_service_def sample_plan_records sample_artifact_def split: if_splits)
qed

theorem early_failure_is_retried_witness:
  "\<exists>s'. s' = backup_job sample_backup_env ''a2'' ''3'' ''3'' (sample_plan SourceVm) ''o1''
       (snd (enqueue_backup_for_plan ''o1'' ''3'' (sample_plan SourceVm) None (sample_service SourceVm [] []))) \<and>
     records (bk_plans s') ''p1'' = Some (sample_plan SourceVm) \<and> is_due ''4'' (sample_plan SourceVm) \<and> ''p1'' \<notin> set (bk_running s')"
proof -
  define s where "s = snd (enqueue_backup_for_plan ''o1'' ''3'' (sample_plan SourceVm) None (sample_service SourceVm [] []))"
  define m where "m = mark_running ''3'' ''o1'' (bk_ops s)"
  have d: "is_due ''3'' (sample_plan SourceVm)" and le: "''3'' \<le> ''4''" by code_simp+
  have "map_sum (\<lambda>_. ()) id (fst m) = Inr ()" unfolding m_def s_def by code_simp
  then have m: "mark_running ''3'' ''o1'' (bk_ops s) = (Inr (), snd m)" by (cases m; cases "fst m") (auto simp: m_def)
  have p: "prepare_run sample_backup_env (sample_plan SourceVm) (s\<lparr>bk_ops := snd m\<rparr>) = (Inl (not_found ''vm''), s\<lparr>bk_ops := snd m\<rparr>)"
    by (simp add: prepare_run_def resolve_sources_def sample_plan_def sample_backup_env_def)
  have st: "bk_plans s = json_dir [(''p1'', sample_plan SourceVm)] []"
    unfolding s_def by (simp add: enqueue_backup_for_plan_def sample_service_def split_beta split: sum.splits)
  have "safe_id ''p1''" by code_simp
  then have "records (bk_plans s) (bp_id (sample_plan SourceVm)) = Some (sample_plan SourceVm)" by (simp add: st sample_plan_records)
  from early_failure_is_retried [OF d this m p le, of "''a2''" "''3''"] show ?thesis by (simp add: Let_def s_def [symmetric])
qed

theorem backup_success_is_stored_witness:
  "\<exists>a s'. run_backup sample_backup_env ''a2'' ''3'' ''4'' (sample_plan SourceDataset) ''o1''
       (snd (enqueue_backup_for_plan ''o1'' ''3'' (sample_plan SourceDataset) None (sample_service SourceDataset [Inr [], Inr []] []))) =
       (Some (Inr a), s') \<and>
     arts s' ''a2'' = Some a \<and> list_all (stored sample_backup_env (bk_host s')) (ba_files a) \<and> length (ba_files a) = 1"
proof -
  let ?s = "snd (enqueue_backup_for_plan ''o1'' ''3'' (sample_plan SourceDataset) None (sample_service SourceDataset [Inr [], Inr []] []))"
  define x where "x = run_backup sample_backup_env ''a2'' ''3'' ''4'' (sample_plan SourceDataset) ''o1'' ?s"
  have "map_option (map_sum (\<lambda>_. ()) (\<lambda>a. length (ba_files a))) (fst x) = Some (Inr 1)" unfolding x_def by code_simp
  then obtain a s' where r: "x = (Some (Inr a), s')" "length (ba_files a) = 1" by (cases x; cases "fst x"; cases "the (fst x)") auto
  have st: "bk_artifacts ?s = json_dir [(''a1'', sample_artifact)] []"
    by (simp add: enqueue_backup_for_plan_def sample_service_def split_beta split: sum.splits)
  have inv: "artifacts_inv ?s" using sample_inv [of SourceDataset "[]" "[]"] st by (simp add: artifacts_inv_def sample_service_def)
  have ran: "ran (arts ?s) = {sample_artifact}"
  proof -
    have "safe_id ''a1''" by code_simp
    then show ?thesis by (auto simp: st sample_plan_records ran_def)
  qed
  have none: "arts ?s ''a2'' = None" by (simp add: st sample_plan_records)
  have ret: "0 < bp_retention_count (sample_plan SourceDataset)" by (simp add: sample_plan_def)
  have "ba_created_at sample_artifact < ''3''" by code_simp
  then have old: "\<forall>b \<in> ran (arts ?s). ba_plan_id b = bp_id (sample_plan SourceDataset) \<longrightarrow> ba_created_at b < ''3''" using ran by simp
  have "file_path dest ''a2'' k \<noteq> ''/b/x''" for dest k
  proof
    assume "file_path dest ''a2'' k = ''/b/x''"
    then have "last (file_path dest ''a2'' k) = CHR ''x''" by simp
    then show False by (simp add: file_path_def)
  qed
  then have fresh: "\<forall>b \<in> ran (arts ?s). \<forall>dest k. file_path dest ''a2'' k \<notin> bf_path ` set (ba_files b)"
    using ran by (simp add: sample_artifact_def sample_file_def)
  from backup_success_is_stored [OF r(1) [unfolded x_def] inv none ret old fresh] r show ?thesis
    unfolding x_def by blast
qed

end
