(* ===== verification/Backup_Jobs.thy ===== *)
theory Backup_Jobs
  imports Backup_Run
begin

section \<open>Backup jobs and their schedule\<close>

text \<open>
  The life of backup jobs: which plans are running, what the scheduler starts, and what a finished run leaves.
  \<open>bk_step\<close> is the service as a state machine: a state is that of the service and the jobs that were spawned
  and have not ended; a job runs as one step, during which its plan is in the running set as it is while the
  job waits.
\<close>

subsection \<open>The running set\<close>

lemma on_frames [simp]:
  "bk_running (snd (on_plans f s)) = bk_running s" "bk_running (snd (on_artifacts g s)) = bk_running s"
  "bk_running (snd (on_host k s)) = bk_running s"
  by (simp_all add: on_plans_def on_artifacts_def on_host_def split_beta)

lemma bind_running:
  assumes "bk_running (snd m) = bk_running s" and "\<And>x s1. bk_running (snd (f x s1)) = bk_running s1"
  shows "bk_running (snd (bind_st m f)) = bk_running s"
  using assms by (cases m; cases "fst m") (auto simp: bind_st_def)

lemma get_list_running [simp]:
  "bk_running (snd (get_plan i s)) = bk_running s" "bk_running (snd (put_plan p s)) = bk_running s"
  "bk_running (snd (list_plans s)) = bk_running s" "bk_running (snd (get_artifact i s)) = bk_running s"
  "bk_running (snd (put_artifact a s)) = bk_running s" "bk_running (snd (list_artifacts x s)) = bk_running s"
  unfolding get_plan_def put_plan_def list_plans_def get_artifact_def put_artifact_def list_artifacts_def
  by (auto intro!: bind_running)

lemma drop_artifacts_running [simp]: "bk_running (snd (drop_artifacts as s)) = bk_running s"
  by (induction as arbitrary: s) (auto simp: Let_def intro!: bind_running)

lemma apply_retention_running [simp]: "bk_running (snd (apply_retention p s)) = bk_running s"
  unfolding apply_retention_def by (auto intro!: bind_running)

lemma backup_loop_running [simp]:
  "bk_running (snd (snd (backup_loop e plan oid aid tag dest n i ds s))) = bk_running s"
  by (metis backup_loop_service prod.collapse prod.inject)

lemma prepare_run_running [simp]: "bk_running (snd (prepare_run e plan s)) = bk_running s"
  unfolding prepare_run_def by (intro bind_running) (auto intro!: bind_running)

lemma finish_run_running [simp]: "bk_running (snd (finish_run e now plan r s)) = bk_running s"
proof -
  obtain x s1 where g: "get_plan (bp_id plan) s = (x, s1)" by fastforce
  then have "bk_running s1 = bk_running s" by (metis get_list_running(1) snd_conv)
  moreover have "put_plan p s1 = (y, s2) \<Longrightarrow> bk_running s2 = bk_running s1" for p y s2 by (metis get_list_running(2) snd_conv)
  ultimately show ?thesis
    using g by (auto simp: finish_run_def Let_def split: sum.splits option.splits prod.splits)
qed

lemma backup_attempt_running [simp]:
  "bk_running (snd (snd (backup_attempt e plan oid aid now dest ds s))) = bk_running s"
proof -
  obtain x1 s1 where 1: "on_host (preflight plan ds) s = (x1, s1)" by fastforce
  have r1: "bk_running s1 = bk_running s" using on_host_frame [OF 1] by simp
  let ?tag = "''daygleve-backup-'' @ filter (\<lambda>c. c \<noteq> CHR ''-'') aid"
  show ?thesis
  proof (cases x1)
    case (Inl er)
    with 1 r1 show ?thesis by (simp add: backup_attempt_def)
  next
    case (Inr bases)
    obtain x2 c2 s2 where 2: "backup_loop e plan oid aid ?tag dest (length ds) 0 (zip ds bases) s1 = (x2, c2, s2)" by (metis prod.collapse)
    have "bk_running s2 = bk_running s1" using backup_loop_running 2 by (metis snd_conv)
    moreover have "bk_running (snd (bind_st (put_artifact a s2) (\<lambda>_ s. bind_st (apply_retention plan s) (\<lambda>_ s. (Inr a, s))))) = bk_running s2" for a
      by (auto intro!: bind_running)
    ultimately show ?thesis using 1 2 Inr r1 by (cases x2) (simp_all add: backup_attempt_def Let_def split_beta)
  qed
qed

lemma run_backup_running [simp]: "bk_running (snd (run_backup e nid now now' plan oid s)) = bk_running s"
proof -
  obtain x1 s1 where 1: "prepare_run e plan s = (x1, s1)" by fastforce
  then have "bk_running s1 = bk_running s" by (metis prepare_run_running snd_conv)
  moreover have "backup_attempt e plan oid nid now dest ds s1 = (r, c, s2) \<Longrightarrow> bk_running s2 = bk_running s1" for dest ds r c s2
    by (metis backup_attempt_running snd_conv)
  ultimately show ?thesis
    using 1 by (auto simp: run_backup_def split: sum.splits prod.splits)
qed

subsection \<open>One job per plan\<close>

lemma worker_on_running:
  assumes "\<And>f s. bk_running (snd (lift f s)) = bk_running s"
  shows "bk_running (worker_on lift now now' i rt rid work s) =
    (case lift (mark_running now i) s of (Inl _, _) \<Rightarrow> bk_running s | (Inr _, s1) \<Rightarrow> bk_running (snd (work i s1)))"
proof -
  obtain x s1 where m: "lift (mark_running now i) s = (x, s1)" by fastforce
  have "bk_running s1 = bk_running s" using assms [of "mark_running now i" s] m by simp
  with m assms show ?thesis
    by (auto simp: worker_on_def split: sum.splits option.splits prod.splits)
qed

lemma backup_work_running:
  "bk_running (snd (backup_work e nid now now' plan i s)) =
     (if fst (run_backup e nid now now' plan i s) = None then bk_running s else removeAll (bp_id plan) (bk_running s))"
proof -
  obtain x s1 where r: "run_backup e nid now now' plan i s = (x, s1)" by fastforce
  have "bk_running s1 = bk_running s" using run_backup_running r by (metis snd_conv)
  with r show ?thesis by (cases x) (simp_all add: backup_work_def)
qed

lemma backup_job_running:
  "bk_running (backup_job e nid now now' plan i s) \<in> {bk_running s, removeAll (bp_id plan) (bk_running s)}"
proof -
  obtain x s1 where m: "on_ops (mark_running now i) s = (x, s1)" by fastforce
  have "bk_running s1 = bk_running s" using on_ops_frame' [OF m] by simp
  then show ?thesis unfolding backup_job_def using m by (subst worker_on_running) (auto simp: backup_work_running split: sum.splits)
qed

lemma enqueue_for_plan_cases:
  assumes "enqueue_backup_for_plan oid now plan actor s = (x, s')"
  obtains (busy) "bp_id plan \<in> set (bk_running s)" "x = Inl (conflict ''a backup for this plan is already running'')" "s' = s"
  | (failed) er where "bp_id plan \<notin> set (bk_running s)" "x = Inl er" "bk_running s' = removeAll (bp_id plan) (bk_running s)"
  | (queued) r where "bp_id plan \<notin> set (bk_running s)" "x = Inr r" "bk_running s' = bp_id plan # bk_running s"
proof -
  obtain y s1 where q: "on_ops (queue_op oid now ''backup.run'' (Some ''backup_plan'') (Some (bp_id plan)) actor)
      (s\<lparr>bk_running := bp_id plan # bk_running s\<rparr>) = (y, s1)" by fastforce
  have "bk_running s1 = bp_id plan # bk_running s" using on_ops_frame' [OF q] by simp
  with q assms that show thesis
    by (cases y) (auto simp: enqueue_backup_for_plan_def split: if_splits)
qed

type_synonym jobs = "(backup_plan \<times> str) list"

abbreviation plan_ids :: "jobs \<Rightarrow> str list" where
  "plan_ids js \<equiv> map (\<lambda>j. bp_id (fst j)) js"

definition spawned_jobs :: "(backup_plan \<times> operation_record) list \<Rightarrow> jobs" where
  "spawned_jobs started = map (\<lambda>j. (fst j, op_id (snd j))) started"

lemma plan_ids_spawned [simp]: "plan_ids (spawned_jobs started) = map (\<lambda>j. bp_id (fst j)) started"
  by (simp add: spawned_jobs_def)

inductive bk_step :: "backup_env \<Rightarrow> backup_state \<times> jobs \<Rightarrow> backup_state \<times> jobs \<Rightarrow> bool" for e where
  start: "enqueue_backup_for_plan oid now plan actor s = (Inr r, s') \<Longrightarrow> bk_step e (s, js) (s', (plan, op_id r) # js)"
| refused: "enqueue_backup_for_plan oid now plan actor s = (Inl er, s') \<Longrightarrow> bk_step e (s, js) (s', js)"
| tick: "scheduler_tick ids now s = (started, s') \<Longrightarrow> bk_step e (s, js) (s', spawned_jobs started @ js)"
| job: "(plan, i) \<in> set js \<Longrightarrow> bk_step e (s, js) (backup_job e nid now now' plan i s, remove1 (plan, i) js)"
| create: "bk_step e (s, js) (snd (create_plan e nid now req s), js)"
| update: "bk_step e (s, js) (snd (update_plan e now i ureq s), js)"
| delete: "bk_step e (s, js) (snd (delete_plan i s), js)"
| restore: "bk_step e (s, js) (snd (enqueue_restore e oid now aid rreq actor s), js)"
| restoring: "bk_step e (s, js) (restore_job e now now' order i s, js)"

lemma plan_calls_running:
  "bk_running (snd (create_plan e nid now req s)) = bk_running s"
  "bk_running (snd (update_plan e now i ureq s)) = bk_running s"
  "bk_running (snd (delete_plan i s)) = bk_running s"
  "bk_running (snd (enqueue_restore e oid now aid rreq actor s)) = bk_running s"
proof -
  have p: "put_plan p s1 = (y, s2) \<Longrightarrow> bk_running s2 = bk_running s1" for p y s1 s2 by (metis get_list_running(2) snd_conv)
  have b: "bk_running (snd (bind_st (put_plan p s1) (\<lambda>_ s. (Inr p, s)))) = bk_running s1" for p s1 by (auto intro!: bind_running)
  obtain x s1 where c: "bind_st (validate_plan_request req, s) (\<lambda>_ s. bind_st (ensure_safe_id (bc_name req), s) (\<lambda>_ s. list_plans s)) = (x, s1)"
    by fastforce
  have "bk_running (snd (bind_st (validate_plan_request req, s) (\<lambda>_ s. bind_st (ensure_safe_id (bc_name req), s) (\<lambda>_ s. list_plans s)))) = bk_running s"
    by (auto intro!: bind_running)
  then have "bk_running s1 = bk_running s" using c by simp
  with c b show "bk_running (snd (create_plan e nid now req s)) = bk_running s"
    by (auto simp: create_plan_def Let_def split: sum.splits option.splits)
  obtain y s2 where g: "get_plan i s = (y, s2)" by fastforce
  have "bk_running s2 = bk_running s" using g by (metis get_list_running(1) snd_conv)
  with g b show "bk_running (snd (update_plan e now i ureq s)) = bk_running s"
    by (auto simp: update_plan_def Let_def split: sum.splits option.splits)
  show "bk_running (snd (delete_plan i s)) = bk_running s"
    unfolding delete_plan_def by (auto intro!: bind_running)
  have base: "bk_running (snd (base_of a rreq t)) = bk_running t" for a t
    unfolding base_of_def by (auto simp: Let_def intro!: bind_running split: option.splits)
  show "bk_running (snd (enqueue_restore e oid now aid rreq actor s)) = bk_running s"
    unfolding enqueue_restore_def by (auto intro!: bind_running simp: base)
qed

lemma restore_job_running: "bk_running (restore_job e now now' order i s) = bk_running s"
proof -
  obtain base f target force where o: "order = (base, f, target, force)" by (cases order)
  have w: "bk_running (snd (restore_work e order i t)) = bk_running t" for t
    unfolding restore_work_def o by (auto intro!: bind_running split: option.splits)
  obtain x s1 where m: "on_ops (mark_running now i) s = (x, s1)" by fastforce
  have "bk_running s1 = bk_running s" using on_ops_frame' [OF m] by simp
  then show ?thesis unfolding restore_job_def using m w by (subst worker_on_running) (auto split: sum.splits)
qed

lemma start_due_running:
  assumes "start_due ids now plans s = (started, s')"
  shows "distinct (plan_ids (spawned_jobs started)) \<and> set (plan_ids (spawned_jobs started)) \<inter> set (bk_running s) = {} \<and>
    set (bk_running s') = set (bk_running s) \<union> set (plan_ids (spawned_jobs started))"
  using assms
proof (induction plans arbitrary: s s' started)
  case (Cons plan plans)
  obtain x s1 where q: "enqueue_backup_for_plan (ids (length plans)) now plan None s = (x, s1)" by fastforce
  obtain js s2 where d: "start_due ids now plans s1 = (js, s2)" by fastforce
  show ?case
  proof (cases "is_due now plan")
    case True
    from q show ?thesis
    proof (cases rule: enqueue_for_plan_cases)
      case busy
      with Cons True q show ?thesis by simp
    next
      case (failed er)
      then have "set (bk_running s1) = set (bk_running s)" by auto
      with Cons.IH [of s1 started] Cons.prems True q failed show ?thesis by simp
    next
      case (queued r)
      define J where "J = set (plan_ids (spawned_jobs js))"
      have ih: "distinct (plan_ids (spawned_jobs js))" "J \<inter> set (bk_running s1) = {}" "set (bk_running s2) = set (bk_running s1) \<union> J"
        using Cons.IH [OF d] by (simp_all add: J_def)
      have st: "started = (plan, r) # js" "s' = s2" using Cons.prems True q d queued by simp_all
      have "set (plan_ids (spawned_jobs started)) = insert (bp_id plan) J" by (simp add: st J_def)
      moreover have "bp_id plan \<notin> J" "J \<inter> set (bk_running s) = {}" using ih(2) queued by auto
      moreover have "distinct (plan_ids (spawned_jobs started)) \<longleftrightarrow> bp_id plan \<notin> J \<and> distinct (plan_ids (spawned_jobs js))"
        by (simp add: st J_def)
      ultimately show ?thesis using ih queued st by auto
    qed
  qed (use Cons in simp)
qed simp

lemma scheduler_tick_running:
  assumes "scheduler_tick ids now s = (started, s')"
  shows "distinct (plan_ids (spawned_jobs started)) \<and> set (plan_ids (spawned_jobs started)) \<inter> set (bk_running s) = {} \<and>
    set (bk_running s') = set (bk_running s) \<union> set (plan_ids (spawned_jobs started))"
proof -
  obtain x s1 where l: "list_plans s = (x, s1)" by fastforce
  have "bk_running s1 = bk_running s" using l by (metis get_list_running(3) snd_conv)
  with assms l start_due_running [of ids now _ s1 started s'] show ?thesis
    by (cases x) (auto simp: scheduler_tick_def spawned_jobs_def)
qed

text \<open>Every step adds plans to the running set with their jobs, and takes out at most the plan whose job ran.\<close>

lemma bk_step_running:
  assumes "bk_step e (s, js) (s', js')"
  obtains (spawn) new where "js' = new @ js" "distinct (plan_ids new)" "set (plan_ids new) \<inter> set (bk_running s) = {}"
      "set (bk_running s') = set (bk_running s) \<union> set (plan_ids new)"
  | (ran) plan i where "(plan, i) \<in> set js" "js' = remove1 (plan, i) js"
      "set (bk_running s') = set (bk_running s) \<or> set (bk_running s') = set (bk_running s) - {bp_id plan}"
  using assms
proof cases
  case (start oid now plan actor r)
  from start(2) show thesis
    by (cases rule: enqueue_for_plan_cases) (use start that(1) [of "[(plan, op_id r)]"] in auto)
next
  case (refused oid now plan actor er)
  from refused(2) show thesis
    by (cases rule: enqueue_for_plan_cases) (use refused that(1) [of "[]"] in auto)
next
  case (tick ids now started)
  with scheduler_tick_running [OF tick(2)] show thesis using that(1) [of "spawned_jobs started"] by blast
next
  case (job plan i nid now now')
  with backup_job_running [of e nid now now' plan i s] show thesis using that(2) [of plan i] by auto
qed (use that(1) [of "[]"] plan_calls_running restore_job_running in auto)

definition jobs_ok :: "backup_state \<times> jobs \<Rightarrow> bool" where
  "jobs_ok c \<longleftrightarrow> distinct (plan_ids (snd c)) \<and> set (plan_ids (snd c)) \<subseteq> set (bk_running (fst c))"

lemma plan_ids_remove1:
  assumes "distinct (plan_ids js)" and "(plan, i) \<in> set js"
  shows "distinct (plan_ids (remove1 (plan, i) js)) \<and> set (plan_ids (remove1 (plan, i) js)) = set (plan_ids js) - {bp_id plan}"
proof -
  obtain a b where js: "js = a @ (plan, i) # b" "(plan, i) \<notin> set a" using split_list_first [OF assms(2)] by blast
  then have "remove1 (plan, i) js = a @ b" by (simp add: remove1_append)
  moreover have "bp_id plan \<notin> set (plan_ids a)" "bp_id plan \<notin> set (plan_ids b)" "distinct (plan_ids (a @ b))"
    using assms(1) js by auto
  ultimately show ?thesis using js(1) by auto
qed

lemma bk_step_jobs_ok:
  assumes "bk_step e c c'" and "jobs_ok c"
  shows "jobs_ok c'"
proof -
  obtain s js s' js' where c: "c = (s, js)" "c' = (s', js')" by fastforce
  from assms(1) [unfolded c] show ?thesis
  proof (cases rule: bk_step_running)
    case (spawn new)
    have ok: "distinct (plan_ids js)" "set (plan_ids js) \<subseteq> set (bk_running s)" using assms(2) c by (simp_all add: jobs_ok_def)
    with spawn(3) have "set (plan_ids new) \<inter> set (plan_ids js) = {}" by blast
    with ok spawn show ?thesis unfolding c jobs_ok_def by auto
  next
    case (ran plan i)
    with plan_ids_remove1 [of js plan i] assms(2) c show ?thesis by (auto simp: jobs_ok_def)
  qed
qed

lemma bk_steps_jobs_ok: "(bk_step e)\<^sup>*\<^sup>* c c' \<Longrightarrow> jobs_ok c \<Longrightarrow> jobs_ok c'"
  by (induction rule: rtranclp_induct) (auto intro: bk_step_jobs_ok)

lemma busy_plan_refused:
  assumes "bp_id plan \<in> set (bk_running s)"
  shows "enqueue_backup_for_plan oid now plan actor s = (Inl (conflict ''a backup for this plan is already running''), s)"
    and "\<exists>er. fst (delete_plan (bp_id plan) s) = Inl er"
proof -
  show "enqueue_backup_for_plan oid now plan actor s = (Inl (conflict ''a backup for this plan is already running''), s)"
    using assms by (simp add: enqueue_backup_for_plan_def)
  obtain x s1 where g: "get_plan (bp_id plan) s = (x, s1)" by fastforce
  have "bk_running s1 = bk_running s" using g by (metis get_list_running(1) snd_conv)
  with g assms show "\<exists>er. fst (delete_plan (bp_id plan) s) = Inl er" by (cases x) (auto simp: delete_plan_def)
qed

text \<open>
  C24. No plan is backed up twice at a time: from a start with no jobs, whatever requests, scheduler ticks, restores
  and jobs follow in whatever order, no two pending jobs are for the same plan, and while a plan has a pending job
  every further request for it is refused and it cannot be deleted.
\<close>

theorem one_job_per_plan:
  assumes "(bk_step e)\<^sup>*\<^sup>* (s0, []) (s, js)"
  shows "distinct (plan_ids js) \<and>
    (\<forall>(plan, i) \<in> set js. enqueue_backup_for_plan oid now plan actor s =
        (Inl (conflict ''a backup for this plan is already running''), s) \<and>
      (\<exists>er. fst (delete_plan (bp_id plan) s) = Inl er))"
proof -
  have "jobs_ok (s, js)" using bk_steps_jobs_ok [OF assms] by (simp add: jobs_ok_def)
  then have d: "distinct (plan_ids js)" "set (plan_ids js) \<subseteq> set (bk_running s)" by (auto simp: jobs_ok_def)
  have "bp_id plan \<in> set (bk_running s)" if "(plan, i) \<in> set js" for plan i using d(2) that by (force simp: image_iff)
  with d(1) show ?thesis by (auto simp: busy_plan_refused)
qed

definition stuck :: "str \<Rightarrow> backup_state \<times> jobs \<Rightarrow> bool" where
  "stuck i c \<longleftrightarrow> i \<in> set (bk_running (fst c)) \<and> i \<notin> set (plan_ids (snd c))"

lemma bk_step_stuck:
  assumes "bk_step e c c'" and "stuck i c"
  shows "stuck i c'"
proof -
  obtain s js s' js' where c: "c = (s, js)" "c' = (s', js')" by fastforce
  from assms(1) [unfolded c] show ?thesis
  proof (cases rule: bk_step_running)
    case (spawn new)
    with assms(2) c show ?thesis by (auto simp: stuck_def)
  next
    case (ran plan j)
    have "bp_id plan \<noteq> i" using ran(1) assms(2) c by (force simp: stuck_def image_iff)
    moreover have "set (plan_ids js') \<subseteq> set (plan_ids js)" using ran(2) set_remove1_subset by fastforce
    ultimately show ?thesis using ran(3) assms(2) c by (auto simp: stuck_def)
  qed
qed

lemma bk_steps_stuck: "(bk_step e)\<^sup>*\<^sup>* c c' \<Longrightarrow> stuck i c \<Longrightarrow> stuck i c'"
  by (induction rule: rtranclp_induct) (auto intro: bk_step_stuck)

text \<open>
  One lost write disables a plan: when the journal cannot record that a queued backup job starts, the job ends
  without its work and without leaving the running set. From then on, whatever happens short of a restart, every
  request to back the plan up is answered that a backup is already running, though no job for it exists,
  and the plan cannot be deleted.
\<close>

theorem lost_start_disables_plan:
  assumes "(bk_step e)\<^sup>*\<^sup>* (s0, []) (s, js)" and "(plan, i) \<in> set js"
    and "mark_running began i (bk_ops s) = (Inl er, ops)"
    and "(bk_step e)\<^sup>*\<^sup>* (backup_job e nid began ended plan i s, remove1 (plan, i) js) (s', js')"
  shows "bp_id plan \<notin> set (plan_ids js') \<and>
    enqueue_backup_for_plan oid now plan actor s' = (Inl (conflict ''a backup for this plan is already running''), s') \<and>
    (\<exists>er. fst (delete_plan (bp_id plan) s') = Inl er)"
proof -
  have ok: "distinct (plan_ids js)" "set (plan_ids js) \<subseteq> set (bk_running s)"
    using bk_steps_jobs_ok [OF assms(1)] by (auto simp: jobs_ok_def)
  have "bk_running (backup_job e nid began ended plan i s) = bk_running s"
    unfolding backup_job_def using assms(3) by (subst worker_on_running) (simp, simp add: on_ops_def)
  moreover have "bp_id plan \<in> set (bk_running s)" using ok(2) assms(2) by (force simp: image_iff)
  ultimately have "stuck (bp_id plan) (backup_job e nid began ended plan i s, remove1 (plan, i) js)"
    using plan_ids_remove1 [OF ok(1) assms(2)] by (simp add: stuck_def)
  then have "stuck (bp_id plan) (s', js')" using bk_steps_stuck [OF assms(4)] by blast
  then show ?thesis by (auto simp: stuck_def busy_plan_refused)
qed

subsection \<open>Witnesses\<close>

definition queued_backup :: "operation_record fault list \<Rightarrow> backup_state" where
  "queued_backup journal_faults =
     snd (enqueue_backup_for_plan ''o1'' ''3'' (sample_plan SourceVm) None (sample_service SourceVm [] journal_faults))"

lemma backup_is_queued:
  assumes "journal_faults \<in> {[], [Ok, Ok, Ok, Ok, Fault ''disk full'' None]}"
  shows "(bk_step sample_backup_env)\<^sup>*\<^sup>* (sample_service SourceVm [] journal_faults, [])
    (queued_backup journal_faults, [(sample_plan SourceVm, ''o1'')])"
proof -
  define x where "x = enqueue_backup_for_plan ''o1'' ''3'' (sample_plan SourceVm) None (sample_service SourceVm [] journal_faults)"
  have "map_sum (\<lambda>_. ()) op_id (fst x) = Inr ''o1''" using assms unfolding x_def by (elim insertE; simp only: empty_iff; code_simp)
  then obtain r where "x = (Inr r, queued_backup journal_faults)" "op_id r = ''o1''"
    unfolding queued_backup_def x_def [symmetric] by (cases x; cases "fst x") auto
  then show ?thesis unfolding x_def by (metis bk_step.start r_into_rtranclp)
qed

theorem one_job_per_plan_witness:
  "\<exists>s. (bk_step sample_backup_env)\<^sup>*\<^sup>* (sample_service SourceVm [] [], []) (s, [(sample_plan SourceVm, ''o1'')]) \<and>
     enqueue_backup_for_plan ''o2'' ''4'' (sample_plan SourceVm) None s =
       (Inl (conflict ''a backup for this plan is already running''), s)"
  using one_job_per_plan [OF backup_is_queued [of "[]"], of "''o2''" "''4''" None] backup_is_queued [of "[]"] by auto

theorem lost_start_disables_plan_witness:
  "\<exists>s. s = backup_job sample_backup_env ''a2'' ''4'' ''5'' (sample_plan SourceVm) ''o1''
         (queued_backup [Ok, Ok, Ok, Ok, Fault ''disk full'' None]) \<and>
     enqueue_backup_for_plan ''o2'' ''6'' (sample_plan SourceVm) None s =
       (Inl (conflict ''a backup for this plan is already running''), s)"
proof -
  let ?fs = "[Ok, Ok, Ok, Ok, Fault ''disk full'' None]"
  define m where "m = mark_running ''4'' ''o1'' (bk_ops (queued_backup ?fs))"
  have "\<not> is_ok (fst m)" unfolding m_def by code_simp
  then obtain er where m: "mark_running ''4'' ''o1'' (bk_ops (queued_backup ?fs)) = (Inl er, snd m)"
    unfolding m_def [symmetric] by (cases m; cases "fst m") (auto simp: is_ok_def)
  have q: "(bk_step sample_backup_env)\<^sup>*\<^sup>* (sample_service SourceVm [] ?fs, []) (queued_backup ?fs, [(sample_plan SourceVm, ''o1'')])"
    by (rule backup_is_queued) simp
  have "(sample_plan SourceVm, ''o1'') \<in> set [(sample_plan SourceVm, ''o1'')]" by simp
  from lost_start_disables_plan [OF q this m rtranclp.rtrancl_refl,
      where nid = "''a2''" and ended = "''5''" and oid = "''o2''" and now = "''6''" and actor = None]
  show ?thesis by simp
qed

end
