(* ===== verification/Firewall.thy ===== *)
theory Firewall
  imports Arguments Net_Text Store
begin

section \<open>The host firewall (src/src/services/firewall.rs)\<close>

text \<open>
  The configuration of the host's input filter, its rendering as an nftables batch, and the service that
  applies and saves it. The state is the record store, the host, and the file system calls that resolve the
  batch path (\<open>fw_canonical\<close> is the canonical state directory, or the error of \<open>canonicalize\<close>); the lock
  serializes \<open>update\<close> and \<open>apply_persisted\<close>, so that each is one step. \<open>HostFirewall::default()\<close> is an argument:
  its type is of another crate, and the code relies on it being disabled. What the batch means is nft's; the
  property proved is that the batch says exactly what was configured, by a reader of its lines.
\<close>

definition RECORD_ID :: str where
  "RECORD_ID = ''host''"

definition TABLE :: str where
  "TABLE = ''daygleve_host''"

datatype firewall_action = FwAccept | FwDrop | FwReject

datatype firewall_policy = PolicyAccept | PolicyDrop

datatype firewall_protocol = Tcp | Udp | Icmp | AnyProtocol

record firewall_rule =
  fr_action :: firewall_action
  fr_protocol :: firewall_protocol
  fr_source_cidr :: "str option"
  fr_dest_port :: "16 word option"
  fr_description :: "str option"

record host_firewall =
  hf_enabled :: bool
  hf_default_input_policy :: firewall_policy
  hf_rules :: "firewall_rule list"

record firewall_service =
  fw_store :: "host_firewall jstore"
  fw_canonical :: "str + str"
  fw_host :: host

subsection \<open>Validation and rendering\<close>

definition validate_rule :: "firewall_rule \<Rightarrow> unit api_result" where
  "validate_rule rule =
     bind_res (case fr_source_cidr rule of
                 None \<Rightarrow> Inr ()
               | Some cidr \<Rightarrow> bind_res (ensure_safe_cidr cidr ''firewall rule source_cidr'') (\<lambda>_. Inr ())) (\<lambda>_.
       if fr_dest_port rule \<noteq> None \<and> fr_protocol rule \<notin> {Tcp, Udp}
       then Inl (validation ''dest_port is only valid for tcp or udp rules'') else Inr ())"

definition validate_firewall :: "host_firewall \<Rightarrow> unit api_result" where
  "validate_firewall cfg = for_each validate_rule (hf_rules cfg)"

definition cidr_family :: "str \<Rightarrow> str api_result" where
  "cidr_family cidr =
     (let addr = (case split_once (CHR ''/'') cidr of Some (a, _) \<Rightarrow> a | None \<Rightarrow> cidr) in
      case parse_ip addr of
        None \<Rightarrow> Inl (internal ''firewall rule cidr failed to parse'')
      | Some ip \<Rightarrow> Inr (if is_v4 ip then ''ip'' else ''ip6''))"

definition show_port :: "16 word \<Rightarrow> str" where
  "show_port port = show_nat (unat port)"

definition protocol_parts :: "firewall_protocol \<Rightarrow> 16 word option \<Rightarrow> str list" where
  "protocol_parts protocol port =
     (case protocol of
        Tcp \<Rightarrow> (case port of Some p \<Rightarrow> [''tcp dport '' @ show_port p] | None \<Rightarrow> [''meta l4proto tcp''])
      | Udp \<Rightarrow> (case port of Some p \<Rightarrow> [''udp dport '' @ show_port p] | None \<Rightarrow> [''meta l4proto udp''])
      | Icmp \<Rightarrow> [''meta l4proto { icmp, icmpv6 }'']
      | AnyProtocol \<Rightarrow> [])"

fun verdict_word :: "firewall_action \<Rightarrow> str" where
  "verdict_word FwAccept = ''accept''"
| "verdict_word FwDrop = ''drop''"
| "verdict_word FwReject = ''reject''"

definition render_rule :: "firewall_rule \<Rightarrow> str api_result" where
  "render_rule rule =
     bind_res (case fr_source_cidr rule of
                 None \<Rightarrow> Inr []
               | Some cidr \<Rightarrow> bind_res (cidr_family cidr) (\<lambda>family. Inr [family @ '' saddr '' @ cidr])) (\<lambda>source.
       Inr (join '' '' (source @ protocol_parts (fr_protocol rule) (fr_dest_port rule) @ [verdict_word (fr_action rule)])))"

definition newline :: str where
  "newline = [CHR 0x0A]"

definition add_rule :: "str \<Rightarrow> str" where
  "add_rule body = ''add rule inet '' @ TABLE @ '' input '' @ body @ newline"

fun render_rules :: "firewall_rule list \<Rightarrow> str api_result" where
  "render_rules [] = Inr []"
| "render_rules (rule # rules) =
     bind_res (render_rule rule) (\<lambda>body. bind_res (render_rules rules) (\<lambda>rest. Inr (add_rule body @ rest)))"

definition nft_host_batch :: "host_firewall \<Rightarrow> str api_result" where
  "nft_host_batch cfg =
     (let preamble = ''add table inet '' @ TABLE @ newline
            @ ''add chain inet '' @ TABLE @ '' input { type filter hook input priority 0; policy accept; }'' @ newline
            @ ''flush chain inet '' @ TABLE @ '' input'' @ newline
      in if \<not> hf_enabled cfg then Inr preamble
         else
           bind_res (render_rules (hf_rules cfg)) (\<lambda>rules.
             Inr (preamble @ add_rule ''iif lo accept'' @ add_rule ''ct state established,related accept'' @ rules
                  @ (if hf_default_input_policy cfg = PolicyDrop then add_rule ''drop'' else []))))"

subsection \<open>The service\<close>

definition fw_get :: "host_firewall \<Rightarrow> firewall_service \<Rightarrow> host_firewall api_result \<times> firewall_service" where
  "fw_get dflt s =
     (case Store.get RECORD_ID (fw_store s) of
        (Inl e, st) \<Rightarrow> (Inl e, s\<lparr>fw_store := st\<rparr>)
      | (Inr x, st) \<Rightarrow> (Inr (case x of None \<Rightarrow> dflt | Some cfg \<Rightarrow> cfg), s\<lparr>fw_store := st\<rparr>))"

definition resolve_batch_path :: "firewall_service \<Rightarrow> str api_result \<times> firewall_service" where
  "resolve_batch_path s =
     (case fw_canonical s of
        Inl e \<Rightarrow> (Inl (internal (''resolve state dir: '' @ e)), s)
      | Inr base \<Rightarrow>
          (case next_file_error (fw_host s) of
             (Some e, h) \<Rightarrow> (Inl (internal (''create firewall dir: '' @ e)), s\<lparr>fw_host := h\<rparr>)
           | (None, h) \<Rightarrow> (Inr (base @ ''/firewall/host.nft''), s\<lparr>fw_host := h\<rparr>)))"

definition apply_firewall :: "host_firewall \<Rightarrow> firewall_service \<Rightarrow> unit api_result \<times> firewall_service" where
  "apply_firewall cfg s =
     bind_st (nft_host_batch cfg, s) (\<lambda>batch s.
     bind_st (resolve_batch_path s) (\<lambda>path s.
       case write_file path batch (fw_host s) of
         (Inl e, h) \<Rightarrow> (Inl (internal (''write firewall batch: '' @ e)), s\<lparr>fw_host := h\<rparr>)
       | (Inr _, h) \<Rightarrow>
           (let (r, h) = run_ok ''nft'' [''-f'', path] h in (r, s\<lparr>fw_host := h\<rparr>))))"

definition update_firewall :: "host_firewall \<Rightarrow> firewall_service \<Rightarrow> host_firewall api_result \<times> firewall_service" where
  "update_firewall cfg s =
     bind_st (validate_firewall cfg, s) (\<lambda>_ s.
     bind_st (apply_firewall cfg s) (\<lambda>_ s.
       case Store.put RECORD_ID cfg (fw_store s) of
         (Inl e, st) \<Rightarrow> (Inl e, s\<lparr>fw_store := st\<rparr>)
       | (Inr _, st) \<Rightarrow> (Inr cfg, s\<lparr>fw_store := st\<rparr>)))"

definition apply_persisted :: "host_firewall \<Rightarrow> firewall_service \<Rightarrow> firewall_service" where
  "apply_persisted dflt s =
     (case fw_get dflt s of
        (Inl _, s) \<Rightarrow> s
      | (Inr cfg, s) \<Rightarrow> snd (apply_firewall cfg s))"

section \<open>The batch says what was configured\<close>

text \<open>A reader of the batch: the words of a line, the optional source, the optional protocol, the verdict.\<close>

definition read_verdict :: "str list \<Rightarrow> firewall_action option" where
  "read_verdict ws =
     (if ws = [''accept''] then Some FwAccept else if ws = [''drop''] then Some FwDrop
      else if ws = [''reject''] then Some FwReject else None)"

definition read_source :: "str list \<Rightarrow> str option \<times> str list" where
  "read_source ws =
     (case ws of f # k # c # rest \<Rightarrow> if f \<in> {''ip'', ''ip6''} \<and> k = ''saddr'' then (Some c, rest) else (None, ws) | _ \<Rightarrow> (None, ws))"

definition read_protocol :: "str list \<Rightarrow> (firewall_protocol \<times> 16 word option) \<times> str list" where
  "read_protocol ws =
     (if take 2 ws = [''tcp'', ''dport''] then ((Tcp, Some (of_nat (dec_value (ws ! 2)))), drop 3 ws)
      else if take 2 ws = [''udp'', ''dport''] then ((Udp, Some (of_nat (dec_value (ws ! 2)))), drop 3 ws)
      else if take 3 ws = [''meta'', ''l4proto'', ''tcp''] then ((Tcp, None), drop 3 ws)
      else if take 3 ws = [''meta'', ''l4proto'', ''udp''] then ((Udp, None), drop 3 ws)
      else if take 6 ws = [''meta'', ''l4proto'', ''{'', ''icmp,'', ''icmpv6'', ''}''] then ((Icmp, None), drop 6 ws)
      else ((AnyProtocol, None), ws))"

definition read_rule :: "str \<Rightarrow> firewall_rule option" where
  "read_rule body =
     (let (source, ws) = read_source (split_on (CHR '' '') body);
          ((protocol, port), ws) = read_protocol ws
      in map_option (\<lambda>a. \<lparr>fr_action = a, fr_protocol = protocol, fr_source_cidr = source, fr_dest_port = port,
                          fr_description = None\<rparr>) (read_verdict ws))"

definition rule_prefix :: str where
  "rule_prefix = ''add rule inet '' @ TABLE @ '' input ''"

text \<open>The rules of a batch, without those of the baseline: none at all for a disabled firewall.\<close>

definition read_batch :: "str \<Rightarrow> firewall_rule list option option" where
  "read_batch batch =
     (let ls = drop 3 (lines batch) in
      if ls = [] then Some None
      else
        (let rules = map (\<lambda>l. Option.bind (strip_prefix l rule_prefix) read_rule) (drop 2 ls) in
         if take 2 ls = [rule_prefix @ ''iif lo accept'', rule_prefix @ ''ct state established,related accept''] \<and> None \<notin> set rules
         then Some (Some (map the rules)) else None))"

text \<open>What the operator configured, as rules: the policy is a last rule without a match.\<close>

definition configured_rules :: "host_firewall \<Rightarrow> firewall_rule list option" where
  "configured_rules cfg =
     (if hf_enabled cfg
      then Some (map (\<lambda>r. r\<lparr>fr_description := None\<rparr>) (hf_rules cfg) @
             (if hf_default_input_policy cfg = PolicyDrop
              then [\<lparr>fr_action = FwDrop, fr_protocol = AnyProtocol, fr_source_cidr = None, fr_dest_port = None, fr_description = None\<rparr>]
              else []))
      else None)"

definition source_words :: "firewall_rule \<Rightarrow> str list" where
  "source_words r = (case fr_source_cidr r of None \<Rightarrow> [] | Some c \<Rightarrow> [case_sum (\<lambda>_. []) id (cidr_family c), ''saddr'', c])"

definition protocol_words :: "firewall_protocol \<Rightarrow> 16 word option \<Rightarrow> str list" where
  "protocol_words protocol port =
     (case protocol of
        Tcp \<Rightarrow> (case port of Some p \<Rightarrow> [''tcp'', ''dport'', show_port p] | None \<Rightarrow> [''meta'', ''l4proto'', ''tcp''])
      | Udp \<Rightarrow> (case port of Some p \<Rightarrow> [''udp'', ''dport'', show_port p] | None \<Rightarrow> [''meta'', ''l4proto'', ''udp''])
      | Icmp \<Rightarrow> [''meta'', ''l4proto'', ''{'', ''icmp,'', ''icmpv6'', ''}'']
      | AnyProtocol \<Rightarrow> [])"

definition rule_words :: "firewall_rule \<Rightarrow> str list" where
  "rule_words r = source_words r @ protocol_words (fr_protocol r) (fr_dest_port r) @ [verdict_word (fr_action r)]"

lemma join_Cons: "ws \<noteq> [] \<Longrightarrow> join sep (w # ws) = w @ sep @ join sep ws"
  by (cases ws) auto

definition line_byte :: "char \<Rightarrow> bool" where
  "line_byte b \<longleftrightarrow> b \<noteq> CHR '' '' \<and> b \<noteq> CHR 0x0A \<and> b \<noteq> CHR 0x0D"

lemma cidr_line_bytes: "ensure_safe_cidr c field = Inr x \<Longrightarrow> list_all line_byte c"
proof -
  assume "ensure_safe_cidr c field = Inr x"
  then have "list_all (\<lambda>b. addr_byte b \<or> b = CHR ''/'' \<or> b = CHR ''+'') c" using ensure_safe_cidr_ok by blast
  then show ?thesis
    by (rule list.pred_mono_strong) (auto simp: line_byte_def addr_byte_def is_ascii_hexdigit_def is_ascii_digit_def byte_def)
qed

lemma port_line_bytes: "list_all line_byte (show_port p)"
  unfolding show_port_def using show_nat_all
  by (rule list.pred_mono_strong) (auto simp: line_byte_def is_ascii_digit_def byte_def)

lemma cidr_family_ok:
  assumes "ensure_safe_cidr c field = Inr x"
  obtains f where "cidr_family c = Inr f" "f \<in> {''ip'', ''ip6''}"
proof -
  from assms obtain a p ip where c: "c = a @ ''/'' @ p" "CHR ''/'' \<notin> set a" "parse_ip a = Some ip" using ensure_safe_cidr_ok by blast
  then have "split_once (CHR ''/'') c = Some (a, p)" by (simp add: str_simps)
  with c(3) that show thesis by (cases "is_v4 ip") (auto simp: cidr_family_def)
qed

lemma rule_words_bytes:
  assumes "validate_rule r = Inr ()"
  shows "list_all (list_all line_byte) (rule_words r)"
proof -
  have "list_all (list_all line_byte) (source_words r)"
  proof (cases "fr_source_cidr r")
    case (Some c)
    with assms obtain x where x: "ensure_safe_cidr c ''firewall rule source_cidr'' = Inr x" by (auto simp: validate_rule_def res_simps)
    from x obtain f where "cidr_family c = Inr f" "f \<in> {''ip'', ''ip6''}" by (rule cidr_family_ok)
    with Some cidr_line_bytes [OF x] show ?thesis by (auto simp: source_words_def line_byte_def)
  qed (simp add: source_words_def)
  moreover have "list_all (list_all line_byte) (protocol_words p q)" for p q
    using port_line_bytes by (cases p; cases q) (auto simp: protocol_words_def line_byte_def)
  moreover have "list_all line_byte (verdict_word a)" for a by (cases a) (simp_all add: line_byte_def)
  ultimately show ?thesis by (simp add: rule_words_def)
qed

lemma render_rule_words:
  assumes "validate_rule r = Inr ()"
  shows "render_rule r = Inr (join '' '' (rule_words r))"
proof -
  have p: "join '' '' (protocol_parts p q @ [v]) = join '' '' (protocol_words p q @ [v])" for p q v
    by (cases p; cases q) (simp_all add: protocol_parts_def protocol_words_def)
  show ?thesis
  proof (cases "fr_source_cidr r")
    case None
    then show ?thesis by (simp add: render_rule_def rule_words_def source_words_def p)
  next
    case (Some c)
    with assms obtain x where "ensure_safe_cidr c ''firewall rule source_cidr'' = Inr x" by (auto simp: validate_rule_def res_simps)
    then obtain f where f: "cidr_family c = Inr f" by (rule cidr_family_ok)
    with Some show ?thesis
      by (simp add: render_rule_def rule_words_def source_words_def join_Cons p)
  qed
qed

lemma read_verdict_word [simp]: "read_verdict [verdict_word a] = Some a"
  by (cases a) (simp_all add: read_verdict_def)

lemma port_read: "of_nat (dec_value (show_port p)) = p"
  by (simp add: show_port_def)

lemma read_protocol_words:
  assumes "port \<noteq> None \<longrightarrow> protocol \<in> {Tcp, Udp}"
  shows "read_protocol (protocol_words protocol port @ [verdict_word a]) = ((protocol, port), [verdict_word a])"
  using assms by (cases protocol; cases port; cases a) (simp_all add: protocol_words_def read_protocol_def port_read)

lemma read_no_source: "read_source (protocol_words protocol port @ [verdict_word a]) = (None, protocol_words protocol port @ [verdict_word a])"
  by (cases protocol; cases port; cases a) (simp_all add: protocol_words_def read_source_def)

lemma read_rendered:
  assumes "validate_rule r = Inr ()"
  shows "read_rule (join '' '' (rule_words r)) = Some (r\<lparr>fr_description := None\<rparr>)"
proof -
  have ne: "rule_words r \<noteq> []" by (simp add: rule_words_def)
  have "list_all (\<lambda>w. CHR '' '' \<notin> set w) (rule_words r)"
    using rule_words_bytes [OF assms] by (rule list.pred_mono_strong) (auto simp: list_all_iff line_byte_def)
  then have s: "split_on (CHR '' '') (join '' '' (rule_words r)) = rule_words r"
    using split_join [of "CHR '' ''" "hd (rule_words r)" "tl (rule_words r)"] ne by simp
  have src: "read_source (rule_words r) = (fr_source_cidr r, protocol_words (fr_protocol r) (fr_dest_port r) @ [verdict_word (fr_action r)])"
  proof (cases "fr_source_cidr r")
    case None
    then show ?thesis by (simp add: rule_words_def source_words_def read_no_source)
  next
    case (Some c)
    with assms obtain x where "ensure_safe_cidr c ''firewall rule source_cidr'' = Inr x" by (auto simp: validate_rule_def res_simps)
    then obtain f where "cidr_family c = Inr f" "f \<in> {''ip'', ''ip6''}" by (rule cidr_family_ok)
    with Some show ?thesis by (simp add: rule_words_def source_words_def read_source_def)
  qed
  have port: "fr_dest_port r \<noteq> None \<longrightarrow> fr_protocol r \<in> {Tcp, Udp}"
    using assms by (auto simp: validate_rule_def res_simps split: if_splits)
  show ?thesis unfolding read_rule_def s src by (simp add: read_protocol_words [OF port])
qed

lemma unlines_simps: "unlines [] = []" "unlines (l # ls) = l @ newline @ unlines ls"
  "unlines (ls @ ls') = unlines ls @ unlines ls'"
  by (simp_all add: unlines_def newline_def)

definition rule_line :: "firewall_rule \<Rightarrow> str" where
  "rule_line r = rule_prefix @ join '' '' (rule_words r)"

lemma render_rules_lines:
  assumes "for_each validate_rule rules = Inr ()"
  shows "render_rules rules = Inr (unlines (map rule_line rules))"
  using assms
  by (induction rules) (auto simp: unlines_simps render_rule_words add_rule_def rule_line_def rule_prefix_def res_simps)

lemma join_bytes: "list_all (list_all P) ws \<Longrightarrow> list_all P sep \<Longrightarrow> list_all P (join sep ws)"
  by (induction sep ws rule: join.induct) auto

lemma rule_line_one_line:
  assumes "validate_rule r = Inr ()"
  shows "CHR 0x0A \<notin> set (rule_line r) \<and> CHR 0x0D \<notin> set (rule_line r)"
proof -
  let ?P = "\<lambda>b. b \<noteq> CHR 0x0A \<and> b \<noteq> CHR 0x0D"
  have "list_all (list_all ?P) (rule_words r)"
    using rule_words_bytes [OF assms] by (rule list.pred_mono_strong) (auto simp: list_all_iff line_byte_def)
  then have "list_all ?P (join '' '' (rule_words r))" by (rule join_bytes) simp
  moreover have "list_all ?P rule_prefix" by (simp add: rule_prefix_def TABLE_def)
  ultimately show ?thesis by (auto simp: rule_line_def list_all_iff)
qed

definition preamble_lines :: "str list" where
  "preamble_lines = [''add table inet '' @ TABLE,
     ''add chain inet '' @ TABLE @ '' input { type filter hook input priority 0; policy accept; }'',
     ''flush chain inet '' @ TABLE @ '' input'']"

definition baseline_lines :: "str list" where
  "baseline_lines = [rule_prefix @ ''iif lo accept'', rule_prefix @ ''ct state established,related accept'']"

definition batch_lines :: "host_firewall \<Rightarrow> str list" where
  "batch_lines cfg = preamble_lines @
     (if hf_enabled cfg
      then baseline_lines @ map rule_line (hf_rules cfg) @
        (if hf_default_input_policy cfg = PolicyDrop then [rule_prefix @ ''drop''] else []) else [])"

lemma batch_is_lines:
  assumes "validate_firewall cfg = Inr ()"
  shows "nft_host_batch cfg = Inr (unlines (batch_lines cfg))"
  using render_rules_lines assms
  by (simp add: nft_host_batch_def batch_lines_def preamble_lines_def baseline_lines_def unlines_simps add_rule_def rule_prefix_def
      validate_firewall_def Let_def)

lemma drop_line: "rule_prefix @ ''drop'' =
    rule_line \<lparr>fr_action = FwDrop, fr_protocol = AnyProtocol, fr_source_cidr = None, fr_dest_port = None, fr_description = None\<rparr>"
  by (simp add: rule_line_def rule_words_def source_words_def protocol_words_def)

lemma read_rule_line:
  assumes "validate_rule r = Inr ()"
  shows "Option.bind (strip_prefix (rule_line r) rule_prefix) read_rule = Some (r\<lparr>fr_description := None\<rparr>)"
  using read_rendered [OF assms] by (simp add: rule_line_def strip_prefix_def starts_with_def)

text \<open>
  C25. The batch says exactly what was configured: a configuration that passes validation is rendered, and a reader of
  the batch, line by line and word by word, finds the accepting rules for loopback and established
  connections first and then the operator's rules in their order with action, protocol, source and port, the
  default policy as a last rule without a match; a disabled firewall has no rule at all. No field of a rule can put a
  line or a word of its own into the batch.
\<close>

theorem firewall_batch_roundtrip:
  assumes "validate_firewall cfg = Inr ()"
  shows "\<exists>batch. nft_host_batch cfg = Inr batch \<and> read_batch batch = Some (configured_rules cfg)"
proof -
  define tail where "tail = (if hf_default_input_policy cfg = PolicyDrop
      then [\<lparr>fr_action = FwDrop, fr_protocol = AnyProtocol, fr_source_cidr = None, fr_dest_port = None, fr_description = None\<rparr>] else [])"
  have rules: "list_all (\<lambda>r. validate_rule r = Inr ()) (hf_rules cfg @ tail)"
  proof -
    have "list_all (\<lambda>r. validate_rule r = Inr ()) tail" by (simp add: tail_def validate_rule_def)
    then show ?thesis using assms by (auto simp: validate_firewall_def for_each_eq_Inr list_all_iff)
  qed
  have b: "batch_lines cfg = preamble_lines @ (if hf_enabled cfg then baseline_lines @ map rule_line (hf_rules cfg @ tail) else [])"
    by (simp add: batch_lines_def tail_def drop_line)
  let ?one = "\<lambda>l. CHR 0x0A \<notin> set l \<and> CHR 0x0D \<notin> set l"
  have "list_all ?one preamble_lines" "list_all ?one baseline_lines"
    by (simp_all add: preamble_lines_def baseline_lines_def rule_prefix_def TABLE_def)
  moreover have "list_all ?one (map rule_line (hf_rules cfg @ tail))"
    using rules rule_line_one_line by (auto simp: list_all_iff)
  ultimately have "lines (unlines (batch_lines cfg)) = batch_lines cfg" by (intro lines_unlines) (simp add: b)
  moreover have "map (\<lambda>l. Option.bind (strip_prefix l rule_prefix) read_rule) (map rule_line (hf_rules cfg @ tail)) =
      map (\<lambda>r. Some (r\<lparr>fr_description := None\<rparr>)) (hf_rules cfg @ tail)"
    unfolding map_map using rules by (intro map_cong) (simp_all add: list_all_iff read_rule_line)
  moreover have "configured_rules cfg = (if hf_enabled cfg then Some (map (\<lambda>r. r\<lparr>fr_description := None\<rparr>) (hf_rules cfg @ tail)) else None)"
    by (simp add: configured_rules_def tail_def)
  ultimately have "read_batch (unlines (batch_lines cfg)) = Some (configured_rules cfg)"
    unfolding read_batch_def by (auto simp: b preamble_lines_def baseline_lines_def comp_def Let_def)
  with batch_is_lines [OF assms] show ?thesis by blast
qed

section \<open>Applied, then saved\<close>

lemma apply_firewall_ok:
  assumes "apply_firewall cfg s = (x, s')"
  shows "fw_store s' = fw_store s \<and> fw_canonical s' = fw_canonical s \<and>
    (x = Inr () \<longrightarrow> (\<exists>base batch. fw_canonical s = Inr base \<and> nft_host_batch cfg = Inr batch \<and>
       map_of (host_files (fw_host s')) (base @ ''/firewall/host.nft'') = Some batch \<and>
       asked_since (fw_host s) (fw_host s') = [exec_op ''nft'' [''-f'', base @ ''/firewall/host.nft'']]))"
proof (cases "\<exists>batch base. nft_host_batch cfg = Inr batch \<and> fw_canonical s = Inr base")
  case False
  with assms show ?thesis
    by (cases "nft_host_batch cfg"; cases "fw_canonical s") (auto simp: apply_firewall_def resolve_batch_path_def)
next
  case True
  then obtain batch base where b: "nft_host_batch cfg = Inr batch" "fw_canonical s = Inr base" by blast
  let ?p = "base @ ''/firewall/host.nft''"
  obtain e1 h1 where 1: "next_file_error (fw_host s) = (e1, h1)" by fastforce
  obtain e2 h2 where 2: "write_file ?p batch h1 = (e2, h2)" by fastforce
  obtain r h3 where 3: "run_ok ''nft'' [''-f'', ?p] h2 = (r, h3)" by fastforce
  have w: "e2 = Inr () \<Longrightarrow> map_of (host_files h2) ?p = Some batch"
    using 2 by (auto simp: write_file_def update_conv' split: prod.splits option.splits)
  have nft: "host_program_path ''nft'' \<noteq> None" by code_simp
  have i: "issued h3 = issued (fw_host s) @ [exec_op ''nft'' [''-f'', ?p]]"
    using next_file_error_issued [OF 1] write_file_issued [OF 2] run_ok_issued [OF 3] nft by simp
  show ?thesis
    using assms b 1 2 3 w i run_ok_files [OF 3]
    by (cases e1; cases e2) (auto simp: apply_firewall_def resolve_batch_path_def asked_since_def)
qed

lemma nft_accepted:
  "accepted (exec_op ''nft'' [''-f'', ''/var/lib/daygleve/firewall/host.nft''])"
proof -
  have "validate_exec ''nft'' [''-f'', ''/var/lib/daygleve/firewall/host.nft''] = Inr ()" by code_simp
  then show ?thesis by (simp add: accepted_exec)
qed

text \<open>
  A ruleset is saved only after the host took it: when an update succeeds, the batch file holds the rendering of the
  new configuration, \<open>nft\<close> was run on it (a command the broker accepts for the standard state directory) and
  succeeded, and the configuration is the saved one; when it fails, at whatever point, the saved configuration is the one
  before. After a success, a restart that finds no fault renders and applies the same batch again.
\<close>

theorem firewall_saved_after_applied:
  assumes "store_wf (fw_store s)" and "update_firewall cfg s = (x, s')"
  shows "(case x of
      Inl e \<Rightarrow> records (fw_store s') = records (fw_store s)
    | Inr c \<Rightarrow> c = cfg \<and> records (fw_store s') RECORD_ID = Some cfg \<and>
        (\<exists>base batch. fw_canonical s = Inr base \<and> nft_host_batch cfg = Inr batch \<and>
           map_of (host_files (fw_host s')) (base @ ''/firewall/host.nft'') = Some batch \<and>
           asked_since (fw_host s) (fw_host s') = [exec_op ''nft'' [''-f'', base @ ''/firewall/host.nft'']] \<and>
           (base = ''/var/lib/daygleve'' \<longrightarrow> list_all accepted (asked_since (fw_host s) (fw_host s'))) \<and>
           (\<forall>s1 cfg1. fw_get dflt s' = (Inr cfg1, s1) \<longrightarrow>
              cfg1 = cfg \<and> apply_persisted dflt s' = snd (apply_firewall cfg s1))))"
proof (cases "validate_firewall cfg")
  case (Inl e)
  with assms show ?thesis by (auto simp: update_firewall_def)
next
  case (Inr u)
  obtain y s1 where a: "apply_firewall cfg s = (y, s1)" by fastforce
  note ok = apply_firewall_ok [OF a]
  obtain z st where p: "Store.put RECORD_ID cfg (fw_store s1) = (z, st)" by fastforce
  show ?thesis
  proof (cases y)
    case (Inl e)
    with assms Inr a ok show ?thesis by (auto simp: update_firewall_def)
  next
    case applied: (Inr v)
    then obtain base batch where b: "fw_canonical s = Inr base" "nft_host_batch cfg = Inr batch"
       "map_of (host_files (fw_host s1)) (base @ ''/firewall/host.nft'') = Some batch"
       "asked_since (fw_host s) (fw_host s1) = [exec_op ''nft'' [''-f'', base @ ''/firewall/host.nft'']]" using ok by auto
    have wf: "store_wf (fw_store s1)" using assms(1) ok by simp
    show ?thesis
    proof (cases z)
      case (Inl e)
      with js.put_failed [OF wf] p assms(2) Inr a applied ok show ?thesis by (auto simp: update_firewall_def)
    next
      case saved: (Inr w)
      with js.put_ok [OF wf] p have st: "store_wf st" "records st RECORD_ID = Some cfg" by auto
      have x: "x = Inr cfg" "s' = s1\<lparr>fw_store := st\<rparr>" using assms(2) Inr a applied p saved by (auto simp: update_firewall_def)
      have "cfg1 = cfg \<and> apply_persisted dflt s' = snd (apply_firewall cfg s2)" if g: "fw_get dflt s' = (Inr cfg1, s2)" for s2 cfg1
      proof -
        from g x obtain q st2 where q: "Store.get RECORD_ID st = (Inr q, st2)" "cfg1 = (case q of None \<Rightarrow> dflt | Some c \<Rightarrow> c)"
          by (auto simp: fw_get_def split: prod.splits sum.splits)
        from js.get_ok [OF st(1) q(1)] st(2) q(2) have "cfg1 = cfg" by simp
        with g show ?thesis by (simp add: apply_persisted_def)
      qed
      with x st b nft_accepted show ?thesis by auto
    qed
  qed
qed

section \<open>Witnesses\<close>

definition sample_firewall :: host_firewall where
  "sample_firewall = \<lparr>hf_enabled = True, hf_default_input_policy = PolicyDrop,
     hf_rules = [\<lparr>fr_action = FwAccept, fr_protocol = Tcp, fr_source_cidr = Some ''10.0.0.0/24'', fr_dest_port = Some 22,
                  fr_description = Some ''ssh''\<rparr>,
                 \<lparr>fr_action = FwReject, fr_protocol = Icmp, fr_source_cidr = None, fr_dest_port = None, fr_description = None\<rparr>]\<rparr>"

definition sample_firewall_service :: firewall_service where
  "sample_firewall_service =
     \<lparr>fw_store = \<lparr>dir_display = ''d'', dir_exists = True, files = [], faults = []\<rparr>, fw_canonical = Inr ''/var/lib/daygleve'',
      fw_host = \<lparr>broker_socket = True, broker_answers = [Inr []], direct_answers = [], broker_streams = [], direct_streams = [],
                 host_files = [], file_errors = [], issued = []\<rparr>\<rparr>"

theorem firewall_batch_roundtrip_witness:
  "\<exists>batch. nft_host_batch sample_firewall = Inr batch \<and> read_batch batch = Some (configured_rules sample_firewall) \<and>
     map_option length (configured_rules sample_firewall) = Some 3"
proof -
  have "validate_firewall sample_firewall = Inr ()" by code_simp
  moreover have "map_option length (configured_rules sample_firewall) = Some 3" by code_simp
  ultimately show ?thesis using firewall_batch_roundtrip [of sample_firewall] by auto
qed

theorem firewall_saved_after_applied_witness:
  "\<exists>s'. update_firewall sample_firewall sample_firewall_service = (Inr sample_firewall, s') \<and>
     records (fw_store s') RECORD_ID = Some sample_firewall \<and>
     list_all accepted (asked_since (fw_host sample_firewall_service) (fw_host s'))"
proof -
  define u where "u = update_firewall sample_firewall sample_firewall_service"
  have "is_ok (fst u)" unfolding u_def by code_simp
  then obtain c s' where u: "update_firewall sample_firewall sample_firewall_service = (Inr c, s')"
    unfolding u_def [symmetric] by (cases u; cases "fst u") (auto simp: is_ok_def)
  have "store_wf (fw_store sample_firewall_service)" by (simp add: store_wf_def sample_firewall_service_def)
  from firewall_saved_after_applied [OF this u, of sample_firewall] u show ?thesis
    by (auto simp: sample_firewall_service_def)
qed

end
