(* ===== verification/Network.thy ===== *)
theory Network
  imports Arguments Net_Text Store
begin

section \<open>Bridges and VLANs (src/src/services/network.rs)\<close>

text \<open>
  The sidecar records of bridges and VLANs and what \<open>ip\<close> and \<open>bridge\<close> say about the host. \<open>serde_json\<close> is an
  argument (\<open>net_json\<close>: the parse of an array, a field by name, the typed views of a value); a missing field is
  the null value, of which every typed view is \<open>None\<close>. The order of the records of a
  \<open>HashMap\<close>, which \<open>list_bridges\<close> returns when there is no \<open>ip\<close>, is that of the listing.
\<close>

subsection \<open>Data\<close>

datatype oper_state = LinkUp | LinkDown | LinkUnknown

record bridge =
  br_id :: str
  br_name :: str
  br_state :: oper_state
  br_ports :: "str list"
  br_vlan_aware :: bool
  br_address :: "str option"
  br_mtu :: "32 word"
  br_created_at :: str

record vlan =
  vl_id :: str
  vl_bridge :: str
  vl_tag :: "16 word"
  vl_name :: str

record network_service =
  nt_bridges :: "bridge jstore"
  nt_vlans :: "vlan jstore"
  nt_host :: host

record 'j net_json =
  nj_array :: "str \<Rightarrow> str + 'j list"
  nj_field :: "'j \<Rightarrow> str \<Rightarrow> 'j"
  nj_pointer :: "'j \<Rightarrow> str \<Rightarrow> 'j option"
  nj_str :: "'j \<Rightarrow> str option"
  nj_u64 :: "'j \<Rightarrow> nat option"
  nj_i64 :: "'j \<Rightarrow> int option"
  nj_list :: "'j \<Rightarrow> 'j list option"

definition on_bridges :: "(bridge jstore \<Rightarrow> 'a \<times> bridge jstore) \<Rightarrow> network_service \<Rightarrow> 'a \<times> network_service" where
  "on_bridges f s = (let (x, st) = f (nt_bridges s) in (x, s\<lparr>nt_bridges := st\<rparr>))"

definition on_vlans :: "(vlan jstore \<Rightarrow> 'a \<times> vlan jstore) \<Rightarrow> network_service \<Rightarrow> 'a \<times> network_service" where
  "on_vlans f s = (let (x, st) = f (nt_vlans s) in (x, s\<lparr>nt_vlans := st\<rparr>))"

definition on_nhost :: "(host \<Rightarrow> 'a \<times> host) \<Rightarrow> network_service \<Rightarrow> 'a \<times> network_service" where
  "on_nhost f s = (let (x, h) = f (nt_host s) in (x, s\<lparr>nt_host := h\<rparr>))"

subsection \<open>Listing\<close>

definition link_state :: "str \<Rightarrow> oper_state" where
  "link_state operstate =
     (let u = map to_upper_byte operstate in
      if u = ''UP'' then LinkUp else if u = ''DOWN'' then LinkDown else LinkUnknown)"

definition bridge_ports :: "'j net_json \<Rightarrow> str \<Rightarrow> host \<Rightarrow> str list api_result \<times> host" where
  "bridge_ports j bridge h =
     bind_st (run_optional ''ip'' [''-j'', ''link'', ''show'', ''master'', bridge] h) (\<lambda>out h.
       case out of
         None \<Rightarrow> (Inr [], h)
       | Some json \<Rightarrow>
           (case nj_array j (trim json) of
              Inl e \<Rightarrow> (Inl (internal (''parse `ip -j link show master`: '' @ e)), h)
            | Inr links \<Rightarrow> (Inr (List.map_filter (\<lambda>l. nj_str j (nj_field j l ''ifname'')) links), h)))"

definition inet_address :: "'j net_json \<Rightarrow> 'j \<Rightarrow> str option" where
  "inet_address j a =
     (if nj_str j (nj_field j a ''family'') = Some ''inet''
      then (case (nj_str j (nj_field j a ''local''), nj_u64 j (nj_field j a ''prefixlen'')) of
              (Some local_addr, Some prfx) \<Rightarrow> Some (local_addr @ ''/'' @ show_nat prfx)
            | _ \<Rightarrow> None)
      else None)"

definition first_some :: "('a \<Rightarrow> 'b option) \<Rightarrow> 'a list \<Rightarrow> 'b option" where
  "first_some f xs = (case List.map_filter f xs of [] \<Rightarrow> None | y # _ \<Rightarrow> Some y)"

definition bridge_address :: "'j net_json \<Rightarrow> str \<Rightarrow> host \<Rightarrow> str option api_result \<times> host" where
  "bridge_address j bridge h =
     bind_st (run_optional ''ip'' [''-j'', ''addr'', ''show'', ''dev'', bridge] h) (\<lambda>out h.
       case out of
         None \<Rightarrow> (Inr None, h)
       | Some json \<Rightarrow>
           (case nj_array j (trim json) of
              Inl e \<Rightarrow> (Inl (internal (''parse `ip -j addr show`: '' @ e)), h)
            | Inr entries \<Rightarrow>
                (Inr (first_some (\<lambda>entry. case nj_list j (nj_field j entry ''addr_info'') of
                        None \<Rightarrow> None | Some addrs \<Rightarrow> first_some (inet_address j) addrs) entries), h)))"

definition vlan_aware_of :: "'j net_json \<Rightarrow> 'j \<Rightarrow> bridge option \<Rightarrow> bool" where
  "vlan_aware_of j link recorded =
     (case Option.bind (nj_pointer j link ''/linkinfo/info_data/vlan_filtering'') (nj_i64 j) of
        Some v \<Rightarrow> v \<noteq> 0
      | None \<Rightarrow> (case recorded of Some b \<Rightarrow> br_vlan_aware b | None \<Rightarrow> False))"

fun live_bridges ::
  "'j net_json \<Rightarrow> (str \<times> bridge) list \<Rightarrow> 'j list \<Rightarrow> host \<Rightarrow> bridge list api_result \<times> host" where
  "live_bridges j recs [] h = (Inr [], h)"
| "live_bridges j recs (link # links) h =
     (let name = unwrap_or (nj_str j (nj_field j link ''ifname'')) [] in
      if name = [] then live_bridges j recs links h
      else
        (let recorded = map_of recs name in
         bind_st (bridge_ports j name h) (\<lambda>ports h.
         bind_st (bridge_address j name h) (\<lambda>address h.
         bind_st (live_bridges j recs links h) (\<lambda>bs h.
           (Inr (\<lparr>br_id = name, br_name = name,
                  br_state = link_state (unwrap_or (nj_str j (nj_field j link ''operstate'')) ''UNKNOWN''),
                  br_ports = ports, br_vlan_aware = vlan_aware_of j link recorded, br_address = address,
                  br_mtu = of_nat (unwrap_or (nj_u64 j (nj_field j link ''mtu'')) 1500),
                  br_created_at = (case recorded of Some b \<Rightarrow> br_created_at b | None \<Rightarrow> [])\<rparr> # bs), h))))))"

definition show_bridges_args :: "str list" where
  "show_bridges_args = [''-d'', ''-j'', ''link'', ''show'', ''type'', ''bridge'']"

definition list_bridges :: "'j net_json \<Rightarrow> network_service \<Rightarrow> bridge list api_result \<times> network_service" where
  "list_bridges j s =
     bind_st (on_bridges Store.list s) (\<lambda>recorded s.
     bind_st (on_nhost (run_optional ''ip'' show_bridges_args) s) (\<lambda>out s.
       let recs = load_cache br_name [] recorded in
       case out of
         None \<Rightarrow> (Inr (map snd recs), s)
       | Some json \<Rightarrow>
           (case nj_array j (trim json) of
              Inl e \<Rightarrow> (Inl (internal (''parse `ip -j`: '' @ e)), s)
            | Inr links \<Rightarrow> on_nhost (live_bridges j recs links) s)))"

subsection \<open>Creating bridges\<close>

record create_bridge_request =
  cb_name :: str
  cb_ports :: "str list"
  cb_vlan_aware :: bool
  cb_address :: "str option"
  cb_mtu :: "32 word option"

definition ip_set :: "str \<Rightarrow> str list \<Rightarrow> str list" where
  "ip_set dev args = [''link'', ''set'', ''dev'', dev] @ args"

fun enslave :: "str \<Rightarrow> str list \<Rightarrow> host \<Rightarrow> unit api_result \<times> host" where
  "enslave bridge [] h = (Inr (), h)"
| "enslave bridge (port # ports) h =
     bind_st (run_ok ''ip'' (ip_set port [''master'', bridge]) h) (\<lambda>_ h.
     bind_st (run_ok ''ip'' (ip_set port [''up'']) h) (\<lambda>_ h.
       enslave bridge ports h))"

definition configure_bridge :: "create_bridge_request \<Rightarrow> host \<Rightarrow> unit api_result \<times> host" where
  "configure_bridge req h =
     bind_st (enslave (cb_name req) (cb_ports req) h) (\<lambda>_ h.
     bind_st (case cb_mtu req of
                None \<Rightarrow> (Inr (), h)
              | Some mtu \<Rightarrow> run_ok ''ip'' (ip_set (cb_name req) [''mtu'', show_nat (unat mtu)]) h) (\<lambda>_ h.
     bind_st (case cb_address req of
                None \<Rightarrow> (Inr (), h)
              | Some addr \<Rightarrow> run_ok ''ip'' [''addr'', ''add'', addr, ''dev'', cb_name req] h) (\<lambda>_ h.
       run_ok ''ip'' (ip_set (cb_name req) [''up'']) h)))"

definition add_bridge_args :: "str \<Rightarrow> bool \<Rightarrow> str list" where
  "add_bridge_args name vlan_aware =
     [''link'', ''add'', ''name'', name, ''type'', ''bridge''] @ (if vlan_aware then [''vlan_filtering'', ''1''] else [])"

definition del_bridge_args :: "str \<Rightarrow> str list" where
  "del_bridge_args name = [''link'', ''del'', ''dev'', name]"

text \<open>The clean-up of a failure: its own result is ignored.\<close>

definition roll_back :: "str \<Rightarrow> str list \<Rightarrow> app_error \<Rightarrow> network_service \<Rightarrow> 'a api_result \<times> network_service" where
  "roll_back program args e s = (Inl e, snd (on_nhost (run_optional program args) s))"

definition validate_bridge_request :: "create_bridge_request \<Rightarrow> unit api_result" where
  "validate_bridge_request req =
     (if trim (cb_name req) = [] then Inl (validation ''bridge name must not be empty'')
      else
        bind_res (ensure_safe_id (cb_name req)) (\<lambda>_.
        bind_res (for_each (\<lambda>port. bind_res (ensure_safe_id port) (\<lambda>_. Inr ())) (cb_ports req)) (\<lambda>_.
        bind_res (case cb_address req of
                    None \<Rightarrow> Inr ()
                  | Some a \<Rightarrow> bind_res (ensure_safe_cidr a ''bridge.address'') (\<lambda>_. Inr ())) (\<lambda>_.
          case cb_mtu req of
            None \<Rightarrow> Inr ()
          | Some mtu \<Rightarrow>
              if 576 \<le> mtu \<and> mtu \<le> 65535 then Inr () else Inl (validation ''bridge MTU must be in 576..=65535'')))))"

definition created_bridge :: "str \<Rightarrow> create_bridge_request \<Rightarrow> bridge" where
  "created_bridge now req =
     \<lparr>br_id = cb_name req, br_name = cb_name req, br_state = LinkUp, br_ports = cb_ports req,
      br_vlan_aware = cb_vlan_aware req, br_address = cb_address req, br_mtu = unwrap_or (cb_mtu req) 1500,
      br_created_at = now\<rparr>"

definition create_bridge :: "str \<Rightarrow> create_bridge_request \<Rightarrow> network_service \<Rightarrow> bridge api_result \<times> network_service" where
  "create_bridge now req s =
     bind_st (validate_bridge_request req, s) (\<lambda>_ s.
     bind_st (on_nhost (run_ok ''ip'' (add_bridge_args (cb_name req) (cb_vlan_aware req))) s) (\<lambda>_ s.
       case on_nhost (configure_bridge req) s of
         (Inl e, s) \<Rightarrow> roll_back ''ip'' (del_bridge_args (cb_name req)) e s
       | (Inr _, s) \<Rightarrow>
           (let bridge = created_bridge now req in
            case on_bridges (Store.put (br_name bridge) bridge) s of
              (Inl e, s) \<Rightarrow> roll_back ''ip'' (del_bridge_args (br_name bridge)) e s
            | (Inr _, s) \<Rightarrow> (Inr bridge, s))))"

definition repair_missing_from_host :: "str \<Rightarrow> network_service \<Rightarrow> unit api_result \<times> network_service" where
  "repair_missing_from_host name s =
     bind_st (on_bridges (Store.get name) s) (\<lambda>x s.
     bind_st (ok_or x (not_found ''bridge record not found''), s) (\<lambda>bridge s.
     bind_st (ensure_safe_id (br_name bridge), s) (\<lambda>_ s.
     bind_st (on_nhost (run_ok ''ip'' [''link'', ''add'', ''name'', br_name bridge, ''type'', ''bridge'']) s) (\<lambda>_ s.
       case on_nhost (configure_bridge
              \<lparr>cb_name = br_name bridge, cb_ports = br_ports bridge, cb_vlan_aware = br_vlan_aware bridge,
               cb_address = br_address bridge, cb_mtu = Some (br_mtu bridge)\<rparr>) s of
         (Inl e, s) \<Rightarrow> roll_back ''ip'' (del_bridge_args (br_name bridge)) e s
       | (Inr _, s) \<Rightarrow> (Inr (), s)))))"

definition adopt_bridge :: "'j net_json \<Rightarrow> str \<Rightarrow> network_service \<Rightarrow> bridge api_result \<times> network_service" where
  "adopt_bridge j name s =
     bind_st (ensure_safe_id name, s) (\<lambda>_ s.
     bind_st (list_bridges j s) (\<lambda>bs s.
       case find (\<lambda>b. br_name b = name) bs of
         None \<Rightarrow> (Inl (not_found ''bridge no longer exists on the host''), s)
       | Some b \<Rightarrow> bind_st (on_bridges (Store.put (br_id b) b) s) (\<lambda>_ s. (Inr b, s))))"

subsection \<open>VLANs\<close>

record create_vlan_request =
  cv_bridge :: str
  cv_tag :: "16 word"
  cv_name :: str

definition list_vlans :: "network_service \<Rightarrow> vlan list api_result \<times> network_service" where
  "list_vlans s = on_vlans Store.list s"

definition vlan_args :: "str \<Rightarrow> 16 word \<Rightarrow> str \<Rightarrow> str list" where
  "vlan_args verb tag bridge = [''vlan'', verb, ''vid'', show_nat (unat tag), ''dev'', bridge, ''self'']"

definition create_vlan :: "str \<Rightarrow> create_vlan_request \<Rightarrow> network_service \<Rightarrow> vlan api_result \<times> network_service" where
  "create_vlan new_id req s =
     (if \<not> (1 \<le> cv_tag req \<and> cv_tag req \<le> 4094) then (Inl (validation ''vlan tag must be in 1..=4094''), s)
      else
        bind_st (ensure_safe_id (cv_bridge req), s) (\<lambda>_ s.
        bind_st (on_nhost (run_ok ''bridge'' (vlan_args ''add'' (cv_tag req) (cv_bridge req))) s) (\<lambda>_ s.
          let vlan = \<lparr>vl_id = new_id, vl_bridge = cv_bridge req, vl_tag = cv_tag req, vl_name = cv_name req\<rparr> in
          case on_vlans (Store.put (vl_id vlan) vlan) s of
            (Inl e, s) \<Rightarrow> roll_back ''bridge'' (vlan_args ''del'' (cv_tag req) (vl_bridge vlan)) e s
          | (Inr _, s) \<Rightarrow> (Inr vlan, s))))"

definition repair_vlan_from_host :: "str \<Rightarrow> network_service \<Rightarrow> unit api_result \<times> network_service" where
  "repair_vlan_from_host i s =
     bind_st (on_vlans (Store.get i) s) (\<lambda>x s.
     bind_st (ok_or x (not_found ''VLAN record not found''), s) (\<lambda>vlan s.
     bind_st (ensure_safe_id (vl_bridge vlan), s) (\<lambda>_ s.
       on_nhost (run_ok ''bridge'' (vlan_args ''add'' (vl_tag vlan) (vl_bridge vlan))) s)))"

definition vlan_exists_on_host :: "vlan \<Rightarrow> host \<Rightarrow> bool option api_result \<times> host" where
  "vlan_exists_on_host vlan h =
     (case run_optional ''bridge'' [''vlan'', ''show'', ''dev'', vl_bridge vlan] h of
        (Inl e, h) \<Rightarrow> (Inl e, h)
      | (Inr None, h) \<Rightarrow> (Inr None, h)
      | (Inr (Some out), h) \<Rightarrow>
          (Inr (Some (list_ex (\<lambda>line. contains_str line (''vid '' @ show_nat (unat (vl_tag vlan)))) (lines out))), h))"

subsection \<open>Drift\<close>

fun missing_vlans :: "vlan list \<Rightarrow> host \<Rightarrow> str list \<times> host" where
  "missing_vlans [] h = ([], h)"
| "missing_vlans (v # vs) h =
     (let (found, h) = vlan_exists_on_host v h;
          (rest, h) = missing_vlans vs h
      in (if found = Inr (Some False) then (''vlan:'' @ vl_id v) # rest else rest, h))"

definition reconcile_with_host :: "'j net_json \<Rightarrow> network_service \<Rightarrow> (str list \<times> str list) api_result \<times> network_service" where
  "reconcile_with_host j s =
     bind_st (on_bridges Store.list s) (\<lambda>stored s.
     bind_st (list_bridges j s) (\<lambda>live s.
     bind_st (on_vlans Store.list s) (\<lambda>vlans s.
       let (vs, h) = missing_vlans vlans (nt_host s) in
       (Inr (map br_name (filter (\<lambda>b. br_name b \<notin> br_name ` set live) stored) @ vs,
             map br_name (filter (\<lambda>b. br_name b \<notin> br_name ` set stored) live)),
        s\<lparr>nt_host := h\<rparr>))))"

section \<open>The commands of a bridge\<close>

text \<open>The commands that configure a bridge, in order, as a list.\<close>

definition bridge_ops :: "create_bridge_request \<Rightarrow> op list" where
  "bridge_ops req =
     concat (map (\<lambda>port. [exec_op ''ip'' (ip_set port [''master'', cb_name req]), exec_op ''ip'' (ip_set port [''up''])]) (cb_ports req)) @
     (case cb_mtu req of None \<Rightarrow> [] | Some mtu \<Rightarrow> [exec_op ''ip'' (ip_set (cb_name req) [''mtu'', show_nat (unat mtu)])]) @
     (case cb_address req of None \<Rightarrow> [] | Some addr \<Rightarrow> [exec_op ''ip'' [''addr'', ''add'', addr, ''dev'', cb_name req]]) @
     [exec_op ''ip'' (ip_set (cb_name req) [''up''])]"

lemma ip_program: "host_program_path ''ip'' \<noteq> None" "host_program_path ''bridge'' \<noteq> None"
  by code_simp+

lemmas ip_script = run_script [OF ip_program(1)]
  and bridge_script = run_script [OF ip_program(2)]

lemma enslave_script:
  "hl.script (concat (map (\<lambda>port. [exec_op ''ip'' (ip_set port [''master'', name]), exec_op ''ip'' (ip_set port [''up''])]) ports)) h
     (enslave name ports h)"
proof (induction ports arbitrary: h)
  case (Cons port ports)
  have "hl.script ([exec_op ''ip'' (ip_set port [''master'', name])] @ [exec_op ''ip'' (ip_set port [''up''])] @
      concat (map (\<lambda>port. [exec_op ''ip'' (ip_set port [''master'', name]), exec_op ''ip'' (ip_set port [''up''])]) ports)) h
      (enslave name (port # ports) h)"
    unfolding enslave.simps by (intro hl.script_bind ip_script Cons.IH)
  then show ?case by simp
qed simp

lemma configure_bridge_script: "hl.script (bridge_ops req) h (configure_bridge req h)"
  unfolding bridge_ops_def configure_bridge_def
  by (intro hl.script_bind ip_script enslave_script) (auto intro: ip_script split: option.splits)

text \<open>A word the broker lets through in a network command.\<close>

definition net_word :: "str \<Rightarrow> bool" where
  "net_word a \<longleftrightarrow> plain a \<and> short a \<and> \<not> starts_with a ''/''"

lemma net_accepted:
  assumes "program \<in> {''ip'', ''bridge''}" "list_all net_word args" "length args \<le> 256" "shape_allowed program args"
  shows "accepted (exec_op program args)"
proof -
  have "list_all (\<lambda>arg. \<not> (starts_with arg ''/'' \<or> contains_char arg (CHR 0x00) \<or> has_control arg)) args"
    using assms(2) plain_no_control by (auto simp: list_all_iff net_word_def)
  moreover have "\<not> starts_with program ''lxc-''" using assms(1) by (auto simp: starts_with_def)
  ultimately have "validate_exec_args program args = Inr ()"
    using assms(1) unfolding validate_exec_args_def by (auto simp: res_simps list_all_iff)
  moreover have "program_path program \<noteq> None"
  proof -
    have "program_path ''ip'' \<noteq> None" "program_path ''bridge'' \<noteq> None" by code_simp+
    then show ?thesis using assms(1) by auto
  qed
  moreover have "list_all (\<lambda>a. plain a \<and> length a \<le> 4096) args" using assms(2) by (auto simp: list_all_iff net_word_def short_def)
  ultimately show ?thesis using assms validate_exec_intro [of program args] by (simp add: accepted_exec)
qed

lemma net_literal [simp]:
  "net_word ''link''" "net_word ''set''" "net_word ''dev''" "net_word ''master''" "net_word ''up''" "net_word ''mtu''" "net_word ''addr''" "net_word ''add''" "net_word ''name''" "net_word ''type''" "net_word ''bridge''" "net_word ''vlan_filtering''" "net_word ''1''" "net_word ''del''" "net_word ''vlan''" "net_word ''vid''" "net_word ''self''" "net_word ''show''" "net_word ''-d''" "net_word ''-j''"
  by code_simp+

lemma safe_id_net_word: "safe_id i \<Longrightarrow> short i \<Longrightarrow> net_word i"
  using bytes_plain [of "''.-_''" i] safe_id_no_slash [of i]
  by (cases i) (auto simp: net_word_def safe_id_def id_byte_def [abs_def] starts_with_def)

lemma digits_plain: "list_all is_ascii_digit a \<Longrightarrow> plain a \<and> \<not> starts_with a ''/''"
  by (cases a) (auto simp: plain_def list_all_iff is_ascii_digit_def starts_with_def, simp add: byte_def)

lemma show_nat_net_word: "n < 10 ^ 12 \<Longrightarrow> net_word (show_nat n)"
  using digits_plain [OF show_nat_all] length_show_nat [of n 12] by (simp add: net_word_def short_def)

lemma cidr_net_word:
  assumes "ensure_safe_cidr cidr field = Inr x" and "short cidr"
  shows "net_word cidr"
proof -
  have "list_all (\<lambda>b. is_ascii_alphanumeric b \<or> b \<in> set '':./+'') cidr"
    using ensure_safe_cidr_ok [OF assms(1)] by (auto simp: list_all_iff addr_byte_def is_ascii_hexdigit_def is_ascii_alphanumeric_def is_ascii_lower_def is_ascii_upper_def)
  from bytes_plain [OF this] have "plain cidr" by auto
  then show ?thesis using ensure_safe_cidr_ok [OF assms(1)] assms(2) by (simp add: net_word_def)
qed

definition short_request :: "create_bridge_request \<Rightarrow> bool" where
  "short_request req \<longleftrightarrow> short (cb_name req) \<and> list_all short (cb_ports req) \<and>
     (case cb_address req of None \<Rightarrow> True | Some a \<Rightarrow> short a)"

lemma validate_bridge_request_ok:
  assumes "validate_bridge_request req = Inr u"
  shows "safe_id (cb_name req) \<and> list_all safe_id (cb_ports req) \<and>
    (\<forall>a. cb_address req = Some a \<longrightarrow> ensure_safe_cidr a ''bridge.address'' = Inr a)"
  using assms ensure_safe_cidr_ok
  by (auto simp: validate_bridge_request_def res_simps list_all_iff split: if_splits option.splits; metis)

lemma ip_words:
  "list_all net_word args \<Longrightarrow> length args \<le> 250 \<Longrightarrow> net_word dev \<Longrightarrow> accepted (exec_op ''ip'' (ip_set dev args))"
  by (rule net_accepted) (simp_all add: ip_set_def shape_allowed_def lxc_tools_def)

lemma bridge_ops_accepted:
  assumes "net_word (cb_name req)" "list_all net_word (cb_ports req)" "\<And>a. cb_address req = Some a \<Longrightarrow> net_word a"
  shows "list_all accepted (bridge_ops req)"
proof -
  have "net_word (show_nat (unat mtu))" for mtu :: "32 word"
    using unsigned_less [where 'a = nat, of mtu] by (intro show_nat_net_word) simp
  moreover have "accepted (exec_op ''ip'' [''addr'', ''add'', a, ''dev'', cb_name req])" if "cb_address req = Some a" for a
    using assms that by (intro net_accepted) (simp_all add: shape_allowed_def lxc_tools_def)
  ultimately show ?thesis
    using assms by (auto simp: bridge_ops_def list_all_iff intro: ip_words split: option.splits)
qed

lemma add_del_accepted:
  assumes "net_word name"
  shows "accepted (exec_op ''ip'' (add_bridge_args name aware))" "accepted (exec_op ''ip'' (del_bridge_args name))"
  using assms by (auto intro!: net_accepted simp: add_bridge_args_def del_bridge_args_def shape_allowed_def lxc_tools_def)

section \<open>Created whole or not at all\<close>

lemma on_nhost_fields [simp]:
  "snd (on_nhost f s) = s\<lparr>nt_host := snd (f (nt_host s))\<rparr>" "fst (on_nhost f s) = fst (f (nt_host s))"
  by (simp_all add: on_nhost_def split: prod.splits)

lemma roll_back_issued:
  assumes "roll_back program args e s = (x, s')" and "host_program_path program \<noteq> None"
  shows "x = Inl e \<and> nt_bridges s' = nt_bridges s \<and> nt_vlans s' = nt_vlans s \<and>
    issued (nt_host s') = issued (nt_host s) @ [exec_op program args]"
proof -
  obtain y h where "run_optional program args (nt_host s) = (y, h)" by fastforce
  with run_optional_issued [OF this] assms show ?thesis by (auto simp: roll_back_def)
qed


section \<open>Repair and drift\<close>

definition recorded_request :: "bridge \<Rightarrow> create_bridge_request" where
  "recorded_request b =
     \<lparr>cb_name = br_name b, cb_ports = br_ports b, cb_vlan_aware = br_vlan_aware b, cb_address = br_address b, cb_mtu = Some (br_mtu b)\<rparr>"

text \<open>
  A repaired bridge loses VLAN filtering. A successful \<open>repair_missing_from_host\<close> runs the commands that create the
  recorded bridge with \<open>vlan_aware\<close> switched off, whatever the record says, and leaves the records as they are: a
  VLAN-aware bridge comes back on the host as one that is not, while its record still says it is.
\<close>

theorem repair_drops_vlan_filtering:
  assumes "store_wf (nt_bridges s)" and "records (nt_bridges s) name = Some b"
    and "repair_missing_from_host name s = (Inr u, s')"
  shows "asked_since (nt_host s) (nt_host s') =
      exec_op ''ip'' (add_bridge_args (br_name b) False) # bridge_ops (recorded_request b) \<and>
    (br_vlan_aware b \<longrightarrow> asked_since (nt_host s) (nt_host s') \<noteq>
      exec_op ''ip'' (add_bridge_args (br_name b) (cb_vlan_aware (recorded_request b))) # bridge_ops (recorded_request b)) \<and>
    records (nt_bridges s') = records (nt_bridges s)"
proof -
  obtain r st where g: "Store.get name (nt_bridges s) = (r, st)" by fastforce
  from js.get_ok [OF assms(1)] assms(2,3) g have st: "r = Inr (Some b)" "records st = records (nt_bridges s)"
    by (cases r; auto simp: repair_missing_from_host_def on_bridges_def)+
  obtain y h1 where 1: "run_ok ''ip'' (add_bridge_args (br_name b) False) (nt_host s) = (y, h1)" by fastforce
  obtain z h2 where 2: "configure_bridge (recorded_request b) h1 = (z, h2)" by fastforce
  from assms(3) g st 1 2 have s': "s' = s\<lparr>nt_bridges := st, nt_host := h2\<rparr> \<and> (\<exists>v. y = Inr v) \<and> (\<exists>w. z = Inr w)"
    by (cases y; cases z)
      (auto simp: repair_missing_from_host_def on_bridges_def on_nhost_def ok_or_def add_bridge_args_def recorded_request_def
        roll_back_def elim!: bind_st_cases)
  have "issued h1 = issued (nt_host s) @ [exec_op ''ip'' (add_bridge_args (br_name b) False)]"
    using run_ok_issued [OF 1] ip_program by simp
  moreover have "issued h2 = issued h1 @ bridge_ops (recorded_request b)"
    using configure_bridge_script [of "recorded_request b" h1, unfolded 2] s' by (auto simp: hl.script_Inr)
  ultimately show ?thesis
    using s' st by (auto simp: asked_since_def recorded_request_def exec_op_def add_bridge_args_def)
qed

interpretation nl: command_log "\<lambda>s. issued (nt_host s)" "\<lambda>operation s. s\<lparr>nt_host := ask operation (nt_host s)\<rparr>"
  by unfold_locales simp

lemma on_stores_only [simp]: "nl.only P s (on_bridges f s)" "nl.only P s (on_vlans g s)"
  by (auto simp: on_bridges_def on_vlans_def nl.only_same split: prod.splits)

lemma on_nhost_only: "hl.only P (nt_host s) (f (nt_host s)) \<Longrightarrow> nl.only P s (on_nhost f s)"
  by (auto simp: on_nhost_def hl.only_def nl.only_def split: prod.splits)

text \<open>The commands that only look.\<close>

definition show_op :: "op \<Rightarrow> bool" where
  "show_op operation \<longleftrightarrow>
     operation = exec_op ''ip'' show_bridges_args \<or>
     (\<exists>name. operation = exec_op ''ip'' [''-j'', ''link'', ''show'', ''master'', name] \<or>
        operation = exec_op ''ip'' [''-j'', ''addr'', ''show'', ''dev'', name] \<or>
        operation = exec_op ''bridge'' [''vlan'', ''show'', ''dev'', name])"

lemma look_only:
  "hl.only show_op h (bridge_ports j name h)" "hl.only show_op h (bridge_address j name h)"
  unfolding bridge_ports_def bridge_address_def
  by (intro hl.only_bind only_run; auto simp: show_op_def split: option.splits sum.splits)+

lemma live_bridges_only: "hl.only show_op h (live_bridges j recs links h)"
proof (induction links arbitrary: h)
  case (Cons link links)
  then show ?case by (auto simp: Let_def intro!: hl.only_bind look_only)
qed simp

lemma list_bridges_only: "nl.only show_op s (list_bridges j s)"
  unfolding list_bridges_def
  by (intro nl.only_bind on_stores_only on_nhost_only only_run)
    (auto simp: show_op_def Let_def split: option.splits sum.splits intro!: on_nhost_only live_bridges_only)

lemma vlan_exists_only: "hl.only show_op h (vlan_exists_on_host v h)"
proof -
  obtain x h' where r: "run_optional ''bridge'' [''vlan'', ''show'', ''dev'', vl_bridge v] h = (x, h')" by fastforce
  have "hl.only show_op h (x, h')" unfolding r [symmetric] by (rule only_run) (auto simp: show_op_def)
  then show ?thesis by (auto simp: vlan_exists_on_host_def r split: sum.splits option.splits intro: hl.only_result [THEN iffD1])
qed

lemma missing_vlans_ok:
  "missing_vlans vs h = (ms, h') \<Longrightarrow> hl.only show_op h (ms, h') \<and> set ms \<subseteq> (\<lambda>v. ''vlan:'' @ vl_id v) ` set vs"
proof (induction vs arbitrary: h ms h')
  case (Cons v vs)
  obtain f h1 where f: "vlan_exists_on_host v h = (f, h1)" by fastforce
  obtain rest h2 where r: "missing_vlans vs h1 = (rest, h2)" by fastforce
  have "hl.only show_op h (f, h1)" using vlan_exists_only [of h v] f by simp
  then have "hl.only show_op h (rest, h2)" by (rule hl.only_trans) (rule conjunct1 [OF Cons.IH [OF r]])
  then show ?case using Cons.prems Cons.IH [OF r] f r by (auto split: if_splits intro: hl.only_result [THEN iffD1])
qed simp

lemma list_bridges_records:
  assumes "store_wf (nt_bridges s)" and "list_bridges j s = (x, s')"
  shows "store_wf (nt_bridges s') \<and> records (nt_bridges s') = records (nt_bridges s) \<and> nt_vlans s' = nt_vlans s"
proof -
  obtain r st where l: "Store.list (nt_bridges s) = (r, st)" by fastforce
  from js.list_cases [OF assms(1) l] have st: "store_wf st" "records st = records (nt_bridges s)" by auto
  have "nt_bridges s' = st \<and> nt_vlans s' = nt_vlans s"
    using assms(2) l
    by (auto simp: list_bridges_def on_bridges_def on_nhost_def Let_def split: prod.splits option.splits sum.splits elim!: bind_st_cases)
  with st show ?thesis by simp
qed

text \<open>
  Looking for drift changes nothing and accuses nobody wrongly. Whatever the host answers, \<open>reconcile_with_host\<close>
  runs only \<open>show\<close> commands and leaves all records as they are; what it reports missing is a recorded bridge or VLAN, and
  what it reports unmanaged is a bridge no record names, so that quarantine never touches a managed bridge.
\<close>

theorem network_drift_read_only:
  assumes "store_wf (nt_bridges s)" and "store_wf (nt_vlans s)" and "reconcile_with_host j s = (x, s')"
  shows "records (nt_bridges s') = records (nt_bridges s) \<and> records (nt_vlans s') = records (nt_vlans s) \<and>
    list_all show_op (asked_since (nt_host s) (nt_host s')) \<and>
    (\<forall>missing unmanaged. x = Inr (missing, unmanaged) \<longrightarrow>
       set missing \<subseteq> br_name ` ran (records (nt_bridges s)) \<union> (\<lambda>v. ''vlan:'' @ vl_id v) ` ran (records (nt_vlans s)) \<and>
       set unmanaged \<inter> br_name ` ran (records (nt_bridges s)) = {})"
proof -
  obtain r st where l: "Store.list (nt_bridges s) = (r, st)" by fastforce
  let ?s1 = "s\<lparr>nt_bridges := st\<rparr>"
  obtain y s2 where b: "list_bridges j ?s1 = (y, s2)" by fastforce
  obtain q vt where v: "Store.list (nt_vlans s2) = (q, vt)" by fastforce
  from js.list_cases [OF assms(1) l] have st: "store_wf st" "records st = records (nt_bridges s)"
    "\<And>stored. r = Inr stored \<Longrightarrow> set stored = ran (records (nt_bridges s))" by auto
  have s2: "records (nt_bridges s2) = records (nt_bridges s)" "nt_vlans s2 = nt_vlans s"
    using list_bridges_records [OF _ b] st by auto
  from js.list_cases [OF assms(2), of q vt] v s2 have vt: "records vt = records (nt_vlans s)"
    "\<And>vlans. q = Inr vlans \<Longrightarrow> set vlans = ran (records (nt_vlans s))" by auto
  have "nl.only show_op ?s1 (y, s2)" using list_bridges_only [of ?s1 j] b by simp
  then have o2: "hl.only show_op (nt_host s) (y, nt_host s2)" by (simp add: nl.only_def hl.only_def)
  show ?thesis
  proof (cases "\<exists>stored live vlans. r = Inr stored \<and> y = Inr live \<and> q = Inr vlans")
    case False
    then have "(s' = ?s1 \<or> s' = s2 \<or> s' = s2\<lparr>nt_vlans := vt\<rparr>) \<and> (\<exists>e. x = Inl e)"
      using assms(3) l b v by (cases r; cases y; cases q) (auto simp: reconcile_with_host_def on_bridges_def on_vlans_def)
    then show ?thesis using st s2 vt only_asked_since [OF o2] by (auto simp: asked_since_def)
  next
    case True
    then obtain stored live vlans where ok: "r = Inr stored" "y = Inr live" "q = Inr vlans" by blast
    obtain ms h3 where m: "missing_vlans vlans (nt_host s2) = (ms, h3)" by fastforce
    have x: "s' = s2\<lparr>nt_vlans := vt, nt_host := h3\<rparr>"
      "x = Inr (map br_name (filter (\<lambda>b. br_name b \<notin> br_name ` set live) stored) @ ms,
                map br_name (filter (\<lambda>b. br_name b \<notin> br_name ` set stored) live))"
      using assms(3) l b v ok m by (auto simp: reconcile_with_host_def on_bridges_def on_vlans_def)
    have "hl.only show_op (nt_host s) (ms, h3)" by (rule hl.only_trans [OF o2 conjunct1 [OF missing_vlans_ok [OF m]]])
    then have a: "list_all show_op (asked_since (nt_host s) (nt_host s'))" using only_asked_since x(1) by fastforce
    have "set ms \<subseteq> (\<lambda>v. ''vlan:'' @ vl_id v) ` ran (records (nt_vlans s))" using missing_vlans_ok [OF m] vt(2) [OF ok(3)] by simp
    with a x st s2 vt ok show ?thesis by auto
  qed
qed

section \<open>Witnesses\<close>

definition sample_bridge :: bridge where
  "sample_bridge = \<lparr>br_id = ''vmbr0'', br_name = ''vmbr0'', br_state = LinkUp, br_ports = [''eth0''], br_vlan_aware = True,
     br_address = Some ''10.0.0.1/24'', br_mtu = 1500, br_created_at = ''t''\<rparr>"

definition sample_network :: "(str \<times> bridge content) list \<Rightarrow> (broker_error + str) list \<Rightarrow> network_service" where
  "sample_network recs answers =
     \<lparr>nt_bridges = \<lparr>dir_display = ''d'', dir_exists = True, files = recs, faults = []\<rparr>,
      nt_vlans = \<lparr>dir_display = ''v'', dir_exists = True, files = [], faults = []\<rparr>,
      nt_host = \<lparr>broker_socket = True, broker_answers = answers, direct_answers = [], broker_streams = [], direct_streams = [],
                 host_files = [], file_errors = [], issued = []\<rparr>\<rparr>"

definition sample_bridge_request :: create_bridge_request where
  "sample_bridge_request = recorded_request sample_bridge"


theorem repair_drops_vlan_filtering_witness:
  "\<exists>s'. repair_missing_from_host ''vmbr0'' (sample_network [(''vmbr0.json'', Json sample_bridge)] (replicate 6 (Inr []))) = (Inr (), s') \<and>
     br_vlan_aware sample_bridge \<and> records (nt_bridges s') ''vmbr0'' = Some sample_bridge \<and>
     hd (asked_since (nt_host (sample_network [(''vmbr0.json'', Json sample_bridge)] (replicate 6 (Inr [])))) (nt_host s')) =
       exec_op ''ip'' (add_bridge_args ''vmbr0'' False)"
proof -
  let ?s = "sample_network [(''vmbr0.json'', Json sample_bridge)] (replicate 6 (Inr []))"
  define u where "u = repair_missing_from_host ''vmbr0'' ?s"
  have "is_ok (fst u)" unfolding u_def by code_simp
  then obtain s' where u: "repair_missing_from_host ''vmbr0'' ?s = (Inr (), s')"
    unfolding u_def [symmetric] by (cases u; cases "fst u") (auto simp: is_ok_def)
  have w: "store_wf (nt_bridges ?s)" by (simp add: store_wf_def sample_network_def)
  have r: "records (nt_bridges ?s) ''vmbr0'' = Some sample_bridge" by code_simp
  have "br_vlan_aware sample_bridge" "br_name sample_bridge = ''vmbr0''" by code_simp+
  with repair_drops_vlan_filtering [OF w r u] u r show ?thesis by auto
qed

definition no_json :: "str net_json" where
  "no_json = \<lparr>nj_array = (\<lambda>text. Inr (if text = [] then [] else [text])), nj_field = (\<lambda>v key. if key = ''ifname'' then v else []),
     nj_pointer = (\<lambda>v p. None), nj_str = Some, nj_u64 = (\<lambda>v. None), nj_i64 = (\<lambda>v. None), nj_list = (\<lambda>v. None)\<rparr>"

theorem network_drift_read_only_witness:
  "\<exists>missing unmanaged s'. reconcile_with_host no_json
       (sample_network [(''vmbr0.json'', Json sample_bridge)] [Inr ''br9'', Inr [], Inr []]) = (Inr (missing, unmanaged), s') \<and>
     ''vmbr0'' \<in> set missing \<and> ''br9'' \<in> set unmanaged \<and> records (nt_bridges s') ''vmbr0'' = Some sample_bridge"
proof -
  let ?s = "sample_network [(''vmbr0.json'', Json sample_bridge)] [Inr ''br9'', Inr [], Inr []]"
  have e: "fst (reconcile_with_host no_json ?s) = Inr ([''vmbr0''], [''br9''])" by code_simp
  then obtain s' where u: "reconcile_with_host no_json ?s = (Inr ([''vmbr0''], [''br9'']), s')"
    by (cases "reconcile_with_host no_json ?s") auto
  have w: "store_wf (nt_bridges ?s)" "store_wf (nt_vlans ?s)" by (simp_all add: store_wf_def sample_network_def)
  have "records (nt_bridges ?s) ''vmbr0'' = Some sample_bridge" by code_simp
  with network_drift_read_only [OF w u] u show ?thesis by auto
qed

end
