(* ===== verification/Containers.thy ===== *)
theory Containers
  imports Zfs_Safety Store
begin

section \<open>Containers (src/src/services/lxc.rs)\<close>

text \<open>
  The sidecar records of containers, the \<open>lxc-*\<close> and \<open>zfs\<close> commands that create, change, snapshot, migrate and
  remove them, the configuration block that is appended through the broker, and the one-time console tickets. What
  depends on the clock, on fresh identifiers and on the UUID of a snapshot comes from \<open>lxc_env\<close>; the CT-template
  library is its result (\<open>le_resolve\<close>). Arithmetic on \<open>u64\<close> wraps, as in a release build. The four helpers of
  src/src/services/kvm.rs that containers use come first.
\<close>

subsection \<open>Helpers shared with virtual machines (src/src/services/kvm.rs)\<close>

definition CLONE_SNAPSHOT_PREFIX :: str where
  "CLONE_SNAPSHOT_PREFIX = ''daygleve-clone-''"

definition ensure_safe_snapshot :: "str \<Rightarrow> str api_result" where
  "ensure_safe_snapshot name =
     (if starts_with name CLONE_SNAPSHOT_PREFIX
      then Inl (validation (''snapshot name must not start with the reserved prefix '' @ debug_str CLONE_SNAPSHOT_PREFIX))
      else if name \<noteq> [] \<and> \<not> starts_with name ''-'' \<and> list_all (\<lambda>b. is_ascii_alphanumeric b \<or> b \<in> set ''.-_:'') name
        then Inr name
      else Inl (validation (''invalid snapshot name: '' @ debug_str name)))"

definition is_missing_dataset :: "app_error \<Rightarrow> bool" where
  "is_missing_dataset e \<longleftrightarrow>
     (let m = map to_lower_byte (err_message e) in contains_str m ''does not exist'' \<or> contains_str m ''dataset does not exist'')"

definition is_already_exists :: "app_error \<Rightarrow> bool" where
  "is_already_exists e \<longleftrightarrow> contains_str (map to_lower_byte (err_message e)) ''already exists''"

definition ts_from_unix :: "(int \<Rightarrow> str option) \<Rightarrow> str \<Rightarrow> int \<Rightarrow> str" where
  "ts_from_unix stamp now secs = unwrap_or (stamp secs) now"

subsection \<open>Data\<close>

datatype lxc_state = CtRunning | CtStopped | CtFrozen | CtTransitioning

record lxc_network =
  ln_bridge :: str
  ln_vlan :: "16 word option"
  ln_ip :: "str option"

record lxc_mount =
  lm_source :: str
  lm_destination :: str
  lm_read_only :: bool

record lxc =
  ct_id :: str
  ct_name :: str
  ct_state :: lxc_state
  ct_template :: str
  ct_rootfs_dataset :: str
  ct_vcpus :: "32 word"
  ct_memory_mib :: "64 word"
  ct_networks :: "lxc_network list"
  ct_mounts :: "lxc_mount list"
  ct_unprivileged :: bool
  ct_description :: "str option"
  ct_tags :: "str list"
  ct_pool :: "str option"
  ct_created_at :: str
  ct_updated_at :: "str option"

record lxc_summary =
  cs_id :: str
  cs_name :: str
  cs_state :: lxc_state
  cs_vcpus :: "32 word"
  cs_memory_mib :: "64 word"
  cs_tags :: "str list"
  cs_pool :: "str option"
  cs_created_at :: str

record lxc_snapshot_record =
  ls_id :: str
  ls_name :: str
  ls_container_id :: str
  ls_dataset :: str
  ls_used_bytes :: nat
  ls_description :: "str option"
  ls_created_at :: str

record console_ticket_entry =
  ck_container_id :: str
  ck_container :: str
  ck_expires_at :: nat

record console_ticket =
  co_websocket_path :: str
  co_ticket :: str
  co_expires_at :: str

record lxc_service =
  lx_store :: "lxc jstore"
  lx_host :: host
  lx_tickets :: "(str \<times> console_ticket_entry) list"

record lxc_env =
  le_now :: str
  le_new_id :: str
  le_instant :: nat
  le_ticket_expiry :: str
  le_timestamp :: str
  le_nanos :: str
  le_stamp :: "int \<Rightarrow> str option"
  le_uuid5 :: "str \<Rightarrow> str"
  le_resolve :: "str \<Rightarrow> str api_result"
  le_default_pool :: str
  le_state_dir :: str

definition TICKET_TTL :: nat where
  "TICKET_TTL = 60"

definition on_cts :: "(lxc jstore \<Rightarrow> 'a \<times> lxc jstore) \<Rightarrow> lxc_service \<Rightarrow> 'a \<times> lxc_service" where
  "on_cts f s = (let (x, st) = f (lx_store s) in (x, s\<lparr>lx_store := st\<rparr>))"

definition on_chost :: "(host \<Rightarrow> 'a \<times> host) \<Rightarrow> lxc_service \<Rightarrow> 'a \<times> lxc_service" where
  "on_chost f s = (let (x, h) = f (lx_host s) in (x, s\<lparr>lx_host := h\<rparr>))"

text \<open>\<open>let _ = ..\<close>: the command runs, its result is ignored.\<close>

definition ignoring :: "(host \<Rightarrow> 'a \<times> host) \<Rightarrow> lxc_service \<Rightarrow> lxc_service" where
  "ignoring f s = snd (on_chost f s)"

subsection \<open>State\<close>

definition map_lxc_state :: "str \<Rightarrow> lxc_state" where
  "map_lxc_state s =
     (let u = map to_upper_byte (trim s) in
      if u = ''RUNNING'' then CtRunning
      else if u = ''STOPPED'' then CtStopped
      else if u = ''FROZEN'' then CtFrozen
      else if u \<in> {''STARTING'', ''STOPPING'', ''ABORTING'', ''FREEZING'', ''THAWED''} then CtTransitioning
      else CtStopped)"

definition info_args :: "str \<Rightarrow> str list" where
  "info_args name = [''-n'', name, ''-sH'']"

definition live_state :: "str \<Rightarrow> lxc_service \<Rightarrow> lxc_state option \<times> lxc_service" where
  "live_state name s =
     (case on_chost (run_optional ''lxc-info'' (info_args name)) s of
        (Inr (Some out), s) \<Rightarrow> (Some (map_lxc_state (trim out)), s)
      | (_, s) \<Rightarrow> (None, s))"

definition get_stored :: "str \<Rightarrow> lxc_service \<Rightarrow> lxc api_result \<times> lxc_service" where
  "get_stored i s =
     bind_st (on_cts (Store.get i) s) (\<lambda>x s. (ok_or x (not_found (''container '' @ i @ '' not found'')), s))"

definition summary_of :: "lxc \<Rightarrow> lxc_summary" where
  "summary_of ct =
     \<lparr>cs_id = ct_id ct, cs_name = ct_name ct, cs_state = ct_state ct, cs_vcpus = ct_vcpus ct,
      cs_memory_mib = ct_memory_mib ct, cs_tags = ct_tags ct, cs_pool = ct_pool ct, cs_created_at = ct_created_at ct\<rparr>"

definition overlay_state :: "lxc \<Rightarrow> lxc_service \<Rightarrow> lxc \<times> lxc_service" where
  "overlay_state ct s = (let (st, s) = live_state (ct_name ct) s in (ct\<lparr>ct_state := unwrap_or st (ct_state ct)\<rparr>, s))"

fun summaries :: "lxc list \<Rightarrow> lxc_service \<Rightarrow> lxc_summary list \<times> lxc_service" where
  "summaries [] s = ([], s)"
| "summaries (ct # cts) s =
     (let (ct, s) = overlay_state ct s; (rest, s) = summaries cts s in (summary_of ct # rest, s))"

definition lxc_list :: "lxc_service \<Rightarrow> lxc_summary list api_result \<times> lxc_service" where
  "lxc_list s = bind_st (on_cts Store.list s) (\<lambda>cts s. let (out, s) = summaries cts s in (Inr out, s))"

definition lxc_get :: "str \<Rightarrow> lxc_service \<Rightarrow> lxc api_result \<times> lxc_service" where
  "lxc_get i s = bind_st (get_stored i s) (\<lambda>ct s. let (ct, s) = overlay_state ct s in (Inr ct, s))"

subsection \<open>Console tickets\<close>

definition lxc_console :: "lxc_env \<Rightarrow> str \<Rightarrow> lxc_service \<Rightarrow> console_ticket api_result \<times> lxc_service" where
  "lxc_console env i s =
     bind_st (get_stored i s) (\<lambda>ct s.
       let (st, s) = live_state (ct_name ct) s in
       if st \<noteq> Some CtRunning then (Inl (conflict ''start the container to open a console''), s)
       else
         (let ticket = le_new_id env;
              live = filter (\<lambda>(_, t). le_instant env < ck_expires_at t) (lx_tickets s);
              entry = \<lparr>ck_container_id = i, ck_container = ct_name ct, ck_expires_at = le_instant env + TICKET_TTL\<rparr>
          in (Inr \<lparr>co_websocket_path = ''/api/v1/containers/'' @ i @ ''/console/ws?ticket='' @ ticket, co_ticket = ticket,
                   co_expires_at = le_ticket_expiry env\<rparr>,
              s\<lparr>lx_tickets := AList.update ticket entry live\<rparr>)))"

definition redeem_console_ticket :: "nat \<Rightarrow> str \<Rightarrow> str \<Rightarrow> lxc_service \<Rightarrow> str api_result \<times> lxc_service" where
  "redeem_console_ticket now container_id ticket s =
     (case map_of (lx_tickets s) ticket of
        Some t \<Rightarrow>
          if ck_container_id t = container_id \<and> now < ck_expires_at t
          then (Inr (ck_container t), s\<lparr>lx_tickets := AList.delete ticket (lx_tickets s)\<rparr>)
          else (Inl (unauthorized ''invalid or expired console ticket''), s)
      | None \<Rightarrow> (Inl (unauthorized ''invalid or expired console ticket''), s))"

definition attach_console :: "str \<Rightarrow> lxc_service \<Rightarrow> console_bridge api_result \<times> lxc_service" where
  "attach_console name s = on_chost (lxc_console_attach name) s"

subsection \<open>The configuration block\<close>

definition safe_mount_path :: "str \<Rightarrow> str \<Rightarrow> unit api_result" where
  "safe_mount_path p field =
     (if \<not> starts_with p ''/'' then Inl (validation (field @ '' must be an absolute path''))
      else if list_ex (\<lambda>c. c = ''..'') (split_on (CHR ''/'') p) then Inl (validation (field @ '' must not contain `..`''))
      else if 1024 < length p \<or> list_ex (\<lambda>c. is_whitespace c \<or> is_control c) (chars p)
        then Inl (validation (field @ '' contains whitespace, control characters, or is too long''))
      else Inr ())"

definition trim_start_slashes :: "str \<Rightarrow> str" where
  "trim_start_slashes p = dropWhile (\<lambda>c. c = CHR ''/'') p"

definition validate_mount :: "lxc_mount \<Rightarrow> unit api_result" where
  "validate_mount m =
     bind_res (safe_mount_path (trim (lm_source m)) ''mount.source'') (\<lambda>_.
     bind_res (safe_mount_path (trim (lm_destination m)) ''mount.destination'') (\<lambda>_.
       if trim_start_slashes (trim (lm_destination m)) = []
       then Inl (validation ''mount.destination must not be the container root'') else Inr ()))"

definition mount_entry_line :: "lxc_mount \<Rightarrow> str" where
  "mount_entry_line m =
     ''lxc.mount.entry = '' @ trim (lm_source m) @ '' '' @ trim_start_slashes (lm_destination m) @ '' none '' @
     (if lm_read_only m then ''bind,ro,create=dir'' else ''bind,rw,create=dir'') @ '' 0 0'' @ [CHR 0x0A]"

definition memory_bytes :: "64 word \<Rightarrow> str" where
  "memory_bytes memory_mib = show_nat (unat (memory_mib * 1024 * 1024))"

definition cpu_max :: "32 word \<Rightarrow> str" where
  "cpu_max vcpus = show_nat (unat (ucast vcpus * 100000 :: 64 word)) @ '' 100000''"

definition network_lines :: "nat \<Rightarrow> lxc_network \<Rightarrow> str" where
  "network_lines i net =
     (let key = ''lxc.net.'' @ show_nat i; nl = [CHR 0x0A] in
      key @ ''.type = veth'' @ nl @
      key @ ''.link = '' @ ln_bridge net @ nl @
      key @ ''.flags = up'' @ nl @
      (case ln_vlan net of None \<Rightarrow> [] | Some vlan \<Rightarrow> key @ ''.vlan.id = '' @ show_nat (unat vlan) @ nl) @
      (case ln_ip net of None \<Rightarrow> [] | Some ip \<Rightarrow> key @ ''.ipv4.address = '' @ ip @ nl))"

fun networks_block :: "nat \<Rightarrow> lxc_network list \<Rightarrow> str" where
  "networks_block i [] = []"
| "networks_block i (net # nets) = network_lines i net @ networks_block (Suc i) nets"

fun mounts_block :: "lxc_mount list \<Rightarrow> str api_result" where
  "mounts_block [] = Inr []"
| "mounts_block (m # ms) =
     bind_res (validate_mount m) (\<lambda>_. bind_res (mounts_block ms) (\<lambda>rest. Inr (mount_entry_line m @ rest)))"

definition config_block :: "32 word \<Rightarrow> 64 word \<Rightarrow> lxc_network list \<Rightarrow> lxc_mount list \<Rightarrow> str api_result" where
  "config_block vcpus memory_mib networks mounts =
     bind_res (mounts_block mounts) (\<lambda>ms.
       Inr ([CHR 0x0A] @ ''# --- DaygleVE limits & networking ---'' @ [CHR 0x0A] @
            ''lxc.cgroup2.memory.max = '' @ memory_bytes memory_mib @ [CHR 0x0A] @
            ''lxc.cgroup2.cpu.max = '' @ cpu_max vcpus @ [CHR 0x0A] @
            networks_block 0 networks @ ms))"

definition write_config ::
  "str \<Rightarrow> 32 word \<Rightarrow> 64 word \<Rightarrow> lxc_network list \<Rightarrow> lxc_mount list \<Rightarrow> lxc_service \<Rightarrow> unit api_result \<times> lxc_service" where
  "write_config name vcpus memory_mib networks mounts s =
     bind_st (config_block vcpus memory_mib networks mounts, s) (\<lambda>block s. on_chost (append_lxc_config name block) s)"

subsection \<open>Creating\<close>

record create_lxc_request =
  cl_name :: str
  cl_template :: str
  cl_template_file :: "str option"
  cl_vcpus :: "32 word"
  cl_memory_mib :: "64 word"
  cl_rootfs_size_gib :: "64 word"
  cl_networks :: "lxc_network list"
  cl_mounts :: "lxc_mount list"
  cl_unprivileged :: bool
  cl_description :: "str option"
  cl_tags :: "str list"
  cl_pool :: "str option"
  cl_start :: bool

definition validate_network :: "lxc_network \<Rightarrow> unit api_result" where
  "validate_network net =
     bind_res (ensure_safe_id (ln_bridge net)) (\<lambda>_.
     bind_res (case ln_vlan net of
                 None \<Rightarrow> Inr ()
               | Some vlan \<Rightarrow> if 1 \<le> vlan \<and> vlan \<le> 4094 then Inr () else Inl (validation ''container VLAN must be in 1..=4094'')) (\<lambda>_.
       case ln_ip net of None \<Rightarrow> Inr () | Some ip \<Rightarrow> bind_res (ensure_safe_cidr ip ''network.ip'') (\<lambda>_. Inr ())))"

definition validate_lxc_request :: "create_lxc_request \<Rightarrow> str list api_result" where
  "validate_lxc_request req =
     (if trim (cl_name req) = [] then Inl (validation ''name must not be empty'')
      else
        bind_res (ensure_safe_id (cl_name req)) (\<lambda>_.
          if cl_vcpus req = 0 then Inl (validation ''vcpus must be >= 1'')
          else if cl_memory_mib req = 0 then Inl (validation ''memory_mib must be >= 1'')
          else if cl_rootfs_size_gib req = 0 then Inl (validation ''rootfs_size_gib must be >= 1'')
          else
            bind_res (for_each validate_network (cl_networks req)) (\<lambda>_.
            bind_res (for_each validate_mount (cl_mounts req)) (\<lambda>_.
              validate_tags (cl_tags req)))))"

datatype rootfs_source = LocalTree str | Download str str

definition dist_release :: "str \<Rightarrow> (str \<times> str) api_result" where
  "dist_release template =
     (case split_once (CHR ''-'') template of
        None \<Rightarrow> Inl (validation ''template must be <dist>-<release>, e.g. debian-bookworm'')
      | Some (dist, release) \<Rightarrow>
          if dist = [] \<or> release = [] \<or> \<not> list_all is_ascii_alphanumeric dist \<or>
             \<not> list_all (\<lambda>b. is_ascii_alphanumeric b \<or> b \<in> set ''.-'') release
          then Inl (validation ''template contains invalid characters'') else Inr (dist, release))"

definition rootfs_source_of :: "lxc_env \<Rightarrow> create_lxc_request \<Rightarrow> rootfs_source api_result" where
  "rootfs_source_of env req =
     (case cl_template_file req of
        Some name \<Rightarrow> bind_res (le_resolve env name) (\<lambda>path. Inr (LocalTree path))
      | None \<Rightarrow> bind_res (dist_release (cl_template req)) (\<lambda>(dist, release). Inr (Download dist release)))"

definition create_args :: "str \<Rightarrow> str \<Rightarrow> rootfs_source \<Rightarrow> str list" where
  "create_args name zfsroot source =
     [''-n'', name, ''-B'', ''zfs'', ''--zfsroot'', zfsroot, ''-t''] @
     (case source of
        LocalTree fstree \<Rightarrow> [''local'', ''--'', ''--fstree'', fstree]
      | Download dist release \<Rightarrow> [''download'', ''--'', ''--dist'', dist, ''--release'', release, ''--arch'', ''amd64''])"

definition tear_down :: "str \<Rightarrow> str \<Rightarrow> app_error \<Rightarrow> lxc_service \<Rightarrow> 'a api_result \<times> lxc_service" where
  "tear_down name dataset e s =
     (Inl e, ignoring (run_optional ''zfs'' [''destroy'', ''-r'', dataset])
               (ignoring (run_optional ''lxc-destroy'' [''-n'', name, ''-f'']) s))"

definition new_container :: "lxc_env \<Rightarrow> create_lxc_request \<Rightarrow> str list \<Rightarrow> str \<Rightarrow> lxc" where
  "new_container env req tags dataset =
     \<lparr>ct_id = le_new_id env, ct_name = cl_name req, ct_state = CtStopped, ct_template = cl_template req,
      ct_rootfs_dataset = dataset, ct_vcpus = cl_vcpus req, ct_memory_mib = cl_memory_mib req, ct_networks = cl_networks req,
      ct_mounts = cl_mounts req, ct_unprivileged = cl_unprivileged req, ct_description = cl_description req, ct_tags = tags,
      ct_pool = normalize_pool_ref (cl_pool req), ct_created_at = le_now env, ct_updated_at = None\<rparr>"

definition start_args :: "str \<Rightarrow> str list" where
  "start_args name = [''-n'', name, ''-d'']"

text \<open>What follows the successful creation of the root file system: start on request, then the record.\<close>

definition start_and_record :: "bool \<Rightarrow> lxc \<Rightarrow> lxc_service \<Rightarrow> lxc api_result \<times> lxc_service" where
  "start_and_record start ct s =
     bind_st (if start
              then bind_st (on_chost (run_ok ''lxc-start'' (start_args (ct_name ct))) s) (\<lambda>_ s. (Inr (ct\<lparr>ct_state := CtRunning\<rparr>), s))
              else (Inr ct, s)) (\<lambda>ct s.
     bind_st (on_cts (Store.put (ct_id ct) ct) s) (\<lambda>_ s. (Inr ct, s)))"

definition lxc_create :: "lxc_env \<Rightarrow> create_lxc_request \<Rightarrow> lxc_service \<Rightarrow> lxc api_result \<times> lxc_service" where
  "lxc_create env req s =
     bind_st (validate_lxc_request req, s) (\<lambda>tags s.
     bind_st (rootfs_source_of env req, s) (\<lambda>source s.
     bind_st (ensure_safe_zfs_dataset (le_default_pool env), s) (\<lambda>_ s.
       let zfsroot = le_default_pool env @ ''/lxc'';
           dataset = zfsroot @ ''/'' @ cl_name req
       in bind_st (on_chost (run_ok ''lxc-create'' (create_args (cl_name req) zfsroot source)) s) (\<lambda>_ s.
            case on_chost (run_ok ''zfs'' [''set'', ''quota='' @ show_nat (unat (cl_rootfs_size_gib req)) @ ''G'', dataset]) s of
              (Inl e, s) \<Rightarrow> tear_down (cl_name req) dataset e s
            | (Inr _, s) \<Rightarrow>
                (case write_config (cl_name req) (cl_vcpus req) (cl_memory_mib req) (cl_networks req) (cl_mounts req) s of
                   (Inl e, s) \<Rightarrow> tear_down (cl_name req) dataset e s
                 | (Inr _, s) \<Rightarrow> start_and_record (cl_start req) (new_container env req tags dataset) s)))))"

subsection \<open>Updating, deleting and power\<close>

record update_lxc_request =
  ul_name :: "str option"
  ul_vcpus :: "32 word option"
  ul_memory_mib :: "64 word option"
  ul_description :: "str option"
  ul_tags :: "str list option"
  ul_pool :: "str option"

definition changed_container :: "update_lxc_request \<Rightarrow> lxc \<Rightarrow> lxc api_result" where
  "changed_container req ct =
     (if ul_name req \<noteq> None then Inl (validation ''renaming a container is not supported yet'')
      else
        bind_res (case ul_vcpus req of
                    None \<Rightarrow> Inr ct
                  | Some n \<Rightarrow> if n = 0 then Inl (validation ''vcpus must be >= 1'') else Inr (ct\<lparr>ct_vcpus := n\<rparr>)) (\<lambda>ct.
        bind_res (case ul_memory_mib req of
                    None \<Rightarrow> Inr ct
                  | Some n \<Rightarrow> if n = 0 then Inl (validation ''memory_mib must be >= 1'') else Inr (ct\<lparr>ct_memory_mib := n\<rparr>)) (\<lambda>ct.
          let ct = (if ul_description req \<noteq> None then ct\<lparr>ct_description := ul_description req\<rparr> else ct) in
        bind_res (case ul_tags req of
                    None \<Rightarrow> Inr ct
                  | Some tags \<Rightarrow> bind_res (validate_tags tags) (\<lambda>ts. Inr (ct\<lparr>ct_tags := ts\<rparr>))) (\<lambda>ct.
          Inr (case ul_pool req of None \<Rightarrow> ct | Some p \<Rightarrow> ct\<lparr>ct_pool := normalize_pool_ref (Some p)\<rparr>)))))"

definition apply_limits :: "lxc \<Rightarrow> lxc_service \<Rightarrow> lxc_service" where
  "apply_limits ct s =
     ignoring (run_optional ''lxc-cgroup'' [''-n'', ct_name ct, ''cpu.max'', cpu_max (ct_vcpus ct)])
       (ignoring (run_optional ''lxc-cgroup'' [''-n'', ct_name ct, ''memory.max'', memory_bytes (ct_memory_mib ct)]) s)"

definition lxc_update :: "lxc_env \<Rightarrow> str \<Rightarrow> update_lxc_request \<Rightarrow> lxc_service \<Rightarrow> lxc api_result \<times> lxc_service" where
  "lxc_update env i req s =
     bind_st (get_stored i s) (\<lambda>ct s.
     bind_st (changed_container req ct, s) (\<lambda>ct s.
       let (st, s) = live_state (ct_name ct) s;
           s = (if st = Some CtRunning then apply_limits ct s else s)
       in bind_st (on_cts (Store.put i (ct\<lparr>ct_updated_at := Some (le_now env)\<rparr>)) s) (\<lambda>_ s. lxc_get i s)))"

definition lxc_delete :: "str \<Rightarrow> lxc_service \<Rightarrow> unit api_result \<times> lxc_service" where
  "lxc_delete i s =
     bind_st (get_stored i s) (\<lambda>ct s.
       let s = ignoring (run_optional ''lxc-stop'' [''-n'', ct_name ct, ''-k'']) s;
           s = ignoring (run_optional ''lxc-destroy'' [''-n'', ct_name ct, ''-f'']) s;
           s = ignoring (run_optional ''zfs'' [''destroy'', ''-r'', ct_rootfs_dataset ct]) s
       in bind_st (on_cts (Store.delete i) s) (\<lambda>_ s. (Inr (), s)))"

datatype lxc_power_action = CtStart | CtStop | CtRestart | CtFreeze | CtUnfreeze

fun power_command :: "lxc_power_action \<Rightarrow> str \<Rightarrow> lxc_service \<Rightarrow> unit api_result \<times> lxc_service" where
  "power_command CtStart name s = on_chost (run_ok ''lxc-start'' (start_args name)) s"
| "power_command CtStop name s = on_chost (run_ok ''lxc-stop'' [''-n'', name]) s"
| "power_command CtRestart name s =
     on_chost (run_ok ''lxc-start'' (start_args name)) (ignoring (run_optional ''lxc-stop'' [''-n'', name]) s)"
| "power_command CtFreeze name s = on_chost (run_ok ''lxc-freeze'' [''-n'', name]) s"
| "power_command CtUnfreeze name s = on_chost (run_ok ''lxc-unfreeze'' [''-n'', name]) s"

definition lxc_power :: "lxc_env \<Rightarrow> str \<Rightarrow> lxc_power_action \<Rightarrow> lxc_service \<Rightarrow> lxc api_result \<times> lxc_service" where
  "lxc_power env i action s =
     bind_st (get_stored i s) (\<lambda>ct s.
     bind_st (power_command action (ct_name ct) s) (\<lambda>_ s.
       let (ct, s) = overlay_state ct s;
           ct = ct\<lparr>ct_updated_at := Some (le_now env)\<rparr>
       in bind_st (on_cts (Store.put i ct) s) (\<lambda>_ s. (Inr ct, s))))"

subsection \<open>Moving the root file system\<close>

definition list_name_args :: "str \<Rightarrow> str list" where
  "list_name_args dataset = [''list'', ''-H'', ''-o'', ''name'', dataset]"

definition migrate_temp :: "lxc_env \<Rightarrow> str \<Rightarrow> str" where
  "migrate_temp env i = le_state_dir env @ ''/tmp/ct-migrate-'' @ i @ ''-'' @ le_nanos env @ ''.zfs''"

definition copy_dataset :: "str \<Rightarrow> str \<Rightarrow> str \<Rightarrow> host \<Rightarrow> unit api_result \<times> host" where
  "copy_dataset snapshot target temp h =
     bind_st (stream_to_file ''zfs'' [''send'', snapshot] temp h) (\<lambda>_ h.
       stream_from_file ''zfs'' [''receive'', ''-F'', target] temp h)"

text \<open>The steps after the copy: the configuration is re-pointed, the record stored, the old dataset destroyed.\<close>

definition finish_migration :: "lxc_env \<Rightarrow> str \<Rightarrow> lxc \<Rightarrow> str \<Rightarrow> str \<Rightarrow> lxc_service \<Rightarrow> lxc api_result \<times> lxc_service" where
  "finish_migration env i ct source target s =
     bind_st (on_chost (run_ok ''zfs'' (list_name_args target)) s) (\<lambda>_ s.
     bind_st (on_chost (set_lxc_rootfs (ct_name ct) target) s) (\<lambda>_ s.
       let ct = ct\<lparr>ct_rootfs_dataset := target, ct_updated_at := Some (le_now env)\<rparr> in
     bind_st (on_cts (Store.put i ct) s) (\<lambda>_ s.
     bind_st (on_chost (run_ok ''zfs'' [''destroy'', ''-r'', source]) s) (\<lambda>_ s. (Inr ct, s)))))"

definition migrate_copy :: "lxc_env \<Rightarrow> str \<Rightarrow> lxc \<Rightarrow> str \<Rightarrow> str \<Rightarrow> lxc_service \<Rightarrow> lxc api_result \<times> lxc_service" where
  "migrate_copy env i ct source target s =
     (let tag = ''migrate-'' @ le_timestamp env;
          snapshot = source @ ''@'' @ tag;
          temp = migrate_temp env i
      in bind_st (on_chost (run_ok ''zfs'' [''snapshot'', snapshot]) s) (\<lambda>_ s.
         bind_st (case ensure_safe_id i of Inl e \<Rightarrow> Inl (internal (err_message e)) | Inr _ \<Rightarrow> Inr (), s) (\<lambda>_ s.
           let s = ignoring next_file_error s in
           case on_chost (copy_dataset snapshot target temp) s of
             (Inl e, s) \<Rightarrow>
               (Inl e, ignoring (run_ok ''zfs'' [''destroy'', snapshot]) (ignoring (\<lambda>h. ((), remove_file temp h)) s))
           | (Inr _, s) \<Rightarrow>
               finish_migration env i ct source target
                 (ignoring (run_ok ''zfs'' [''destroy'', target @ ''@'' @ tag]) (ignoring (\<lambda>h. ((), remove_file temp h)) s)))))"

definition migrate_rootfs :: "lxc_env \<Rightarrow> str \<Rightarrow> str \<Rightarrow> lxc_service \<Rightarrow> lxc api_result \<times> lxc_service" where
  "migrate_rootfs env i target_dataset s =
     bind_st (get_stored i s) (\<lambda>ct s.
     bind_st (ensure_safe_zfs_dataset (trim (ct_rootfs_dataset ct)), s) (\<lambda>source s.
     bind_st (ensure_safe_zfs_dataset target_dataset, s) (\<lambda>target s.
       if source = target then (Inl (validation ''target dataset is the same as the source''), s)
       else
         (let (st, s) = live_state (ct_name ct) s in
          if st = Some CtRunning then (Inl (conflict ''stop the container before migrating its rootfs''), s)
          else
            bind_st (on_chost (run_optional ''zfs'' (list_name_args target)) s) (\<lambda>exists s.
              if exists \<noteq> None then (Inl (conflict (''target dataset '' @ target @ '' already exists'')), s)
              else migrate_copy env i ct source target s)))))"

subsection \<open>Snapshots\<close>

definition snapshot_id :: "lxc_env \<Rightarrow> str \<Rightarrow> str \<Rightarrow> str" where
  "snapshot_id env container_id name = le_uuid5 env (container_id @ ''@'' @ name)"

definition snapshots_args :: "str \<Rightarrow> str list" where
  "snapshots_args dataset =
     [''list'', ''-t'', ''snapshot'', ''-Hp'', ''-o'', ''name,used,creation,daygleve:description'', ''-d'', ''1'', dataset]"

definition parse_lxc_snapshot :: "lxc_env \<Rightarrow> lxc \<Rightarrow> str \<Rightarrow> lxc_snapshot_record option" where
  "parse_lxc_snapshot env ct line =
     (let cols = split_on (CHR 0x09) line in
      case strip_prefix (hd cols) (ct_rootfs_dataset ct @ ''@'') of
        None \<Rightarrow> None
      | Some name \<Rightarrow>
          if name = [] then None
          else
            (case (Option.bind (nth_opt cols 1) parse_u64, Option.bind (nth_opt cols 2) parse_i64) of
               (Some used, Some creation) \<Rightarrow>
                 (let desc = unwrap_or (nth_opt cols 3) ''-'' in
                  Some \<lparr>ls_id = snapshot_id env (ct_id ct) name, ls_name = name, ls_container_id = ct_id ct,
                        ls_dataset = ct_rootfs_dataset ct, ls_used_bytes = used,
                        ls_description = (if desc \<noteq> ''-'' \<and> desc \<noteq> [] then Some desc else None),
                        ls_created_at = ts_from_unix (le_stamp env) (le_now env) creation\<rparr>)
             | _ \<Rightarrow> None))"

definition list_lxc_snapshots :: "lxc_env \<Rightarrow> str \<Rightarrow> lxc_service \<Rightarrow> lxc_snapshot_record list api_result \<times> lxc_service" where
  "list_lxc_snapshots env i s =
     bind_st (get_stored i s) (\<lambda>ct s.
       case on_chost (run_optional ''zfs'' (snapshots_args (ct_rootfs_dataset ct))) s of
         (Inr None, s) \<Rightarrow> (Inr [], s)
       | (Inr (Some out), s) \<Rightarrow> (Inr (List.map_filter (parse_lxc_snapshot env ct) (listing_rows out)), s)
       | (Inl e, s) \<Rightarrow> (if is_missing_dataset e then Inr [] else Inl e, s))"

definition duplicate_snapshot :: "str \<Rightarrow> app_error" where
  "duplicate_snapshot tag = conflict (''a snapshot named '' @ debug_str tag @ '' already exists'')"

definition spaced :: "str \<Rightarrow> str" where
  "spaced desc = concat (map (\<lambda>c. if is_control c then '' '' else c) (chars desc))"

definition annotate :: "str option \<Rightarrow> str \<Rightarrow> lxc_service \<Rightarrow> lxc_service" where
  "annotate description full s =
     (case description of
        None \<Rightarrow> s
      | Some d \<Rightarrow>
          if trim d = [] then s
          else ignoring (run_ok ''zfs'' [''set'', ''daygleve:description='' @ trim (spaced (trim d)), full]) s)"

definition lxc_snapshot ::
  "lxc_env \<Rightarrow> str \<Rightarrow> str \<Rightarrow> str option \<Rightarrow> lxc_service \<Rightarrow> lxc_snapshot_record api_result \<times> lxc_service" where
  "lxc_snapshot env i name description s =
     bind_st (get_stored i s) (\<lambda>ct s.
     bind_st (ensure_safe_snapshot name, s) (\<lambda>tag s.
     bind_st (list_lxc_snapshots env i s) (\<lambda>existing s.
       if tag \<in> ls_name ` set existing then (Inl (duplicate_snapshot tag), s)
       else
         (let full = ct_rootfs_dataset ct @ ''@'' @ tag in
          case on_chost (run_ok ''zfs'' [''snapshot'', full]) s of
            (Inl e, s) \<Rightarrow> (Inl (if is_already_exists e then duplicate_snapshot tag else e), s)
          | (Inr _, s) \<Rightarrow>
              bind_st (list_lxc_snapshots env i (annotate description full s)) (\<lambda>after s.
                (ok_or (find (\<lambda>x. ls_name x = tag) after) (internal ''snapshot created but could not be read back''), s))))))"

definition snapshot_exists :: "str \<Rightarrow> str \<Rightarrow> lxc_service \<Rightarrow> bool api_result \<times> lxc_service" where
  "snapshot_exists dataset tag s =
     (case on_chost (run_optional ''zfs'' [''list'', ''-H'', ''-o'', ''name'', ''-t'', ''snapshot'', dataset @ ''@'' @ tag]) s of
        (Inr (Some out), s) \<Rightarrow> (Inr (trim out \<noteq> []), s)
      | (Inr None, s) \<Rightarrow> (Inl (hypervisor ''zfs is not installed; cannot manage snapshots''), s)
      | (Inl e, s) \<Rightarrow> (if is_missing_dataset e then Inr False else Inl e, s))"

definition require_stopped :: "lxc \<Rightarrow> str \<Rightarrow> lxc_service \<Rightarrow> unit api_result \<times> lxc_service" where
  "require_stopped ct action s =
     (let (st, s) = live_state (ct_name ct) s in
      (if st \<in> {Some CtStopped, None} then Inr () else Inl (conflict (''stop the container before '' @ action)), s))"

definition missing_snapshot :: "str \<Rightarrow> app_error" where
  "missing_snapshot tag = not_found (''no snapshot named '' @ debug_str tag)"

definition rollback_snapshot :: "str \<Rightarrow> str \<Rightarrow> lxc_service \<Rightarrow> unit api_result \<times> lxc_service" where
  "rollback_snapshot i name s =
     bind_st (get_stored i s) (\<lambda>ct s.
     bind_st (ensure_safe_snapshot name, s) (\<lambda>tag s.
     bind_st (require_stopped ct ''rolling back a snapshot'' s) (\<lambda>_ s.
     bind_st (snapshot_exists (ct_rootfs_dataset ct) tag s) (\<lambda>found s.
       if \<not> found then (Inl (missing_snapshot tag), s)
       else on_chost (run_ok ''zfs'' [''rollback'', ''-r'', ct_rootfs_dataset ct @ ''@'' @ tag]) s))))"

definition delete_lxc_snapshot :: "str \<Rightarrow> str \<Rightarrow> lxc_service \<Rightarrow> unit api_result \<times> lxc_service" where
  "delete_lxc_snapshot i name s =
     bind_st (get_stored i s) (\<lambda>ct s.
     bind_st (ensure_safe_snapshot name, s) (\<lambda>tag s.
     bind_st (snapshot_exists (ct_rootfs_dataset ct) tag s) (\<lambda>found s.
       if \<not> found then (Inl (missing_snapshot tag), s)
       else on_chost (run_ok ''zfs'' [''destroy'', ct_rootfs_dataset ct @ ''@'' @ tag]) s)))"

subsection \<open>Drift\<close>

definition host_summary :: "str \<Rightarrow> str \<Rightarrow> lxc_summary" where
  "host_summary now line =
     \<lparr>cs_id = trim line, cs_name = trim line, cs_state = CtStopped, cs_vcpus = 0, cs_memory_mib = 0, cs_tags = [], cs_pool = None,
      cs_created_at = now\<rparr>"

definition list_all_containers :: "lxc_env \<Rightarrow> lxc_service \<Rightarrow> lxc_summary list api_result \<times> lxc_service" where
  "list_all_containers env s =
     bind_st (on_chost (run_optional ''lxc-ls'' [''-1'', ''--nesting'']) s) (\<lambda>out s.
       (Inr (case out of None \<Rightarrow> [] | Some text \<Rightarrow> map (host_summary (le_now env)) (listing_rows text)), s))"

fun missing_containers :: "lxc list \<Rightarrow> lxc_service \<Rightarrow> str list api_result \<times> lxc_service" where
  "missing_containers [] s = (Inr [], s)"
| "missing_containers (ct # cts) s =
     (case on_chost (run_optional ''lxc-info'' (info_args (ct_name ct))) s of
        (Inl _, s) \<Rightarrow> (Inl (hypervisor ''lxc-info is unavailable; cannot reconcile containers''), s)
      | (Inr found, s) \<Rightarrow>
          bind_st (missing_containers cts s) (\<lambda>rest s. (Inr (if found = None then ct_id ct # rest else rest), s)))"

definition lxc_reconcile :: "lxc_env \<Rightarrow> lxc_service \<Rightarrow> (str list \<times> str list) api_result \<times> lxc_service" where
  "lxc_reconcile env s =
     bind_st (on_cts Store.list s) (\<lambda>stored s.
     bind_st (missing_containers stored s) (\<lambda>missing s.
     bind_st (list_all_containers env s) (\<lambda>found s.
       (Inr (missing, filter (\<lambda>n. n \<notin> ct_name ` set stored) (map cs_name found)), s))))"

definition lxc_repair :: "str \<Rightarrow> lxc_service \<Rightarrow> unit api_result \<times> lxc_service" where
  "lxc_repair i s =
     bind_st (get_stored i s) (\<lambda>ct s.
       write_config (ct_name ct) (ct_vcpus ct) (ct_memory_mib ct) (ct_networks ct) (ct_mounts ct) s)"

end
