(* ===== verification/Containers_Config.thy ===== *)
theory Containers_Config
  imports Containers
begin

section \<open>The configuration block passes the broker's check\<close>

text \<open>
  The service checks a container's networks and bind mounts and renders them as configuration lines; the broker parses the block
  again, line by line and, for a bind mount, field by field, before it appends it. Here the two meet: what the
  service renders from a request it accepted, the broker accepts.
\<close>

subsection \<open>Words and lines\<close>

definition word_like :: "str \<Rightarrow> bool" where
  "word_like w \<longleftrightarrow> w \<noteq> [] \<and> (\<forall>c \<in> set (chars w). \<not> is_whitespace c)"

lemma ws_words_word:
  assumes "\<forall>c \<in> set cs. \<not> is_whitespace c" and "is_whitespace sep" and "acc @ concat cs \<noteq> []"
  shows "ws_words (cs @ sep # rest) acc = (acc @ concat cs) # ws_words rest []"
  using assms by (induction cs arbitrary: acc) auto

lemma ws_words_last:
  assumes "\<forall>c \<in> set cs. \<not> is_whitespace c" and "acc @ concat cs \<noteq> []"
  shows "ws_words cs acc = [acc @ concat cs]"
  using assms by (induction cs arbitrary: acc) auto

lemma split_whitespace_word: "word_like w \<Longrightarrow> split_whitespace (w @ CHR '' '' # rest) = w # split_whitespace rest"
  using ws_words_word [of "chars w" "[CHR '' '']" "[]" "chars rest"]
  by (simp add: split_whitespace_def word_like_def chars_append_ascii byte_def)

lemma split_whitespace_last: "word_like w \<Longrightarrow> split_whitespace w = [w]"
  using ws_words_last [of "chars w" "[]"] by (simp add: split_whitespace_def word_like_def)

definition plain_byte :: "char \<Rightarrow> bool" where
  "plain_byte c \<longleftrightarrow> byte c < 128 \<and> \<not> is_whitespace [c]"

lemma trim_plain_ends:
  assumes "plain_byte a" and "plain_byte b"
  shows "trim (a # m @ [b]) = a # m @ [b]"
proof -
  have c: "chars (a # m @ [b]) = [a] # chars m @ [[b]]"
    using assms chars_append_ascii [of b m "[]"] by (simp add: plain_byte_def)
  then have "trim_start (a # m @ [b]) = a # m @ [b]" using assms by (auto simp: trim_start_def plain_byte_def)
  moreover have "trim_end (a # m @ [b]) = a # m @ [b]" using assms c by (auto simp: trim_end_def plain_byte_def)
  ultimately show ?thesis by (simp add: trim_def)
qed

definition line_like :: "str \<Rightarrow> bool" where
  "line_like l \<longleftrightarrow> CHR 0x0A \<notin> set l \<and> CHR 0x0D \<notin> set l \<and> CHR 0x00 \<notin> set l"

lemma line_like_simps [simp]: "line_like []" "line_like (a @ b) \<longleftrightarrow> line_like a \<and> line_like b"
  "line_like (c # l) \<longleftrightarrow> c \<noteq> CHR 0x0A \<and> c \<noteq> CHR 0x0D \<and> c \<noteq> CHR 0x00 \<and> line_like l"
  by (auto simp: line_like_def)

lemma safe_bytes_line: "list_all id_byte i \<Longrightarrow> line_like i"
  by (auto simp: line_like_def list_all_iff id_byte_def is_ascii_alphanumeric_def is_ascii_digit_def is_ascii_lower_def
      is_ascii_upper_def byte_def)

lemma digits_line: "list_all is_ascii_digit a \<Longrightarrow> line_like a"
  by (auto simp: line_like_def list_all_iff is_ascii_digit_def byte_def)

lemma show_nat_line [simp]: "line_like (show_nat n)"
  by (intro digits_line show_nat_all)

lemma id_byte_plain: "id_byte c \<Longrightarrow> plain_byte c"
  by (auto simp: plain_byte_def id_byte_def is_ascii_alphanumeric_def is_ascii_digit_def is_ascii_lower_def is_ascii_upper_def byte_def)

lemma digit_plain: "is_ascii_digit c \<Longrightarrow> plain_byte c"
  by (auto simp: plain_byte_def is_ascii_digit_def)

subsection \<open>Scalar lines\<close>

text \<open>A line that is \<open>key = value\<close> of one of the two scalar families and does not end in white space.\<close>

lemma scalar_line_ok:
  assumes "l = fam @ key @ '' = '' @ v" and "fam = ''lxc.cgroup2.'' \<or> fam = ''lxc.net.''" and "v \<noteq> []" and "plain_byte (last v)"
  shows "validate_config_line l = Inr () \<and> trim l \<noteq> []"
proof -
  obtain m where v: "v = m @ [last v]" using assms(3) by (metis append_butlast_last_id)
  obtain rest where f: "fam = CHR ''l'' # rest" using assms(2) by auto
  have l: "l = CHR ''l'' # (rest @ key @ '' = '' @ m) @ [last v]" using assms(1) f v by (metis append.assoc append_Cons)
  have t: "trim l = l" unfolding l by (rule trim_plain_ends) (use assms(4) in \<open>auto simp: plain_byte_def byte_def\<close>)
  have s: "\<not> starts_with (trim_start l) ''#''"
  proof -
    have "trim_start l = l" unfolding l by (simp add: trim_start_def byte_def)
    then show ?thesis by (simp add: l starts_with_def)
  qed
  have c: "contains_str l '' = ''" unfolding assms(1) contains_sublist by (metis append.assoc sublist_appendI)
  have n: "strip_prefix l ''lxc.mount.entry = '' = None" using assms(1,2) by (auto simp: strip_prefix_def starts_with_def)
  have p: "starts_with l ''lxc.cgroup2.'' \<or> starts_with l ''lxc.net.''" using assms(1,2) by (auto simp: starts_with_def)
  show ?thesis unfolding validate_config_line_def using s t c n p l by (simp add: Let_def)
qed

definition memory_line :: "64 word \<Rightarrow> str" where
  "memory_line mib = ''lxc.cgroup2.'' @ ''memory.max'' @ '' = '' @ memory_bytes mib"

definition cpu_line :: "32 word \<Rightarrow> str" where
  "cpu_line vcpus = ''lxc.cgroup2.'' @ ''cpu.max'' @ '' = '' @ cpu_max vcpus"

definition net_line :: "nat \<Rightarrow> str \<Rightarrow> str \<Rightarrow> str" where
  "net_line i key v = ''lxc.net.'' @ (show_nat i @ ''.'' @ key) @ '' = '' @ v"

definition network_line_list :: "nat \<Rightarrow> lxc_network \<Rightarrow> str list" where
  "network_line_list i net =
     [net_line i ''type'' ''veth'', net_line i ''link'' (ln_bridge net), net_line i ''flags'' ''up''] @
     (case ln_vlan net of None \<Rightarrow> [] | Some vlan \<Rightarrow> [net_line i ''vlan.id'' (show_nat (unat vlan))]) @
     (case ln_ip net of None \<Rightarrow> [] | Some ip \<Rightarrow> [net_line i ''ipv4.address'' ip])"

fun networks_lines :: "nat \<Rightarrow> lxc_network list \<Rightarrow> str list" where
  "networks_lines i [] = []"
| "networks_lines i (net # nets) = network_line_list i net @ networks_lines (Suc i) nets"

lemma network_lines_unlines: "network_lines i net = unlines (network_line_list i net)"
  by (auto simp: network_lines_def network_line_list_def net_line_def unlines_def Let_def split: option.splits)

lemma networks_block_unlines: "networks_block i nets = unlines (networks_lines i nets)"
  by (induction nets arbitrary: i) (simp_all add: network_lines_unlines unlines_def)

lemma show_nat_last: "show_nat n \<noteq> []" "plain_byte (last (show_nat n))"
proof -
  show n: "show_nat n \<noteq> []" by (subst show_nat.simps) simp
  then have "last (show_nat n) \<in> set (show_nat n)" by simp
  with show_nat_all [of n] show "plain_byte (last (show_nat n))" by (auto simp: list_all_iff intro: digit_plain)
qed

lemma cidr_ends:
  assumes "ensure_safe_cidr ip field = Inr x"
  shows "ip \<noteq> []" "plain_byte (last ip)" "line_like ip"
proof -
  have b: "list_all (\<lambda>b. addr_byte b \<or> b = CHR ''/'' \<or> b = CHR ''+'') ip" and "\<exists>a p. ip = a @ ''/'' @ p"
    using ensure_safe_cidr_ok [OF assms] by blast+
  then show n: "ip \<noteq> []" by auto
  have p: "plain_byte c \<and> c \<noteq> CHR 0x0A \<and> c \<noteq> CHR 0x0D \<and> c \<noteq> CHR 0x00" if "c \<in> set ip" for c
    using b that by (auto simp: list_all_iff addr_byte_def is_ascii_hexdigit_def is_ascii_digit_def plain_byte_def byte_def)
  show "plain_byte (last ip)" using n p by simp
  show "line_like ip" using p by (auto simp: line_like_def)
qed

lemma safe_id_ends:
  assumes "safe_id i"
  shows "i \<noteq> []" "plain_byte (last i)" "line_like i"
  using assms safe_bytes_line by (auto simp: safe_id_def list_all_iff intro: id_byte_plain)

lemma network_lines_ok:
  assumes "validate_network net = Inr ()" and "l \<in> set (network_line_list i net)"
  shows "validate_config_line l = Inr () \<and> line_like l"
proof -
  have v: "safe_id (ln_bridge net)" "\<And>ip. ln_ip net = Some ip \<Longrightarrow> \<exists>x. ensure_safe_cidr ip ''network.ip'' = Inr x"
    using assms(1) by (auto simp: validate_network_def res_simps split: option.splits if_splits)
  have s: "validate_config_line (net_line i k w) = Inr () \<and> line_like (net_line i k w)"
    if "w \<noteq> []" "plain_byte (last w)" "line_like w" "line_like k" for k w
    using scalar_line_ok [of "net_line i k w" "''lxc.net.''" "show_nat i @ ''.'' @ k" w] that by (simp add: net_line_def)
  have lit: "plain_byte (CHR ''h'')" "plain_byte (CHR ''p'')" by (simp_all add: plain_byte_def byte_def)
  consider "l = net_line i ''type'' ''veth''" | "l = net_line i ''link'' (ln_bridge net)" | "l = net_line i ''flags'' ''up''"
    | vlan :: "16 word" where "l = net_line i ''vlan.id'' (show_nat (unat vlan))" | ip where "ln_ip net = Some ip" "l = net_line i ''ipv4.address'' ip"
    using assms(2) by (cases "ln_vlan net"; cases "ln_ip net") (auto simp: network_line_list_def)
  then show ?thesis
  proof cases
    case 2
    with s [of "ln_bridge net" "''link''"] safe_id_ends [OF v(1)] show ?thesis by simp
  next
    case (4 vlan)
    with s [of "show_nat (unat vlan)" "''vlan.id''"] show_nat_last show ?thesis by simp
  next
    case (5 ip)
    with v(2) obtain x where "ensure_safe_cidr ip ''network.ip'' = Inr x" by blast
    with s [of ip "''ipv4.address''"] cidr_ends 5 show ?thesis by simp
  qed (use s [of "''veth''" "''type''"] s [of "''up''" "''flags''"] lit in simp_all)
qed

lemma networks_lines_ok:
  "for_each validate_network nets = Inr () \<Longrightarrow> l \<in> set (networks_lines i nets) \<Longrightarrow> validate_config_line l = Inr () \<and> line_like l"
proof (induction nets arbitrary: i)
  case (Cons net nets)
  then show ?case using network_lines_ok [of net l i] by (auto simp: res_simps)
qed simp

subsection \<open>Bind mounts\<close>

definition mount_line :: "lxc_mount \<Rightarrow> str" where
  "mount_line m =
     ''lxc.mount.entry = '' @ trim (lm_source m) @ '' '' @ trim_start_slashes (lm_destination m) @ '' none '' @
     (if lm_read_only m then ''bind,ro,create=dir'' else ''bind,rw,create=dir'') @ '' 0 0''"

lemma safe_mount_path_ok:
  assumes "safe_mount_path p field = Inr u"
  shows "starts_with p ''/'' \<and> no_traversal p \<and> word_like p \<and> line_like p"
proof -
  have p: "starts_with p ''/''" "\<not> list_ex (\<lambda>c. c = ''..'') (split_on (CHR ''/'') p)"
      "\<forall>c \<in> set (chars p). \<not> is_whitespace c \<and> \<not> is_control c"
    using assms by (auto simp: safe_mount_path_def list_ex_iff split: if_splits)
  have "32 \<le> byte c" if "c \<in> set p" for c using no_control_bytes [of p c] p(3) that by blast
  from this [of "CHR 0x0A"] this [of "CHR 0x0D"] this [of "CHR 0x00"] have "line_like p" by (auto simp: line_like_def byte_def)
  with p show ?thesis by (auto simp: no_traversal_def word_like_def list_all_iff contains_char_def line_like_def starts_with_def)
qed

lemma trim_start_slashes_ok:
  assumes "no_traversal p" and "word_like p" and "line_like p" and "trim_start_slashes p \<noteq> []"
  defines "d \<equiv> trim_start_slashes p"
  shows "\<not> starts_with d ''/'' \<and> no_traversal d \<and> word_like d \<and> line_like d"
proof -
  define sl where "sl = takeWhile (\<lambda>c. c = CHR ''/'') p"
  have p: "p = sl @ d" by (simp add: sl_def d_def trim_start_slashes_def)
  have sl: "set sl \<subseteq> {CHR ''/''}" by (auto simp: sl_def dest: set_takeWhileD)
  then have "chars p = map (\<lambda>c. [c]) sl @ chars d \<and> set (split_on (CHR ''/'') d) \<subseteq> set (split_on (CHR ''/'') p)"
    unfolding p by (induction sl) (auto simp: byte_def)
  then have c: "set (chars d) \<subseteq> set (chars p)" "set (split_on (CHR ''/'') d) \<subseteq> set (split_on (CHR ''/'') p)" by auto
  have "set d \<subseteq> set p" unfolding d_def trim_start_slashes_def by (auto dest: set_dropWhileD)
  moreover have "d \<noteq> []" using assms(4) by (simp add: d_def)
  ultimately have "no_traversal d" "word_like d" "line_like d" using c assms(1-3)
    by (auto simp: no_traversal_def word_like_def line_like_def list_all_iff list_ex_iff contains_char_def)
  moreover have "\<not> starts_with d ''/''"
    using assms(4) hd_dropWhile [of "\<lambda>c. c = CHR ''/''" p] unfolding d_def trim_start_slashes_def
    by (cases "dropWhile (\<lambda>c. c = CHR ''/'') p") (auto simp: starts_with_def)
  ultimately show ?thesis by blast
qed

lemma mount_line_ok:
  assumes "validate_mount m = Inr ()" and "trim (lm_destination m) = lm_destination m"
  shows "validate_config_line (mount_line m) = Inr () \<and> line_like (mount_line m)"
proof -
  let ?src = "trim (lm_source m)" and ?dst = "trim_start_slashes (lm_destination m)"
  let ?opts = "if lm_read_only m then ''bind,ro,create=dir'' else ''bind,rw,create=dir''"
  let ?v = "?src @ CHR '' '' # ?dst @ CHR '' '' # ''none'' @ CHR '' '' # ?opts @ CHR '' '' # ''0'' @ CHR '' '' # ''0''"
  have v: "safe_mount_path ?src ''mount.source'' = Inr ()" "safe_mount_path (lm_destination m) ''mount.destination'' = Inr ()" "?dst \<noteq> []"
    using assms by (auto simp: validate_mount_def res_simps split: if_splits)
  note src = safe_mount_path_ok [OF v(1)]
  have dst: "\<not> starts_with ?dst ''/''" "no_traversal ?dst" "word_like ?dst" "line_like ?dst"
    using trim_start_slashes_ok [of "lm_destination m"] safe_mount_path_ok [OF v(2)] v(3) by blast+
  have lit: "word_like ''none''" "word_like ?opts" "word_like ''0''" by (auto simp: word_like_def byte_def)
  have "split_whitespace ?v = [?src, ?dst, ''none'', ?opts, ''0'', ''0'']"
    using src dst lit by (simp add: split_whitespace_word split_whitespace_last del: append.simps)
  then have e: "validate_lxc_mount_entry ?v = Inr ()"
    using src dst v(3) by (auto simp: validate_lxc_mount_entry_def)
  have l: "mount_line m = ''lxc.mount.entry = '' @ ?v" by (simp add: mount_line_def)
  have l': "mount_line m = CHR ''l'' # (''xc.mount.entry = '' @ ?src @ CHR '' '' # ?dst @ '' none '' @ ?opts @ '' 0 '') @ [CHR ''0'']"
    by (simp add: mount_line_def)
  have t: "trim (mount_line m) = mount_line m" unfolding l' by (rule trim_plain_ends) (auto simp: plain_byte_def byte_def)
  have "trim_start (mount_line m) = mount_line m" unfolding l' by (simp add: trim_start_def byte_def)
  then have s: "\<not> starts_with (trim_start (mount_line m)) ''#''" by (simp add: l starts_with_def)
  have "mount_line m = ''lxc.mount.entry'' @ '' = '' @ ?v" using l by simp
  then have c: "contains_str (mount_line m) '' = ''" by (simp only: contains_sublist sublist_appendI)
  have p: "strip_prefix (mount_line m) ''lxc.mount.entry = '' = Some ?v" unfolding strip_prefix_Some l by simp
  show ?thesis unfolding validate_config_line_def using s t c p e src dst by (auto simp: mount_line_def)
qed

subsection \<open>The whole block\<close>

definition config_lines :: "32 word \<Rightarrow> 64 word \<Rightarrow> lxc_network list \<Rightarrow> lxc_mount list \<Rightarrow> str list" where
  "config_lines vcpus mib nets mounts =
     [[], ''# --- DaygleVE limits & networking ---'', memory_line mib, cpu_line vcpus] @ networks_lines 0 nets @ map mount_line mounts"

lemma mounts_block_unlines:
  "mounts_block mounts = Inr ms \<Longrightarrow> ms = unlines (map mount_line mounts) \<and> list_all (\<lambda>m. validate_mount m = Inr ()) mounts"
  by (induction mounts arbitrary: ms) (auto simp: res_simps mount_entry_line_def mount_line_def unlines_def)

lemma config_block_unlines:
  assumes "config_block vcpus mib nets mounts = Inr block"
  shows "block = unlines (config_lines vcpus mib nets mounts) \<and> list_all (\<lambda>m. validate_mount m = Inr ()) mounts"
proof -
  obtain ms where "mounts_block mounts = Inr ms" using assms by (auto simp: config_block_def res_simps)
  with mounts_block_unlines assms show ?thesis
    by (auto simp: config_block_def config_lines_def unlines_def networks_block_unlines memory_line_def cpu_line_def)
qed

lemma limit_lines_ok:
  "validate_config_line (memory_line mib) = Inr () \<and> line_like (memory_line mib)"
  "validate_config_line (cpu_line vcpus) = Inr () \<and> line_like (cpu_line vcpus)"
proof -
  have z: "plain_byte (CHR ''0'')" by (simp add: plain_byte_def byte_def)
  show "validate_config_line (memory_line mib) = Inr () \<and> line_like (memory_line mib)"
    using scalar_line_ok [OF memory_line_def] show_nat_last by (simp add: memory_line_def memory_bytes_def)
  show "validate_config_line (cpu_line vcpus) = Inr () \<and> line_like (cpu_line vcpus)"
    using scalar_line_ok [OF cpu_line_def] z by (simp add: cpu_line_def cpu_max_def)
qed

text \<open>
  C28. What the service renders, the broker accepts. For networks that pass the service's own validation and bind mounts whose
  destination carries no surrounding white space, the configuration block of a container (limits, every network line and every
  \<open>lxc.mount.entry\<close>) passes the broker's independent line-by-line check whenever it fits the broker's 8192 bytes; so the container
  name is the only other thing the append can be refused for.
\<close>

theorem container_config_accepted:
  assumes "for_each validate_network nets = Inr ()" and "config_block vcpus mib nets mounts = Inr block"
    and "list_all (\<lambda>m. trim (lm_destination m) = lm_destination m) mounts" and "length block \<le> 8192"
  shows "validate_lxc_config_block block = Inr () \<and> (accepted (LxcConfigAppend name block) \<longleftrightarrow> validate_lxc_name name = Inr ())"
proof -
  let ?ls = "config_lines vcpus mib nets mounts"
  note b = config_block_unlines [OF assms(2)]
  have l: "trim l = [] \<or> validate_config_line l = Inr ()" "line_like l" if "l \<in> set ?ls" for l
  proof -
    have c: "validate_config_line ''# --- DaygleVE limits & networking ---'' = Inr ()" by code_simp
    consider "l = []" | "l = ''# --- DaygleVE limits & networking ---''" | "l = memory_line mib" | "l = cpu_line vcpus"
      | "l \<in> set (networks_lines 0 nets)" | m where "m \<in> set mounts" "l = mount_line m"
      using \<open>l \<in> set ?ls\<close> by (auto simp: config_lines_def)
    then have "(l = [] \<or> validate_config_line l = Inr ()) \<and> line_like l"
      by cases (use c limit_lines_ok networks_lines_ok [OF assms(1)] mount_line_ok b assms(3) in \<open>auto simp: list_all_iff\<close>)
    then show "trim l = [] \<or> validate_config_line l = Inr ()" "line_like l" by (auto simp: trim_def trim_start_def trim_end_def)
  qed
  have "lines block = ?ls" using b l(2) lines_unlines [of ?ls] by (auto simp: list_all_iff line_like_def)
  moreover have "\<not> contains_char block (CHR 0x00)"
    using b l(2) by (auto simp: contains_char_def unlines_def line_like_def)
  moreover have "block \<noteq> []" using b by (simp add: config_lines_def unlines_def)
  ultimately have "validate_lxc_config_block block = Inr ()"
    using assms(4) l(1) by (auto simp: validate_lxc_config_block_def res_simps)
  then show ?thesis by (auto simp: accepted_def res_simps)
qed

definition sample_nets :: "lxc_network list" where
  "sample_nets = [\<lparr>ln_bridge = ''vmbr0'', ln_vlan = Some 20, ln_ip = Some ''10.0.0.5/24''\<rparr>, \<lparr>ln_bridge = ''vmbr1'', ln_vlan = None, ln_ip = None\<rparr>]"

definition sample_mounts :: "lxc_mount list" where
  "sample_mounts = [\<lparr>lm_source = '' /srv/data'', lm_destination = ''//mnt/data'', lm_read_only = True\<rparr>]"

lemma limits_short: "length (memory_bytes mib) \<le> 20" "length (cpu_max vcpus) \<le> 27"
proof -
  have "length (show_nat (unat w)) \<le> 20" for w :: "64 word"
  proof (rule length_show_nat)
    have "unat w < 2 ^ 64" using unsigned_less [where 'a = nat, of w] by simp
    also have "\<dots> < 10 ^ 20" by simp
    finally show "unat w < 10 ^ 20" .
  qed simp
  then show "length (memory_bytes mib) \<le> 20" "length (cpu_max vcpus) \<le> 27" by (simp_all add: memory_bytes_def cpu_max_def)
qed

theorem container_config_accepted_witness:
  "\<exists>block. config_block 2 512 sample_nets sample_mounts = Inr block \<and> accepted (LxcConfigAppend ''web'' block)"
proof -
  have m: "is_ok (mounts_block sample_mounts)" "is_ok (bind_res (mounts_block sample_mounts) (\<lambda>ms. ensure (length ms < 500) (internal [])))" by code_simp+
  then obtain ms where ms: "mounts_block sample_mounts = Inr ms" "length ms < 500"
    by (cases "mounts_block sample_mounts") (auto simp: is_ok_def ensure_def split: if_splits)
  have nb: "length (networks_block 0 sample_nets) < 500" by code_simp
  obtain block where b: "config_block 2 512 sample_nets sample_mounts = Inr block" using ms by (simp add: config_block_def)
  then have l: "length block \<le> 8192" using ms nb limits_short(1) [of 512] limits_short(2) [of 2] by (auto simp: config_block_def)
  have n: "for_each validate_network sample_nets = Inr ()" by code_simp
  have t: "list_all (\<lambda>m. trim (lm_destination m) = lm_destination m) sample_mounts" by code_simp
  have "validate_lxc_name ''web'' = Inr ()" by code_simp
  with container_config_accepted [OF n b t l, of "''web''"] b show ?thesis by blast
qed

end
