(* ===== verification/Vm_Model.thy ===== *)
theory Vm_Model
  imports Containers "HOL-Library.Product_Lexorder"
begin

section \<open>Virtual machines: data, validation and rendering (src/src/services/kvm.rs)\<close>

text \<open>
  The part of the KVM service that touches no state: the records of a virtual machine and of the requests, the
  validators, the readers of \<open>virsh\<close> output, the autostart queue, the search for ISO images, the domain XML, the
  nftables batch of a guest and the two files of a cloud-init seed. Three random bytes stand for the UUID that
  \<open>generate_mac\<close> draws, and the decoder of \<open>base64\<close> is an argument. Arithmetic on \<open>u16\<close> wraps, as in a release build.
\<close>

abbreviation nl :: str where
  "nl \<equiv> [CHR 0x0A]"

subsection \<open>Data\<close>

datatype vm_state = VmRunning | VmStopped | VmPaused | VmTransitioning | VmError

datatype disk_bus = BusVirtio | BusScsi | BusSata

datatype nic_model = NicVirtio | NicE1000 | NicRtl8139

datatype firmware = Uefi | Bios

datatype display_protocol = DisplayVnc | DisplaySpice

datatype vm_firewall_action = FwAccept | FwDrop | FwAcceptAll | FwDropAll

datatype vm_firewall_direction = DirIn | DirOut

datatype vm_power_action = PowerStart | PowerStop | PowerReboot | PowerReset | PowerPause | PowerResume | PowerShutdown

datatype vm_snapshot_type = SnapDisk | SnapRam

record vm_disk =
  vd_dataset :: str
  vd_size_gib :: "64 word"
  vd_bus :: disk_bus

record vm_nic =
  vn_bridge :: str
  vn_model :: nic_model
  vn_mac :: "str option"
  vn_vlan :: "16 word option"

record gpu_assignment =
  ga_pci_address :: str

record pci_assignment =
  pa_pci_address :: str

record usb_assignment =
  ua_vendor_id :: str
  ua_product_id :: str

record vm_firewall_rule =
  vr_action :: vm_firewall_action
  vr_direction :: vm_firewall_direction
  vr_cidr :: "str option"

record vm_firewall =
  vf_enabled :: bool
  vf_rules :: "vm_firewall_rule list"

record vm =
  vm_id :: str
  vm_name :: str
  vm_power_state :: vm_state
  vm_vcpus :: "32 word"
  vm_memory_mib :: "64 word"
  vm_firmware :: firmware
  vm_display :: display_protocol
  vm_disks :: "vm_disk list"
  vm_nics :: "vm_nic list"
  vm_gpus :: "gpu_assignment list"
  vm_usb_devices :: "usb_assignment list"
  vm_pci_devices :: "pci_assignment list"
  vm_cdrom :: "str option"
  vm_cloud_init_iso :: "str option"
  vm_description :: "str option"
  vm_guest_agent :: bool
  vm_fw :: vm_firewall
  vm_template :: bool
  vm_autostart :: bool
  vm_startup_order :: "32 word option"
  vm_tags :: "str list"
  vm_pool :: "str option"
  vm_created_at :: str
  vm_updated_at :: "str option"

record vm_summary =
  vs_id :: str
  vs_name :: str
  vs_state :: vm_state
  vs_vcpus :: "32 word"
  vs_memory_mib :: "64 word"
  vs_template :: bool
  vs_autostart :: bool
  vs_tags :: "str list"
  vs_pool :: "str option"
  vs_created_at :: str

record cloud_init_network =
  cn_interface :: str
  cn_address :: str
  cn_gateway :: "str option"
  cn_dns :: "str list"

record cloud_init_request =
  ci_hostname :: "str option"
  ci_default_user :: "str option"
  ci_ssh_keys :: "str list"
  ci_network :: "cloud_init_network option"
  ci_root_password :: "str option"

record create_vm_request =
  cv_name :: str
  cv_vcpus :: "32 word"
  cv_memory_mib :: "64 word"
  cv_firmware :: firmware
  cv_display :: display_protocol
  cv_disks :: "vm_disk list"
  cv_nics :: "vm_nic list"
  cv_gpus :: "gpu_assignment list"
  cv_usb_devices :: "usb_assignment list"
  cv_pci_devices :: "pci_assignment list"
  cv_cdrom :: "str option"
  cv_cloud_init :: "cloud_init_request option"
  cv_description :: "str option"
  cv_guest_agent :: bool
  cv_firewall :: vm_firewall
  cv_template :: bool
  cv_autostart :: bool
  cv_startup_order :: "32 word option"
  cv_tags :: "str list"
  cv_pool :: "str option"
  cv_start :: bool

subsection \<open>Validation\<close>

definition validate_disk :: "vm_disk \<Rightarrow> unit api_result" where
  "validate_disk disk =
     bind_res (ensure_safe_zfs_dataset (trim (vd_dataset disk))) (\<lambda>_.
       if vd_size_gib disk = 0 then Inl (validation ''disk size_gib must be >= 1'') else Inr ())"

definition validate_disks :: "vm_disk list \<Rightarrow> unit api_result" where
  "validate_disks disks = for_each validate_disk disks"

definition validate_nic :: "vm_nic \<Rightarrow> unit api_result" where
  "validate_nic nic =
     bind_res (ensure_safe_id (vn_bridge nic)) (\<lambda>_.
     bind_res (case vn_vlan nic of
                 None \<Rightarrow> Inr ()
               | Some vlan \<Rightarrow> if 1 \<le> vlan \<and> vlan \<le> 4094 then Inr () else Inl (validation ''NIC VLAN must be in 1..=4094'')) (\<lambda>_.
       case vn_mac nic of None \<Rightarrow> Inr () | Some mac \<Rightarrow> bind_res (ensure_safe_mac mac) (\<lambda>_. Inr ())))"

definition validate_nics :: "vm_nic list \<Rightarrow> unit api_result" where
  "validate_nics nics = for_each validate_nic nics"

definition validate_vm_request :: "create_vm_request \<Rightarrow> unit api_result" where
  "validate_vm_request req =
     (if trim (cv_name req) = [] then Inl (validation ''name must not be empty'')
      else
        bind_res (ensure_safe_id (cv_name req)) (\<lambda>_.
          if cv_vcpus req = 0 then Inl (validation ''vcpus must be >= 1'')
          else if cv_memory_mib req = 0 then Inl (validation ''memory_mib must be >= 1'')
          else bind_res (validate_disks (cv_disks req)) (\<lambda>_. validate_nics (cv_nics req))))"

text \<open>Two lower-case hexadecimal digits, and an address in QEMU's own range.\<close>

definition hex2 :: "8 word \<Rightarrow> str" where
  "hex2 b = [hex_digit (unat b div 16), hex_digit (unat b mod 16)]"

definition generate_mac :: "8 word \<times> 8 word \<times> 8 word \<Rightarrow> str" where
  "generate_mac = (\<lambda>(a, b, c). ''52:54:00:'' @ hex2 a @ '':'' @ hex2 b @ '':'' @ hex2 c)"

text \<open>The closure of \<open>normalize_nics\<close>, with the lower-case addresses seen so far; \<open>rnd i\<close> is drawn for the \<open>i\<close>-th interface.\<close>

fun assign_macs :: "(nat \<Rightarrow> 8 word \<times> 8 word \<times> 8 word) \<Rightarrow> nat \<Rightarrow> str list \<Rightarrow> vm_nic list \<Rightarrow> vm_nic list api_result" where
  "assign_macs rnd i seen [] = Inr []"
| "assign_macs rnd i seen (nic # nics) =
     (let mac = (case vn_mac nic of Some m \<Rightarrow> m | None \<Rightarrow> generate_mac (rnd i));
          key = to_ascii_lowercase mac
      in if key \<in> set seen then Inl (conflict ''duplicate VM NIC MAC address'')
         else bind_res (assign_macs rnd (Suc i) (key # seen) nics) (\<lambda>rest. Inr (nic\<lparr>vn_mac := Some mac\<rparr> # rest)))"

definition normalize_nics :: "(nat \<Rightarrow> 8 word \<times> 8 word \<times> 8 word) \<Rightarrow> vm_nic list \<Rightarrow> vm_nic list api_result" where
  "normalize_nics rnd nics = bind_res (validate_nics nics) (\<lambda>_. assign_macs rnd 0 [] nics)"

fun gpu_loop :: "str list \<Rightarrow> gpu_assignment list \<Rightarrow> unit api_result" where
  "gpu_loop seen [] = Inr ()"
| "gpu_loop seen (gpu # gpus) =
     bind_res (ensure_safe_pci_address (ga_pci_address gpu)) (\<lambda>_.
       let key = to_ascii_lowercase (ga_pci_address gpu) in
       if key \<in> set seen then Inl (conflict ''duplicate GPU assignment'') else gpu_loop (key # seen) gpus)"

definition validate_gpu_assignments :: "gpu_assignment list \<Rightarrow> unit api_result" where
  "validate_gpu_assignments gpus = gpu_loop [] gpus"

definition validate_pci_assignments :: "pci_assignment list \<Rightarrow> unit api_result" where
  "validate_pci_assignments devices =
     for_each (\<lambda>dev. bind_res (ensure_safe_pci_address (pa_pci_address dev)) (\<lambda>_. Inr ())) devices"

definition validate_usb_assignments :: "usb_assignment list \<Rightarrow> unit api_result" where
  "validate_usb_assignments devices =
     for_each (\<lambda>dev.
       if \<not> is_hex4 (ua_vendor_id dev) \<or> \<not> is_hex4 (ua_product_id dev)
       then Inl (validation (''USB id must be four hex digits: '' @ ua_vendor_id dev @ '':'' @ ua_product_id dev))
       else Inr ()) devices"

definition validate_rule_cidr :: "vm_firewall_rule \<Rightarrow> unit api_result" where
  "validate_rule_cidr rule =
     (case vr_cidr rule of None \<Rightarrow> Inr () | Some c \<Rightarrow> bind_res (ensure_safe_cidr c ''firewall rule cidr'') (\<lambda>_. Inr ()))"

definition validate_vm_rule :: "vm_firewall_rule \<Rightarrow> unit api_result" where
  "validate_vm_rule rule =
     bind_res
       (if vr_action rule \<in> {FwAcceptAll, FwDropAll} then
          (if vr_cidr rule \<noteq> None then Inl (validation ''accept_all/drop_all rules must not carry a cidr'') else Inr ())
        else
          bind_res (ok_or (vr_cidr rule) (validation ''accept/drop rules require a cidr'')) (\<lambda>c.
            bind_res (ensure_safe_cidr c ''firewall rule cidr'') (\<lambda>_. Inr ())))
       (\<lambda>_. validate_rule_cidr rule)"

definition validate_vm_firewall :: "vm_firewall \<Rightarrow> unit api_result" where
  "validate_vm_firewall fw = for_each validate_vm_rule (vf_rules fw)"

subsection \<open>States, summaries and the autostart queue\<close>

definition map_vm_state :: "str \<Rightarrow> vm_state" where
  "map_vm_state s =
     (let t = trim s in
      if t = ''running'' \<or> t = ''idle'' then VmRunning
      else if t = ''paused'' \<or> t = ''pmsuspended'' then VmPaused
      else if t = ''in shutdown'' then VmTransitioning
      else if t = ''shut off'' then VmStopped
      else if t = ''crashed'' then VmError
      else VmStopped)"

definition vm_summary_of :: "vm \<Rightarrow> vm_summary" where
  "vm_summary_of v =
     \<lparr>vs_id = vm_id v, vs_name = vm_name v, vs_state = vm_power_state v, vs_vcpus = vm_vcpus v, vs_memory_mib = vm_memory_mib v,
      vs_template = vm_template v, vs_autostart = vm_autostart v, vs_tags = vm_tags v, vs_pool = vm_pool v,
      vs_created_at = vm_created_at v\<rparr>"

definition startup_key :: "vm \<Rightarrow> 32 word \<times> str" where
  "startup_key v = (unwrap_or (vm_startup_order v) (- 1), vm_created_at v)"

definition autostart_queue :: "vm list \<Rightarrow> vm list" where
  "autostart_queue vms = sort_key startup_key (filter (\<lambda>v. vm_autostart v \<and> \<not> vm_template v) vms)"

definition snapshot_datasets :: "vm \<Rightarrow> str list api_result" where
  "snapshot_datasets v =
     (let ds = filter (\<lambda>d. d \<noteq> []) (map (trim \<circ> vd_dataset) (vm_disks v)) in
      bind_res (for_each (\<lambda>d. bind_res (ensure_safe_zfs_dataset d) (\<lambda>_. Inr ())) ds) (\<lambda>_. Inr ds))"

subsection \<open>Reading the output of the tools\<close>

definition parse_vnc_display :: "str \<Rightarrow> str option" where
  "parse_vnc_display display =
     Option.bind (rsplit_once (CHR '':'') display) (\<lambda>(host, disp).
     Option.bind (parse_unsigned 65535 (trim disp)) (\<lambda>n.
       Some ((if host = [] then ''127.0.0.1'' else host) @ '':'' @ show_nat (unat (5900 + of_nat n :: 16 word)))))"

definition port_of_pairs :: "str list \<Rightarrow> nat option" where
  "port_of_pairs pairs =
     (case List.map_filter (\<lambda>pair. Option.bind (strip_prefix pair ''port='') (parse_unsigned 65535)) pairs of
        [] \<Rightarrow> None | p # _ \<Rightarrow> Some p)"

definition parse_spice_port :: "str \<Rightarrow> nat option" where
  "parse_spice_port uri =
     (case Option.bind (nth_opt (split_on (CHR ''?'') uri) 1) (\<lambda>query. port_of_pairs (split_on (CHR ''&'') query)) of
        Some port \<Rightarrow> Some port
      | None \<Rightarrow>
          (let after_scheme = unwrap_or (strip_prefix uri ''spice://'') uri;
               host_port = takeWhile (\<lambda>c. c \<noteq> CHR ''/'' \<and> c \<noteq> CHR ''?'') after_scheme
           in Option.bind (rsplit_once (CHR '':'') host_port) (\<lambda>(_, port). parse_unsigned 65535 port)))"

definition spice_connection_file :: "str \<Rightarrow> str \<Rightarrow> nat \<Rightarrow> str" where
  "spice_connection_file name host port =
     (let title = concat (filter (\<lambda>c. \<not> is_control c \<and> c \<noteq> nl) (chars name)) in
      ''[virt-viewer]'' @ nl @ ''type=spice'' @ nl @ ''host='' @ host @ nl @ ''port='' @ show_nat port @ nl @
      ''title='' @ title @ '' - SPICE'' @ nl @ ''delete-this-file=1'' @ nl @ ''toggle-fullscreen=shift+f11'' @ nl @
      ''release-cursor=shift+f12'' @ nl)"

definition trim_end_commas :: "str \<Rightarrow> str" where
  "trim_end_commas s = rev (dropWhile (\<lambda>c. c = CHR '','') (rev s))"

definition info_line_value :: "str \<Rightarrow> str \<Rightarrow> str option" where
  "info_line_value key line =
     Option.bind (split_once (CHR '':'') (trim line)) (\<lambda>(k, v).
       let value = trim (trim_end_commas (trim v)) in
       if trim k = key \<and> value \<noteq> [] then Some value else None)"

definition parse_guest_info_field :: "str \<Rightarrow> str \<Rightarrow> str option" where
  "parse_guest_info_field out key =
     (case List.map_filter (info_line_value key) (lines out) of [] \<Rightarrow> None | v # _ \<Rightarrow> Some v)"

fun ips_loop :: "str list \<Rightarrow> str list \<Rightarrow> str list" where
  "ips_loop ips [] = ips"
| "ips_loop ips (line # rest) =
     (let cols = split_whitespace line in
      if length cols < 4 \<or> (cols ! 2 \<noteq> ''ipv4'' \<and> cols ! 2 \<noteq> ''ipv6'') then ips_loop ips rest
      else
        (let addr = hd (split_on (CHR ''/'') (cols ! 3)) in
         ips_loop (if addr \<noteq> [] \<and> addr \<notin> set ips then ips @ [addr] else ips) rest))"

definition parse_domifaddr_ips :: "str \<Rightarrow> str list" where
  "parse_domifaddr_ips out = ips_loop [] (drop 2 (lines out))"

end
