(* ===== verification/Vm_Service.thy ===== *)
theory Vm_Service
  imports Vm_Render
begin

section \<open>Virtual machines: the service (src/src/services/kvm.rs)\<close>

text \<open>
  The state of \<open>KvmService\<close> (the sidecar records, the host and the pending console tickets) and every operation of it.
  What depends on the clock, on random identifiers, on the content of directories and on third-party decoders comes from
  \<open>vm_env\<close>: \<open>ve_seed_iso\<close> and \<open>ve_saved_image\<close> are what \<open>genisoimage\<close> and \<open>virsh save\<close> leave in the file they are
  given when they succeed, \<open>ve_virtual_size\<close> and \<open>ve_base64\<close> are what \<open>serde_json\<close> and \<open>base64\<close> read from a text. The
  pause between two automatic starts and the log messages are left out.
\<close>

datatype console_target = TargetVnc str | TargetSerial str

record vm_ticket =
  vk_vm_id :: str
  vk_target :: console_target
  vk_expires_at :: nat

record vm_service =
  kv_store :: "vm jstore"
  kv_host :: host
  kv_tickets :: "(str \<times> vm_ticket) list"

record vm_env =
  ve_now :: str
  ve_new_id :: str
  ve_uuid :: str
  ve_instant :: nat
  ve_ticket_expiry :: str
  ve_timestamp :: str
  ve_nanos :: str
  ve_stamp :: "int \<Rightarrow> str option"
  ve_macs :: "nat \<Rightarrow> 8 word \<times> 8 word \<times> 8 word"
  ve_base64 :: "str \<Rightarrow> str option"
  ve_virtual_size :: "str \<Rightarrow> nat option"
  ve_seed_iso :: str
  ve_saved_image :: str
  ve_created :: "str \<Rightarrow> str option"
  ve_sidecar :: "str \<Rightarrow> str \<Rightarrow> str"
  ve_sidecar_description :: "str \<Rightarrow> str option"
  ve_iommu_link :: "str \<Rightarrow> str option"
  ve_state_dir :: str
  ve_spice_listen :: str
  ve_iso_dir :: "str \<times> dir_entry list"
  ve_iso_roots :: "(str \<times> str \<times> dir_entry list) list"

definition on_vms :: "(vm jstore \<Rightarrow> 'a \<times> vm jstore) \<Rightarrow> vm_service \<Rightarrow> 'a \<times> vm_service" where
  "on_vms f s = (let (x, st) = f (kv_store s) in (x, s\<lparr>kv_store := st\<rparr>))"

definition on_vhost :: "(host \<Rightarrow> 'a \<times> host) \<Rightarrow> vm_service \<Rightarrow> 'a \<times> vm_service" where
  "on_vhost f s = (let (x, h) = f (kv_host s) in (x, s\<lparr>kv_host := h\<rparr>))"

text \<open>\<open>let _ = ..\<close> on the host.\<close>

definition besides :: "(host \<Rightarrow> 'a \<times> host) \<Rightarrow> vm_service \<Rightarrow> vm_service" where
  "besides f s = snd (on_vhost f s)"

definition map_err :: "(app_error \<Rightarrow> app_error) \<Rightarrow> 'a api_result \<times> 's \<Rightarrow> 'a api_result \<times> 's" where
  "map_err f m = (case m of (Inl e, s) \<Rightarrow> (Inl (f e), s) | (Inr x, s) \<Rightarrow> (Inr x, s))"

subsection \<open>Asking libvirt\<close>

definition CONNECT :: str where
  "CONNECT = ''qemu:///system''"

definition virsh_args :: "str list \<Rightarrow> str list" where
  "virsh_args args = [''-c'', CONNECT] @ args"

definition virsh :: "str list \<Rightarrow> host \<Rightarrow> str api_result \<times> host" where
  "virsh args h = run ''virsh'' (virsh_args args) h"

definition virsh_opt :: "str list \<Rightarrow> host \<Rightarrow> str option api_result \<times> host" where
  "virsh_opt args h = run_optional ''virsh'' (virsh_args args) h"

definition vm_live_state :: "str \<Rightarrow> host \<Rightarrow> vm_state option \<times> host" where
  "vm_live_state i h =
     (case run_optional ''virsh'' (virsh_args [''domstate'', i]) h of
        (Inr (Some s), h) \<Rightarrow> (Some (map_vm_state (trim s)), h)
      | (_, h) \<Rightarrow> (None, h))"

definition hypervisor_unreachable :: "host \<Rightarrow> bool \<times> host" where
  "hypervisor_unreachable h =
     (let (r, h) = run_optional ''virsh'' (virsh_args [''hostname'']) h in (\<not> is_ok r, h))"

definition unconfirmed_error :: app_error where
  "unconfirmed_error =
     conflict (''cannot confirm the VM is stopped: the libvirt connection is unavailable '' @
       ''(check libvirtd, the qemu:///system socket and permissions); try again'')"

definition vm_require_stopped :: "str \<Rightarrow> str \<Rightarrow> host \<Rightarrow> unit api_result \<times> host" where
  "vm_require_stopped i action h =
     (case vm_live_state i h of
        (Some VmStopped, h) \<Rightarrow> (Inr (), h)
      | (Some _, h) \<Rightarrow> (Inl (conflict (''stop the VM before '' @ action)), h)
      | (None, h) \<Rightarrow>
          (let (unreachable, h) = hypervisor_unreachable h in
           (if unreachable then Inl unconfirmed_error else Inr (), h)))"

definition ensure_dir :: "str \<Rightarrow> host \<Rightarrow> unit api_result \<times> host" where
  "ensure_dir dir h =
     (case next_file_error h of
        (Some e, h) \<Rightarrow> (Inl (internal (''create '' @ dir @ '': '' @ e)), h)
      | (None, h) \<Rightarrow> (Inr (), h))"

definition write_text :: "str \<Rightarrow> str \<Rightarrow> host \<Rightarrow> unit api_result \<times> host" where
  "write_text path body h =
     (case write_file path body h of
        (Inl e, h) \<Rightarrow> (Inl (internal (''write '' @ path @ '': '' @ e)), h)
      | (Inr _, h) \<Rightarrow> (Inr (), h))"

text \<open>A staged file: written below the state directory, given to \<open>virsh\<close>, removed again.\<close>

definition staged :: "str \<Rightarrow> str \<Rightarrow> str \<Rightarrow> str list \<Rightarrow> host \<Rightarrow> unit api_result \<times> host" where
  "staged dir path body args h =
     bind_st (ensure_dir dir h) (\<lambda>_ h.
     bind_st (write_text path body h) (\<lambda>_ h.
       let (r, h) = virsh (args @ [path]) h;
           h = remove_file path h
       in (bind_res r (\<lambda>_. Inr ()), h)))"

definition vm_define :: "vm_env \<Rightarrow> vm \<Rightarrow> host \<Rightarrow> unit api_result \<times> host" where
  "vm_define env v h =
     bind_st (ensure_safe_id (vm_id v), h) (\<lambda>_ h.
       staged (ve_state_dir env @ ''/tmp'') (ve_state_dir env @ ''/tmp/'' @ vm_id v @ ''.xml'') (domain_xml v (ve_spice_listen env)) [''define''] h)"

definition device_command :: "vm_env \<Rightarrow> str \<Rightarrow> str \<Rightarrow> str \<Rightarrow> host \<Rightarrow> unit api_result \<times> host" where
  "device_command env i device_xml subcommand h =
     bind_st (ensure_safe_id i, h) (\<lambda>_ h.
       staged (ve_state_dir env @ ''/tmp'') (ve_state_dir env @ ''/tmp/'' @ ve_uuid env @ ''-'' @ subcommand @ ''.xml'') device_xml [subcommand, i] h)"

definition attach_device :: "vm_env \<Rightarrow> str \<Rightarrow> str \<Rightarrow> host \<Rightarrow> unit api_result \<times> host" where
  "attach_device env i device_xml h = device_command env i device_xml ''attach-device'' h"

definition detach_device :: "vm_env \<Rightarrow> str \<Rightarrow> str \<Rightarrow> host \<Rightarrow> unit api_result \<times> host" where
  "detach_device env i device_xml h = device_command env i device_xml ''detach-device'' h"

subsection \<open>Disks on ZFS\<close>

text \<open>Whether a dataset exists: an error that says it does not is an answer, any other error is one.\<close>

definition dataset_exists :: "str \<Rightarrow> app_error \<Rightarrow> host \<Rightarrow> bool api_result \<times> host" where
  "dataset_exists dataset not_installed h =
     (case run_optional ''zfs'' (list_name_args dataset) h of
        (Inr (Some _), h) \<Rightarrow> (Inr True, h)
      | (Inr None, h) \<Rightarrow> (Inl not_installed, h)
      | (Inl e, h) \<Rightarrow> (if is_missing_dataset e then Inr False else Inl e, h))"

definition zvol_size :: "64 word \<Rightarrow> str" where
  "zvol_size gib = show_nat (unat gib) @ ''G''"

definition ensure_zvol :: "vm_disk \<Rightarrow> host \<Rightarrow> bool api_result \<times> host" where
  "ensure_zvol disk h =
     bind_st (ensure_safe_zfs_dataset (trim (vd_dataset disk)), h) (\<lambda>dataset h.
       if vd_size_gib disk = 0 then (Inl (validation ''disk size_gib must be >= 1''), h)
       else
         bind_st (dataset_exists dataset (hypervisor ''zfs is not installed; cannot provision the VM disk'') h) (\<lambda>exists h.
           if exists then (Inr False, h)
           else
             bind_st (run_ok ''zfs'' [''create'', ''-V'', zvol_size (vd_size_gib disk), dataset] h) (\<lambda>_ h. (Inr True, h))))"

text \<open>The loop of \<open>create\<close> over the disks: the datasets that were created, oldest first.\<close>

fun ensure_zvols :: "vm_disk list \<Rightarrow> host \<Rightarrow> str list api_result \<times> host" where
  "ensure_zvols [] h = (Inr [], h)"
| "ensure_zvols (disk # disks) h =
     bind_st (ensure_zvol disk h) (\<lambda>new h.
     bind_st (ensure_zvols disks h) (\<lambda>created h.
       (Inr (if new then trim (vd_dataset disk) # created else created), h)))"

fun cleanup_created_zvols :: "str list \<Rightarrow> host \<Rightarrow> host" where
  "cleanup_created_zvols [] h = h"
| "cleanup_created_zvols (dataset # datasets) h =
     cleanup_created_zvols datasets (snd (run_ok ''zfs'' [''destroy'', ''-r'', dataset] h))"

definition div_ceil_gib :: "nat \<Rightarrow> nat" where
  "div_ceil_gib n = (n + 2 ^ 30 - 1) div 2 ^ 30"

definition import_size :: "nat option \<Rightarrow> nat \<Rightarrow> nat api_result" where
  "import_size size_gib detected_gib =
     (case size_gib of
        None \<Rightarrow> Inr detected_gib
      | Some g \<Rightarrow>
          if g = 0 then Inl (validation ''size_gib must be >= 1'')
          else if g < detected_gib
            then Inl (validation (''size_gib ('' @ show_nat g @ '') is smaller than the image's virtual size ('' @ show_nat detected_gib @ '' GiB)''))
          else Inr g)"

definition import_disk_image :: "vm_env \<Rightarrow> str \<Rightarrow> str \<Rightarrow> nat option \<Rightarrow> host \<Rightarrow> vm_disk api_result \<times> host" where
  "import_disk_image env source_path dataset size_gib h =
     bind_st (ensure_safe_zfs_dataset (trim dataset), h) (\<lambda>dataset h.
     bind_st (dataset_exists dataset (hypervisor ''zfs is not installed; cannot import the disk image'') h) (\<lambda>exists h.
       if exists then (Inl (validation ''target dataset already exists; choose a new dataset for the import''), h)
       else
         bind_st (run ''qemu-img'' [''info'', ''--output=json'', source_path] h) (\<lambda>info h.
         bind_st (ok_or (ve_virtual_size env info) (hypervisor ''could not determine the disk image's virtual size''), h) (\<lambda>bytes h.
         bind_st (import_size size_gib (max (div_ceil_gib bytes) 1), h) (\<lambda>target_gib h.
         bind_st (run_ok ''zfs'' [''create'', ''-V'', show_nat target_gib @ ''G'', dataset] h) (\<lambda>_ h.
           case run_ok ''qemu-img'' [''convert'', ''-O'', ''raw'', source_path, ''/dev/zvol/'' @ dataset] h of
             (Inl e, h) \<Rightarrow> (Inl e, snd (run_ok ''zfs'' [''destroy'', ''-r'', dataset] h))
           | (Inr _, h) \<Rightarrow> (Inr \<lparr>vd_dataset = dataset, vd_size_gib = of_nat target_gib, vd_bus = BusVirtio\<rparr>, h)))))))"

subsection \<open>Firewall and cloud-init on the host\<close>

definition run_nft_batch :: "vm_env \<Rightarrow> str \<Rightarrow> str \<Rightarrow> host \<Rightarrow> unit api_result \<times> host" where
  "run_nft_batch env i batch h =
     (let dir = ve_state_dir env @ ''/firewall''; path = dir @ ''/'' @ i @ ''.nft'' in
      bind_st (ensure_dir dir h) (\<lambda>_ h.
      bind_st (write_text path batch h) (\<lambda>_ h.
        run_ok ''nft'' [''-f'', path] h)))"

definition vm_apply_firewall :: "vm_env \<Rightarrow> str \<Rightarrow> vm \<Rightarrow> bool \<Rightarrow> host \<Rightarrow> unit api_result \<times> host" where
  "vm_apply_firewall env i v enabled h =
     bind_st (ensure_safe_id i, h) (\<lambda>i h.
     bind_st (if enabled then nft_firewall_batch (firewall_table i) (vm_fw v) (vm_nics v)
              else Inr (firewall_removal_batch (firewall_table i)), h) (\<lambda>batch h.
       run_nft_batch env i batch h))"

definition seed_args :: "str \<Rightarrow> str \<Rightarrow> str list" where
  "seed_args seed seed_dir = [''-quiet'', ''-output'', seed, ''-volid'', ''cidata'', ''-joliet'', ''-rock'', seed_dir]"

definition seed_failed :: app_error where
  "seed_failed = hypervisor ''could not generate the cloud-init seed ISO (install genisoimage or xorriso)''"

definition make_seed :: "vm_env \<Rightarrow> str \<Rightarrow> str \<Rightarrow> host \<Rightarrow> str api_result \<times> host" where
  "make_seed env seed seed_dir h =
     (case run_optional ''genisoimage'' (seed_args seed seed_dir) h of
        (Inl e, h) \<Rightarrow> (Inl e, h)
      | (Inr (Some _), h) \<Rightarrow> (Inr seed, set_file seed (ve_seed_iso env) h)
      | (Inr None, h) \<Rightarrow>
          (case run_ok ''xorriso'' ([''-as'', ''mkisofs''] @ seed_args seed seed_dir) h of
             (Inl _, h) \<Rightarrow> (Inl seed_failed, h)
           | (Inr _, h) \<Rightarrow> (Inr seed, set_file seed (ve_seed_iso env) h)))"

definition seed_iso_path :: "vm_env \<Rightarrow> str \<Rightarrow> str" where
  "seed_iso_path env name = ve_state_dir env @ ''/cloud-init/'' @ name @ ''-seed.iso''"

definition create_cloud_init_iso :: "vm_env \<Rightarrow> str \<Rightarrow> cloud_init_request \<Rightarrow> host \<Rightarrow> str api_result \<times> host" where
  "create_cloud_init_iso env name req h =
     (let dir = ve_state_dir env @ ''/cloud-init''; seed_dir = dir @ ''/'' @ name in
      bind_st (ensure_safe_id name, h) (\<lambda>_ h.
      bind_st (validate_cloud_init (ve_base64 env) req, h) (\<lambda>_ h.
      bind_st (ensure_dir dir h) (\<lambda>_ h.
      bind_st (ensure_dir seed_dir h) (\<lambda>_ h.
      bind_st (write_text (seed_dir @ ''/meta-data'') (cloud_init_meta_data req (ve_uuid env)) h) (\<lambda>_ h.
      bind_st (write_text (seed_dir @ ''/user-data'') (cloud_init_user_data (ve_base64 env) req) h) (\<lambda>_ h.
        make_seed env (seed_iso_path env name) seed_dir h)))))))"

subsection \<open>Reading\<close>

definition vm_get_stored :: "str \<Rightarrow> vm_service \<Rightarrow> vm api_result \<times> vm_service" where
  "vm_get_stored i s =
     bind_st (on_vms (Store.get i) s) (\<lambda>x s. (ok_or x (not_found (''vm '' @ i @ '' not found'')), s))"

definition vm_overlay :: "vm \<Rightarrow> vm_service \<Rightarrow> vm \<times> vm_service" where
  "vm_overlay v s =
     (let (st, s) = on_vhost (vm_live_state (vm_id v)) s in (v\<lparr>vm_power_state := unwrap_or st (vm_power_state v)\<rparr>, s))"

fun vm_summaries :: "vm list \<Rightarrow> vm_service \<Rightarrow> vm_summary list \<times> vm_service" where
  "vm_summaries [] s = ([], s)"
| "vm_summaries (v # vs) s =
     (let (v, s) = vm_overlay v s; (rest, s) = vm_summaries vs s in (vm_summary_of v # rest, s))"

definition vm_list :: "vm_service \<Rightarrow> vm_summary list api_result \<times> vm_service" where
  "vm_list s = bind_st (on_vms Store.list s) (\<lambda>vms s. let (out, s) = vm_summaries vms s in (Inr out, s))"

definition vm_get :: "str \<Rightarrow> vm_service \<Rightarrow> vm api_result \<times> vm_service" where
  "vm_get i s = bind_st (vm_get_stored i s) (\<lambda>v s. let (v, s) = vm_overlay v s in (Inr v, s))"

subsection \<open>Creating\<close>

definition built_vm :: "vm_env \<Rightarrow> create_vm_request \<Rightarrow> vm_nic list \<Rightarrow> str option \<Rightarrow> str option \<Rightarrow> str list \<Rightarrow> vm" where
  "built_vm env req nics cdrom cloud_init_iso tags =
     \<lparr>vm_id = ve_new_id env, vm_name = cv_name req, vm_power_state = VmStopped, vm_vcpus = cv_vcpus req,
      vm_memory_mib = cv_memory_mib req, vm_firmware = cv_firmware req, vm_display = cv_display req, vm_disks = cv_disks req,
      vm_nics = nics, vm_gpus = cv_gpus req, vm_usb_devices = cv_usb_devices req, vm_pci_devices = cv_pci_devices req,
      vm_cdrom = cdrom, vm_cloud_init_iso = cloud_init_iso, vm_description = cv_description req,
      vm_guest_agent = cv_guest_agent req, vm_fw = cv_firewall req, vm_template = cv_template req,
      vm_autostart = (cv_autostart req \<and> \<not> cv_template req), vm_startup_order = cv_startup_order req, vm_tags = tags,
      vm_pool = normalize_pool_ref (cv_pool req), vm_created_at = ve_now env, vm_updated_at = None\<rparr>"

definition remove_seed :: "str option \<Rightarrow> host \<Rightarrow> host" where
  "remove_seed seed h = (case seed of None \<Rightarrow> h | Some path \<Rightarrow> remove_file path h)"

definition undefine :: "str \<Rightarrow> host \<Rightarrow> host" where
  "undefine i h = snd (virsh_opt [''undefine'', i, ''--nvram''] h)"

text \<open>The host side of \<open>create\<close> from \<open>define\<close> on, with the clean-up each failure gets.\<close>

definition bring_up :: "vm_env \<Rightarrow> vm \<Rightarrow> bool \<Rightarrow> str list \<Rightarrow> host \<Rightarrow> vm api_result \<times> host" where
  "bring_up env v start created h =
     (case vm_define env v h of
        (Inl e, h) \<Rightarrow> (Inl e, remove_seed (vm_cloud_init_iso v) (cleanup_created_zvols created h))
      | (Inr _, h) \<Rightarrow>
          (case (if vf_enabled (vm_fw v) then vm_apply_firewall env (vm_id v) v True h else (Inr (), h)) of
             (Inl e, h) \<Rightarrow>
               (Inl e, remove_seed (vm_cloud_init_iso v) (cleanup_created_zvols created (undefine (vm_id v) h)))
           | (Inr _, h) \<Rightarrow>
               (if \<not> start then (Inr v, h)
                else
                  (case virsh [''start'', vm_id v] h of
                     (Inl e, h) \<Rightarrow> (Inl e, cleanup_created_zvols created (undefine (vm_id v) h))
                   | (Inr _, h) \<Rightarrow> (Inr (v\<lparr>vm_power_state := VmRunning\<rparr>), h)))))"

definition validate_create :: "create_vm_request \<Rightarrow> vm_env \<Rightarrow> (vm_nic list \<times> str option) api_result" where
  "validate_create req env =
     bind_res (validate_vm_request req) (\<lambda>_.
     bind_res (if cv_template req \<and> cv_start req then Inl (validation ''a template cannot be started'') else Inr ()) (\<lambda>_.
     bind_res (normalize_nics (ve_macs env) (cv_nics req)) (\<lambda>nics.
     bind_res (validate_gpu_assignments (cv_gpus req)) (\<lambda>_.
     bind_res (validate_usb_assignments (cv_usb_devices req)) (\<lambda>_.
     bind_res (validate_pci_assignments (cv_pci_devices req)) (\<lambda>_.
     bind_res (case cv_cdrom req of
                 None \<Rightarrow> Inr None
               | Some path \<Rightarrow> bind_res (resolve_iso (ve_iso_dir env) (ve_iso_roots env) path) (\<lambda>p. Inr (Some p))) (\<lambda>cdrom.
       Inr (nics, cdrom))))))))"

text \<open>The disks and the seed image, with the clean-up of the disks when the seed cannot be made.\<close>

definition provision :: "vm_env \<Rightarrow> create_vm_request \<Rightarrow> host \<Rightarrow> (str list \<times> str option) api_result \<times> host" where
  "provision env req h =
     bind_st (ensure_zvols (cv_disks req) h) (\<lambda>created h.
       case cv_cloud_init req of
         None \<Rightarrow> (Inr (created, None), h)
       | Some ci \<Rightarrow>
           (case create_cloud_init_iso env (cv_name req) ci h of
              (Inl e, h) \<Rightarrow> (Inl e, cleanup_created_zvols created h)
            | (Inr path, h) \<Rightarrow> (Inr (created, Some path), h)))"

definition vm_create :: "vm_env \<Rightarrow> create_vm_request \<Rightarrow> vm_service \<Rightarrow> vm api_result \<times> vm_service" where
  "vm_create env req s =
     bind_st (validate_create req env, s) (\<lambda>(nics, cdrom) s.
     bind_st (on_vhost (provision env req) s) (\<lambda>(created, seed) s.
     bind_st (validate_tags (cv_tags req), s) (\<lambda>tags s.
     bind_st (on_vhost (bring_up env (built_vm env req nics cdrom seed tags) (cv_start req) created) s) (\<lambda>v s.
       case on_vms (Store.put (vm_id v) v) s of
         (Inl e, s) \<Rightarrow>
           (Inl e, s\<lparr>kv_host := cleanup_created_zvols created
                       (undefine (vm_id v) (snd (virsh_opt [''destroy'', vm_id v] (kv_host s))))\<rparr>)
       | (Inr _, s) \<Rightarrow> (Inr v, s)))))"

end
