(* ===== verification/Vm_Lifecycle.thy ===== *)
theory Vm_Lifecycle
  imports Vm_Service
begin

section \<open>Virtual machines: changing, cloning, powering (src/src/services/kvm.rs)\<close>

text \<open>
  The operations of \<open>KvmService\<close> on an existing machine, apart from its disks, devices and snapshots: update, delete,
  clone, drift, power, automatic start, consoles and the guest agent.
\<close>

record update_vm_request =
  uv_name :: "str option"
  uv_vcpus :: "32 word option"
  uv_memory_mib :: "64 word option"
  uv_firmware :: "firmware option"
  uv_display :: "display_protocol option"
  uv_disks :: "vm_disk list option"
  uv_nics :: "vm_nic list option"
  uv_description :: "str option"
  uv_eject_cdrom :: "bool option"
  uv_cdrom :: "str option"
  uv_guest_agent :: "bool option"
  uv_firewall :: "vm_firewall option"
  uv_cloud_init :: "cloud_init_request option"
  uv_startup_order :: "32 word option"
  uv_tags :: "str list option"
  uv_pool :: "str option"
  uv_autostart :: "bool option"
  uv_template :: "bool option"

subsection \<open>Updating\<close>

text \<open>\<open>given x f v\<close> is \<open>if let Some(y) = x { .. }\<close> on the machine \<open>v\<close>.\<close>

definition given :: "'a option \<Rightarrow> ('a \<Rightarrow> 'v \<Rightarrow> 'v) \<Rightarrow> 'v \<Rightarrow> 'v" where
  "given x f v = (case x of None \<Rightarrow> v | Some y \<Rightarrow> f y v)"

definition check_new_name :: "str \<Rightarrow> str \<Rightarrow> str option \<Rightarrow> vm_service \<Rightarrow> unit api_result \<times> vm_service" where
  "check_new_name i old_name new_name s =
     (case new_name of
        None \<Rightarrow> (Inr (), s)
      | Some name \<Rightarrow>
          bind_st (ensure_safe_id name, s) (\<lambda>_ s.
            if name = old_name then (Inr (), s)
            else
              bind_st (on_vms Store.list s) (\<lambda>existing s.
                if list_ex (\<lambda>other. vm_id other \<noteq> i \<and> vm_name other = name) existing
                then (Inl (conflict (''a VM named '' @ debug_str name @ '' already exists'')), s) else (Inr (), s))))"

text \<open>The name and the sizes, then the checks of the new hardware: nothing is run yet.\<close>

definition with_sizes :: "update_vm_request \<Rightarrow> vm \<Rightarrow> vm api_result" where
  "with_sizes req v =
     (let v = given (uv_name req) (\<lambda>name v. v\<lparr>vm_name := name\<rparr>) v in
      bind_res (if uv_vcpus req = Some 0 then Inl (validation ''vcpus must be >= 1'')
                else Inr (given (uv_vcpus req) (\<lambda>n v. v\<lparr>vm_vcpus := n\<rparr>) v)) (\<lambda>v.
      bind_res (if uv_memory_mib req = Some 0 then Inl (validation ''memory_mib must be >= 1'')
                else Inr (given (uv_memory_mib req) (\<lambda>n v. v\<lparr>vm_memory_mib := n\<rparr>) v)) (\<lambda>v.
      bind_res (case uv_disks req of None \<Rightarrow> Inr () | Some disks \<Rightarrow> validate_disks disks) (\<lambda>_.
      bind_res (case uv_nics req of None \<Rightarrow> Inr () | Some nics \<Rightarrow> validate_nics nics) (\<lambda>_.
      bind_res (case uv_firewall req of None \<Rightarrow> Inr () | Some fw \<Rightarrow> validate_vm_firewall fw) (\<lambda>_.
        Inr v))))))"

definition hardware_change :: "update_vm_request \<Rightarrow> bool" where
  "hardware_change req \<longleftrightarrow>
     uv_firmware req \<noteq> None \<or> uv_display req \<noteq> None \<or> uv_disks req \<noteq> None \<or> uv_nics req \<noteq> None \<or>
     uv_guest_agent req \<noteq> None \<or> uv_cloud_init req \<noteq> None"

fun provision_all :: "vm_disk list \<Rightarrow> host \<Rightarrow> unit api_result \<times> host" where
  "provision_all [] h = (Inr (), h)"
| "provision_all (disk # disks) h = bind_st (ensure_zvol disk h) (\<lambda>_ h. provision_all disks h)"

definition with_hardware :: "vm_env \<Rightarrow> update_vm_request \<Rightarrow> vm \<Rightarrow> host \<Rightarrow> vm api_result \<times> host" where
  "with_hardware env req v h =
     bind_st (if hardware_change req
              then vm_require_stopped (vm_id v) ''changing its firmware, display, disks, NICs, guest agent or cloud-init'' h
              else (Inr (), h)) (\<lambda>_ h.
       let v = given (uv_firmware req) (\<lambda>f v. v\<lparr>vm_firmware := f\<rparr>) v;
           v = given (uv_display req) (\<lambda>d v. v\<lparr>vm_display := d\<rparr>) v
       in
     bind_st (case uv_nics req of
                None \<Rightarrow> (Inr v, h)
              | Some nics \<Rightarrow> (bind_res (normalize_nics (ve_macs env) nics) (\<lambda>nics. Inr (v\<lparr>vm_nics := nics\<rparr>)), h)) (\<lambda>v h.
       case uv_disks req of
         None \<Rightarrow> (Inr v, h)
       | Some disks \<Rightarrow> bind_st (provision_all disks h) (\<lambda>_ h. (Inr (v\<lparr>vm_disks := disks\<rparr>), h))))"

definition with_cdrom :: "vm_env \<Rightarrow> update_vm_request \<Rightarrow> vm \<Rightarrow> vm api_result" where
  "with_cdrom env req v =
     (if unwrap_or (uv_eject_cdrom req) False then Inr (v\<lparr>vm_cdrom := None\<rparr>)
      else
        (case uv_cdrom req of
           None \<Rightarrow> Inr v
         | Some path \<Rightarrow> bind_res (resolve_iso (ve_iso_dir env) (ve_iso_roots env) path) (\<lambda>p. Inr (v\<lparr>vm_cdrom := Some p\<rparr>))))"

text \<open>The new seed image is made first, then the file the record named before is removed.\<close>

definition with_cloud_init :: "vm_env \<Rightarrow> update_vm_request \<Rightarrow> vm \<Rightarrow> host \<Rightarrow> vm api_result \<times> host" where
  "with_cloud_init env req v h =
     (case uv_cloud_init req of
        None \<Rightarrow> (Inr v, h)
      | Some ci \<Rightarrow>
          bind_st (create_cloud_init_iso env (vm_name v) ci h) (\<lambda>new_iso h.
            (Inr (v\<lparr>vm_cloud_init_iso := Some new_iso\<rparr>), remove_seed (vm_cloud_init_iso v) h)))"

definition with_options :: "update_vm_request \<Rightarrow> vm \<Rightarrow> host \<Rightarrow> vm api_result \<times> host" where
  "with_options req v h =
     (let v = given (uv_startup_order req) (\<lambda>n v. v\<lparr>vm_startup_order := Some n\<rparr>) v in
      bind_st (case uv_tags req of
                 None \<Rightarrow> Inr v
               | Some tags \<Rightarrow> bind_res (validate_tags tags) (\<lambda>ts. Inr (v\<lparr>vm_tags := ts\<rparr>)), h) (\<lambda>v h.
        let v = given (uv_pool req) (\<lambda>p v. v\<lparr>vm_pool := normalize_pool_ref (Some p)\<rparr>) v;
            v = given (uv_autostart req) (\<lambda>a v. v\<lparr>vm_autostart := a\<rparr>) v
        in
        case uv_template req of
          None \<Rightarrow> (Inr v, h)
        | Some template \<Rightarrow>
            bind_st (if template \<and> \<not> vm_template v then vm_require_stopped (vm_id v) ''converting it to a template'' h
                     else (Inr (), h)) (\<lambda>_ h.
              (Inr (v\<lparr>vm_template := template, vm_autostart := (if template then False else vm_autostart v)\<rparr>), h))))"

definition rename_domain :: "str \<Rightarrow> vm \<Rightarrow> host \<Rightarrow> unit api_result \<times> host" where
  "rename_domain old_name v h =
     (if vm_name v = old_name then (Inr (), h)
      else
        bind_st (map_err (\<lambda>_. conflict ''stop the VM before renaming it'') (virsh [''domrename'', vm_id v, vm_name v] h)) (\<lambda>_ h.
          (Inr (), h)))"

definition changed_vm :: "vm_env \<Rightarrow> update_vm_request \<Rightarrow> vm \<Rightarrow> host \<Rightarrow> vm api_result \<times> host" where
  "changed_vm env req v h =
     bind_st (with_sizes req v, h) (\<lambda>v h.
     bind_st (with_hardware env req v h) (\<lambda>v h.
     bind_st (with_cdrom env req (if uv_description req \<noteq> None then v\<lparr>vm_description := uv_description req\<rparr> else v), h) (\<lambda>v h.
       let v = given (uv_guest_agent req) (\<lambda>a v. v\<lparr>vm_guest_agent := a\<rparr>) v;
           v = given (uv_firewall req) (\<lambda>fw v. v\<lparr>vm_fw := fw\<rparr>) v
       in
     bind_st (with_cloud_init env req v h) (\<lambda>v h.
       with_options req v h))))"

definition vm_update :: "vm_env \<Rightarrow> str \<Rightarrow> update_vm_request \<Rightarrow> vm_service \<Rightarrow> vm api_result \<times> vm_service" where
  "vm_update env i req s =
     bind_st (vm_get_stored i s) (\<lambda>old s.
     bind_st (check_new_name i (vm_name old) (uv_name req) s) (\<lambda>_ s.
     bind_st (on_vhost (changed_vm env req old) s) (\<lambda>v s.
     bind_st (on_vhost (rename_domain (vm_name old) v) s) (\<lambda>_ s.
     bind_st (on_vhost (vm_define env v) s) (\<lambda>_ s.
     bind_st (on_vhost (vm_apply_firewall env (vm_id v) v (vf_enabled (vm_fw v))) s) (\<lambda>_ s.
     bind_st (on_vms (Store.put (vm_id v) (v\<lparr>vm_updated_at := Some (ve_now env)\<rparr>)) s) (\<lambda>_ s.
       vm_get i s)))))))"

subsection \<open>Deleting\<close>

definition vm_delete :: "vm_env \<Rightarrow> str \<Rightarrow> vm_service \<Rightarrow> unit api_result \<times> vm_service" where
  "vm_delete env i s =
     bind_st (vm_get_stored i s) (\<lambda>v s.
       let s = (if vf_enabled (vm_fw v) then besides (vm_apply_firewall env i v False) s else s);
           s = besides (virsh_opt [''destroy'', i]) s;
           s = besides (virsh_opt [''undefine'', i, ''--nvram'']) s
       in bind_st (on_vms (Store.delete i) s) (\<lambda>_ s. (Inr (), s)))"

subsection \<open>Cloning\<close>

definition clone_tag :: "str \<Rightarrow> str" where
  "clone_tag new_id = CLONE_SNAPSHOT_PREFIX @ take 12 (filter (\<lambda>c. c \<noteq> CHR ''-'') new_id)"

definition clone_dataset :: "str \<Rightarrow> str \<Rightarrow> nat \<Rightarrow> str" where
  "clone_dataset name src_ds i =
     (let parent = (case rsplit_once (CHR ''/'') src_ds of None \<Rightarrow> [] | Some (p, _) \<Rightarrow> p) in
      (if parent = [] then [] else parent @ ''/'') @ name @ ''-disk'' @ show_nat i)"

fun plan_clone :: "str \<Rightarrow> nat \<Rightarrow> vm_disk list \<Rightarrow> (str \<times> vm_disk) list api_result" where
  "plan_clone name i [] = Inr []"
| "plan_clone name i (disk # disks) =
     bind_res (ensure_safe_zfs_dataset (trim (vd_dataset disk))) (\<lambda>src_ds.
     bind_res (ensure_safe_zfs_dataset (clone_dataset name src_ds i)) (\<lambda>new_ds.
     bind_res (plan_clone name (Suc i) disks) (\<lambda>rest.
       Inr ((src_ds, disk\<lparr>vd_dataset := new_ds\<rparr>) # rest))))"

definition run_all :: "(str \<times> str list) list \<Rightarrow> host \<Rightarrow> host" where
  "run_all cmds h = foldl (\<lambda>h (program, args). snd (run_ok program args h)) h cmds"

definition tagged :: "str \<Rightarrow> str \<Rightarrow> str" where
  "tagged tag dataset = dataset @ ''@'' @ tag"

definition cleanup_clone :: "(str \<times> str) list \<Rightarrow> str list \<Rightarrow> str \<Rightarrow> host \<Rightarrow> host" where
  "cleanup_clone planned created tag h =
     run_all (map (\<lambda>new_ds. (''zfs'', [''destroy'', ''-r'', new_ds])) created @
       map (\<lambda>(src_ds, _). (''zfs'', [''destroy'', tagged tag src_ds])) planned) h"

text \<open>The loop over the planned disks; \<open>created\<close> are the datasets made so far.\<close>

fun clone_disks :: "bool \<Rightarrow> str \<Rightarrow> (str \<times> str) list \<Rightarrow> str list \<Rightarrow> (str \<times> str) list \<Rightarrow> host \<Rightarrow> str list api_result \<times> host" where
  "clone_disks full tag planned created [] h = (Inr created, h)"
| "clone_disks full tag planned created ((src_ds, new_ds) # rest) h =
     (case run_ok ''zfs'' [''clone'', tagged tag src_ds, new_ds] h of
        (Inl e, h) \<Rightarrow> (Inl e, cleanup_clone planned created tag h)
      | (Inr _, h) \<Rightarrow>
          (let created = created @ [new_ds] in
           case (if full then run_ok ''zfs'' [''promote'', new_ds] h else (Inr (), h)) of
             (Inl e, h) \<Rightarrow> (Inl e, cleanup_clone planned created tag h)
           | (Inr _, h) \<Rightarrow> clone_disks full tag planned created rest h))"

definition fresh_macs :: "(nat \<Rightarrow> 8 word \<times> 8 word \<times> 8 word) \<Rightarrow> vm_nic list \<Rightarrow> vm_nic list" where
  "fresh_macs rnd nics = map (\<lambda>(i, nic). nic\<lparr>vn_mac := Some (generate_mac (rnd i))\<rparr>) (List.enumerate 0 nics)"

record clone_vm_request =
  cq_name :: str
  cq_full :: bool
  cq_description :: "str option"

definition cloned_vm :: "vm_env \<Rightarrow> clone_vm_request \<Rightarrow> vm \<Rightarrow> vm_disk list \<Rightarrow> vm" where
  "cloned_vm env req src disks =
     src\<lparr>vm_id := ve_new_id env, vm_name := cq_name req, vm_power_state := VmStopped, vm_disks := disks,
         vm_nics := fresh_macs (ve_macs env) (vm_nics src), vm_gpus := [], vm_usb_devices := [], vm_pci_devices := [],
         vm_cdrom := None, vm_cloud_init_iso := None,
         vm_description := (case cq_description req of Some d \<Rightarrow> Some d | None \<Rightarrow> vm_description src),
         vm_guest_agent := False, vm_fw := \<lparr>vf_enabled = False, vf_rules = []\<rparr>, vm_template := False, vm_autostart := False,
         vm_startup_order := None, vm_created_at := ve_now env, vm_updated_at := None\<rparr>"

definition clone_on_host :: "vm_env \<Rightarrow> clone_vm_request \<Rightarrow> vm \<Rightarrow> (str \<times> vm_disk) list \<Rightarrow> host \<Rightarrow> vm api_result \<times> host" where
  "clone_on_host env req src plan h =
     (let tag = clone_tag (ve_new_id env);
          planned = map (\<lambda>(src_ds, disk). (src_ds, vd_dataset disk)) plan;
          v = cloned_vm env req src (map snd plan)
      in
      bind_st (if planned = [] then (Inr (), h)
               else run_ok ''zfs'' (''snapshot'' # map (tagged tag \<circ> fst) planned) h) (\<lambda>_ h.
      bind_st (clone_disks (cq_full req) tag planned [] planned h) (\<lambda>created h.
        let h = (if cq_full req then run_all (map (\<lambda>new_ds. (''zfs'', [''destroy'', tagged tag new_ds])) created) h else h) in
        case vm_define env v h of
          (Inl e, h) \<Rightarrow> (Inl e, cleanup_clone planned created tag h)
        | (Inr _, h) \<Rightarrow> (Inr v, h))))"

definition vm_clone :: "vm_env \<Rightarrow> str \<Rightarrow> clone_vm_request \<Rightarrow> vm_service \<Rightarrow> vm api_result \<times> vm_service" where
  "vm_clone env i req s =
     bind_st (vm_get_stored i s) (\<lambda>src s.
       if trim (cq_name req) = [] then (Inl (validation ''name must not be empty''), s)
       else
     bind_st (ensure_safe_id (cq_name req), s) (\<lambda>_ s.
     bind_st (on_vms Store.list s) (\<lambda>existing s.
       if list_ex (\<lambda>v. vm_name v = cq_name req) existing
       then (Inl (conflict (''a VM named '' @ debug_str (cq_name req) @ '' already exists'')), s)
       else if list_ex (\<lambda>d. trim (vd_dataset d) = []) (vm_disks src)
       then (Inl (validation ''the source VM has a disk with no dataset; cannot clone''), s)
       else
     bind_st (plan_clone (cq_name req) 0 (vm_disks src), s) (\<lambda>plan s.
     bind_st (on_vhost (clone_on_host env req src plan) s) (\<lambda>v s.
     bind_st (on_vms (Store.put (vm_id v) v) s) (\<lambda>_ s.
       (Inr v, s)))))))"

subsection \<open>Drift\<close>

definition list_all_domains :: "host \<Rightarrow> str list api_result \<times> host" where
  "list_all_domains h =
     (case run_optional ''virsh'' (virsh_args [''list'', ''--all'', ''--name'']) h of
        (Inr (Some out), h) \<Rightarrow> (Inr (map trim (filter (\<lambda>l. trim l \<noteq> []) (lines out))), h)
      | (Inr None, h) \<Rightarrow> (Inl (hypervisor ''virsh is not installed; cannot reconcile VMs''), h)
      | (Inl e, h) \<Rightarrow> (Inl e, h))"

definition vm_reconcile :: "vm_service \<Rightarrow> (str list \<times> str list) api_result \<times> vm_service" where
  "vm_reconcile s =
     bind_st (on_vms Store.list s) (\<lambda>stored s.
     bind_st (on_vhost list_all_domains s) (\<lambda>domains s.
       (Inr (map vm_id (filter (\<lambda>v. vm_name v \<notin> set domains) stored),
             filter (\<lambda>n. n \<notin> vm_name ` set stored) domains), s)))"

definition vm_repair :: "vm_env \<Rightarrow> str \<Rightarrow> vm_service \<Rightarrow> unit api_result \<times> vm_service" where
  "vm_repair env i s =
     bind_st (vm_get_stored i s) (\<lambda>v s.
     bind_st (on_vhost (vm_require_stopped (vm_id v) ''repairing its libvirt definition'') s) (\<lambda>_ s.
       on_vhost (vm_define env v) s))"

subsection \<open>Guest agent and power\<close>

definition guest_ips :: "str \<Rightarrow> host \<Rightarrow> str list api_result \<times> host" where
  "guest_ips i h =
     bind_st (map_err (\<lambda>_. hypervisor ''could not query guest addresses via the guest agent'')
         (virsh [''domifaddr'', ''--source'', ''agent'', i] h)) (\<lambda>out h.
       (Inr (parse_domifaddr_ips out), h))"

record guest_agent_info =
  gi_enabled :: bool
  gi_connected :: bool
  gi_guest_os :: "str option"
  gi_guest_ips :: "str list"

definition guest_info_args :: "str \<Rightarrow> str list" where
  "guest_info_args i = [''qemu-agent-command'', i, ''{'' @ debug_str ''execute'' @ '':'' @ debug_str ''guest-info'' @ ''}'']"

definition or_else_opt :: "'a option \<Rightarrow> 'a option \<Rightarrow> 'a option" where
  "or_else_opt x y = (case x of None \<Rightarrow> y | Some _ \<Rightarrow> x)"

definition vm_guest_agent_info :: "str \<Rightarrow> vm_service \<Rightarrow> guest_agent_info api_result \<times> vm_service" where
  "vm_guest_agent_info i s =
     bind_st (vm_get_stored i s) (\<lambda>v s.
       let info = \<lparr>gi_enabled = vm_guest_agent v, gi_connected = False, gi_guest_os = None, gi_guest_ips = []\<rparr> in
       if \<not> vm_guest_agent v then (Inr info, s)
       else
         (let (st, s) = on_vhost (vm_live_state i) s in
          if st \<noteq> Some VmRunning then (Inr info, s)
          else
            (let (r, s) = on_vhost (virsh (guest_info_args i)) s;
                 info = (case r of
                           Inl _ \<Rightarrow> info
                         | Inr out \<Rightarrow>
                             info\<lparr>gi_connected := True,
                                  gi_guest_os := or_else_opt (parse_guest_info_field out ''pretty_name'') (parse_guest_info_field out ''version'')\<rparr>);
                 (ips, s) = on_vhost (guest_ips i) s
             in (Inr (info\<lparr>gi_guest_ips := (case ips of Inl _ \<Rightarrow> [] | Inr x \<Rightarrow> x)\<rparr>), s))))"

fun power_subcommand :: "vm_power_action \<Rightarrow> str" where
  "power_subcommand PowerStart = ''start''"
| "power_subcommand PowerStop = ''destroy''"
| "power_subcommand PowerReboot = ''reboot''"
| "power_subcommand PowerReset = ''reset''"
| "power_subcommand PowerPause = ''suspend''"
| "power_subcommand PowerResume = ''resume''"
| "power_subcommand PowerShutdown = ''shutdown''"

text \<open>The shutdown through the guest agent; \<open>True\<close> when the agent took it.\<close>

definition agent_shutdown :: "vm \<Rightarrow> str \<Rightarrow> host \<Rightarrow> bool \<times> host" where
  "agent_shutdown v i h =
     (if \<not> vm_guest_agent v then (False, h)
      else
        (let (st, h) = vm_live_state (vm_id v) h in
         if st \<noteq> Some VmRunning then (False, h)
         else (let (r, h) = virsh [''shutdown'', ''--mode'', ''agent'', i] h in (is_ok r, h))))"

definition vm_power ::
  "vm_env \<Rightarrow> str \<Rightarrow> vm_power_action \<Rightarrow> vm_service \<Rightarrow> (vm \<times> str list) api_result \<times> vm_service" where
  "vm_power env i action s =
     bind_st (vm_get_stored i s) (\<lambda>v s.
       if vm_template v \<and> action \<in> {PowerStart, PowerResume, PowerReboot}
       then (Inl (conflict ''this VM is a template and cannot be powered on; clone it first''), s)
       else
         (let (taken, s) = (if action = PowerShutdown then on_vhost (agent_shutdown v i) s else (False, s)) in
          if taken then
            (let v = v\<lparr>vm_power_state := VmTransitioning, vm_updated_at := Some (ve_now env)\<rparr> in
             bind_st (on_vms (Store.put i v) s) (\<lambda>_ s. (Inr (v, []), s)))
          else
            bind_st (on_vhost (virsh [power_subcommand action, i]) s) (\<lambda>_ s.
              let (st, s) = on_vhost (vm_live_state i) s;
                  v = v\<lparr>vm_power_state := unwrap_or st (vm_power_state v), vm_updated_at := Some (ve_now env)\<rparr>
              in
            bind_st (on_vms (Store.put i v) s) (\<lambda>_ s.
              if vm_guest_agent v
              then (let (ips, s) = on_vhost (guest_ips i) s in (Inr (v, case ips of Inl _ \<Rightarrow> [] | Inr x \<Rightarrow> x), s))
              else (Inr (v, []), s)))))"

fun start_queue :: "vm list \<Rightarrow> host \<Rightarrow> host" where
  "start_queue [] h = h"
| "start_queue (v # vs) h =
     (let (st, h) = vm_live_state (vm_id v) h in
      start_queue vs (if st = Some VmRunning then h else snd (virsh [''start'', vm_id v] h)))"

definition start_autostart_vms :: "vm_service \<Rightarrow> vm_service" where
  "start_autostart_vms s =
     (case on_vms Store.list s of
        (Inl _, s) \<Rightarrow> s
      | (Inr vms, s) \<Rightarrow> s\<lparr>kv_host := start_queue (autostart_queue vms) (kv_host s)\<rparr>)"

subsection \<open>Consoles\<close>

definition mint_ticket :: "vm_env \<Rightarrow> str \<Rightarrow> str \<Rightarrow> console_target \<Rightarrow> vm_service \<Rightarrow> console_ticket \<times> vm_service" where
  "mint_ticket env i kind target s =
     (let ticket = ve_new_id env;
          live = filter (\<lambda>(_, t). ve_instant env < vk_expires_at t) (kv_tickets s);
          entry = \<lparr>vk_vm_id = i, vk_target = target, vk_expires_at = ve_instant env + TICKET_TTL\<rparr>
      in (\<lparr>co_websocket_path = ''/api/v1/vms/'' @ i @ ''/'' @ kind @ ''/ws?ticket='' @ ticket, co_ticket = ticket,
           co_expires_at = ve_ticket_expiry env\<rparr>,
          s\<lparr>kv_tickets := AList.update ticket entry live\<rparr>))"

definition vm_console :: "vm_env \<Rightarrow> str \<Rightarrow> vm_service \<Rightarrow> console_ticket api_result \<times> vm_service" where
  "vm_console env i s =
     bind_st (vm_get_stored i s) (\<lambda>_ s.
     bind_st (map_err (\<lambda>_. conflict ''start the VM to open a console'') (on_vhost (virsh [''vncdisplay'', i]) s)) (\<lambda>display s.
     bind_st (ok_or (parse_vnc_display (trim display)) (hypervisor ''could not resolve the VM's VNC port''), s) (\<lambda>addr s.
       let (t, s) = mint_ticket env i ''console'' (TargetVnc addr) s in (Inr t, s))))"

definition vm_serial_console :: "vm_env \<Rightarrow> str \<Rightarrow> vm_service \<Rightarrow> console_ticket api_result \<times> vm_service" where
  "vm_serial_console env i s =
     bind_st (vm_get_stored i s) (\<lambda>_ s.
     bind_st (map_err (\<lambda>_. conflict ''start the VM to open a serial console'') (on_vhost (virsh [''ttyconsole'', i]) s)) (\<lambda>pty s.
       if \<not> is_ok (validate_console_pty (trim pty)) then (Inl (hypervisor ''could not resolve the VM's serial console''), s)
       else (let (t, s) = mint_ticket env i ''serial-console'' (TargetSerial (trim pty)) s in (Inr t, s))))"

definition redeem_vm_ticket :: "nat \<Rightarrow> str \<Rightarrow> str \<Rightarrow> vm_service \<Rightarrow> console_target api_result \<times> vm_service" where
  "redeem_vm_ticket now i ticket s =
     (case map_of (kv_tickets s) ticket of
        Some t \<Rightarrow>
          if vk_vm_id t = i \<and> now < vk_expires_at t
          then (Inr (vk_target t), s\<lparr>kv_tickets := AList.delete ticket (kv_tickets s)\<rparr>)
          else (Inl (unauthorized ''invalid or expired console ticket''), s)
      | None \<Rightarrow> (Inl (unauthorized ''invalid or expired console ticket''), s))"

definition attach_serial_console :: "str \<Rightarrow> vm_service \<Rightarrow> console_bridge api_result \<times> vm_service" where
  "attach_serial_console pty s = on_vhost (console_attach pty) s"

definition spice_connection :: "vm_env \<Rightarrow> str \<Rightarrow> vm_service \<Rightarrow> str api_result \<times> vm_service" where
  "spice_connection env i s =
     bind_st (vm_get_stored i s) (\<lambda>v s.
       if vm_display v \<noteq> DisplaySpice then (Inl (conflict ''this VM does not use SPICE; set its display to spice first''), s)
       else
     bind_st (map_err (\<lambda>_. conflict ''start the VM to open its SPICE display'')
         (on_vhost (virsh [''domdisplay'', ''--type'', ''spice'', i]) s)) (\<lambda>uri s.
     bind_st (ok_or (parse_spice_port (trim uri)) (hypervisor ''could not resolve the VM's SPICE port''), s) (\<lambda>port s.
       (Inr (spice_connection_file (vm_name v) (ve_spice_listen env) port), s))))"

end
