(* ===== verification/Vm_Storage.thy ===== *)
theory Vm_Storage
  imports Vm_Lifecycle
begin

section \<open>Virtual machines: disks, devices and snapshots (src/src/services/kvm.rs)\<close>

text \<open>
  The operations of \<open>KvmService\<close> on the disks, the passed-through devices and the snapshots of a machine. A snapshot of
  the memory is a file below the state directory: the files of the host are \<open>host_files\<close>, and the time a file was
  created comes from \<open>ve_created\<close>.
\<close>

subsection \<open>Disks\<close>

definition no_disk :: "str \<Rightarrow> nat \<Rightarrow> app_error" where
  "no_disk i index = not_found (''vm '' @ i @ '' has no disk at index '' @ show_nat index)"

definition stamped :: "vm_env \<Rightarrow> vm \<Rightarrow> vm" where
  "stamped env v = v\<lparr>vm_updated_at := Some (ve_now env)\<rparr>"

definition is_running :: "str \<Rightarrow> vm_service \<Rightarrow> bool \<times> vm_service" where
  "is_running i s = (let (st, s) = on_vhost (vm_live_state i) s in (st = Some VmRunning, s))"

definition resize_disk :: "vm_env \<Rightarrow> str \<Rightarrow> nat \<Rightarrow> 64 word \<Rightarrow> vm_service \<Rightarrow> vm api_result \<times> vm_service" where
  "resize_disk env i index size_gib s =
     bind_st (vm_get_stored i s) (\<lambda>v s.
     bind_st (ok_or (nth_opt (vm_disks v) index) (no_disk i index), s) (\<lambda>disk s.
     bind_st (ensure_safe_zfs_dataset (trim (vd_dataset disk)), s) (\<lambda>dataset s.
       if size_gib = 0 then (Inl (validation ''size_gib must be >= 1''), s)
       else if size_gib < vd_size_gib disk
         then (Inl (validation ''shrinking a disk is not supported; specify a larger size_gib''), s)
       else if size_gib = vd_size_gib disk then (Inr v, s)
       else
     bind_st (on_vhost (run_ok ''zfs'' [''set'', ''volsize='' @ zvol_size size_gib, dataset]) s) (\<lambda>_ s.
       let (running, s) = is_running i s;
           s = (if running
                then besides (virsh [''blockresize'', i, disk_target_name index (vd_bus disk), zvol_size size_gib]) s else s);
           v = stamped env (v\<lparr>vm_disks := (vm_disks v)[index := disk\<lparr>vd_size_gib := size_gib\<rparr>]\<rparr>)
       in bind_st (on_vms (Store.put i v) s) (\<lambda>_ s. (Inr v, s))))))"

text \<open>The end of every change of the devices: the record is stored, and a machine that is not running is defined anew.\<close>

definition store_and_define :: "vm_env \<Rightarrow> str \<Rightarrow> vm \<Rightarrow> bool \<Rightarrow> vm_service \<Rightarrow> vm api_result \<times> vm_service" where
  "store_and_define env i v running s =
     bind_st (on_vms (Store.put i v) s) (\<lambda>_ s.
     bind_st (if running then (Inr (), s) else on_vhost (vm_define env v) s) (\<lambda>_ s.
       (Inr v, s)))"

definition attach_disk :: "vm_env \<Rightarrow> str \<Rightarrow> vm_disk \<Rightarrow> vm_service \<Rightarrow> vm api_result \<times> vm_service" where
  "attach_disk env i disk s =
     bind_st (vm_get_stored i s) (\<lambda>v s.
     bind_st (validate_disks [disk], s) (\<lambda>_ s.
       if 26 \<le> length (vm_disks v) then (Inl (validation ''the VM already has the maximum of 26 data disks''), s)
       else
     bind_st (on_vhost (ensure_zvol disk) s) (\<lambda>_ s.
       let (running, s) = is_running i s in
     bind_st (if running
              then on_vhost (virsh [''attach-disk'', i, disk_target_name (length (vm_disks v)) (vd_bus disk),
                       ''/dev/zvol/'' @ trim (vd_dataset disk), ''--persistent'']) s
              else (Inr [], s)) (\<lambda>_ s.
       store_and_define env i (stamped env (v\<lparr>vm_disks := vm_disks v @ [disk]\<rparr>)) running s))))"

definition remove_nth :: "nat \<Rightarrow> 'a list \<Rightarrow> 'a list" where
  "remove_nth i xs = take i xs @ drop (Suc i) xs"

definition detach_disk :: "vm_env \<Rightarrow> str \<Rightarrow> nat \<Rightarrow> vm_service \<Rightarrow> vm api_result \<times> vm_service" where
  "detach_disk env i index s =
     bind_st (vm_get_stored i s) (\<lambda>v s.
       if length (vm_disks v) \<le> index then (Inl (no_disk i index), s)
       else
         (let (running, s) = is_running i s in
     bind_st (if running
              then on_vhost (virsh [''detach-disk'', i, disk_target_name index (vd_bus (vm_disks v ! index)), ''--persistent'']) s
              else (Inr [], s)) (\<lambda>_ s.
       store_and_define env i (stamped env (v\<lparr>vm_disks := remove_nth index (vm_disks v)\<rparr>)) running s)))"

definition disk_migrate_temp :: "vm_env \<Rightarrow> str \<Rightarrow> str" where
  "disk_migrate_temp env i = ve_state_dir env @ ''/tmp/disk-migrate-'' @ i @ ''-'' @ ve_nanos env @ ''.zfs''"

text \<open>The steps after the copy: the record is re-pointed and the domain defined, then the old dataset destroyed.\<close>

definition finish_disk_migration :: "vm_env \<Rightarrow> str \<Rightarrow> nat \<Rightarrow> vm \<Rightarrow> str \<Rightarrow> str \<Rightarrow> vm_service \<Rightarrow> vm api_result \<times> vm_service" where
  "finish_disk_migration env i index v source target s =
     bind_st (on_vhost (run_ok ''zfs'' (list_name_args target)) s) (\<lambda>_ s.
       let v = stamped env (v\<lparr>vm_disks := (vm_disks v)[index := (vm_disks v ! index)\<lparr>vd_dataset := target\<rparr>]\<rparr>) in
     bind_st (on_vms (Store.put i v) s) (\<lambda>_ s.
     bind_st (on_vhost (vm_define env v) s) (\<lambda>_ s.
     bind_st (on_vhost (run_ok ''zfs'' [''destroy'', ''-r'', source]) s) (\<lambda>_ s. (Inr v, s)))))"

definition copy_disk :: "vm_env \<Rightarrow> str \<Rightarrow> nat \<Rightarrow> vm \<Rightarrow> str \<Rightarrow> str \<Rightarrow> vm_service \<Rightarrow> vm api_result \<times> vm_service" where
  "copy_disk env i index v source target s =
     (let tag = ''migrate-'' @ ve_timestamp env;
          snapshot = source @ ''@'' @ tag;
          temp = disk_migrate_temp env i
      in bind_st (on_vhost (run_ok ''zfs'' [''snapshot'', snapshot]) s) (\<lambda>_ s.
         bind_st (case ensure_safe_id i of Inl e \<Rightarrow> Inl (internal (err_message e)) | Inr _ \<Rightarrow> Inr (), s) (\<lambda>_ s.
           let s = besides next_file_error s in
           case on_vhost (copy_dataset snapshot target temp) s of
             (Inl e, s) \<Rightarrow> (Inl e, besides (run_ok ''zfs'' [''destroy'', snapshot]) (besides (\<lambda>h. ((), remove_file temp h)) s))
           | (Inr _, s) \<Rightarrow>
               finish_disk_migration env i index v source target
                 (besides (run_ok ''zfs'' [''destroy'', target @ ''@'' @ tag]) (besides (\<lambda>h. ((), remove_file temp h)) s)))))"

definition migrate_disk :: "vm_env \<Rightarrow> str \<Rightarrow> nat \<Rightarrow> str \<Rightarrow> vm_service \<Rightarrow> vm api_result \<times> vm_service" where
  "migrate_disk env i index target_dataset s =
     bind_st (vm_get_stored i s) (\<lambda>v s.
     bind_st (ok_or (nth_opt (vm_disks v) index) (no_disk i index), s) (\<lambda>disk s.
     bind_st (ensure_safe_zfs_dataset (trim (vd_dataset disk)), s) (\<lambda>source s.
     bind_st (ensure_safe_zfs_dataset target_dataset, s) (\<lambda>target s.
       if source = target then (Inl (validation ''target dataset is the same as the source''), s)
       else
         (let (running, s) = is_running i s in
          if running then (Inl (conflict ''stop the VM before migrating a disk; live migration is not supported''), s)
          else
     bind_st (on_vhost (run_optional ''zfs'' (list_name_args target)) s) (\<lambda>exists s.
       if exists \<noteq> None then (Inl (conflict (''target dataset '' @ target @ '' already exists'')), s)
       else copy_disk env i index v source target s))))))"

subsection \<open>Devices\<close>

definition bad_usb_id :: app_error where
  "bad_usb_id = validation ''USB ids must be four hex digits''"

definition attach_usb :: "vm_env \<Rightarrow> str \<Rightarrow> usb_assignment \<Rightarrow> vm_service \<Rightarrow> vm api_result \<times> vm_service" where
  "attach_usb env i a s =
     bind_st (vm_get_stored i s) (\<lambda>v s.
     bind_st (validate_usb_assignments [a], s) (\<lambda>_ s.
       if 10 \<le> length (vm_usb_devices v)
       then (Inl (validation ''the VM already has the maximum of 10 USB passthrough devices''), s)
       else if list_ex (\<lambda>u. ua_vendor_id u = ua_vendor_id a \<and> ua_product_id u = ua_product_id a) (vm_usb_devices v)
       then (Inl (validation ''that USB device is already attached to this VM''), s)
       else
         (let (running, s) = is_running i s in
     bind_st (if running
              then bind_st (ok_or (usb_hostdev_xml (ua_vendor_id a) (ua_product_id a)) bad_usb_id, s) (\<lambda>xml s.
                     on_vhost (attach_device env i xml) s)
              else (Inr (), s)) (\<lambda>_ s.
       store_and_define env i (stamped env (v\<lparr>vm_usb_devices := vm_usb_devices v @ [a]\<rparr>)) running s))))"

definition position :: "('a \<Rightarrow> bool) \<Rightarrow> 'a list \<Rightarrow> nat option" where
  "position P xs = (let n = length (takeWhile (\<lambda>x. \<not> P x) xs) in if n < length xs then Some n else None)"

definition detach_usb :: "vm_env \<Rightarrow> str \<Rightarrow> str \<Rightarrow> str \<Rightarrow> vm_service \<Rightarrow> vm api_result \<times> vm_service" where
  "detach_usb env i vendor product s =
     bind_st (vm_get_stored i s) (\<lambda>v s.
     bind_st (ok_or (position (\<lambda>u. ua_vendor_id u = vendor \<and> ua_product_id u = product) (vm_usb_devices v))
         (not_found (''vm '' @ i @ '' has no USB device '' @ vendor @ '':'' @ product @ '' attached'')), s) (\<lambda>n s.
       let (running, s) = is_running i s in
     bind_st (if running
              then bind_st (ok_or (usb_hostdev_xml vendor product) bad_usb_id, s) (\<lambda>xml s. on_vhost (detach_device env i xml) s)
              else (Inr (), s)) (\<lambda>_ s.
       store_and_define env i (stamped env (v\<lparr>vm_usb_devices := remove_nth n (vm_usb_devices v)\<rparr>)) running s)))"

definition bad_pci_address :: app_error where
  "bad_pci_address = validation ''invalid PCI address''"

definition attach_pci :: "vm_env \<Rightarrow> str \<Rightarrow> pci_assignment \<Rightarrow> vm_service \<Rightarrow> vm api_result \<times> vm_service" where
  "attach_pci env i a s =
     bind_st (vm_get_stored i s) (\<lambda>v s.
     bind_st (validate_pci_assignments [a], s) (\<lambda>_ s.
       if list_ex (\<lambda>p. eq_ignore_ascii_case (pa_pci_address p) (pa_pci_address a)) (vm_pci_devices v)
       then (Inl (validation ''that PCI device is already attached to this VM''), s)
       else
         (let (running, s) = is_running i s in
     bind_st (if running
              then bind_st (ok_or (pci_hostdev_xml (pa_pci_address a)) bad_pci_address, s) (\<lambda>xml s.
                     on_vhost (attach_device env i xml) s)
              else (Inr (), s)) (\<lambda>_ s.
       store_and_define env i (stamped env (v\<lparr>vm_pci_devices := vm_pci_devices v @ [a]\<rparr>)) running s))))"

definition detach_pci :: "vm_env \<Rightarrow> str \<Rightarrow> str \<Rightarrow> vm_service \<Rightarrow> vm api_result \<times> vm_service" where
  "detach_pci env i address s =
     bind_st (vm_get_stored i s) (\<lambda>v s.
     bind_st (ok_or (position (\<lambda>p. eq_ignore_ascii_case (pa_pci_address p) address) (vm_pci_devices v))
         (not_found (''vm '' @ i @ '' has no PCI device '' @ address @ '' attached'')), s) (\<lambda>n s.
       let (running, s) = is_running i s in
     bind_st (if running
              then bind_st (ok_or (pci_hostdev_xml address) bad_pci_address, s) (\<lambda>xml s. on_vhost (detach_device env i xml) s)
              else (Inr (), s)) (\<lambda>_ s.
       store_and_define env i (stamped env (v\<lparr>vm_pci_devices := remove_nth n (vm_pci_devices v)\<rparr>)) running s)))"

text \<open>The group of a device (src/src/services/gpu.rs) is the name of the directory its link points to; 0 is no group.\<close>

definition iommu_group_for_address :: "(str \<Rightarrow> str option) \<Rightarrow> str \<Rightarrow> nat" where
  "iommu_group_for_address link address =
     (if is_ok (ensure_safe_pci_address address)
      then unwrap_or (Option.bind (link address) (parse_unsigned (2 ^ 32 - 1))) 0 else 0)"

definition format_pci_group_warning :: "str \<Rightarrow> nat \<Rightarrow> str list \<Rightarrow> str" where
  "format_pci_group_warning address grp names =
     ''PCI device '' @ address @ '' shares IOMMU group '' @ show_nat grp @ '' with device(s) assigned to other VM(s): '' @
     join '', '' names @ ''; hot-attaching it may disrupt those guests''"

definition shares_group :: "(str \<Rightarrow> str option) \<Rightarrow> nat \<Rightarrow> vm \<Rightarrow> bool" where
  "shares_group link grp v \<longleftrightarrow>
     list_ex (\<lambda>a. iommu_group_for_address link a = grp)
       (map pa_pci_address (vm_pci_devices v) @ map ga_pci_address (vm_gpus v))"

definition pci_iommu_group_warning :: "vm_env \<Rightarrow> str \<Rightarrow> str \<Rightarrow> vm_service \<Rightarrow> str option api_result \<times> vm_service" where
  "pci_iommu_group_warning env i address s =
     bind_st (ensure_safe_pci_address address, s) (\<lambda>_ s.
       let grp = iommu_group_for_address (ve_iommu_link env) address in
       if grp = 0 then (Inr None, s)
       else
     bind_st (on_vms Store.list s) (\<lambda>vms s.
       let names = sort (remdups (map vm_name (filter (\<lambda>v. vm_id v \<noteq> i \<and> shares_group (ve_iommu_link env) grp v) vms))) in
       (Inr (if names = [] then None else Some (format_pci_group_warning address grp names)), s)))"

subsection \<open>Listing snapshots\<close>

record vm_snapshot =
  sn_name :: str
  sn_used_bytes :: nat
  sn_description :: "str option"
  sn_created_at :: str
  sn_type :: vm_snapshot_type

definition vm_snapshots_args :: "str \<Rightarrow> str list" where
  "vm_snapshots_args dataset =
     [''list'', ''-H'', ''-p'', ''-t'', ''snapshot'', ''-d'', ''1'', ''-o'', ''name,used,creation,daygleve:description'', dataset]"

text \<open>One row: the tag, the bytes, the creation time and the description column.\<close>

definition parse_snapshot_row :: "str \<Rightarrow> (str \<times> nat \<times> int \<times> str) option" where
  "parse_snapshot_row line =
     (let cols = split_on (CHR 0x09) line in
      case (Option.bind (nth_opt cols 1) parse_u64, Option.bind (nth_opt cols 2) parse_i64) of
        (Some used, Some creation) \<Rightarrow>
          (case split_once (CHR ''@'') (hd cols) of
             None \<Rightarrow> None
           | Some (_, tag) \<Rightarrow>
               if starts_with tag CLONE_SNAPSHOT_PREFIX then None
               else Some (tag, used, creation, unwrap_or (nth_opt cols 3) ''-''))
      | _ \<Rightarrow> None)"

definition add_row ::
  "vm_env \<Rightarrow> str \<times> nat \<times> int \<times> str \<Rightarrow> (str \<times> vm_snapshot \<times> nat) list \<Rightarrow> (str \<times> vm_snapshot \<times> nat) list" where
  "add_row env row by_name =
     (case row of (tag, used, creation, desc) \<Rightarrow>
        let (entry, count) =
              unwrap_or (map_of by_name tag)
                (\<lparr>sn_name = tag, sn_used_bytes = 0, sn_description = None,
                  sn_created_at = ts_from_unix (ve_stamp env) (ve_now env) creation, sn_type = SnapDisk\<rparr>, 0);
            entry = entry\<lparr>sn_used_bytes := min (sn_used_bytes entry + used) (2 ^ 64 - 1)\<rparr>;
            entry = (if sn_description entry = None \<and> desc \<noteq> ''-'' \<and> desc \<noteq> [] then entry\<lparr>sn_description := Some desc\<rparr> else entry)
        in AList.update tag (entry, count + 1) by_name)"

fun collect_snapshots ::
  "vm_env \<Rightarrow> str list \<Rightarrow> (str \<times> vm_snapshot \<times> nat) list \<Rightarrow> host \<Rightarrow> (str \<times> vm_snapshot \<times> nat) list api_result \<times> host" where
  "collect_snapshots env [] by_name h = (Inr by_name, h)"
| "collect_snapshots env (dataset # datasets) by_name h =
     (case run_optional ''zfs'' (vm_snapshots_args dataset) h of
        (Inr (Some out), h) \<Rightarrow>
          collect_snapshots env datasets (fold (add_row env) (List.map_filter parse_snapshot_row (lines out)) by_name) h
      | (Inr None, h) \<Rightarrow> collect_snapshots env datasets by_name h
      | (Inl e, h) \<Rightarrow> if is_missing_dataset e then collect_snapshots env datasets by_name h else (Inl e, h))"

definition complete_snapshots :: "nat \<Rightarrow> (str \<times> vm_snapshot \<times> nat) list \<Rightarrow> vm_snapshot list" where
  "complete_snapshots disk_count by_name =
     map (fst \<circ> snd) (filter (\<lambda>(_, _, count). 0 < disk_count \<and> count = disk_count) (sort_key fst by_name))"

definition ram_dir :: "vm_env \<Rightarrow> str" where
  "ram_dir env = ve_state_dir env @ ''/ram-snapshots''"

definition ram_snapshot_of :: "vm_env \<Rightarrow> (str \<times> str) list \<Rightarrow> str \<times> str \<Rightarrow> vm_snapshot option" where
  "ram_snapshot_of env fs entry =
     (case strip_prefix (fst entry) (ram_dir env @ ''/'') of
        None \<Rightarrow> None
      | Some name \<Rightarrow>
          if contains_char name (CHR ''/'') \<or> file_ext name \<noteq> Some ''save'' \<or> \<not> is_ok (ensure_safe_snapshot (file_stem name)) then None
          else
            Some \<lparr>sn_name = file_stem name, sn_used_bytes = length (snd entry),
                  sn_description = Option.bind (map_of fs (ram_dir env @ ''/'' @ file_stem name @ ''.json'')) (ve_sidecar_description env),
                  sn_created_at = unwrap_or (ve_created env (fst entry)) (ve_now env), sn_type = SnapRam\<rparr>)"

definition ram_snapshots :: "vm_env \<Rightarrow> host \<Rightarrow> vm_snapshot list \<times> host" where
  "ram_snapshots env h =
     (case next_file_error h of
        (Some _, h) \<Rightarrow> ([], h)
      | (None, h) \<Rightarrow> (List.map_filter (ram_snapshot_of env (host_files h)) (host_files h), h))"

definition list_vm_snapshots :: "vm_env \<Rightarrow> str \<Rightarrow> vm_service \<Rightarrow> vm_snapshot list api_result \<times> vm_service" where
  "list_vm_snapshots env i s =
     bind_st (vm_get_stored i s) (\<lambda>v s.
     bind_st (snapshot_datasets v, s) (\<lambda>datasets s.
     bind_st (on_vhost (collect_snapshots env datasets []) s) (\<lambda>by_name s.
       let (ram, s) = on_vhost (ram_snapshots env) s in
       (Inr (sort_desc sn_created_at (complete_snapshots (length datasets) by_name @ ram)), s))))"

subsection \<open>Taking snapshots\<close>

definition existing_snapshot :: "vm_env \<Rightarrow> str \<Rightarrow> str \<Rightarrow> vm_service \<Rightarrow> unit api_result \<times> vm_service" where
  "existing_snapshot env i tag s =
     bind_st (list_vm_snapshots env i s) (\<lambda>snaps s.
       (if tag \<in> sn_name ` set snaps then Inl (duplicate_snapshot tag) else Inr (), s))"

definition annotate_all :: "str option \<Rightarrow> str list \<Rightarrow> host \<Rightarrow> host" where
  "annotate_all description targets h =
     (case description of
        None \<Rightarrow> h
      | Some d \<Rightarrow>
          if trim d = [] then h
          else run_all (map (\<lambda>target. (''zfs'', [''set'', ''daygleve:description='' @ trim (spaced d), target])) targets) h)"

text \<open>The capture with the guest's file systems frozen around it, when the agent is enabled and the machine runs.\<close>

definition capture :: "vm \<Rightarrow> str \<Rightarrow> str list \<Rightarrow> host \<Rightarrow> unit api_result \<times> host" where
  "capture v i targets h =
     (let (frozen, h) = (if vm_guest_agent v then (let (st, h) = vm_live_state i h in (st = Some VmRunning, h)) else (False, h));
          h = (if frozen then snd (virsh [''domfsfreeze'', i] h) else h);
          (r, h) = run_ok ''zfs'' (''snapshot'' # targets) h;
          h = (if frozen then snd (virsh [''domfsthaw'', i] h) else h)
      in (r, h))"

record snapshot_request =
  sq_name :: str
  sq_description :: "str option"
  sq_type :: vm_snapshot_type

definition create_disk_snapshot :: "vm_env \<Rightarrow> str \<Rightarrow> snapshot_request \<Rightarrow> vm_service \<Rightarrow> vm_snapshot api_result \<times> vm_service" where
  "create_disk_snapshot env i req s =
     bind_st (vm_get_stored i s) (\<lambda>v s.
     bind_st (ensure_safe_snapshot (sq_name req), s) (\<lambda>tag s.
     bind_st (snapshot_datasets v, s) (\<lambda>datasets s.
       if datasets = [] then (Inl (validation ''the VM has no disks to snapshot''), s)
       else
     bind_st (existing_snapshot env i tag s) (\<lambda>_ s.
       let targets = map (tagged tag) datasets in
       case on_vhost (capture v i targets) s of
         (Inl e, s) \<Rightarrow>
           (Inl (if is_already_exists e then duplicate_snapshot tag else e),
            s\<lparr>kv_host := run_all (map (\<lambda>target. (''zfs'', [''destroy'', target])) targets) (kv_host s)\<rparr>)
       | (Inr _, s) \<Rightarrow>
           bind_st (list_vm_snapshots env i (s\<lparr>kv_host := annotate_all (sq_description req) targets (kv_host s)\<rparr>)) (\<lambda>after s.
             (ok_or (find (\<lambda>x. sn_name x = tag) after) (internal ''snapshot created but could not be read back''), s))))))"

definition ram_snapshot_path :: "vm_env \<Rightarrow> str \<Rightarrow> str api_result" where
  "ram_snapshot_path env tag = bind_res (ensure_safe_id tag) (\<lambda>_. Inr (ram_dir env @ ''/'' @ tag @ ''.save''))"

definition sidecar_path :: "vm_env \<Rightarrow> str \<Rightarrow> str" where
  "sidecar_path env tag = ram_dir env @ ''/'' @ tag @ ''.json''"

definition write_sidecar :: "vm_env \<Rightarrow> str \<Rightarrow> str option \<Rightarrow> vm \<Rightarrow> host \<Rightarrow> host" where
  "write_sidecar env tag description v h =
     (case description of
        None \<Rightarrow> h
      | Some d \<Rightarrow> if trim d = [] then h else snd (write_file (sidecar_path env tag) (ve_sidecar env (trim d) (vm_id v)) h))"

definition create_ram_snapshot :: "vm_env \<Rightarrow> str \<Rightarrow> snapshot_request \<Rightarrow> vm_service \<Rightarrow> vm_snapshot api_result \<times> vm_service" where
  "create_ram_snapshot env i req s =
     bind_st (vm_get_stored i s) (\<lambda>v s.
     bind_st (ensure_safe_snapshot (sq_name req), s) (\<lambda>tag s.
       let (running, s) = is_running i s in
       if \<not> running then (Inl (conflict ''a RAM-state snapshot requires the VM to be running''), s)
       else
     bind_st (existing_snapshot env i tag s) (\<lambda>_ s.
     bind_st (ram_snapshot_path env tag, s) (\<lambda>path s.
       case on_vhost (virsh [''save'', i, path]) s of
         (Inl e, s) \<Rightarrow> (Inl e, besides (\<lambda>h. ((), remove_file path h)) s)
       | (Inr _, s) \<Rightarrow>
           (let s = s\<lparr>kv_host := write_sidecar env tag (sq_description req) v (set_file path (ve_saved_image env) (kv_host s))\<rparr> in
     bind_st (vm_get_stored i s) (\<lambda>stored s.
       let (st, s) = on_vhost (vm_live_state i) s;
           stored = stamped env (stored\<lparr>vm_power_state := unwrap_or st VmStopped\<rparr>)
       in
     bind_st (on_vms (Store.put i stored) s) (\<lambda>_ s.
       (Inr \<lparr>sn_name = tag, sn_used_bytes = (case map_of (host_files (kv_host s)) path of None \<Rightarrow> 0 | Some body \<Rightarrow> length body),
             sn_description = sq_description req, sn_created_at = ve_now env, sn_type = SnapRam\<rparr>, s))))))))"

definition create_vm_snapshot :: "vm_env \<Rightarrow> str \<Rightarrow> snapshot_request \<Rightarrow> vm_service \<Rightarrow> vm_snapshot api_result \<times> vm_service" where
  "create_vm_snapshot env i req s =
     (case sq_type req of SnapRam \<Rightarrow> create_ram_snapshot env i req s | SnapDisk \<Rightarrow> create_disk_snapshot env i req s)"

subsection \<open>Going back and deleting\<close>

definition restore_ram_snapshot :: "vm_env \<Rightarrow> str \<Rightarrow> str \<Rightarrow> vm_service \<Rightarrow> vm api_result \<times> vm_service" where
  "restore_ram_snapshot env i name s =
     bind_st (vm_get_stored i s) (\<lambda>v s.
     bind_st (ensure_safe_snapshot name, s) (\<lambda>tag s.
     bind_st (ram_snapshot_path env tag, s) (\<lambda>path s.
       if map_of (host_files (kv_host s)) path = None
       then (Inl (not_found (''no RAM-state snapshot named '' @ debug_str tag)), s)
       else
     bind_st (on_vhost (virsh [''restore'', path]) s) (\<lambda>_ s.
       let (st, s) = on_vhost (vm_live_state i) s;
           v = stamped env (v\<lparr>vm_power_state := unwrap_or st VmRunning\<rparr>)
       in bind_st (on_vms (Store.put i v) s) (\<lambda>_ s. (Inr v, s))))))"

fun snapshot_on_all_disks :: "str list \<Rightarrow> str \<Rightarrow> host \<Rightarrow> bool api_result \<times> host" where
  "snapshot_on_all_disks [] tag h = (Inr True, h)"
| "snapshot_on_all_disks (dataset # datasets) tag h =
     (case run_optional ''zfs'' [''list'', ''-H'', ''-o'', ''name'', ''-t'', ''snapshot'', tagged tag dataset] h of
        (Inr (Some out), h) \<Rightarrow> if trim out = [] then (Inr False, h) else snapshot_on_all_disks datasets tag h
      | (Inr None, h) \<Rightarrow> (Inl (hypervisor ''zfs is not installed; cannot manage snapshots''), h)
      | (Inl e, h) \<Rightarrow> (if is_missing_dataset e then Inr False else Inl e, h))"

definition complete_on_disks :: "str list \<Rightarrow> str \<Rightarrow> host \<Rightarrow> bool api_result \<times> host" where
  "complete_on_disks datasets tag h = (if datasets = [] then (Inr False, h) else snapshot_on_all_disks datasets tag h)"

fun on_each :: "(str \<Rightarrow> str list) \<Rightarrow> str list \<Rightarrow> host \<Rightarrow> unit api_result \<times> host" where
  "on_each args [] h = (Inr (), h)"
| "on_each args (target # targets) h = bind_st (run_ok ''zfs'' (args target) h) (\<lambda>_ h. on_each args targets h)"

text \<open>The end of rollback and of delete: the snapshot must be on every disk before the first is touched.\<close>

definition on_complete_snapshot :: "(str \<Rightarrow> str list) \<Rightarrow> vm \<Rightarrow> str \<Rightarrow> vm_service \<Rightarrow> unit api_result \<times> vm_service" where
  "on_complete_snapshot args v tag s =
     bind_st (snapshot_datasets v, s) (\<lambda>datasets s.
     bind_st (on_vhost (complete_on_disks datasets tag) s) (\<lambda>found s.
       if \<not> found then (Inl (missing_snapshot tag), s)
       else on_vhost (on_each args (map (tagged tag) datasets)) s))"

definition vm_rollback_snapshot :: "str \<Rightarrow> str \<Rightarrow> vm_service \<Rightarrow> unit api_result \<times> vm_service" where
  "vm_rollback_snapshot i name s =
     bind_st (vm_get_stored i s) (\<lambda>v s.
     bind_st (ensure_safe_snapshot name, s) (\<lambda>tag s.
     bind_st (on_vhost (vm_require_stopped (vm_id v) ''rolling back a snapshot'') s) (\<lambda>_ s.
       on_complete_snapshot (\<lambda>target. [''rollback'', ''-r'', target]) v tag s)))"

definition vm_delete_snapshot :: "vm_env \<Rightarrow> str \<Rightarrow> str \<Rightarrow> vm_service \<Rightarrow> unit api_result \<times> vm_service" where
  "vm_delete_snapshot env i name s =
     bind_st (vm_get_stored i s) (\<lambda>v s.
     bind_st (ensure_safe_snapshot name, s) (\<lambda>tag s.
     bind_st (ram_snapshot_path env tag, s) (\<lambda>path s.
       if map_of (host_files (kv_host s)) path \<noteq> None then
         (case next_file_error (kv_host s) of
            (Some e, h) \<Rightarrow> (Inl (internal (''remove '' @ path @ '': '' @ e)), s\<lparr>kv_host := h\<rparr>)
          | (None, h) \<Rightarrow>
              (Inr (), s\<lparr>kv_host := remove_file (sidecar_path env tag) (h\<lparr>host_files := AList.delete path (host_files h)\<rparr>)\<rparr>))
       else on_complete_snapshot (\<lambda>target. [''destroy'', target]) v tag s)))"

end
