(* ===== verification/Vm_Xml_Safety.thy ===== *)
theory Vm_Xml_Safety
  imports Vm_Render
begin

section \<open>Virtual machines: the domain XML carries no foreign markup\<close>

text \<open>
  What \<open>xml_escape\<close> does to each character, its inverse, and that the domain XML of a machine has the markup of its shape only.
\<close>

subsection \<open>Escaping\<close>

text \<open>The character-wise view of \<open>xml_escape\<close>, and a reader of the five entities.\<close>

definition esc :: "char \<Rightarrow> str" where
  "esc c =
     (if c = CHR ''&'' then ''&amp;'' else if c = CHR ''<'' then ''&lt;'' else if c = CHR ''>'' then ''&gt;''
      else if c = CHR 0x22 then ''&quot;'' else if c = CHR 0x27 then ''&apos;'' else [c])"

fun xml_unescape :: "str \<Rightarrow> str" where
  "xml_unescape [] = []"
| "xml_unescape (c # s) =
     (if c \<noteq> CHR ''&'' then c # xml_unescape s
      else if starts_with s ''amp;'' then CHR ''&'' # xml_unescape (drop 4 s)
      else if starts_with s ''lt;'' then CHR ''<'' # xml_unescape (drop 3 s)
      else if starts_with s ''gt;'' then CHR ''>'' # xml_unescape (drop 3 s)
      else if starts_with s ''quot;'' then CHR 0x22 # xml_unescape (drop 5 s)
      else if starts_with s ''apos;'' then CHR 0x27 # xml_unescape (drop 5 s)
      else c # xml_unescape s)"

lemma replace_char_map: "replace_char c new s = concat (map (\<lambda>x. if x = c then new else [x]) s)"
  by (induction s) auto

lemma replace_char_append [simp]: "replace_char c new (a @ b) = replace_char c new a @ replace_char c new b"
  by (simp add: replace_char_map)

lemma xml_escape_Nil [simp]: "xml_escape [] = []"
  by (simp add: xml_escape_def)

lemma xml_escape_Cons: "xml_escape (c # s) = esc c @ xml_escape s"
  by (auto simp: xml_escape_def esc_def)

lemma xml_escape_map: "xml_escape s = concat (map esc s)"
  by (induction s) (simp_all add: xml_escape_Cons)

lemma xml_unescape_esc: "xml_unescape (esc c @ s) = c # xml_unescape s"
  by (auto simp: esc_def starts_with_def)

lemma xml_escape_inj: "xml_unescape (xml_escape s) = s"
  by (induction s) (simp_all add: xml_escape_Cons xml_unescape_esc)

definition markup :: "str \<Rightarrow> str" where
  "markup s = filter (\<lambda>c. c = CHR ''<'' \<or> c = CHR ''>'' \<or> c = CHR 0x27 \<or> c = CHR 0x22) s"

lemma markup_append [simp]: "markup (a @ b) = markup a @ markup b"
  by (simp add: markup_def)

lemma markup_Nil [simp]: "markup [] = []"
  by (simp add: markup_def)

lemma markup_Cons [simp]: "markup (c # s) = (if c = CHR ''<'' \<or> c = CHR ''>'' \<or> c = CHR 0x27 \<or> c = CHR 0x22 then c # markup s else markup s)"
  by (simp add: markup_def)

lemma markup_escape [simp]: "markup (xml_escape s) = []"
  by (induction s) (auto simp: xml_escape_Cons esc_def markup_def)

lemma markup_alnum: "list_all is_ascii_alphanumeric s \<Longrightarrow> markup s = []"
  by (auto simp: markup_def filter_empty_conv list_all_iff is_ascii_alphanumeric_def is_ascii_digit_def is_ascii_lower_def
      is_ascii_upper_def byte_def)


lemma markup_quoted [simp]: "markup (quoted s) = [CHR 0x27] @ markup s @ [CHR 0x27]"
  by (simp add: quoted_def markup_Cons)

lemma markup_show_nat [simp]: "markup (show_nat n) = []"
  using show_nat_all [of n] by (intro markup_alnum) (auto simp: list_all_iff is_ascii_alphanumeric_def)

lemma markup_hex: "list_all is_ascii_hexdigit s \<Longrightarrow> markup s = []"
  by (rule markup_alnum) (auto simp: list_all_iff is_ascii_hexdigit_def is_ascii_alphanumeric_def is_ascii_lower_def is_ascii_upper_def)

lemma markup_safe_id: "safe_id i \<Longrightarrow> markup i = []"
  by (auto simp: markup_def filter_empty_conv list_all_iff safe_id_def id_byte_def is_ascii_alphanumeric_def is_ascii_digit_def
      is_ascii_lower_def is_ascii_upper_def byte_def)

lemma markup_concat: "markup (concat xs) = concat (map markup xs)"
  by (induction xs) (simp_all add: markup_def)

subsection \<open>The shape of a machine\<close>

text \<open>\<open>blank_vm\<close> empties every text and number of a machine and keeps what its XML is made of: how many disks, interfaces
  and devices it has, and its enumerations and flags.\<close>

definition blank_pci :: "str \<Rightarrow> str" where
  "blank_pci a = (if is_ok (ensure_safe_pci_address a) then ''0000:00:00.0'' else [])"

definition blank_usb :: "usb_assignment \<Rightarrow> usb_assignment" where
  "blank_usb u =
     (if is_hex4 (ua_vendor_id u) \<and> is_hex4 (ua_product_id u) then \<lparr>ua_vendor_id = ''0000'', ua_product_id = ''0000''\<rparr>
      else \<lparr>ua_vendor_id = [], ua_product_id = []\<rparr>)"

definition blank_nic :: "vm_nic \<Rightarrow> vm_nic" where
  "blank_nic n = n\<lparr>vn_bridge := [], vn_mac := map_option (\<lambda>_. []) (vn_mac n), vn_vlan := map_option (\<lambda>_. 0) (vn_vlan n)\<rparr>"

definition blank_vm :: "vm \<Rightarrow> vm" where
  "blank_vm v =
     v\<lparr>vm_id := [], vm_name := [], vm_vcpus := 0, vm_memory_mib := 0, vm_description := map_option (\<lambda>_. []) (vm_description v),
       vm_disks := map (\<lambda>d. d\<lparr>vd_dataset := [], vd_size_gib := 0\<rparr>) (vm_disks v), vm_nics := map blank_nic (vm_nics v),
       vm_gpus := map (\<lambda>g. \<lparr>ga_pci_address = blank_pci (ga_pci_address g)\<rparr>) (vm_gpus v),
       vm_pci_devices := map (\<lambda>p. \<lparr>pa_pci_address = blank_pci (pa_pci_address p)\<rparr>) (vm_pci_devices v),
       vm_usb_devices := map blank_usb (vm_usb_devices v),
       vm_cdrom := map_option (\<lambda>_. []) (vm_cdrom v), vm_cloud_init_iso := map_option (\<lambda>_. []) (vm_cloud_init_iso v)\<rparr>"

lemma safe_pci_parts:
  assumes "ensure_safe_pci_address a = Inr b"
  obtains d g where "rsplit_once (CHR ''.'') a = Some (d, g)" and "\<exists>x y z. split_on (CHR '':'') d = [x, y, z] \<and> markup x = [] \<and> markup y = [] \<and> markup z = []" and "markup g = []"
proof -
  from assms obtain d g where r: "rsplit_once (CHR ''.'') a = Some (d, g)" "length (split_on (CHR '':'') d) = 3"
    "list_all (list_all is_ascii_hexdigit) (split_on (CHR '':'') d)" "list_all is_ascii_hexdigit g"
    by (auto simp: ensure_safe_pci_address_def Let_def split: option.splits if_splits)
  then obtain x y z where "split_on (CHR '':'') d = [x, y, z]" by (auto simp: length_Suc_conv eval_nat_numeral)
  with r that show ?thesis by (auto simp: markup_hex)
qed

lemma pci_markup: "map_option markup (pci_hostdev_xml a) = map_option markup (pci_hostdev_xml (blank_pci a))"
proof (cases "ensure_safe_pci_address a")
  case (Inl e)
  have "pci_hostdev_xml [] = None" by code_simp
  with Inl show ?thesis by (simp add: pci_hostdev_xml_def blank_pci_def is_ok_def)
next
  case (Inr b)
  have q: "rsplit_once (CHR ''.'') ''0000:00:00.0'' = Some (''0000:00:00'', ''0'')"
    "split_on (CHR '':'') ''0000:00:00'' = [''0000'', ''00'', ''00'']" "ensure_safe_pci_address ''0000:00:00.0'' = Inr ''0000:00:00.0''"
    by code_simp+
  have m: "markup ''0000'' = []" "markup ''00'' = []" "markup ''0'' = []" by code_simp+
  show ?thesis
    by (rule safe_pci_parts [OF Inr]) (auto simp: pci_hostdev_xml_def Inr blank_pci_def is_ok_def q m)
qed

lemma usb_markup:
  "map_option markup (usb_hostdev_xml (ua_vendor_id u) (ua_product_id u)) =
   map_option markup (usb_hostdev_xml (ua_vendor_id (blank_usb u)) (ua_product_id (blank_usb u)))"
proof -
  have h: "is_hex4 ''0000''" "\<not> is_hex4 []" "markup ''0000'' = []" by code_simp+
  then show ?thesis by (auto simp: usb_hostdev_xml_def blank_usb_def is_hex4_def markup_hex)
qed

lemma map_filter_markup:
  assumes "\<And>x. map_option markup (f x) = map_option markup (g (b x))"
  shows "markup (concat (List.map_filter f xs)) = markup (concat (List.map_filter g (map b xs)))"
proof (induction xs)
  case (Cons x xs)
  have "map_option markup (f x) = map_option markup (g (b x))" by (rule assms)
  then show ?case using Cons by (auto simp: map_filter_simps split: option.splits)
qed (simp add: map_filter_simps)

lemma nic_markup: "markup (nic_xml n) = markup (nic_xml (blank_nic n))"
  by (auto simp: nic_xml_def blank_nic_def split: option.splits)

lemma disk_markup: "markup (disk_xml i d b) = markup (disk_xml i (d\<lparr>vd_dataset := [], vd_size_gib := 0\<rparr>) b)"
  by (simp add: disk_xml_def Let_def split: prod.splits option.splits)

lemma disks_markup: "markup (disks_xml c i ds) = markup (disks_xml c i (map (\<lambda>d. d\<lparr>vd_dataset := [], vd_size_gib := 0\<rparr>) ds))"
proof (induction ds arbitrary: i)
  case (Cons d ds)
  then show ?case using disk_markup [of i d] by simp
qed simp

lemma hostdevs_markup: "markup (hostdevs_xml v) = markup (hostdevs_xml (blank_vm v))"
proof -
  let ?p = "\<lambda>x. pci_hostdev_xml (ga_pci_address x)" and ?q = "\<lambda>x. pci_hostdev_xml (pa_pci_address x)"
    and ?u = "\<lambda>x. usb_hostdev_xml (ua_vendor_id x) (ua_product_id x)"
  have "markup (concat (List.map_filter ?p (vm_gpus v))) = markup (concat (List.map_filter ?p (vm_gpus (blank_vm v))))"
    "markup (concat (List.map_filter ?q (vm_pci_devices v))) = markup (concat (List.map_filter ?q (vm_pci_devices (blank_vm v))))"
    "markup (concat (List.map_filter ?u (vm_usb_devices v))) = markup (concat (List.map_filter ?u (vm_usb_devices (blank_vm v))))"
    using map_filter_markup [of ?p ?p "\<lambda>g. \<lparr>ga_pci_address = blank_pci (ga_pci_address g)\<rparr>" "vm_gpus v"]
      map_filter_markup [of ?q ?q "\<lambda>g. \<lparr>pa_pci_address = blank_pci (pa_pci_address g)\<rparr>" "vm_pci_devices v"]
      map_filter_markup [of ?u ?u blank_usb "vm_usb_devices v"] pci_markup usb_markup
    by (simp_all add: blank_vm_def)
  then show ?thesis by (simp add: hostdevs_xml_def)
qed

lemma nics_markup: "markup (concat (map nic_xml ns)) = markup (concat (map nic_xml (map blank_nic ns)))"
proof (induction ns)
  case (Cons n ns)
  then show ?case using nic_markup [of n] by simp
qed simp

lemma blank_fields [simp]:
  "vm_disks (blank_vm v) = map (\<lambda>d. d\<lparr>vd_dataset := [], vd_size_gib := 0\<rparr>) (vm_disks v)"
  "vm_nics (blank_vm v) = map blank_nic (vm_nics v)"
  "vm_cdrom (blank_vm v) = map_option (\<lambda>_. []) (vm_cdrom v)"
  "vm_cloud_init_iso (blank_vm v) = map_option (\<lambda>_. []) (vm_cloud_init_iso v)"
  "vm_description (blank_vm v) = map_option (\<lambda>_. []) (vm_description v)"
  "vm_guest_agent (blank_vm v) = vm_guest_agent v" "vm_display (blank_vm v) = vm_display v" "vm_firmware (blank_vm v) = vm_firmware v"
  "vm_id (blank_vm v) = []" "vm_name (blank_vm v) = []"
  by (simp_all add: blank_vm_def)

lemma devices_markup: "markup (devices_xml v l) = markup (devices_xml (blank_vm v) [])"
proof -
  have c: "markup (case vm_cdrom v of None \<Rightarrow> [] | Some p \<Rightarrow> cdrom_xml p) = markup (case vm_cdrom (blank_vm v) of None \<Rightarrow> [] | Some p \<Rightarrow> cdrom_xml p)"
    by (simp add: cdrom_xml_def split: option.splits)
  have i: "markup (case vm_cloud_init_iso v of None \<Rightarrow> [] | Some p \<Rightarrow> cloud_init_cdrom_xml p) =
      markup (case vm_cloud_init_iso (blank_vm v) of None \<Rightarrow> [] | Some p \<Rightarrow> cloud_init_cdrom_xml p)"
    by (simp add: cloud_init_cdrom_xml_def split: option.splits)
  have g: "markup (graphics_xml (vm_display v) l) = markup (graphics_xml (vm_display (blank_vm v)) [])"
    by (simp add: graphics_xml_def split: display_protocol.splits)
  have n: "vm_cdrom (blank_vm v) \<noteq> None \<longleftrightarrow> vm_cdrom v \<noteq> None" by simp
  show ?thesis
    unfolding devices_xml_def markup_append c i g n hostdevs_markup [of v] nics_markup [of "vm_nics v"] disks_markup [of _ _ "vm_disks v"]
    by simp
qed

text \<open>
  C12. Nothing a user chooses adds markup to the domain XML. The angle brackets and quotes of \<open>domain_xml\<close> are, in number and
  order, those of the XML of the same machine with every name, path, address, description and number emptied: no
  name, description, dataset, bridge, MAC address, ISO path, device address or listen address can open or close an element
  or an attribute. The only assumption is that the identifier of the machine is a safe one, which \<open>define\<close> checks first.
\<close>

theorem domain_xml_no_injection:
  assumes "safe_id (vm_id v)"
  shows "markup (domain_xml v listen) = markup (domain_xml (blank_vm v) [])"
proof -
  have d: "markup (description_xml (vm_description v)) = markup (description_xml (vm_description (blank_vm v)))"
    by (simp add: description_xml_def split: option.splits)
  have n: "vm_cdrom (blank_vm v) \<noteq> None \<longleftrightarrow> vm_cdrom v \<noteq> None" by simp
  show ?thesis
    unfolding domain_xml_def markup_append d n devices_markup [of v listen] markup_safe_id [OF assms]
    by simp
qed

section \<open>Witness\<close>

definition sample_vm :: vm where
  "sample_vm =
     \<lparr>vm_id = ''v1'', vm_name = ''web01'', vm_power_state = VmStopped, vm_vcpus = 2, vm_memory_mib = 2048, vm_firmware = Uefi,
      vm_display = DisplayVnc, vm_disks = [\<lparr>vd_dataset = ''tank/vms/web01-disk0'', vd_size_gib = 20, vd_bus = BusVirtio\<rparr>],
      vm_nics = [\<lparr>vn_bridge = ''br0'', vn_model = NicVirtio, vn_mac = Some ''52:54:00:aa:bb:cc'', vn_vlan = None\<rparr>], vm_gpus = [],
      vm_usb_devices = [], vm_pci_devices = [], vm_cdrom = None, vm_cloud_init_iso = None, vm_description = Some ''<b>'',
      vm_guest_agent = False, vm_fw = \<lparr>vf_enabled = False, vf_rules = []\<rparr>, vm_template = False, vm_autostart = False,
      vm_startup_order = None, vm_tags = [], vm_pool = None, vm_created_at = ''t'', vm_updated_at = None\<rparr>"

theorem domain_xml_no_injection_witness:
  "vm_description sample_vm = Some ''<b>'' \<and> markup (domain_xml sample_vm ''127.0.0.1'') = markup (domain_xml (blank_vm sample_vm) [])"
proof -
  have "safe_id (vm_id sample_vm)" by code_simp
  from domain_xml_no_injection [OF this] show ?thesis by (simp add: sample_vm_def)
qed

end
