(* ===== verification/Record_Service.thy ===== *)
theory Record_Service
  imports Store
begin

section \<open>Services over a record store\<close>

text \<open>
  What the services have in common that keep their records in a \<open>JsonStore\<close> and file each record under a key of its own.
  \<open>good\<close> says when a record is well formed. \<open>kept\<close> is the invariant that every stored record is good and filed under its
  key; \<open>safely P m\<close> says that the state after \<open>m\<close> satisfies it and that a result satisfies \<open>P\<close>. The rules follow the
  operations of the store and the sequencing of fallible steps.
\<close>

text \<open>\<open>yields P m\<close>: a result of \<open>m\<close> satisfies \<open>P\<close>, whatever the state.\<close>

definition yields :: "('a \<Rightarrow> bool) \<Rightarrow> ('e + 'a) \<times> 's \<Rightarrow> bool" where
  "yields P m \<longleftrightarrow> (\<forall>x. fst m = Inr x \<longrightarrow> P x)"

lemma yields_pure: "(\<And>x. r = Inr x \<Longrightarrow> P x) \<Longrightarrow> yields P (r, s)"
  by (simp add: yields_def)

lemma yields_any [simp]: "yields (\<lambda>_. True) m"
  by (simp add: yields_def)

lemma yieldsD: "yields P m \<Longrightarrow> m = (Inr x, s) \<Longrightarrow> P x"
  by (simp add: yields_def)

lemma yields_bind:
  assumes "yields P m" and "\<And>x s. P x \<Longrightarrow> yields Q (f x s)"
  shows "yields Q (bind_st m f)"
  using assms by (cases m; cases "fst m") (auto simp: yields_def bind_st_def)

locale record_service =
  fixes store :: "'s \<Rightarrow> 'v jstore"
    and set_store :: "'v jstore \<Rightarrow> 's \<Rightarrow> 's"
    and key :: "'v \<Rightarrow> str"
    and good :: "'v \<Rightarrow> bool"
  assumes store_set [simp]: "store (set_store st s) = st"
begin

definition kept :: "'s \<Rightarrow> bool" where
  "kept s \<longleftrightarrow> store_wf (store s) \<and> (\<forall>i v. records (store s) i = Some v \<longrightarrow> key v = i \<and> good v)"

definition safely :: "('a \<Rightarrow> bool) \<Rightarrow> (app_error + 'a) \<times> 's \<Rightarrow> bool" where
  "safely P m \<longleftrightarrow> kept (snd m) \<and> (\<forall>x. fst m = Inr x \<longrightarrow> P x)"

definition on_store :: "('v jstore \<Rightarrow> 'a \<times> 'v jstore) \<Rightarrow> 's \<Rightarrow> 'a \<times> 's" where
  "on_store f s = (let (x, st) = f (store s) in (x, set_store st s))"

lemma keptD: "kept s \<Longrightarrow> records (store s) i = Some v \<Longrightarrow> key v = i \<and> good v"
  by (simp add: kept_def)

lemma kept_same: "kept s \<Longrightarrow> store s' = store s \<Longrightarrow> kept s'"
  by (simp add: kept_def)

lemma safely_pure: "kept s \<Longrightarrow> (\<And>x. r = Inr x \<Longrightarrow> P x) \<Longrightarrow> safely P (r, s)"
  by (simp add: safely_def)

lemma safely_same: "kept s \<Longrightarrow> store (snd m) = store s \<Longrightarrow> safely (\<lambda>_. True) m"
  by (auto simp: safely_def intro: kept_same)

lemma safely_kept: "safely P m \<Longrightarrow> kept (snd m)"
  by (simp add: safely_def)

lemma safely_mono: "safely P m \<Longrightarrow> (\<And>x. P x \<Longrightarrow> Q x) \<Longrightarrow> safely Q m"
  by (simp add: safely_def)

lemma safely_bind:
  assumes "safely P m" and "\<And>x s. kept s \<Longrightarrow> P x \<Longrightarrow> safely Q (f x s)"
  shows "safely Q (bind_st m f)"
  using assms by (cases m; cases "fst m") (auto simp: safely_def bind_st_def)

lemma on_store_get:
  assumes "kept s"
  shows "safely (\<lambda>x. \<forall>v. x = Some v \<longrightarrow> key v = i \<and> good v) (on_store (get i) s)"
proof -
  obtain r st where r: "get i (store s) = (r, st)" by fastforce
  have "store_wf (store s)" using assms by (simp add: kept_def)
  from js.get_cases [OF this r] r assms show ?thesis by cases (auto simp: on_store_def safely_def kept_def)
qed

lemma on_store_list:
  assumes "kept s"
  shows "safely (\<lambda>vs. list_all good vs \<and> set vs = ran (records (store s))) (on_store list s)"
proof -
  obtain r st where r: "list (store s) = (r, st)" by fastforce
  have "store_wf (store s)" using assms by (simp add: kept_def)
  from js.list_cases [OF this r] r assms show ?thesis by cases (auto simp: on_store_def safely_def kept_def list_all_iff ran_def)
qed

lemma on_store_put:
  assumes "kept s" and "key v = i" and "good v"
  shows "safely (\<lambda>_. True) (on_store (put i v) s)"
proof -
  obtain r st where r: "put i v (store s) = (r, st)" by fastforce
  have "store_wf (store s)" using assms by (simp add: kept_def)
  from js.put_cases [OF this r] r assms show ?thesis by cases (auto simp: on_store_def safely_def kept_def)
qed

lemma on_store_delete:
  assumes "kept s"
  shows "safely (\<lambda>_. True) (on_store (delete i) s)"
proof -
  obtain r st where r: "delete i (store s) = (r, st)" by fastforce
  have "store_wf (store s)" using assms by (simp add: kept_def)
  from js.delete_cases [OF this r] r assms show ?thesis by cases (auto simp: on_store_def safely_def kept_def)
qed

end

end
