(* ===== verification/Vm_Invariant.thy ===== *)
theory Vm_Invariant
  imports Vm_Storage Vm_Xml_Safety Record_Service
begin

section \<open>Virtual machines: every stored machine is well formed\<close>

text \<open>
  \<open>vm_good\<close> is the well-formedness of a record. \<open>record_service\<close> is interpreted on the records of the KVM service, and each
  operation is shown to keep every record well formed; the theorem is about sequences of them.
\<close>

definition vm_good :: "vm \<Rightarrow> bool" where
  "vm_good v \<longleftrightarrow>
     safe_id (vm_name v) \<and> vm_vcpus v \<noteq> 0 \<and> vm_memory_mib v \<noteq> 0 \<and> validate_disks (vm_disks v) = Inr () \<and>
     validate_nics (vm_nics v) = Inr () \<and> list_all (\<lambda>n. vn_mac n \<noteq> None) (vm_nics v) \<and>
     validate_pci_assignments (vm_pci_devices v) = Inr () \<and> validate_usb_assignments (vm_usb_devices v) = Inr () \<and>
     validate_gpu_assignments (vm_gpus v) = Inr () \<and> tags_normal (vm_tags v) \<and> length (vm_tags v) \<le> 64 \<and> vm_pool v \<noteq> Some []"

interpretation vms: record_service kv_store "\<lambda>st s. s\<lparr>kv_store := st\<rparr>" vm_id vm_good
  by unfold_locales simp

lemma on_vms_store: "on_vms = vms.on_store"
  by (simp add: fun_eq_iff on_vms_def vms.on_store_def)

lemma vm_safely_host: "vms.kept s \<Longrightarrow> yields P (f (kv_host s)) \<Longrightarrow> vms.safely P (on_vhost f s)"
  by (auto simp: vms.safely_def yields_def on_vhost_def split: prod.splits intro: vms.kept_same)

lemma vm_safely_any: "vms.kept s \<Longrightarrow> vms.safely (\<lambda>_. True) (on_vhost f s)"
  by (simp add: vm_safely_host)

lemma vm_kept_host [simp]: "vms.kept (s\<lparr>kv_host := h\<rparr>) = vms.kept s" "vms.kept (besides f s) = vms.kept s"
  by (simp_all add: vms.kept_def besides_def on_vhost_def split: prod.splits)

lemma vm_safely_get: "vms.kept s \<Longrightarrow> vms.safely (\<lambda>v. vm_id v = i \<and> vm_good v) (vm_get_stored i s)"
  unfolding vm_get_stored_def on_vms_store
  by (rule vms.safely_bind [OF vms.on_store_get]) (auto intro!: vms.safely_pure simp: ok_or_def split: option.splits)

lemma vm_safely_put: "vms.kept s \<Longrightarrow> vm_id v = i \<Longrightarrow> vm_good v \<Longrightarrow> vms.safely (\<lambda>_. True) (on_vms (Store.put i v) s)"
  unfolding on_vms_store by (rule vms.on_store_put)

lemma vm_safely_list: "vms.kept s \<Longrightarrow> vms.safely (\<lambda>vs. list_all vm_good vs) (on_vms Store.list s)"
  unfolding on_vms_store by (rule vms.safely_mono [OF vms.on_store_list]) simp_all

lemma vm_safely_delete: "vms.kept s \<Longrightarrow> vms.safely (\<lambda>_. True) (on_vms (Store.delete i) s)"
  unfolding on_vms_store by (rule vms.on_store_delete)

lemma vm_good_fields [simp]:
  "vm_good (v\<lparr>vm_power_state := a\<rparr>) = vm_good v" "vm_good (v\<lparr>vm_updated_at := b\<rparr>) = vm_good v"
  "vm_good (v\<lparr>vm_firmware := c\<rparr>) = vm_good v" "vm_good (v\<lparr>vm_display := d\<rparr>) = vm_good v"
  "vm_good (v\<lparr>vm_description := e\<rparr>) = vm_good v" "vm_good (v\<lparr>vm_cdrom := f\<rparr>) = vm_good v"
  "vm_good (v\<lparr>vm_guest_agent := g\<rparr>) = vm_good v" "vm_good (v\<lparr>vm_fw := h\<rparr>) = vm_good v"
  "vm_good (v\<lparr>vm_cloud_init_iso := i\<rparr>) = vm_good v" "vm_good (v\<lparr>vm_startup_order := j\<rparr>) = vm_good v"
  "vm_good (v\<lparr>vm_autostart := k\<rparr>) = vm_good v" "vm_good (v\<lparr>vm_template := l\<rparr>) = vm_good v"
  by (simp_all add: vm_good_def)

lemma vm_good_set:
  "vm_good v \<Longrightarrow> safe_id n \<Longrightarrow> vm_good (v\<lparr>vm_name := n\<rparr>)"
  "vm_good v \<Longrightarrow> c \<noteq> 0 \<Longrightarrow> vm_good (v\<lparr>vm_vcpus := c\<rparr>)"
  "vm_good v \<Longrightarrow> m \<noteq> 0 \<Longrightarrow> vm_good (v\<lparr>vm_memory_mib := m\<rparr>)"
  "vm_good v \<Longrightarrow> validate_disks ds = Inr () \<Longrightarrow> vm_good (v\<lparr>vm_disks := ds\<rparr>)"
  "vm_good v \<Longrightarrow> validate_nics ns = Inr () \<and> list_all (\<lambda>n. vn_mac n \<noteq> None) ns \<Longrightarrow> vm_good (v\<lparr>vm_nics := ns\<rparr>)"
  "vm_good v \<Longrightarrow> tags_normal ts \<and> length ts \<le> 64 \<Longrightarrow> vm_good (v\<lparr>vm_tags := ts\<rparr>)"
  "vm_good v \<Longrightarrow> p \<noteq> Some [] \<Longrightarrow> vm_good (v\<lparr>vm_pool := p\<rparr>)"
  "vm_good v \<Longrightarrow> validate_usb_assignments us = Inr () \<Longrightarrow> vm_good (v\<lparr>vm_usb_devices := us\<rparr>)"
  "vm_good v \<Longrightarrow> validate_pci_assignments ps = Inr () \<Longrightarrow> vm_good (v\<lparr>vm_pci_devices := ps\<rparr>)"
  by (simp_all add: vm_good_def)

lemma given_cases: "given x f v = (case x of None \<Rightarrow> v | Some y \<Rightarrow> f y v)"
  by (simp add: given_def)

lemma validate_tags_good: "validate_tags ts = Inr out \<Longrightarrow> tags_normal out \<and> length out \<le> 64"
  using tags_loop_ok [of "[]" ts out]
  by (auto simp: validate_tags_def res_simps tags_normal_def split: if_splits)

lemma pool_good: "normalize_pool_ref p \<noteq> Some []"
  by (auto simp: normalize_pool_ref_def split: option.splits if_splits)


subsection \<open>Addresses\<close>

lemma hex_digit_hex:
  assumes "n < 16"
  shows "is_ascii_hexdigit (hex_digit n) \<and> hex_digit n \<noteq> CHR '':''"
proof -
  have b: "byte (hex_digit n) = (if n < 10 then 48 + n else 87 + n)" using assms by (simp add: hex_digit_def byte_def)
  moreover have "byte (CHR '':'') = 58" by (simp add: byte_def)
  ultimately have "byte (hex_digit n) \<noteq> byte (CHR '':'')" using assms by (cases "n < 10") auto
  then have "hex_digit n \<noteq> CHR '':''" by metis
  with b assms show ?thesis by (auto simp: is_ascii_hexdigit_def is_ascii_digit_def)
qed

lemma hex2_digits: "\<exists>x y. hex2 b = [x, y] \<and> is_ascii_hexdigit x \<and> is_ascii_hexdigit y \<and> x \<noteq> CHR '':'' \<and> y \<noteq> CHR '':''"
proof -
  have "unat b < 256" using unsigned_less [where 'a = nat, of b] by simp
  then have "unat b div 16 < 16" "unat b mod 16 < 16" by auto
  then show ?thesis using hex_digit_hex by (auto simp: hex2_def)
qed

lemma generate_mac_safe: "ensure_safe_mac (generate_mac b) = Inr (generate_mac b)"
proof -
  obtain p q r where b: "b = (p, q, r)" by (metis prod_cases3)
  have d: "is_ascii_hexdigit (CHR ''5'')" "is_ascii_hexdigit (CHR ''2'')" "is_ascii_hexdigit (CHR ''4'')" "is_ascii_hexdigit (CHR ''0'')"
    by code_simp+
  from hex2_digits [of p] hex2_digits [of q] hex2_digits [of r] d show ?thesis
    by (auto simp: b generate_mac_def ensure_safe_mac_def Let_def)
qed

lemma validate_nics_iff: "validate_nics nics = Inr u \<longleftrightarrow> list_all (\<lambda>n. validate_nic n = Inr ()) nics"
  by (induction nics) (auto simp: validate_nics_def res_simps)

lemma validate_nic_mac: "validate_nic n = Inr () \<Longrightarrow> ensure_safe_mac m = Inr m \<Longrightarrow> validate_nic (n\<lparr>vn_mac := Some m\<rparr>) = Inr ()"
  by (auto simp: validate_nic_def res_simps)

lemma validate_nic_given: "validate_nic n = Inr () \<Longrightarrow> vn_mac n = Some m \<Longrightarrow> ensure_safe_mac m = Inr m"
  by (auto simp: validate_nic_def res_simps ensure_safe_mac_def Let_def split: option.splits if_splits)

lemma assign_macs_good:
  "list_all (\<lambda>n. validate_nic n = Inr ()) nics \<Longrightarrow> assign_macs rnd i seen nics = Inr out \<Longrightarrow>
     list_all (\<lambda>n. validate_nic n = Inr ()) out \<and> list_all (\<lambda>n. vn_mac n \<noteq> None) out"
proof (induction rnd i seen nics arbitrary: out rule: assign_macs.induct)
  case (2 rnd i seen nic nics)
  define m where "m = (case vn_mac nic of Some m \<Rightarrow> m | None \<Rightarrow> generate_mac (rnd i))"
  have "ensure_safe_mac m = Inr m"
    using 2(2) validate_nic_given generate_mac_safe by (auto simp: m_def split: option.splits)
  moreover obtain rest where "assign_macs rnd (Suc i) (to_ascii_lowercase m # seen) nics = Inr rest" "out = nic\<lparr>vn_mac := Some m\<rparr> # rest"
    "to_ascii_lowercase m \<notin> set seen"
    using 2(3) by (auto simp: Let_def m_def res_simps split: if_splits)
  ultimately show ?case using 2 validate_nic_mac by (auto simp: m_def Let_def)
qed simp

lemma normalize_nics_good:
  "normalize_nics rnd nics = Inr out \<Longrightarrow> validate_nics out = Inr () \<and> list_all (\<lambda>n. vn_mac n \<noteq> None) out"
  using assign_macs_good by (auto simp: normalize_nics_def validate_nics_iff res_simps)

subsection \<open>Creating\<close>

lemma bring_up_yields: "yields (\<lambda>w. vm_id w = vm_id v \<and> (vm_good v \<longrightarrow> vm_good w)) (bring_up env v start created h)"
  by (auto simp: yields_def bring_up_def split: sum.splits prod.splits if_splits)

lemma validate_create_good:
  assumes "validate_create req env = Inr (nics, cdrom)" and "tags_normal tags" and "length tags \<le> 64"
  shows "vm_good (built_vm env req nics cdrom seed tags)"
  using assms normalize_nics_good pool_good
  by (auto simp: validate_create_def validate_vm_request_def built_vm_def vm_good_def res_simps split: if_splits)

lemma create_safely: "vms.kept s \<Longrightarrow> vms.safely (\<lambda>_. True) (vm_create env req s)"
  unfolding vm_create_def
proof (rule vms.safely_bind [OF vms.safely_pure [where P = "\<lambda>x. validate_create req env = Inr x"]], assumption, assumption, goal_cases)
  case (1 x s)
  obtain nics cdrom where x: "x = (nics, cdrom)" by fastforce
  note valid = 1(3)
  show ?case unfolding x prod.case
  proof (rule vms.safely_bind [OF vm_safely_any [OF 1(2)]], goal_cases)
    case (1 y s)
    obtain created seed where y: "y = (created, seed)" by fastforce
    show ?case unfolding y prod.case
    proof (rule vms.safely_bind [OF vms.safely_pure [where P = "\<lambda>ts. validate_tags (cv_tags req) = Inr ts", OF 1(1)]], assumption, goal_cases)
      case (1 tags s)
      have good: "vm_good (built_vm env req nics cdrom seed tags)"
        using validate_create_good validate_tags_good [OF 1(2)] valid by (simp add: x)
      show ?case
      proof (rule vms.safely_bind [OF vm_safely_host [OF 1(1) bring_up_yields]], goal_cases)
        case (1 v s)
        obtain r s1 where p: "on_vms (Store.put (vm_id v) v) s = (r, s1)" by fastforce
        have "vms.safely (\<lambda>_. True) (on_vms (Store.put (vm_id v) v) s)"
          using 1 good by (intro vm_safely_put refl) simp_all
        then show ?case by (cases r) (simp_all add: p vms.safely_def)
      qed
    qed
  qed
qed

subsection \<open>Updating\<close>

definition grown :: "vm \<Rightarrow> vm \<Rightarrow> bool" where
  "grown v w \<longleftrightarrow> vm_id w = vm_id v \<and> vm_good w"

lemma grown_same [simp]: "grown v v = vm_good v"
  by (simp add: grown_def)

lemma grown_set: "vm_id (g v) = vm_id v \<Longrightarrow> (vm_good v \<Longrightarrow> vm_good (g v)) \<Longrightarrow> grown u v \<Longrightarrow> grown u (g v)"
  by (simp add: grown_def)

lemma grown_given:
  "(\<And>y v. x = Some y \<Longrightarrow> vm_id (f y v) = vm_id v \<and> (vm_good v \<longrightarrow> vm_good (f y v))) \<Longrightarrow> grown u v \<Longrightarrow> grown u (given x f v)"
  by (cases x) (simp_all add: given_cases grown_def)

lemma with_sizes_good:
  assumes "with_sizes req v = Inr w" and "vm_good v" and "\<forall>n. uv_name req = Some n \<longrightarrow> safe_id n"
  shows "grown v w \<and> (\<forall>ds. uv_disks req = Some ds \<longrightarrow> validate_disks ds = Inr ())"
proof -
  let ?n = "given (uv_name req) (\<lambda>name v. v\<lparr>vm_name := name\<rparr>) v"
  let ?c = "given (uv_vcpus req) (\<lambda>n v. v\<lparr>vm_vcpus := n\<rparr>) ?n"
  have r: "uv_vcpus req \<noteq> Some 0" "uv_memory_mib req \<noteq> Some 0" "w = given (uv_memory_mib req) (\<lambda>n v. v\<lparr>vm_memory_mib := n\<rparr>) ?c"
    "\<forall>ds. uv_disks req = Some ds \<longrightarrow> validate_disks ds = Inr ()"
    using assms(1) by (auto simp: with_sizes_def res_simps Let_def split: if_splits option.splits)
  have "grown v ?n" by (rule grown_given) (use assms in \<open>auto intro: vm_good_set\<close>)
  then have "grown v ?c" by (rule grown_given [rotated]) (use r in \<open>auto intro: vm_good_set\<close>)
  then have "grown v w" unfolding r(3) by (rule grown_given [rotated]) (use r in \<open>auto intro: vm_good_set\<close>)
  with r show ?thesis by blast
qed

lemma with_hardware_yields:
  assumes "vm_good v" and "\<forall>ds. uv_disks req = Some ds \<longrightarrow> validate_disks ds = Inr ()"
  shows "yields (grown v) (with_hardware env req v h)"
  unfolding with_hardware_def Let_def
proof (rule yields_bind [where P = "\<lambda>_. True"], simp, rule yields_bind [where P = "grown v"], goal_cases)
  case (1 x s)
  let ?v = "given (uv_display req) (\<lambda>d v. v\<lparr>vm_display := d\<rparr>) (given (uv_firmware req) (\<lambda>f v. v\<lparr>vm_firmware := f\<rparr>) v)"
  have g: "grown v ?v" using assms(1) by (intro grown_given) simp_all
  show ?case
  proof (cases "uv_nics req")
    case (Some ns)
    have "grown v (?v\<lparr>vm_nics := nics\<rparr>)" if "normalize_nics (ve_macs env) ns = Inr nics" for nics
      using g normalize_nics_good [OF that] by (auto simp: grown_def intro: vm_good_set)
    then show ?thesis by (auto simp: Some res_simps intro!: yields_pure)
  qed (use g in \<open>auto intro: yields_pure\<close>)
next
  case (2 x s w h)
  with assms(2) show ?case
    by (cases "uv_disks req") (auto intro!: yields_pure yields_bind [OF yields_any] intro: vm_good_set simp: grown_def)
qed

lemma with_cdrom_good: "with_cdrom env req v = Inr w \<Longrightarrow> vm_good v \<Longrightarrow> grown v w"
  by (auto simp: with_cdrom_def grown_def res_simps split: if_splits option.splits)

lemma with_cloud_init_yields: "vm_good v \<Longrightarrow> yields (grown v) (with_cloud_init env req v h)"
  by (cases "uv_cloud_init req") (auto simp: with_cloud_init_def grown_def intro!: yields_pure yields_bind [OF yields_any])

lemma with_options_yields: "vm_good v \<Longrightarrow> yields (grown v) (with_options req v h)"
  unfolding with_options_def Let_def
proof (rule yields_bind [where P = "grown v"], goal_cases)
  case 1
  let ?v = "given (uv_startup_order req) (\<lambda>n v. v\<lparr>vm_startup_order := Some n\<rparr>) v"
  have g: "grown v ?v" using 1 by (intro grown_given) simp_all
  show ?case
  proof (cases "uv_tags req")
    case (Some ts)
    have "grown v (?v\<lparr>vm_tags := tags\<rparr>)" if "validate_tags ts = Inr tags" for tags
      using g validate_tags_good [OF that] by (auto simp: grown_def intro: vm_good_set)
    then show ?thesis by (auto simp: Some res_simps intro!: yields_pure)
  qed (use g in \<open>auto intro: yields_pure\<close>)
next
  case (2 w h)
  let ?w = "given (uv_autostart req) (\<lambda>a v. v\<lparr>vm_autostart := a\<rparr>) (given (uv_pool req) (\<lambda>p v. v\<lparr>vm_pool := normalize_pool_ref (Some p)\<rparr>) w)"
  have g: "grown v ?w" using 2(2) pool_good by (intro grown_given) (auto intro: vm_good_set)
  show ?case
  proof (cases "uv_template req")
    case (Some t)
    from g show ?thesis by (auto simp: Some grown_def intro!: yields_pure yields_bind [OF yields_any])
  qed (use g in \<open>auto intro: yields_pure\<close>)
qed

lemma changed_vm_yields:
  assumes "vm_good v" and "\<forall>n. uv_name req = Some n \<longrightarrow> safe_id n"
  shows "yields (grown v) (changed_vm env req v h)"
  unfolding changed_vm_def Let_def
proof (rule yields_bind [where P = "\<lambda>w. grown v w \<and> (\<forall>ds. uv_disks req = Some ds \<longrightarrow> validate_disks ds = Inr ())"], goal_cases)
  case 1
  show ?case using with_sizes_good assms by (intro yields_pure) blast
next
  case (2 w h)
  show ?case
  proof (rule yields_bind [OF with_hardware_yields], goal_cases)
    case (3 w' h)
    show ?case
    proof (rule yields_bind [where P = "grown v"], goal_cases)
      case 1
      from 2 3 show ?case by (intro yields_pure) (auto dest!: with_cdrom_good simp: grown_def split: if_splits)
    next
      case (2 w h)
      show ?case
      proof (rule yields_bind [OF with_cloud_init_yields], goal_cases)
        case 1
        have "grown v (given (uv_firewall req) (\<lambda>fw v. v\<lparr>vm_fw := fw\<rparr>) (given (uv_guest_agent req) (\<lambda>a v. v\<lparr>vm_guest_agent := a\<rparr>) w))"
          using 2 by (intro grown_given) simp_all
        then show ?case by (simp add: grown_def)
      next
        case (2 u h)
        have "vm_id (given (uv_firewall req) (\<lambda>fw v. v\<lparr>vm_fw := fw\<rparr>) (given (uv_guest_agent req) (\<lambda>a v. v\<lparr>vm_guest_agent := a\<rparr>) w)) = vm_id w"
          by (cases "uv_guest_agent req"; cases "uv_firewall req") (auto simp: given_cases)
        then have "vm_id u = vm_id v" "vm_good u" using 2 \<open>grown v w\<close> by (auto simp: grown_def)
        then have "grown u = grown v" "vm_good u" by (simp_all add: grown_def [abs_def])
        then show ?case using with_options_yields [of u req h] by simp
      qed
    qed
  qed (use 2 in \<open>auto simp: grown_def\<close>)
qed

lemma check_name_safely: "vms.kept s \<Longrightarrow> vms.safely (\<lambda>_. \<forall>n. new = Some n \<longrightarrow> safe_id n) (check_new_name i old new s)"
proof (cases new)
  case (Some n)
  assume k: "vms.kept s"
  show ?thesis unfolding check_new_name_def Some option.case
    by (rule vms.safely_bind [OF vms.safely_pure [where P = "\<lambda>_. safe_id n"]])
      (auto simp: k res_simps intro!: vms.safely_pure vms.safely_bind [OF vm_safely_list])
qed (auto simp: check_new_name_def intro: vms.safely_pure)

lemma get_safely: "vms.kept s \<Longrightarrow> vms.safely (\<lambda>_. True) (vm_get i s)"
  unfolding vm_get_def vm_overlay_def
  by (rule vms.safely_bind [OF vm_safely_get]) (auto simp: on_vhost_def intro!: vms.safely_pure split: prod.splits)

lemma update_safely: "vms.kept s \<Longrightarrow> vms.safely (\<lambda>_. True) (vm_update env i req s)"
  unfolding vm_update_def
proof (rule vms.safely_bind [OF vm_safely_get], assumption, goal_cases)
  case (1 old s)
  show ?case
  proof (rule vms.safely_bind [OF check_name_safely [OF 1(2)]], goal_cases)
    case (1 u s)
    show ?case
    proof (rule vms.safely_bind [OF vm_safely_host [OF 1(1) changed_vm_yields]], goal_cases)
      case (3 v s)
      then have "vm_good (v\<lparr>vm_updated_at := Some (ve_now env)\<rparr>)" by (simp add: grown_def)
      then show ?case
        by (intro vms.safely_bind [OF vm_safely_any] vms.safely_bind [OF vm_safely_put] get_safely 3(1)) simp_all
    qed (use 1 \<open>vm_id old = i \<and> vm_good old\<close> in auto)
  qed
qed

subsection \<open>The other operations\<close>

lemma vm_kept_live: "on_vhost f s = (x, s') \<Longrightarrow> vms.kept s \<Longrightarrow> vms.kept s'"
  by (auto simp: on_vhost_def split: prod.splits)

lemma delete_safely: "vms.kept s \<Longrightarrow> vms.safely (\<lambda>_. True) (vm_delete env i s)"
  unfolding vm_delete_def Let_def
  by (rule vms.safely_bind [OF vm_safely_get], assumption, rule vms.safely_bind [OF vm_safely_delete])
    (auto intro: vms.safely_pure)

lemma plan_clone_good:
  "plan_clone name n disks = Inr plan \<Longrightarrow> validate_disks disks = Inr () \<Longrightarrow> (\<And>d. ensure_safe_zfs_dataset d = Inr d \<Longrightarrow> trim d = d) \<Longrightarrow>
     validate_disks (map snd plan) = Inr ()"
proof (induction name n disks arbitrary: plan rule: plan_clone.induct)
  case (2 name i disk disks)
  then obtain src new rest where "ensure_safe_zfs_dataset (clone_dataset name src i) = Inr new" "plan_clone name (Suc i) disks = Inr rest"
    "plan = (src, disk\<lparr>vd_dataset := new\<rparr>) # rest" by (auto simp: res_simps)
  moreover from this have "ensure_safe_zfs_dataset new = Inr new" by (auto simp: ensure_safe_zfs_dataset_def split: if_splits)
  ultimately show ?case using 2 by (auto simp: validate_disks_def validate_disk_def res_simps split: if_splits)
qed (simp add: validate_disks_def)

lemma dataset_trim: "ensure_safe_zfs_dataset d = Inr e \<Longrightarrow> e = d \<and> trim d = d"
proof -
  assume "ensure_safe_zfs_dataset d = Inr e"
  then have b: "list_all (\<lambda>b. is_ascii_alphanumeric b \<or> b \<in> set ''.-_:/'') d" and e: "e = d"
    by (auto simp: ensure_safe_zfs_dataset_def split: if_splits)
  have "\<forall>b \<in> set d. byte b < 128 \<and> \<not> is_whitespace [b]"
    using b by (auto simp: list_all_iff is_ascii_alphanumeric_def is_ascii_digit_def is_ascii_lower_def is_ascii_upper_def byte_def)
  moreover from this have "chars d = map (\<lambda>b. [b]) d" by (simp add: chars_ascii)
  ultimately show ?thesis using e by (intro conjI trim_no_whitespace) (simp_all del: is_whitespace.simps)
qed

lemma fresh_macs_good:
  assumes "validate_nics nics = Inr ()"
  shows "validate_nics (fresh_macs rnd nics) = Inr () \<and> list_all (\<lambda>n. vn_mac n \<noteq> None) (fresh_macs rnd nics)"
proof -
  have "validate_nic (n\<lparr>vn_mac := Some (generate_mac (rnd k))\<rparr>) = Inr ()" if "(k, n) \<in> set (List.enumerate 0 nics)" for k n
    using that assms by (intro validate_nic_mac generate_mac_safe) (auto simp: validate_nics_iff list_all_iff in_set_enumerate_eq)
  then show ?thesis by (auto simp: validate_nics_iff fresh_macs_def list_all_iff)
qed

lemma cloned_good:
  assumes "vm_good src" and "safe_id (cq_name req)" and "validate_disks ds = Inr ()"
  shows "vm_good (cloned_vm env req src ds)"
  using assms fresh_macs_good
  by (simp add: vm_good_def cloned_vm_def validate_pci_assignments_def validate_usb_assignments_def validate_gpu_assignments_def)

lemma clone_on_host_yields:
  "yields (\<lambda>v. v = cloned_vm env req src (map snd plan)) (clone_on_host env req src plan h)"
  unfolding clone_on_host_def Let_def
  by (rule yields_bind [OF yields_any], rule yields_bind [OF yields_any])
    (auto simp: yields_def split: sum.splits prod.splits)

lemma clone_safely: "vms.kept s \<Longrightarrow> vms.safely (\<lambda>_. True) (vm_clone env i req s)"
  unfolding vm_clone_def
proof (rule vms.safely_bind [OF vm_safely_get], assumption, goal_cases)
  case (1 src s)
  note src = 1(3)
  show ?case
  proof (cases "trim (cq_name req) = []")
    case False
    have "vms.safely (\<lambda>_. True) (bind_st (ensure_safe_id (cq_name req), s) f)"
      if "\<And>u s. vms.kept s \<Longrightarrow> safe_id (cq_name req) \<Longrightarrow> vms.safely (\<lambda>_. True) (f u s)" for f :: "str \<Rightarrow> vm_service \<Rightarrow> vm api_result \<times> vm_service"
      by (rule vms.safely_bind [OF vms.safely_pure [where P = "\<lambda>_. safe_id (cq_name req)"]])
        (use 1(2) that in \<open>auto simp: res_simps\<close>)
    note named = this
    show ?thesis unfolding if_not_P [OF False]
    proof (rule named, rule vms.safely_bind [OF vm_safely_list], assumption, goal_cases)
      case (1 u s existing s1)
      then show ?case
      proof (auto intro!: vms.safely_pure simp del: bind_st_def, goal_cases)
        case 1
        show ?case
        proof (rule vms.safely_bind [OF vms.safely_pure [where P = "\<lambda>plan. plan_clone (cq_name req) 0 (vm_disks src) = Inr plan"]], goal_cases)
          case (3 plan s)
          then have "vm_good (cloned_vm env req src (map snd plan))"
            using src \<open>safe_id (cq_name req)\<close> plan_clone_good [of "cq_name req" 0 "vm_disks src" plan] dataset_trim
            by (intro cloned_good) (auto simp: vm_good_def)
          with 3(1) show ?case
            by (intro vms.safely_bind [OF vm_safely_host [OF _ clone_on_host_yields]] vms.safely_bind [OF vm_safely_put])
              (auto intro: vms.safely_pure)
        qed (use 1 in auto)
      qed
    qed
  qed (use 1 in \<open>auto intro: vms.safely_pure\<close>)
qed

lemma kept_is_running [simp]: "vms.kept (snd (is_running i s)) = vms.kept s" "vms.kept (snd (on_vhost f s)) = vms.kept s"
  by (simp_all add: is_running_def on_vhost_def split: prod.splits)

lemma safely_let: "vms.kept (snd m) \<Longrightarrow> (\<And>r s. vms.kept s \<Longrightarrow> vms.safely P (F r s)) \<Longrightarrow> vms.safely P (case m of (r, s) \<Rightarrow> F r s)"
  by (cases m) simp

lemma safely_if: "(b \<Longrightarrow> vms.safely P m) \<Longrightarrow> (\<not> b \<Longrightarrow> vms.safely P n) \<Longrightarrow> vms.safely P (if b then m else n)"
  by simp

lemma safely_sum:
  "(\<And>e. r = Inl e \<Longrightarrow> vms.safely P (E e)) \<Longrightarrow> (\<And>x. r = Inr x \<Longrightarrow> vms.safely P (F x)) \<Longrightarrow>
     vms.safely P (case r of Inl e \<Rightarrow> E e | Inr x \<Rightarrow> F x)"
  by (cases r) simp_all

lemma safely_value: "vms.kept s \<Longrightarrow> vms.safely (\<lambda>x. r = Inr x) (r, s)"
  by (rule vms.safely_pure)

lemma store_and_define_safely:
  "vms.kept s \<Longrightarrow> vm_id v = i \<Longrightarrow> vm_good v \<Longrightarrow> vms.safely (\<lambda>_. True) (store_and_define env i v running s)"
  unfolding store_and_define_def
  by (rule vms.safely_bind [OF vm_safely_put], assumption+)
    (auto intro!: vms.safely_bind [where P = "\<lambda>_. True"] vms.safely_pure vm_safely_any)

lemma stamped_fields [simp]: "vm_good (stamped env v) = vm_good v" "vm_id (stamped env v) = vm_id v"
  by (simp_all add: stamped_def)

lemmas safely_steps = safely_let safely_if safely_sum vms.safely_bind [OF vm_safely_any]
  vms.safely_bind [OF safely_value] vms.safely_bind [OF vm_safely_list]

lemma power_safely: "vms.kept s \<Longrightarrow> vms.safely (\<lambda>_. True) (vm_power env i action s)"
  unfolding vm_power_def Let_def
  by (rule vms.safely_bind [OF vm_safely_get], assumption)
    (intro safely_steps vms.safely_bind [OF vm_safely_put] vms.safely_pure; simp)

lemma autostart_kept: "vms.kept s \<Longrightarrow> vms.kept (start_autostart_vms s)"
proof -
  assume "vms.kept s"
  moreover obtain r s1 where "on_vms Store.list s = (r, s1)" by fastforce
  ultimately show ?thesis using vm_safely_list [of s] by (cases r) (auto simp: start_autostart_vms_def vms.safely_def)
qed

lemma validate_disks_iff: "validate_disks ds = Inr u \<longleftrightarrow> list_all (\<lambda>d. validate_disk d = Inr ()) ds"
  by (induction ds) (auto simp: validate_disks_def res_simps)

lemma disk_resized: "validate_disk d = Inr () \<Longrightarrow> n \<noteq> 0 \<Longrightarrow> validate_disk (d\<lparr>vd_size_gib := n\<rparr>) = Inr ()"
  by (auto simp: validate_disk_def res_simps)

lemma disk_moved: "validate_disk d = Inr () \<Longrightarrow> ensure_safe_zfs_dataset t = Inr t \<Longrightarrow> validate_disk (d\<lparr>vd_dataset := t\<rparr>) = Inr ()"
  using dataset_trim [of t t] by (auto simp: validate_disk_def res_simps)

lemma nth_opt_in: "nth_opt xs i = Some x \<Longrightarrow> i < length xs \<and> xs ! i = x \<and> x \<in> set xs"
  by (auto simp: nth_opt_def split: if_splits)

lemma disks_update: "list_all P ds \<Longrightarrow> P d \<Longrightarrow> list_all P (ds[i := d])"
  by (auto simp: list_all_iff dest!: set_update_subset_insert [THEN subsetD])

lemma resize_safely: "vms.kept s \<Longrightarrow> vms.safely (\<lambda>_. True) (resize_disk env i index size_gib s)"
  unfolding resize_disk_def Let_def
proof (rule vms.safely_bind [OF vm_safely_get], assumption, rule vms.safely_bind [OF safely_value], assumption, goal_cases)
  case (1 v s disk s1)
  then have d: "validate_disk disk = Inr ()" "list_all (\<lambda>d. validate_disk d = Inr ()) (vm_disks v)"
    by (auto simp: ok_or_def vm_good_def validate_disks_iff list_all_iff dest!: nth_opt_in split: option.splits)
  have "vm_good (v\<lparr>vm_disks := (vm_disks v)[index := disk\<lparr>vd_size_gib := size_gib\<rparr>]\<rparr>)" if "size_gib \<noteq> 0"
    using 1 d that by (auto intro!: vm_good_set simp: validate_disks_iff disks_update disk_resized)
  with 1 show ?case
    by (intro safely_steps vms.safely_bind [OF vm_safely_put] vms.safely_pure; simp)
qed

lemma remove_nth_all: "list_all P xs \<Longrightarrow> list_all P (remove_nth i xs)"
  by (auto simp: remove_nth_def list_all_iff dest: in_set_takeD in_set_dropD)

lemma validate_usb_iff: "validate_usb_assignments us = Inr x \<longleftrightarrow> list_all (\<lambda>u. is_hex4 (ua_vendor_id u) \<and> is_hex4 (ua_product_id u)) us"
  by (induction us) (auto simp: validate_usb_assignments_def res_simps)

lemma validate_pci_iff: "validate_pci_assignments ps = Inr x \<longleftrightarrow> list_all (\<lambda>p. is_ok (ensure_safe_pci_address (pa_pci_address p))) ps"
  by (induction ps) (auto simp: validate_pci_assignments_def res_simps is_ok_def split: sum.splits)

lemma good_parts:
  assumes "vm_good v"
  shows "list_all (\<lambda>d. validate_disk d = Inr ()) (vm_disks v)"
    "list_all (\<lambda>u. is_hex4 (ua_vendor_id u) \<and> is_hex4 (ua_product_id u)) (vm_usb_devices v)"
    "list_all (\<lambda>p. is_ok (ensure_safe_pci_address (pa_pci_address p))) (vm_pci_devices v)"
  using assms by (simp_all add: vm_good_def validate_disks_iff validate_usb_iff validate_pci_iff)

lemmas list_parts = validate_disks_iff validate_usb_iff validate_pci_iff

lemma attach_disk_safely: "vms.kept s \<Longrightarrow> vms.safely (\<lambda>_. True) (attach_disk env i disk s)"
  unfolding attach_disk_def Let_def
proof (rule vms.safely_bind [OF vm_safely_get], assumption, rule vms.safely_bind [OF safely_value], assumption, goal_cases)
  case (1 v s u s1)
  then have "vm_good (v\<lparr>vm_disks := vm_disks v @ [disk]\<rparr>)"
    using good_parts [of v] by (auto intro!: vm_good_set simp: list_parts)
  with 1 show ?case
    by (intro safely_steps vms.safely_bind [where P = "\<lambda>_. True"] store_and_define_safely vms.safely_pure vm_safely_any; simp)
qed

lemma detach_disk_safely: "vms.kept s \<Longrightarrow> vms.safely (\<lambda>_. True) (detach_disk env i index s)"
  unfolding detach_disk_def Let_def
proof (rule vms.safely_bind [OF vm_safely_get], assumption, goal_cases)
  case (1 v s)
  then have "vm_good (v\<lparr>vm_disks := remove_nth index (vm_disks v)\<rparr>)"
    using good_parts [of v] by (auto intro!: vm_good_set simp: list_parts remove_nth_all)
  with 1 show ?case
    by (intro safely_steps vms.safely_bind [where P = "\<lambda>_. True"] store_and_define_safely vms.safely_pure vm_safely_any; simp)
qed

lemma finish_disk_safely:
  assumes "vms.kept s" and "vm_id v = i" and "vm_good v" and "ensure_safe_zfs_dataset target = Inr target" and "index < length (vm_disks v)"
  shows "vms.safely (\<lambda>_. True) (finish_disk_migration env i index v source target s)"
proof -
  have "vm_disks v ! index \<in> set (vm_disks v)" using assms(5) by simp
  then have "vm_good (v\<lparr>vm_disks := (vm_disks v)[index := (vm_disks v ! index)\<lparr>vd_dataset := target\<rparr>]\<rparr>)"
    using assms good_parts [of v] by (auto intro!: vm_good_set simp: list_parts disks_update disk_moved list_all_iff [of "\<lambda>d. validate_disk d = Inr ()" "vm_disks v"])
  with assms show ?thesis unfolding finish_disk_migration_def Let_def
    by (intro safely_steps vms.safely_bind [OF vm_safely_put] vms.safely_pure; simp)
qed

lemma migrate_disk_safely: "vms.kept s \<Longrightarrow> vms.safely (\<lambda>_. True) (migrate_disk env i index target s)"
  unfolding migrate_disk_def copy_disk_def Let_def
proof (rule vms.safely_bind [OF vm_safely_get], assumption, rule vms.safely_bind [OF safely_value], assumption, goal_cases)
  case (1 v s disk s1)
  then have d: "index < length (vm_disks v)" by (auto simp: ok_or_def dest!: nth_opt_in split: option.splits)
  show ?case
    using 1 d by (intro safely_steps finish_disk_safely vms.safely_pure; simp) (auto dest: dataset_trim)
qed

lemma device_step_safely:
  "vms.kept s \<Longrightarrow> vms.safely (\<lambda>_. True) (if running then bind_st (r, s) (\<lambda>xml s. on_vhost (f xml) s) else (Inr (), s))"
  by (intro safely_if vms.safely_bind [OF safely_value] vm_safely_any vms.safely_pure; simp)

lemma attach_usb_safely: "vms.kept s \<Longrightarrow> vms.safely (\<lambda>_. True) (attach_usb env i a s)"
  unfolding attach_usb_def Let_def
proof (rule vms.safely_bind [OF vm_safely_get], assumption, rule vms.safely_bind [OF safely_value], assumption, goal_cases)
  case (1 v s u s1)
  then have "vm_good (v\<lparr>vm_usb_devices := vm_usb_devices v @ [a]\<rparr>)"
    using good_parts [of v] by (auto intro!: vm_good_set simp: list_parts)
  with 1 show ?case
    by (intro safely_steps vms.safely_bind [OF device_step_safely] store_and_define_safely vms.safely_pure; simp)
qed

lemma detach_usb_safely: "vms.kept s \<Longrightarrow> vms.safely (\<lambda>_. True) (detach_usb env i vendor product s)"
  unfolding detach_usb_def Let_def
proof (rule vms.safely_bind [OF vm_safely_get], assumption, goal_cases)
  case (1 v s)
  then have "vm_good (v\<lparr>vm_usb_devices := remove_nth n (vm_usb_devices v)\<rparr>)" for n
    using good_parts [of v] by (auto intro!: vm_good_set simp: list_parts remove_nth_all)
  with 1 show ?case
    by (intro safely_steps vms.safely_bind [OF device_step_safely] store_and_define_safely vms.safely_pure; simp)
qed

lemma attach_pci_safely: "vms.kept s \<Longrightarrow> vms.safely (\<lambda>_. True) (attach_pci env i a s)"
  unfolding attach_pci_def Let_def
proof (rule vms.safely_bind [OF vm_safely_get], assumption, rule vms.safely_bind [OF safely_value], assumption, goal_cases)
  case (1 v s u s1)
  then have "vm_good (v\<lparr>vm_pci_devices := vm_pci_devices v @ [a]\<rparr>)"
    using good_parts [of v] by (auto intro!: vm_good_set simp: list_parts)
  with 1 show ?case
    by (intro safely_steps vms.safely_bind [OF device_step_safely] store_and_define_safely vms.safely_pure; simp)
qed

lemma detach_pci_safely: "vms.kept s \<Longrightarrow> vms.safely (\<lambda>_. True) (detach_pci env i address s)"
  unfolding detach_pci_def Let_def
proof (rule vms.safely_bind [OF vm_safely_get], assumption, goal_cases)
  case (1 v s)
  then have "vm_good (v\<lparr>vm_pci_devices := remove_nth n (vm_pci_devices v)\<rparr>)" for n
    using good_parts [of v] by (auto intro!: vm_good_set simp: list_parts remove_nth_all)
  with 1 show ?case
    by (intro safely_steps vms.safely_bind [OF device_step_safely] store_and_define_safely vms.safely_pure; simp)
qed

lemma list_snapshots_safely: "vms.kept s \<Longrightarrow> vms.safely (\<lambda>_. True) (list_vm_snapshots env i s)"
  unfolding list_vm_snapshots_def Let_def
  by (rule vms.safely_bind [OF vm_safely_get], assumption) (intro safely_steps vms.safely_pure; simp)

lemma existing_snapshot_safely: "vms.kept s \<Longrightarrow> vms.safely (\<lambda>_. True) (existing_snapshot env i tag s)"
  unfolding existing_snapshot_def
  by (rule vms.safely_bind [OF list_snapshots_safely], assumption) (intro vms.safely_pure; simp)

lemma snapshot_safely: "vms.kept s \<Longrightarrow> vms.safely (\<lambda>_. True) (create_vm_snapshot env i req s)"
proof -
  assume k: "vms.kept s"
  have "vms.safely (\<lambda>_. True) (create_disk_snapshot env i req s)"
    unfolding create_disk_snapshot_def Let_def
    by (rule vms.safely_bind [OF vm_safely_get [OF k]])
      (intro safely_steps vms.safely_bind [OF existing_snapshot_safely] vms.safely_bind [OF list_snapshots_safely] vm_safely_any vms.safely_pure; simp)
  moreover have "vms.safely (\<lambda>_. True) (create_ram_snapshot env i req s)"
    unfolding create_ram_snapshot_def Let_def
    by (rule vms.safely_bind [OF vm_safely_get [OF k]])
      (intro safely_steps vms.safely_bind [OF existing_snapshot_safely] vms.safely_bind [OF vm_safely_get] vms.safely_bind [OF vm_safely_put]
        vm_safely_any vms.safely_pure; simp)
  ultimately show ?thesis by (cases "sq_type req") (simp_all add: create_vm_snapshot_def)
qed

lemma restore_ram_safely: "vms.kept s \<Longrightarrow> vms.safely (\<lambda>_. True) (restore_ram_snapshot env i name s)"
  unfolding restore_ram_snapshot_def Let_def
  by (rule vms.safely_bind [OF vm_safely_get], assumption)
    (intro safely_steps vms.safely_bind [OF vm_safely_put] vms.safely_pure; simp)

lemma on_complete_safely: "vms.kept s \<Longrightarrow> vms.safely (\<lambda>_. True) (on_complete_snapshot args v tag s)"
  unfolding on_complete_snapshot_def by (intro safely_steps vm_safely_any vms.safely_pure; simp)

lemma rollback_safely: "vms.kept s \<Longrightarrow> vms.safely (\<lambda>_. True) (vm_rollback_snapshot i name s)"
  unfolding vm_rollback_snapshot_def
  by (rule vms.safely_bind [OF vm_safely_get], assumption) (intro safely_steps on_complete_safely; simp)

lemma delete_snapshot_safely: "vms.kept s \<Longrightarrow> vms.safely (\<lambda>_. True) (vm_delete_snapshot env i name s)"
proof -
  assume "vms.kept s"
  then show ?thesis unfolding vm_delete_snapshot_def
  proof (rule vms.safely_bind [OF vm_safely_get], goal_cases)
    case (1 v s)
    then show ?case
    proof (intro vms.safely_bind [OF safely_value] safely_if on_complete_safely, simp_all, goal_cases)
      case (1 tag s1 path s2)
      obtain x h where "next_file_error (kv_host s2) = (x, h)" by fastforce
      with 1 show ?case by (cases x) (auto intro!: vms.safely_pure)
    qed
  qed
qed

lemma repair_safely: "vms.kept s \<Longrightarrow> vms.safely (\<lambda>_. True) (vm_repair env i s)"
  unfolding vm_repair_def by (rule vms.safely_bind [OF vm_safely_get], assumption) (intro safely_steps vm_safely_any; simp)

section \<open>Sequences of requests\<close>

text \<open>Every request the service answers that can change a record, with the values it meets (\<open>vm_env\<close>).\<close>

datatype vm_call =
    CallCreate vm_env create_vm_request
  | CallUpdate vm_env str update_vm_request
  | CallDelete vm_env str
  | CallClone vm_env str clone_vm_request
  | CallPower vm_env str vm_power_action
  | CallAutostart
  | CallRepair vm_env str
  | CallResize vm_env str nat "64 word"
  | CallAttachDisk vm_env str vm_disk
  | CallDetachDisk vm_env str nat
  | CallMigrateDisk vm_env str nat str
  | CallAttachUsb vm_env str usb_assignment
  | CallDetachUsb vm_env str str str
  | CallAttachPci vm_env str pci_assignment
  | CallDetachPci vm_env str str
  | CallSnapshot vm_env str snapshot_request
  | CallRestoreRam vm_env str str
  | CallRollback str str
  | CallDeleteSnapshot vm_env str str

fun vm_step :: "vm_call \<Rightarrow> vm_service \<Rightarrow> vm_service" where
  "vm_step (CallCreate env req) s = snd (vm_create env req s)"
| "vm_step (CallUpdate env i req) s = snd (vm_update env i req s)"
| "vm_step (CallDelete env i) s = snd (vm_delete env i s)"
| "vm_step (CallClone env i req) s = snd (vm_clone env i req s)"
| "vm_step (CallPower env i action) s = snd (vm_power env i action s)"
| "vm_step CallAutostart s = start_autostart_vms s"
| "vm_step (CallRepair env i) s = snd (vm_repair env i s)"
| "vm_step (CallResize env i index n) s = snd (resize_disk env i index n s)"
| "vm_step (CallAttachDisk env i disk) s = snd (attach_disk env i disk s)"
| "vm_step (CallDetachDisk env i index) s = snd (detach_disk env i index s)"
| "vm_step (CallMigrateDisk env i index target) s = snd (migrate_disk env i index target s)"
| "vm_step (CallAttachUsb env i a) s = snd (attach_usb env i a s)"
| "vm_step (CallDetachUsb env i vendor product) s = snd (detach_usb env i vendor product s)"
| "vm_step (CallAttachPci env i a) s = snd (attach_pci env i a s)"
| "vm_step (CallDetachPci env i address) s = snd (detach_pci env i address s)"
| "vm_step (CallSnapshot env i req) s = snd (create_vm_snapshot env i req s)"
| "vm_step (CallRestoreRam env i name) s = snd (restore_ram_snapshot env i name s)"
| "vm_step (CallRollback i name) s = snd (vm_rollback_snapshot i name s)"
| "vm_step (CallDeleteSnapshot env i name) s = snd (vm_delete_snapshot env i name s)"

definition vms_wf :: "vm_service \<Rightarrow> bool" where
  "vms_wf s \<longleftrightarrow> store_wf (kv_store s) \<and> (\<forall>i v. records (kv_store s) i = Some v \<longrightarrow> vm_id v = i \<and> vm_good v)"

lemma vms_wf_kept: "vms_wf s = vms.kept s"
  by (simp add: vms_wf_def vms.kept_def)

lemmas vm_operations_safely = create_safely update_safely delete_safely clone_safely power_safely repair_safely resize_safely
  attach_disk_safely detach_disk_safely migrate_disk_safely attach_usb_safely detach_usb_safely attach_pci_safely detach_pci_safely
  snapshot_safely restore_ram_safely rollback_safely delete_snapshot_safely

lemma vm_step_wf: "vms_wf s \<Longrightarrow> vms_wf (vm_step c s)"
  unfolding vms_wf_kept by (cases c) (auto intro: vms.safely_kept vm_operations_safely autostart_kept)

text \<open>
  C7. Every stored machine stays well formed. Whatever requests are made, in whatever order, with whatever answers
  from the host and faults of the disk, each record stays filed under the machine's own identifier and keeps a
  safe name, at least one processor and one mebibyte, disks on well-formed datasets of at least one gibibyte, network interfaces
  with a safe bridge, a VLAN in range and a well-formed MAC address, device addresses and USB identifiers of the right shape, and
  normalised tags and pool.
\<close>

theorem stored_vms_well_formed:
  assumes "vms_wf s"
  shows "vms_wf (fold vm_step calls s)"
  using assms by (induction calls arbitrary: s) (simp_all add: vm_step_wf)

section \<open>Samples\<close>

definition sample_vm_env :: vm_env where
  "sample_vm_env =
     \<lparr>ve_now = ''now'', ve_new_id = ''v2'', ve_uuid = ''u'', ve_instant = 5, ve_ticket_expiry = ''later'', ve_timestamp = ''100'', ve_nanos = ''7'',
      ve_stamp = (\<lambda>_. None), ve_macs = (\<lambda>n. (1, 2, of_nat n)), ve_base64 = Some, ve_virtual_size = (\<lambda>_. None), ve_seed_iso = ''seed'',
      ve_saved_image = ''ram'', ve_created = (\<lambda>_. None), ve_sidecar = (\<lambda>d i. d), ve_sidecar_description = Some, ve_iommu_link = (\<lambda>_. None),
      ve_state_dir = ''/var/lib/daygleve'', ve_spice_listen = ''127.0.0.1'', ve_iso_dir = (''/iso'', []), ve_iso_roots = []\<rparr>"

definition sample_vms :: "vm \<Rightarrow> (broker_error + str) list \<Rightarrow> vm_service" where
  "sample_vms v answers =
     \<lparr>kv_store = \<lparr>dir_display = ''d'', dir_exists = True, files = [(''v1.json'', Json v)], faults = []\<rparr>,
      kv_host = \<lparr>broker_socket = True, broker_answers = answers, direct_answers = [],
                 broker_streams = [(Inr (), ''data''), (Inr (), [])], direct_streams = [], host_files = [], file_errors = [], issued = []\<rparr>,
      kv_tickets = []\<rparr>"

lemma sample_vms_store: "store_wf (kv_store (sample_vms v answers))" "kv_host (sample_vms v answers) =
    \<lparr>broker_socket = True, broker_answers = answers, direct_answers = [],
     broker_streams = [(Inr (), ''data''), (Inr (), [])], direct_streams = [], host_files = [], file_errors = [], issued = []\<rparr>"
  by (simp_all add: store_wf_def sample_vms_def)

lemma sample_vms_records: "records (kv_store (sample_vms v answers)) i = (if i = ''v1'' then Some v else None)"
proof -
  have "safe_id ''v1''" by code_simp
  then show ?thesis by (auto simp: sample_vms_def records_def)
qed

lemma sample_vms_wf: "vms_wf (sample_vms sample_vm answers)"
proof -
  have "vm_id sample_vm = ''v1''" "vm_good sample_vm" by code_simp+
  then show ?thesis by (simp add: vms_wf_def sample_vms_store sample_vms_records)
qed

theorem stored_vms_well_formed_witness:
  "vms_wf (fold vm_step [CallPower sample_vm_env ''v1'' PowerStart, CallAttachDisk sample_vm_env ''v1'' \<lparr>vd_dataset = ''../etc'', vd_size_gib = 1, vd_bus = BusSata\<rparr>,
     CallRollback ''v1'' ''s''] (sample_vms sample_vm [Inr [], Inr ''running'']))"
  by (rule stored_vms_well_formed [OF sample_vms_wf])

end
