(* ===== verification/Vm_Safety.thy ===== *)
theory Vm_Safety
  imports Vm_Invariant Containers_Safety Arguments
begin

section \<open>Virtual machines: what the operations ask of the host\<close>

text \<open>
  Which commands each operation runs, in which order and under which checks, and which of them the broker accepts. The
  theorems of the last sections prove where the service does not do what its comments say.
\<close>

subsection \<open>Frames\<close>

interpretation vl: command_log "\<lambda>s. issued (kv_host s)" "\<lambda>operation s. s\<lparr>kv_host := ask operation (kv_host s)\<rparr>"
  by unfold_locales simp

lemma on_vms_frame: "on_vms f s = (x, s') \<Longrightarrow> kv_host s' = kv_host s \<and> kv_tickets s' = kv_tickets s \<and> f (kv_store s) = (x, kv_store s')"
  by (auto simp: on_vms_def split: prod.splits)

lemma on_vhost_frame: "on_vhost f s = (x, s') \<Longrightarrow> kv_store s' = kv_store s \<and> kv_tickets s' = kv_tickets s \<and> f (kv_host s) = (x, kv_host s')"
  by (auto simp: on_vhost_def split: prod.splits)

lemma besides_frame [simp]:
  "kv_store (besides f s) = kv_store s" "kv_tickets (besides f s) = kv_tickets s" "kv_host (besides f s) = snd (f (kv_host s))"
  by (simp_all add: besides_def on_vhost_def split: prod.splits)

lemma vm_get_stored_ok:
  assumes "store_wf (kv_store s)" and "vm_get_stored i s = (x, s')"
  shows "store_wf (kv_store s') \<and> records (kv_store s') = records (kv_store s) \<and> kv_host s' = kv_host s \<and> kv_tickets s' = kv_tickets s \<and>
    (\<forall>v. x = Inr v \<longrightarrow> records (kv_store s) i = Some v)"
proof -
  obtain r s1 where g: "on_vms (Store.get i) s = (r, s1)" by fastforce
  have "Store.get i (kv_store s) = (r, kv_store s1)" using on_vms_frame [OF g] by simp
  from js.get_cases [OF assms(1) this] assms(2) g on_vms_frame [OF g] show ?thesis
    by cases (auto simp: vm_get_stored_def ok_or_def split: option.splits)
qed

lemma only_vhost: "hl.only P (kv_host s) (f (kv_host s)) \<Longrightarrow> vl.only P s (on_vhost f s)"
  by (auto simp: hl.only_def vl.only_def on_vhost_def split: prod.splits)

lemma only_vms: "vl.only P s (on_vms f s)"
  by (auto simp: vl.only_def on_vms_def split: prod.splits intro!: exI [of _ "[]"])

lemma only_get: "vl.only P s (vm_get_stored i s)"
  unfolding vm_get_stored_def by (rule vl.only_bind [OF only_vms]) simp

lemma vm_there: "host_program_path ''virsh'' \<noteq> None" "host_program_path ''nft'' \<noteq> None"
  by code_simp+

definition virsh_op :: "str list \<Rightarrow> op" where
  "virsh_op args = exec_op ''virsh'' (virsh_args args)"

lemma virsh_script: "hl.script [virsh_op args] h (virsh args h)" "hl.script [virsh_op args] h (virsh_opt args h)"
  unfolding virsh_def virsh_opt_def virsh_op_def by (rule run_script [OF vm_there(1)])+

lemma virsh_issued: "issued (snd (virsh args h)) = issued h @ [virsh_op args]" "issued (snd (virsh_opt args h)) = issued h @ [virsh_op args]"
proof -
  obtain x h1 y h2 where r: "run ''virsh'' (virsh_args args) h = (x, h1)" "run_optional ''virsh'' (virsh_args args) h = (y, h2)" by fastforce
  show "issued (snd (virsh args h)) = issued h @ [virsh_op args]" "issued (snd (virsh_opt args h)) = issued h @ [virsh_op args]"
    using run_issued [OF r(1)] run_optional_issued [OF r(2)] r vm_there by (auto simp: virsh_def virsh_opt_def virsh_op_def)
qed

lemma only_virsh: "P (virsh_op args) \<Longrightarrow> hl.only P h (virsh args h)" "P (virsh_op args) \<Longrightarrow> hl.only P h (virsh_opt args h)"
  unfolding virsh_def virsh_opt_def virsh_op_def by (auto intro: only_run)

lemma live_state_issued_vm: "issued (snd (vm_live_state i h)) = issued h @ [virsh_op [''domstate'', i]]"
proof -
  obtain x h1 where r: "run_optional ''virsh'' (virsh_args [''domstate'', i]) h = (x, h1)" by fastforce
  from run_optional_issued [OF r] vm_there(1) have "issued h1 = issued h @ [virsh_op [''domstate'', i]]" by (simp add: virsh_op_def)
  with r show ?thesis by (auto simp: vm_live_state_def split: sum.splits option.splits)
qed

lemma only_live: "P (virsh_op [''domstate'', i]) \<Longrightarrow> hl.only P h (vm_live_state i h)"
  using live_state_issued_vm [of i h] by (auto simp: hl.only_def)

lemma only_map_err: "hl.only P h m \<Longrightarrow> hl.only P h (map_err f m)"
  by (cases m; cases "fst m") (auto simp: map_err_def hl.only_def)

subsection \<open>Commands the broker accepts\<close>

lemma cli_plain: "safe_cli_name a \<Longrightarrow> plain a \<and> length a \<le> 4096"
proof -
  assume a: "safe_cli_name a"
  then have "plain a" by (intro bytes_plain [of "''._-/:''"]) (auto simp: safe_cli_name_def)
  with a show ?thesis by (simp add: safe_cli_name_def)
qed

lemma safe_id_cli: "safe_id i \<Longrightarrow> length i \<le> 128 \<Longrightarrow> safe_cli_name i"
  by (auto simp: safe_id_def safe_cli_name_def id_byte_def list_all_iff)

definition flag :: "str \<Rightarrow> bool" where
  "flag a \<longleftrightarrow> starts_with a ''-'' \<and> plain a \<and> length a \<le> 4096"

lemma virsh_accepted_iff:
  assumes "sub \<notin> {''-c'', CONNECT, ''define'', ''attach-device'', ''detach-device''}" and "\<not> starts_with sub ''-''" and "plain sub" "length sub \<le> 4096"
    and "list_all (\<lambda>a. safe_cli_name a \<or> flag a) args" and "length args \<le> 250"
  shows "accepted (virsh_op (sub # args)) \<longleftrightarrow> sub \<in> set virsh_subcommands"
proof -
  let ?args = "virsh_args (sub # args)"
  have shape: "shape_allowed ''virsh'' ?args \<longleftrightarrow> sub \<in> set virsh_subcommands"
    using assms(1,2) by (simp add: shape_allowed_def virsh_args_def CONNECT_def opt_in_def)
  have c: "plain ''-c''" "plain CONNECT" "length CONNECT \<le> 4096" "program_path ''virsh'' \<noteq> None" by code_simp+
  have p: "list_all (\<lambda>a. plain a \<and> length a \<le> 4096) ?args"
    using assms c cli_plain by (auto simp: virsh_args_def list_all_iff flag_def)
  have "validate_exec_args ''virsh'' ?args = Inr ()"
    using assms by (auto simp: validate_exec_args_def validate_virsh_args_def virsh_args_def CONNECT_def virsh_command_def virsh_rest_def
        res_simps Let_def list_all_iff flag_def)
  then have "accepted (virsh_op (sub # args))" if "sub \<in> set virsh_subcommands"
    using that shape p assms(6) c unfolding virsh_op_def accepted_exec by (intro validate_exec_intro) (auto simp: virsh_args_def)
  moreover have "sub \<in> set virsh_subcommands" if "accepted (virsh_op (sub # args))"
    using that shape unfolding virsh_op_def accepted_exec by (auto simp: validate_exec_def validate_exec_shape_def res_simps)
  ultimately show ?thesis by blast
qed

subsection \<open>Deleting\<close>

definition nft_op :: "vm_env \<Rightarrow> str \<Rightarrow> op" where
  "nft_op env i = exec_op ''nft'' [''-f'', ve_state_dir env @ ''/firewall/'' @ i @ ''.nft'']"

lemma ensure_dir_issued: "ensure_dir dir h = (x, h') \<Longrightarrow> issued h' = issued h"
  using next_file_error_issued [of h] by (auto simp: ensure_dir_def split: prod.splits option.splits)

lemma write_text_issued: "write_text path body h = (x, h') \<Longrightarrow> issued h' = issued h"
  using write_file_issued [of path body h] by (auto simp: write_text_def split: prod.splits sum.splits)

lemma ensure_dir_script: "hl.script [] h (ensure_dir dir h)" and write_text_script: "hl.script [] h (write_text path body h)"
  using ensure_dir_issued [of dir h "fst (ensure_dir dir h)" "snd (ensure_dir dir h)"]
    write_text_issued [of path body h "fst (write_text path body h)" "snd (write_text path body h)"]
  by (auto simp: hl.script_def)

lemma pure_script: "hl.script [] h (r, h)"
  by (simp add: hl.script_def)

lemma apply_firewall_script: "hl.script [nft_op env i] h (vm_apply_firewall env i v enabled h)"
proof -
  have r: "hl.script [nft_op env i] h (run_nft_batch env i batch h)" for batch h
  proof -
    have "hl.script ([] @ [] @ [nft_op env i]) h (run_nft_batch env i batch h)"
      unfolding run_nft_batch_def Let_def
      by (intro hl.script_bind ensure_dir_script write_text_script) (simp add: nft_op_def run_script [OF vm_there(2)])
    then show ?thesis by simp
  qed
  have "hl.script ([] @ [] @ [nft_op env i]) h (vm_apply_firewall env i v enabled h)"
    unfolding vm_apply_firewall_def
    by (intro hl.script_bind pure_script) (auto simp: res_simps r dest: ensure_safe_id_Inr [THEN iffD1])
  then show ?thesis by simp
qed

lemma script_issued: "hl.script ops h m \<Longrightarrow> \<exists>ran. issued (snd m) = issued h @ ran \<and> prefix ran ops"
  by (auto simp: hl.script_def)

text \<open>
  C19. Deleting a machine leaves its disks alone. \<open>delete\<close> runs at most the removal of the guest firewall, then \<open>virsh
  destroy\<close> and \<open>virsh undefine --nvram\<close> of the machine, and nothing else: no \<open>zfs\<close> command is among them. Whatever these answer, the
  record is removed when the store can remove it, and no other record changes.
\<close>

theorem vm_delete_keeps_disks:
  assumes "store_wf (kv_store s)" and "vm_delete env i s = (x, s')"
  shows "\<exists>firewall. prefix firewall [nft_op env i] \<and>
    asked_since (kv_host s) (kv_host s') \<in> {[], firewall @ [virsh_op [''destroy'', i], virsh_op [''undefine'', i, ''--nvram'']]} \<and>
    (case x of Inl e \<Rightarrow> records (kv_store s') = records (kv_store s)
     | Inr _ \<Rightarrow> records (kv_store s') = (records (kv_store s))(i := None) \<and> records (kv_store s) i \<noteq> None)"
proof -
  obtain g s1 where g: "vm_get_stored i s = (g, s1)" by fastforce
  note stored = vm_get_stored_ok [OF assms(1) g]
  show ?thesis
  proof (cases g)
    case (Inl e)
    with assms(2) g have "x = Inl e" "s' = s1" by (auto simp: vm_delete_def)
    with stored show ?thesis by (auto simp: asked_since_def)
  next
    case (Inr v)
    define s2 where "s2 = (if vf_enabled (vm_fw v) then besides (vm_apply_firewall env i v False) s1 else s1)"
    have "\<exists>fw. issued (kv_host s2) = issued (kv_host s1) @ fw \<and> prefix fw [nft_op env i]" "kv_store s2 = kv_store s1"
      using script_issued [OF apply_firewall_script [of env i "kv_host s1" v False]] by (auto simp: s2_def intro: exI [of _ "[]"])
    then obtain fw where fw: "issued (kv_host s2) = issued (kv_host s1) @ fw" "prefix fw [nft_op env i]" "kv_store s2 = kv_store s1" by blast
    define s3 where "s3 = besides (virsh_opt [''undefine'', i, ''--nvram'']) (besides (virsh_opt [''destroy'', i]) s2)"
    have s3: "issued (kv_host s3) = issued (kv_host s) @ fw @ [virsh_op [''destroy'', i], virsh_op [''undefine'', i, ''--nvram'']]" "kv_store s3 = kv_store s1"
      using fw stored by (simp_all add: s3_def virsh_issued)
    obtain d s4 where d: "on_vms (Store.delete i) s3 = (d, s4)" by fastforce
    have s4: "kv_host s4 = kv_host s3" "Store.delete i (kv_store s1) = (d, kv_store s4)" using on_vms_frame [OF d] s3 by auto
    have x: "x = (case d of Inl e \<Rightarrow> Inl e | Inr _ \<Rightarrow> Inr ())" "s' = s4"
      using assms(2) g Inr d by (cases d; auto simp: vm_delete_def s3_def s2_def Let_def)+
    have "asked_since (kv_host s) (kv_host s') = fw @ [virsh_op [''destroy'', i], virsh_op [''undefine'', i, ''--nvram'']]"
      using s3 s4 x by (simp add: asked_since_def)
    moreover from stored have "store_wf (kv_store s1)" by simp
    from js.delete_cases [OF this s4(2)] have
      "case x of Inl e \<Rightarrow> records (kv_store s') = records (kv_store s)
       | Inr _ \<Rightarrow> records (kv_store s') = (records (kv_store s))(i := None) \<and> records (kv_store s) i \<noteq> None"
      using x stored Inr by cases auto
    ultimately show ?thesis using fw(2) by blast
  qed
qed

subsection \<open>Power\<close>

lemma only_seq:
  assumes "vl.only P s m" and "\<And>r s1. m = (r, s1) \<Longrightarrow> vl.only P s1 (F r s1)"
  shows "vl.only P s (case m of (r, s) \<Rightarrow> F r s)"
  using assms by (cases m) (auto intro: vl.only_trans)

lemma host_only_seq:
  assumes "hl.only P h m" and "\<And>r h1. m = (r, h1) \<Longrightarrow> hl.only P h1 (F r h1)"
  shows "hl.only P h (case m of (r, h) \<Rightarrow> F r h)"
  using assms by (cases m) (auto intro: hl.only_trans)

lemma only_if: "(b \<Longrightarrow> vl.only P s m) \<Longrightarrow> (\<not> b \<Longrightarrow> vl.only P s n) \<Longrightarrow> vl.only P s (if b then m else n)"
  "(b \<Longrightarrow> hl.only P h m') \<Longrightarrow> (\<not> b \<Longrightarrow> hl.only P h n') \<Longrightarrow> hl.only P h (if b then m' else n')"
  by simp_all

lemma only_asked: "vl.only P s (x, s') \<Longrightarrow> list_all P (asked_since (kv_host s) (kv_host s'))"
  by (auto simp: vl.only_def asked_since_def)

lemma only_guest_ips: "P (virsh_op [''domifaddr'', ''--source'', ''agent'', i]) \<Longrightarrow> hl.only P h (guest_ips i h)"
  unfolding guest_ips_def by (intro hl.only_bind only_map_err only_virsh) simp_all

lemma only_agent_shutdown:
  "P (virsh_op [''domstate'', vm_id v]) \<Longrightarrow> P (virsh_op [''shutdown'', ''--mode'', ''agent'', i]) \<Longrightarrow> hl.only P h (agent_shutdown v i h)"
  unfolding agent_shutdown_def Let_def
  by (intro only_if host_only_seq only_live only_virsh) simp_all

lemma only_power:
  assumes "store_wf (kv_store s)" and "\<And>v. records (kv_store s) i = Some v \<Longrightarrow> vm_id v = i"
    and "P (virsh_op [''domstate'', i])" and "P (virsh_op [''domifaddr'', ''--source'', ''agent'', i])"
    and "P (virsh_op [power_subcommand action, i])" and "action = PowerShutdown \<Longrightarrow> P (virsh_op [''shutdown'', ''--mode'', ''agent'', i])"
  shows "vl.only P s (vm_power env i action s)"
  unfolding vm_power_def Let_def
proof (rule vl.only_bind [OF only_get], goal_cases)
  case (1 v s1)
  have "vm_id v = i" using vm_get_stored_ok [OF assms(1) 1] assms(2) by blast
  then show ?case
    by (intro only_if only_seq only_vhost only_agent_shutdown only_live vl.only_bind only_vms only_virsh only_guest_ips)
      (simp_all add: assms)
qed

definition domain_subs :: "string list" where
  "domain_subs = [''domstate'', ''domifaddr'', ''shutdown'', ''start'', ''destroy'', ''reboot'', ''reset'', ''suspend'', ''resume'', ''undefine'']"

definition ordinary_sub :: "string \<Rightarrow> bool" where
  "ordinary_sub sub \<longleftrightarrow> list_all (\<lambda>w. sub \<noteq> w) [''-c'', CONNECT, ''define'', ''attach-device'', ''detach-device''] \<and> \<not> starts_with sub ''-'' \<and> plain sub \<and>
     length sub \<le> 4096 \<and> (sub \<in> set virsh_subcommands \<longleftrightarrow> sub \<noteq> ''suspend'')"

lemma domain_subs_ordinary: "list_all ordinary_sub domain_subs"
  by code_simp

lemma simple_virsh_accepted:
  assumes "sub \<in> set domain_subs" and "list_all (\<lambda>a. safe_cli_name a \<or> flag a) args" and "length args \<le> 250"
  shows "accepted (virsh_op (sub # args)) \<longleftrightarrow> sub \<noteq> ''suspend''"
proof -
  have "ordinary_sub sub" using domain_subs_ordinary assms(1) by (simp only: list_all_iff)
  then show ?thesis using virsh_accepted_iff [of sub args] assms(2,3) unfolding ordinary_sub_def by simp
qed

lemma flags: "flag ''--mode''" "flag ''--source''" "flag ''--nvram''" "safe_cli_name ''agent''"
  by code_simp+

text \<open>
  C20. What a power action runs. A template is never started, resumed or rebooted: such a request is refused and nothing is run.
  Otherwise only the state of this machine is queried, its agent or the one subcommand of the action is asked, and its addresses read. The
  broker accepts every one of these commands except one: pausing is \<open>virsh suspend\<close>, which is not among the subcommands the broker permits
  (it permits \<open>pause\<close>, which \<open>virsh\<close> does not have), so that behind the broker no machine can be paused.
\<close>

theorem vm_power_commands:
  assumes "vms_wf s" and "records (kv_store s) i = Some v" and "length i \<le> 128" and "vm_power env i action s = (x, s')"
  defines "asked \<equiv> asked_since (kv_host s) (kv_host s')"
  shows "(vm_template v \<and> action \<in> {PowerStart, PowerResume, PowerReboot} \<longrightarrow> asked = [] \<and> (\<exists>e. x = Inl e)) \<and>
    set asked \<subseteq> {virsh_op [''domstate'', i], virsh_op [''domifaddr'', ''--source'', ''agent'', i], virsh_op [power_subcommand action, i]} \<union>
      (if action = PowerShutdown then {virsh_op [''shutdown'', ''--mode'', ''agent'', i]} else {}) \<and>
    (action \<noteq> PowerPause \<longrightarrow> list_all accepted asked) \<and> \<not> accepted (virsh_op [power_subcommand PowerPause, i])"
proof (intro conjI impI)
  have wf: "store_wf (kv_store s)" "\<And>v. records (kv_store s) i = Some v \<Longrightarrow> vm_id v = i" using assms(1) by (auto simp: vms_wf_def)
  have cli: "safe_cli_name i"
    using assms(2,3) by (intro safe_id_cli) (auto simp: records_def split: if_splits)
  define allowed where "allowed = {virsh_op [''domstate'', i], virsh_op [''domifaddr'', ''--source'', ''agent'', i], virsh_op [power_subcommand action, i]} \<union>
      (if action = PowerShutdown then {virsh_op [''shutdown'', ''--mode'', ''agent'', i]} else {})"
  have "vl.only (\<lambda>operation. operation \<in> allowed) s (vm_power env i action s)"
    by (rule only_power [OF wf]) (simp_all add: allowed_def)
  then have "list_all (\<lambda>operation. operation \<in> allowed) asked" unfolding asked_def assms(4) by (rule only_asked)
  then show "set asked \<subseteq> {virsh_op [''domstate'', i], virsh_op [''domifaddr'', ''--source'', ''agent'', i], virsh_op [power_subcommand action, i]} \<union>
      (if action = PowerShutdown then {virsh_op [''shutdown'', ''--mode'', ''agent'', i]} else {})"
    unfolding allowed_def by (simp only: list_all_iff subset_code)
  show "\<not> accepted (virsh_op [power_subcommand PowerPause, i])" using simple_virsh_accepted [of "''suspend''" "[i]"] cli by (simp add: domain_subs_def)
  show "list_all accepted asked" if "action \<noteq> PowerPause"
  proof -
    have "accepted (virsh_op [power_subcommand action, i])"
      using simple_virsh_accepted [of "power_subcommand action" "[i]"] cli that by (cases action) (simp_all add: domain_subs_def)
    then have "vl.only accepted s (vm_power env i action s)"
      using simple_virsh_accepted [of "''domstate''" "[i]"] simple_virsh_accepted [of "''domifaddr''" "[''--source'', ''agent'', i]"]
        simple_virsh_accepted [of "''shutdown''" "[''--mode'', ''agent'', i]"] cli flags by (intro only_power [OF wf]) (simp_all add: domain_subs_def)
    with assms(4) show ?thesis unfolding asked_def by (intro only_asked) simp
  qed
  obtain g s1 where g: "vm_get_stored i s = (g, s1)" by fastforce
  note stored = vm_get_stored_ok [OF wf(1) g]
  show "asked = []" "\<exists>e. x = Inl e" if "vm_template v \<and> action \<in> {PowerStart, PowerResume, PowerReboot}"
    using that assms(2,4) g stored by (cases g; auto simp: vm_power_def asked_def asked_since_def)+
qed

section \<open>Samples\<close>

theorem vm_delete_keeps_disks_witness:
  "records (kv_store (snd (vm_delete sample_vm_env ''v1'' (sample_vms sample_vm [])))) = Map.empty \<and>
   asked_since (kv_host (sample_vms sample_vm [])) (kv_host (snd (vm_delete sample_vm_env ''v1'' (sample_vms sample_vm [])))) =
     [virsh_op [''destroy'', ''v1''], virsh_op [''undefine'', ''v1'', ''--nvram'']]"
proof -
  let ?s = "sample_vms sample_vm []"
  have "fst (vm_delete sample_vm_env ''v1'' ?s) = Inr ()" by code_simp
  then obtain s' where d: "vm_delete sample_vm_env ''v1'' ?s = (Inr (), s')" by (cases "vm_delete sample_vm_env ''v1'' ?s") simp
  from vm_delete_keeps_disks [OF sample_vms_store(1) d] have "records (kv_store s') = (records (kv_store ?s))(''v1'' := None)" by auto
  moreover have "records (kv_store ?s) = [''v1'' \<mapsto> sample_vm]" by (auto simp: sample_vms_records)
  moreover have "issued (kv_host (snd (vm_delete sample_vm_env ''v1'' ?s))) = [virsh_op [''destroy'', ''v1''], virsh_op [''undefine'', ''v1'', ''--nvram'']]"
    by code_simp
  ultimately show ?thesis using d by (simp add: asked_since_def sample_vms_store)
qed

theorem vm_power_commands_witness:
  "list_all accepted (asked_since (kv_host (sample_vms sample_vm [])) (kv_host (snd (vm_power sample_vm_env ''v1'' PowerStart (sample_vms sample_vm []))))) \<and>
   issued (kv_host (snd (vm_power sample_vm_env ''v1'' PowerStart (sample_vms sample_vm [])))) \<noteq> [] \<and>
   \<not> accepted (virsh_op [power_subcommand PowerPause, ''v1''])"
proof -
  let ?s = "sample_vms sample_vm []"
  obtain x s' where p: "vm_power sample_vm_env ''v1'' PowerStart ?s = (x, s')" by fastforce
  have "records (kv_store ?s) ''v1'' = Some sample_vm" "length ''v1'' \<le> 128" by (simp_all add: sample_vms_records)
  from vm_power_commands [OF sample_vms_wf this p] p have "list_all accepted (asked_since (kv_host ?s) (kv_host s'))"
    "\<not> accepted (virsh_op [power_subcommand PowerPause, ''v1''])" by simp_all
  moreover have "issued (kv_host (snd (vm_power sample_vm_env ''v1'' PowerStart ?s))) \<noteq> []" by code_simp
  ultimately show ?thesis using p by simp
qed

end
