(* ===== verification/Vm_Guards.thy ===== *)
theory Vm_Guards
  imports Vm_Safety
begin

section \<open>Virtual machines: guards, order and shared files\<close>

text \<open>
  What a roll-back checks before it touches a disk, the order of the automatic start, and three places where the service
  does not do what it means to: the files of memory snapshots, the seed image of an update, and two commands the broker refuses.
\<close>

subsection \<open>Roll-back\<close>

definition rollback_op :: "str \<Rightarrow> str \<Rightarrow> op" where
  "rollback_op tag dataset = exec_op ''zfs'' [''rollback'', ''-r'', tagged tag dataset]"

definition snapshot_check_op :: "str \<Rightarrow> str \<Rightarrow> op" where
  "snapshot_check_op tag dataset = exec_op ''zfs'' [''list'', ''-H'', ''-o'', ''name'', ''-t'', ''snapshot'', tagged tag dataset]"

lemma zfs_known: "host_program_path ''zfs'' \<noteq> None"
  by code_simp

lemma require_stopped_ok:
  assumes "vm_require_stopped i action h = (r, h')"
  shows "\<exists>stops. issued h' = issued h @ stops \<and> stops \<in> {[virsh_op [''domstate'', i]], [virsh_op [''domstate'', i], virsh_op [''hostname'']]} \<and>
    (r = Inr () \<longrightarrow> fst (vm_live_state i h) \<in> {None, Some VmStopped})"
proof -
  obtain st h1 where l: "vm_live_state i h = (st, h1)" by fastforce
  obtain u h2 where u: "run_optional ''virsh'' (virsh_args [''hostname'']) h1 = (u, h2)" by fastforce
  have "issued h1 = issued h @ [virsh_op [''domstate'', i]]" using live_state_issued_vm [of i h] l by simp
  moreover have "issued h2 = issued h1 @ [virsh_op [''hostname'']]" using run_optional_issued [OF u] vm_there(1) by (simp add: virsh_op_def)
  ultimately show ?thesis
    using assms l u by (auto simp: vm_require_stopped_def hypervisor_unreachable_def split: option.splits vm_state.splits)
qed

lemma snapshot_on_all_disks_ok:
  "snapshot_on_all_disks datasets tag h = (r, h') \<Longrightarrow>
     \<exists>checked. issued h' = issued h @ map (snapshot_check_op tag) checked \<and> prefix checked datasets \<and> (r = Inr True \<longrightarrow> checked = datasets)"
proof (induction datasets arbitrary: h)
  case (Cons dataset datasets)
  obtain z h1 where z: "run_optional ''zfs'' [''list'', ''-H'', ''-o'', ''name'', ''-t'', ''snapshot'', tagged tag dataset] h = (z, h1)" by fastforce
  have i: "issued h1 = issued h @ [snapshot_check_op tag dataset]"
    using run_optional_issued [OF z] zfs_known by (simp add: snapshot_check_op_def)
  show ?case
  proof (cases "h' = h1 \<and> r \<noteq> Inr True")
    case True
    with i show ?thesis by (intro exI [of _ "[dataset]"]) simp
  next
    case False
    with Cons.prems z have "snapshot_on_all_disks datasets tag h1 = (r, h')" by (auto split: sum.splits option.splits if_splits)
    from Cons.IH [OF this] obtain checked where
      "issued h' = issued h1 @ map (snapshot_check_op tag) checked" "prefix checked datasets" "r = Inr True \<longrightarrow> checked = datasets" by blast
    with i show ?thesis by (intro exI [of _ "dataset # checked"]) simp
  qed
qed auto

lemma on_each_script: "hl.script (map (\<lambda>target. exec_op ''zfs'' (args target)) targets) h (on_each args targets h)"
proof (induction targets arbitrary: h)
  case (Cons target targets)
  have "hl.script ([exec_op ''zfs'' (args target)] @ map (\<lambda>target. exec_op ''zfs'' (args target)) targets) h (on_each args (target # targets) h)"
    unfolding on_each.simps by (intro hl.script_bind Cons.IH run_script [OF zfs_known])
  then show ?case by simp
qed simp

lemma ensure_safe_snapshot_Inr: "ensure_safe_snapshot name = Inr tag \<Longrightarrow> tag = name"
  by (auto simp: ensure_safe_snapshot_def split: if_splits)

lemma on_complete_snapshot_ok:
  assumes "on_complete_snapshot args v tag s = (x, s')"
  shows "\<exists>datasets checked done.
    issued (kv_host s') = issued (kv_host s) @ map (snapshot_check_op tag) checked @ map (\<lambda>dataset. exec_op ''zfs'' (args (tagged tag dataset))) done \<and>
    (done \<noteq> [] \<or> x = Inr () \<longrightarrow> snapshot_datasets v = Inr datasets \<and> datasets \<noteq> [] \<and> checked = datasets \<and> prefix done datasets \<and>
       fst (snapshot_on_all_disks datasets tag (kv_host s)) = Inr True) \<and>
    (x = Inr () \<longrightarrow> done = datasets)"
proof (cases "snapshot_datasets v")
  case (Inl e)
  with assms show ?thesis by (intro exI [of _ "[]"]) (auto simp: on_complete_snapshot_def)
next
  case (Inr datasets)
  obtain f s1 where f: "on_vhost (complete_on_disks datasets tag) s = (f, s1)" by fastforce
  then have c: "complete_on_disks datasets tag (kv_host s) = (f, kv_host s1)" using on_vhost_frame [of "complete_on_disks datasets tag" s f s1] by simp
  have "\<exists>checked. issued (kv_host s1) = issued (kv_host s) @ map (snapshot_check_op tag) checked \<and>
      (f = Inr True \<longrightarrow> checked = datasets \<and> datasets \<noteq> [] \<and> fst (snapshot_on_all_disks datasets tag (kv_host s)) = Inr True)"
  proof (cases "datasets = []")
    case True
    with c show ?thesis by (intro exI [of _ "[]"]) (auto simp: complete_on_disks_def)
  next
    case False
    with c snapshot_on_all_disks_ok [of datasets tag "kv_host s" f "kv_host s1"] show ?thesis by (auto simp: complete_on_disks_def)
  qed
  then obtain checked where checked: "issued (kv_host s1) = issued (kv_host s) @ map (snapshot_check_op tag) checked"
    "f = Inr True \<Longrightarrow> checked = datasets \<and> datasets \<noteq> [] \<and> fst (snapshot_on_all_disks datasets tag (kv_host s)) = Inr True" by blast
  show ?thesis
  proof (cases "f = Inr True")
    case False
    with assms f Inr have "s' = s1" "x \<noteq> Inr ()" by (cases f; auto simp: on_complete_snapshot_def)+
    with checked show ?thesis by (intro exI [of _ datasets] exI [of _ checked] exI [of _ "[]"]) simp
  next
    case True
    obtain r s2 where r: "on_vhost (on_each args (map (tagged tag) datasets)) s1 = (r, s2)" by fastforce
    with assms f Inr True have x: "x = r" "s' = s2" by (auto simp: on_complete_snapshot_def)
    have "on_each args (map (tagged tag) datasets) (kv_host s1) = (r, kv_host s2)" using on_vhost_frame [OF r] by simp
    with on_each_script [of args "map (tagged tag) datasets" "kv_host s1"] obtain ran where
      ran: "issued (kv_host s2) = issued (kv_host s1) @ ran" "prefix ran (map (\<lambda>dataset. exec_op ''zfs'' (args (tagged tag dataset))) datasets)"
        "r = Inr () \<Longrightarrow> ran = map (\<lambda>dataset. exec_op ''zfs'' (args (tagged tag dataset))) datasets"
      by (auto simp: hl.script_def comp_def)
    have "ran = map (\<lambda>dataset. exec_op ''zfs'' (args (tagged tag dataset))) (take (length ran) datasets)"
      using ran(2) by (metis prefixE append_eq_conv_conj take_map)
    moreover have "r = Inr () \<Longrightarrow> take (length ran) datasets = datasets" using ran(3) by simp
    ultimately show ?thesis using checked(1) checked(2) [OF True] ran(1) Inr x
      by (intro exI [of _ datasets] exI [of _ checked] exI [of _ "take (length ran) datasets"]) (simp add: take_is_prefix)
  qed
qed


subsection \<open>Automatic start\<close>

definition start_ops :: "vm \<Rightarrow> host \<Rightarrow> op list" where
  "start_ops v h =
     virsh_op [''domstate'', vm_id v] # (if fst (vm_live_state (vm_id v) h) = Some VmRunning then [] else [virsh_op [''start'', vm_id v]])"

lemma start_queue_ok:
  "\<exists>hs. length hs = length queue \<and> issued (start_queue queue h) = issued h @ concat (map2 start_ops queue hs) \<and>
     (\<forall>k < length queue. issued (hs ! k) = issued h @ concat (take k (map2 start_ops queue hs)))"
proof (induction queue arbitrary: h)
  case (Cons v queue)
  obtain st h1 where l: "vm_live_state (vm_id v) h = (st, h1)" by fastforce
  define h2 where "h2 = (if st = Some VmRunning then h1 else snd (virsh [''start'', vm_id v] h1))"
  have i2: "issued h2 = issued h @ start_ops v h"
    using live_state_issued_vm [of "vm_id v" h] l by (simp add: h2_def virsh_issued start_ops_def)
  from Cons.IH [of h2] obtain hs where hs: "length hs = length queue" "issued (start_queue queue h2) = issued h2 @ concat (map2 start_ops queue hs)"
    "\<And>k. k < length queue \<Longrightarrow> issued (hs ! k) = issued h2 @ concat (take k (map2 start_ops queue hs))" by blast
  have "issued ((h # hs) ! k) = issued h @ concat (take k (map2 start_ops (v # queue) (h # hs)))" if "k < length (v # queue)" for k
    using that hs(3) i2 by (cases k) simp_all
  moreover have "start_queue (v # queue) h = start_queue queue h2" using l by (simp add: h2_def)
  ultimately show ?case using hs i2 by (intro exI [of _ "h # hs"]) simp
qed simp


subsection \<open>Memory snapshots\<close>

lemma live_state_files: "host_files (snd (vm_live_state i h)) = host_files h"
proof -
  obtain r h1 where "run_optional ''virsh'' (virsh_args [''domstate'', i]) h = (r, h1)" by fastforce
  with run_optional_files [OF this] show ?thesis by (auto simp: vm_live_state_def split: sum.splits option.splits)
qed

lemma write_file_other:
  assumes "path \<noteq> other"
  shows "map_of (host_files (snd (write_file other body h))) path = map_of (host_files h) path"
proof -
  obtain e h1 where e: "next_file_error h = (e, h1)" by fastforce
  with assms next_file_error_issued [OF e] show ?thesis by (cases e) (simp_all add: write_file_def update_conv')
qed

lemma write_sidecar_files:
  "path \<noteq> sidecar_path env tag \<Longrightarrow> map_of (host_files (write_sidecar env tag d v h)) path = map_of (host_files h) path"
  by (simp add: write_sidecar_def write_file_other split: option.splits)

definition ram_file :: "vm_env \<Rightarrow> str \<Rightarrow> str" where
  "ram_file env tag = ram_dir env @ ''/'' @ tag @ ''.save''"

lemma ram_snapshot_path_Inr: "ram_snapshot_path env tag = Inr path \<longleftrightarrow> safe_id tag \<and> path = ram_file env tag"
  by (auto simp: ram_snapshot_path_def ram_file_def res_simps)

lemma ram_path_distinct: "ram_file env tag \<noteq> sidecar_path env tag"
  by (simp add: sidecar_path_def ram_file_def)

lemma create_ram_snapshot_file:
  assumes "store_wf (kv_store s)" and "create_ram_snapshot env i req s = (Inr snap, s')"
  shows "map_of (host_files (kv_host s')) (ram_file env (sq_name req)) = Some (ve_saved_image env) \<and>
    ensure_safe_snapshot (sq_name req) = Inr (sq_name req) \<and> safe_id (sq_name req)"
proof -
  from assms(2) obtain v s1 tag where v: "vm_get_stored i s = (Inr v, s1)" "ensure_safe_snapshot (sq_name req) = Inr tag"
    by (auto simp: create_ram_snapshot_def bind_st_eq_Inr)
  then have tag: "ensure_safe_snapshot (sq_name req) = Inr (sq_name req)" using ensure_safe_snapshot_Inr [OF v(2)] by simp
  obtain running s2 where r: "is_running i s1 = (running, s2)" by fastforce
  have running using assms(2) v tag r by (auto simp: create_ram_snapshot_def split: if_splits)
  then obtain s3 path where x: "existing_snapshot env i (sq_name req) s2 = (Inr (), s3)" "ram_snapshot_path env (sq_name req) = Inr path"
    using assms(2) v(1) tag r by (auto simp: create_ram_snapshot_def bind_st_eq_Inr)
  then have path: "safe_id (sq_name req)" "path = ram_file env (sq_name req)" by (simp_all add: ram_snapshot_path_Inr)
  obtain w s4 where w: "on_vhost (virsh [''save'', i, path]) s3 = (w, s4)" by fastforce
  define s5 where "s5 = s4\<lparr>kv_host := write_sidecar env (sq_name req) (sq_description req) v (set_file path (ve_saved_image env) (kv_host s4))\<rparr>"
  have image: "map_of (host_files (kv_host s5)) path = Some (ve_saved_image env)"
    using write_sidecar_files [OF ram_path_distinct [of env "sq_name req"]] path by (simp add: s5_def set_file_def update_conv')
  obtain g s6 where g: "vm_get_stored i s5 = (g, s6)" by fastforce
  obtain st s7 where l: "on_vhost (vm_live_state i) s6 = (st, s7)" by fastforce
  from assms(2) v(1) tag r \<open>running\<close> x w g l obtain stored where "on_vms (Store.put i stored) s7 = (Inr (), s')"
    by (cases w; cases g) (auto simp: create_ram_snapshot_def bind_st_eq_Inr s5_def Let_def split: prod.splits)
  from on_vms_frame [OF this] have "kv_host s' = kv_host s7" by simp
  moreover have "kv_host s6 = kv_host s5" using g by (auto simp: vm_get_stored_def dest!: on_vms_frame elim!: bind_st_cases)
  moreover have "host_files (kv_host s7) = host_files (kv_host s6)" using on_vhost_frame [OF l] live_state_files [of i "kv_host s6"] by auto
  ultimately show ?thesis using image path tag by simp
qed

lemma remove_file_none: "map_of (host_files h) path = None \<Longrightarrow> map_of (host_files (remove_file other h)) path = None"
proof -
  obtain e h1 where e: "next_file_error h = (e, h1)" by fastforce
  assume "map_of (host_files h) path = None"
  with next_file_error_issued [OF e] e show ?thesis by (cases e) (simp_all add: remove_file_def delete_conv')
qed

lemma restore_first:
  assumes "store_wf (kv_store s)" and "vm_get_stored j s = (Inr w, s1)" and "ensure_safe_snapshot tag = Inr tag" "safe_id tag"
    and "map_of (host_files (kv_host s)) (ram_file env tag) \<noteq> None" and "restore_ram_snapshot env j tag s = (x, s')"
  shows "\<exists>later. asked_since (kv_host s) (kv_host s') = virsh_op [''restore'', ram_file env tag] # later"
proof -
  note stored = vm_get_stored_ok [OF assms(1,2)]
  obtain r s2 where r: "on_vhost (virsh [''restore'', ram_file env tag]) s1 = (r, s2)" by fastforce
  have i2: "issued (kv_host s2) = issued (kv_host s) @ [virsh_op [''restore'', ram_file env tag]]"
    using on_vhost_frame [OF r] virsh_issued(1) [of "[''restore'', ram_file env tag]" "kv_host s1"] stored by auto
  obtain st s3 where l: "on_vhost (vm_live_state j) s2 = (st, s3)" by fastforce
  have i3: "issued (kv_host s3) = issued (kv_host s2) @ [virsh_op [''domstate'', j]]"
    using on_vhost_frame [OF l] live_state_issued_vm [of j "kv_host s2"] by auto
  have "kv_host s' \<in> {kv_host s2, kv_host s3}"
    using assms(2-6) stored r l by (cases r)
      (auto simp: restore_ram_snapshot_def ram_snapshot_path_Inr [THEN iffD2] Let_def dest!: on_vms_frame elim!: bind_st_cases)
  with i2 i3 show ?thesis by (auto simp: asked_since_def)
qed

text \<open>
  C38. A snapshot of the memory of one machine belongs to every machine. Its file is named after the snapshot alone, so
  once \<open>create_ram_snapshot\<close> succeeded for machine \<open>i\<close>, a restore of that name on any other stored machine \<open>j\<close> hands \<open>i\<close>'s saved
  image to \<open>virsh restore\<close>, which resumes the machine inside the image, and deleting the snapshot through \<open>j\<close> removes \<open>i\<close>'s file. The
  paths a caller is authorised for name \<open>j\<close> only.
\<close>

theorem ram_snapshots_shared:
  assumes "store_wf (kv_store s)" and "create_ram_snapshot env i req s = (Inr snap, s1)" and "store_wf (kv_store s1)"
    and "vm_get_stored j s1 = (Inr w, s2)" and "fst (next_file_error (kv_host s1)) = None"
  defines "saved \<equiv> ram_file env (sq_name req)"
  shows "map_of (host_files (kv_host s1)) saved = Some (ve_saved_image env) \<and>
    (\<exists>later. asked_since (kv_host s1) (kv_host (snd (restore_ram_snapshot env j (sq_name req) s1))) = virsh_op [''restore'', saved] # later) \<and>
    fst (vm_delete_snapshot env j (sq_name req) s1) = Inr () \<and>
    map_of (host_files (kv_host (snd (vm_delete_snapshot env j (sq_name req) s1)))) saved = None"
proof -
  note made = create_ram_snapshot_file [OF assms(1,2)]
  note stored = vm_get_stored_ok [OF assms(3,4)]
  obtain x s' where x: "restore_ram_snapshot env j (sq_name req) s1 = (x, s')" by fastforce
  obtain h where h: "next_file_error (kv_host s1) = (None, h)" using assms(5) by (cases "next_file_error (kv_host s1)") simp
  have d: "vm_delete_snapshot env j (sq_name req) s1 =
      (Inr (), s2\<lparr>kv_host := remove_file (sidecar_path env (sq_name req)) (h\<lparr>host_files := AList.delete saved (host_files h)\<rparr>)\<rparr>)"
    using assms(4) made stored h ram_snapshot_path_Inr [of env "sq_name req" saved]
    by (simp add: vm_delete_snapshot_def saved_def)
  have "map_of (host_files (h\<lparr>host_files := AList.delete saved (host_files h)\<rparr>)) saved = None" by (simp add: delete_conv')
  then have "map_of (host_files (kv_host (snd (vm_delete_snapshot env j (sq_name req) s1)))) saved = None"
    unfolding d by (simp add: remove_file_none)
  moreover have "\<exists>later. asked_since (kv_host s1) (kv_host s') = virsh_op [''restore'', saved] # later"
    unfolding saved_def using made by (intro restore_first [OF assms(3,4) _ _ _ x]) simp_all
  ultimately show ?thesis using made x d by (simp add: saved_def)
qed

subsection \<open>Cloud-init\<close>

lemma next_file_errors:
  "next_broker h = (x, h') \<Longrightarrow> file_errors h' = file_errors h" "next_direct h = (y, h') \<Longrightarrow> file_errors h' = file_errors h"
  "file_errors (ask operation h) = file_errors h"
  by (auto simp: next_broker_def next_direct_def ask_def split: list.splits)

lemma run_file_errors:
  "run_optional program args h = (x, h') \<Longrightarrow> file_errors h' = file_errors h" "run program args h = (x', h') \<Longrightarrow> file_errors h' = file_errors h"
  "run_ok program args h = (y, h') \<Longrightarrow> file_errors h' = file_errors h"
proof -
  show r: "run program args h = (x', h') \<Longrightarrow> file_errors h' = file_errors h" for x' h'
    using next_file_errors(1) [of "ask (exec_op program args) h"] next_file_errors(2) [of "ask (exec_op program args) h"]
    by (auto simp: run_def Let_def next_file_errors(3) split: sum.splits prod.splits if_splits direct_outcome.splits)
  show "run_optional program args h = (x, h') \<Longrightarrow> file_errors h' = file_errors h"
    using next_file_errors(1) [of "ask (exec_op program args) h"] next_file_errors(2) [of "ask (exec_op program args) h"]
    by (auto simp: run_optional_def Let_def next_file_errors(3) split: sum.splits prod.splits if_splits broker_error.splits direct_outcome.splits)
  show "run_ok program args h = (y, h') \<Longrightarrow> file_errors h' = file_errors h"
    using r by (fastforce simp: run_ok_def elim!: bind_st_cases)
qed

lemma make_seed_errors:
  assumes "make_seed env seed dir h = (Inr disc, h')" and "file_errors h = []"
  shows "disc = seed \<and> file_errors h' = []"
proof -
  obtain g h1 where g: "run_optional ''genisoimage'' (seed_args seed dir) h = (g, h1)" by fastforce
  obtain x h2 where x: "run_ok ''xorriso'' ([''-as'', ''mkisofs''] @ seed_args seed dir) h1 = (x, h2)" by fastforce
  show ?thesis using assms g x run_file_errors(1) [OF g] run_file_errors(3) [OF x]
    by (cases g; cases x) (auto simp: make_seed_def set_file_def split: option.splits)
qed

lemma no_file_errors: "file_errors h = [] \<Longrightarrow> next_file_error h = (None, h)"
  by (simp add: next_file_error_def)

lemma create_cloud_init_iso_errors:
  assumes "create_cloud_init_iso env name ci h = (Inr disc, h')" and "file_errors h = []"
  shows "disc = seed_iso_path env name \<and> file_errors h' = []"
  using assms make_seed_errors
  by (fastforce simp: create_cloud_init_iso_def Let_def bind_st_eq_Inr ensure_dir_def write_text_def write_file_def no_file_errors)


subsection \<open>Commands the broker refuses\<close>

lemma volsize_refused: "\<not> accepted (exec_op ''zfs'' [''set'', ''volsize='' @ amount, dataset])"
proof -
  have "\<not> safe_zfs_property (''volsize='' @ amount)" by (simp add: safe_zfs_property_def)
  moreover have "\<not> starts_with (''volsize='' @ amount) ''-''" by (simp add: starts_with_def)
  ultimately have "validate_exec_args ''zfs'' [''set'', ''volsize='' @ amount, dataset] \<noteq> Inr ()"
    by (simp add: validate_exec_args_def validate_zfs_args_def)
  then show ?thesis by (auto simp: accepted_exec validate_exec_def validate_exec_shape_def res_simps)
qed

lemma guest_info_refused: "\<not> accepted (virsh_op (guest_info_args i))"
proof -
  let ?q = "''{'' @ debug_str ''execute'' @ '':'' @ debug_str ''guest-info'' @ ''}''"
  have q: "\<not> safe_cli_name ?q" "\<not> starts_with ?q ''-''" by code_simp+
  have "validate_exec_args ''virsh'' (virsh_args (guest_info_args i)) \<noteq> Inr ()"
    using q by (auto simp: validate_exec_args_def validate_virsh_args_def virsh_args_def guest_info_args_def CONNECT_def virsh_command_def
        virsh_rest_def res_simps Let_def)
  then show ?thesis by (auto simp: virsh_op_def accepted_exec validate_exec_def validate_exec_shape_def res_simps)
qed

text \<open>
  C40. Behind the broker no disk can be grown and the guest's system is never known. \<open>resize_disk\<close> either asks nothing and
  changes no record, or its first command is \<open>zfs set volsize=..\<close>, which the broker refuses whatever the size: it permits two properties,
  the description and the quota. The query of \<open>guest_agent_info\<close> carries a JSON argument, which is no name, and is refused for every machine.
\<close>

theorem growth_and_guest_info_refused:
  assumes "store_wf (kv_store s)" and "resize_disk env i index n s = (x, s')"
  shows "(asked_since (kv_host s) (kv_host s') = [] \<and> records (kv_store s') = records (kv_store s) \<or>
      (\<exists>dataset later. asked_since (kv_host s) (kv_host s') = exec_op ''zfs'' [''set'', ''volsize='' @ zvol_size n, dataset] # later)) \<and>
    (\<forall>dataset. \<not> accepted (exec_op ''zfs'' [''set'', ''volsize='' @ zvol_size n, dataset])) \<and>
    (\<forall>j. \<not> accepted (virsh_op (guest_info_args j)))"
proof -
  obtain g s1 where g: "vm_get_stored i s = (g, s1)" by fastforce
  note stored = vm_get_stored_ok [OF assms(1) g]
  have "asked_since (kv_host s) (kv_host s') = [] \<and> records (kv_store s') = records (kv_store s) \<or>
      (\<exists>dataset later. asked_since (kv_host s) (kv_host s') = exec_op ''zfs'' [''set'', ''volsize='' @ zvol_size n, dataset] # later)"
  proof (cases "s' = s1")
    case True
    with stored show ?thesis by (simp add: asked_since_def)
  next
    case False
    let ?grow = "\<lambda>dataset. exec_op ''zfs'' [''set'', ''volsize='' @ zvol_size n, dataset]"
    from False assms(2) g obtain v disk dataset where d: "g = Inr v" "nth_opt (vm_disks v) index = Some disk"
      "ensure_safe_zfs_dataset (trim (vd_dataset disk)) = Inr dataset" "\<not> n = 0" "\<not> n < vd_size_gib disk" "n \<noteq> vd_size_gib disk"
      by (cases g) (auto simp: resize_disk_def ok_or_def elim!: bind_st_cases split: option.splits if_splits)
    obtain r s2 where r: "on_vhost (run_ok ''zfs'' [''set'', ''volsize='' @ zvol_size n, dataset]) s1 = (r, s2)" by fastforce
    have i2: "issued (kv_host s2) = issued (kv_host s) @ [?grow dataset]"
      using on_vhost_frame [OF r] run_ok_issued [of "''zfs''" "[''set'', ''volsize='' @ zvol_size n, dataset]" "kv_host s1"] zfs_known stored by auto
    obtain running s3 where l: "is_running i s2 = (running, s3)" by fastforce
    define s4 where "s4 = (if running then besides (virsh [''blockresize'', i, disk_target_name index (vd_bus disk), zvol_size n]) s3 else s3)"
    have "\<exists>more. issued (kv_host s3) = issued (kv_host s2) @ more"
      using l live_state_issued_vm [of i "kv_host s2"] by (auto simp: is_running_def on_vhost_def split: prod.splits)
    then have "\<exists>more. issued (kv_host s4) = issued (kv_host s2) @ more" by (auto simp: s4_def virsh_issued)
    moreover have "kv_host s' \<in> {kv_host s2, kv_host s4}"
      using assms(2) g d r l by (cases r) (auto simp: resize_disk_def s4_def Let_def dest!: on_vms_frame elim!: bind_st_cases)
    ultimately show ?thesis using i2 by (auto simp: asked_since_def)
  qed
  then show ?thesis using volsize_refused guest_info_refused by blast
qed

section \<open>Samples\<close>



definition sample_two_vms :: "(broker_error + str) list \<Rightarrow> vm_service" where
  "sample_two_vms answers = (sample_vms sample_vm answers)\<lparr>kv_store := \<lparr>dir_display = ''d'', dir_exists = True,
     files = [(''v1.json'', Json sample_vm), (''v2.json'', Json (sample_vm\<lparr>vm_id := ''v2'', vm_name := ''db''\<rparr>))], faults = []\<rparr>\<rparr>"

theorem ram_snapshots_shared_witness:
  "let s = sample_two_vms [Inr ''running'', Inr [], Inr [], Inr ''shut off'']; req = \<lparr>sq_name = ''mem'', sq_description = None, sq_type = SnapRam\<rparr>;
       s1 = snd (create_ram_snapshot sample_vm_env ''v1'' req s)
   in (\<exists>later. asked_since (kv_host s1) (kv_host (snd (restore_ram_snapshot sample_vm_env ''v2'' ''mem'' s1))) =
         virsh_op [''restore'', ''/var/lib/daygleve/ram-snapshots/mem.save''] # later) \<and>
      map_of (host_files (kv_host (snd (vm_delete_snapshot sample_vm_env ''v2'' ''mem'' s1)))) ''/var/lib/daygleve/ram-snapshots/mem.save'' = None"
proof -
  let ?s = "sample_two_vms [Inr ''running'', Inr [], Inr [], Inr ''shut off'']" let ?req = "\<lparr>sq_name = ''mem'', sq_description = None, sq_type = SnapRam\<rparr>"
  let ?s1 = "snd (create_ram_snapshot sample_vm_env ''v1'' ?req ?s)"
  have "is_ok (fst (create_ram_snapshot sample_vm_env ''v1'' ?req ?s))" by code_simp
  then obtain snap where made: "create_ram_snapshot sample_vm_env ''v1'' ?req ?s = (Inr snap, ?s1)"
    by (cases "create_ram_snapshot sample_vm_env ''v1'' ?req ?s"; cases "fst (create_ram_snapshot sample_vm_env ''v1'' ?req ?s)") (auto simp: is_ok_def)
  have "is_ok (fst (vm_get_stored ''v2'' ?s1))" by code_simp
  then obtain w s2 where got: "vm_get_stored ''v2'' ?s1 = (Inr w, s2)"
    by (cases "vm_get_stored ''v2'' ?s1"; cases "fst (vm_get_stored ''v2'' ?s1)") (auto simp: is_ok_def)
  have wf: "store_wf (kv_store ?s)" "store_wf (kv_store ?s1)" unfolding store_wf_def by code_simp+
  have "fst (next_file_error (kv_host ?s1)) = None" "ram_file sample_vm_env ''mem'' = ''/var/lib/daygleve/ram-snapshots/mem.save''" by code_simp+
  with ram_snapshots_shared [OF wf(1) made wf(2) got] show ?thesis by (simp add: Let_def)
qed

definition sample_reseed :: update_vm_request where
  "sample_reseed =
     \<lparr>uv_name = None, uv_vcpus = None, uv_memory_mib = None, uv_firmware = None, uv_display = None, uv_disks = None, uv_nics = None,
      uv_description = None, uv_eject_cdrom = None, uv_cdrom = None, uv_guest_agent = None, uv_firewall = None,
      uv_cloud_init = Some \<lparr>ci_hostname = Some ''web01'', ci_default_user = None, ci_ssh_keys = [], ci_network = None, ci_root_password = None\<rparr>,
      uv_startup_order = None, uv_tags = None, uv_pool = None, uv_autostart = None, uv_template = None\<rparr>"

definition seeded_vm :: vm where
  "seeded_vm = sample_vm\<lparr>vm_cloud_init_iso := Some (seed_iso_path sample_vm_env ''web01'')\<rparr>"


theorem growth_and_guest_info_refused_witness:
  "\<exists>dataset later. asked_since (kv_host (sample_vms sample_vm [])) (kv_host (snd (resize_disk sample_vm_env ''v1'' 0 40 (sample_vms sample_vm [])))) =
     exec_op ''zfs'' [''set'', ''volsize=40G'', dataset] # later"
proof -
  let ?s = "sample_vms sample_vm []"
  obtain x s' where r: "resize_disk sample_vm_env ''v1'' 0 40 ?s = (x, s')" by fastforce
  have "issued (kv_host (snd (resize_disk sample_vm_env ''v1'' 0 40 ?s))) \<noteq> []" "zvol_size 40 = ''40G''" by code_simp+
  with growth_and_guest_info_refused [OF sample_vms_store(1) r] r show ?thesis by (simp add: asked_since_def sample_vms_store)
qed

end
