(* ===== verification/Vm_Iso.thy ===== *)
theory Vm_Iso
  imports Vm_Render "HOL-Library.Multiset"
begin

section \<open>Virtual machines: the search for ISO images\<close>

text \<open>
  The iterative walk of \<open>scan_iso_dir\<close> against a structural recursion over the directory tree, and what \<open>resolve_iso\<close> accepts.
\<close>

text \<open>The reference: the images of a directory, those of its subdirectories down to the given depth included.\<close>

fun isos_below :: "str \<Rightarrow> nat \<Rightarrow> str \<Rightarrow> dir_entry list \<Rightarrow> iso_image list" where
  "isos_below storage n dir [] = []"
| "isos_below storage n dir (EntryDir name es # rest) =
     (case n of 0 \<Rightarrow> [] | Suc m \<Rightarrow> isos_below storage m (path_join dir name) es) @ isos_below storage n dir rest"
| "isos_below storage n dir (EntryFile name bytes # rest) =
     (case bytes of
        None \<Rightarrow> []
      | Some b \<Rightarrow>
          if is_iso name then [\<lparr>im_name = name, im_path = path_join dir name, im_size_bytes = b, im_storage = storage\<rparr>] else []) @
     isos_below storage n dir rest"
| "isos_below storage n dir (EntryOther _ # rest) = isos_below storage n dir rest"

definition pending :: "str \<Rightarrow> nat \<Rightarrow> walk \<Rightarrow> iso_image multiset" where
  "pending storage max_depth w = sum_list (map (\<lambda>(dir, es, depth). mset (isos_below storage (max_depth - depth) dir es)) w)"

lemma scan_entries_pending:
  "scan_entries storage max_depth dir depth es stack out = (stack', out') \<Longrightarrow>
     mset out' + pending storage max_depth stack' =
     mset out + pending storage max_depth stack + mset (isos_below storage (max_depth - depth) dir es)"
proof (induction storage max_depth dir depth es stack out rule: scan_entries.induct)
  case (2 storage max_depth dir depth name es rest stack out)
  then show ?case
    by (cases "depth < max_depth") (auto simp: pending_def ac_simps split: nat.splits dest: Suc_diff_Suc)
next
  case (3 storage max_depth dir depth name bytes rest stack out)
  then show ?case by (auto simp: ac_simps split: option.splits if_splits)
qed (auto simp: pending_def ac_simps)

lemma scan_walk_pending: "mset (scan_walk storage max_depth w out) = mset out + pending storage max_depth w"
proof (induction storage max_depth w out rule: scan_walk.induct)
  case (2 storage max_depth dir es depth stack out)
  obtain stack' out' where e: "scan_entries storage max_depth dir depth es stack out = (stack', out')" by fastforce
  with 2 scan_entries_pending [OF e] show ?case by (auto simp: pending_def ac_simps)
qed (simp add: pending_def)

lemma scan_mset: "mset (scan_iso_dir root es storage max_depth out) = mset out + mset (isos_below storage max_depth root es)"
  unfolding scan_iso_dir_def scan_walk_pending by (simp add: pending_def)

text \<open>
  C29. The iterative walk of \<open>scan_iso_dir\<close> ends on every directory tree and finds, each exactly once, the regular files with
  the extension \<open>iso\<close> (in any case) that lie at most \<open>max_depth\<close> directories below the root; symbolic links and unreadable
  entries contribute nothing. The reference is a structural recursion over the tree.
\<close>

theorem iso_scan_exact: "mset (scan_iso_dir root es storage max_depth out) = mset out + mset (isos_below storage max_depth root es)"
  by (rule scan_mset)

section \<open>Installation media\<close>

text \<open>A name that \<open>read_dir\<close> can give.\<close>

definition file_name :: "str \<Rightarrow> bool" where
  "file_name n \<longleftrightarrow> n \<noteq> [] \<and> CHR ''/'' \<notin> set n \<and> n \<noteq> ''.'' \<and> n \<noteq> ''..''"

fun entry_wf :: "dir_entry \<Rightarrow> bool" where
  "entry_wf (EntryDir name es) \<longleftrightarrow> file_name name \<and> list_all entry_wf es"
| "entry_wf (EntryFile name _) \<longleftrightarrow> file_name name"
| "entry_wf (EntryOther name) \<longleftrightarrow> file_name name"

text \<open>A path made of a root, at most \<open>n\<close> directories and the name of an image.\<close>

definition image_below :: "str \<Rightarrow> nat \<Rightarrow> str \<Rightarrow> bool" where
  "image_below root n p \<longleftrightarrow>
     (\<exists>names. names \<noteq> [] \<and> length names \<le> Suc n \<and> list_all file_name names \<and> is_iso (last names) \<and>
        p = root @ concat (map ((#) (CHR ''/'')) names))"

lemma path_join_name: "file_name n \<Longrightarrow> path_join dir n = dir @ ''/'' @ n"
  by (cases n) (auto simp: path_join_def file_name_def starts_with_def)

lemma image_below_join:
  assumes "image_below (path_join dir name) n p" and "file_name name"
  shows "image_below dir (Suc n) p"
proof -
  from assms obtain names where "names \<noteq> []" "length names \<le> Suc n" "list_all file_name names" "is_iso (last names)"
    "p = dir @ ''/'' @ name @ concat (map ((#) (CHR ''/'')) names)"
    by (auto simp: image_below_def path_join_name)
  with assms(2) show ?thesis unfolding image_below_def by (intro exI [of _ "name # names"]) simp
qed

lemma image_below_mono: "image_below root m p \<Longrightarrow> m \<le> n \<Longrightarrow> image_below root n p"
  by (auto simp: image_below_def)

lemma image_below_file: "file_name name \<Longrightarrow> is_iso name \<Longrightarrow> image_below dir n (path_join dir name)"
  unfolding image_below_def by (intro exI [of _ "[name]"]) (simp add: path_join_name)

lemma isos_below_paths:
  "list_all entry_wf es \<Longrightarrow> i \<in> set (isos_below storage n dir es) \<Longrightarrow> image_below dir n (im_path i) \<and> im_storage i = storage"
proof (induction storage n dir es rule: isos_below.induct)
  case (2 storage n dir name es rest)
  then show ?case by (auto split: nat.splits intro: image_below_join)
qed (auto simp: image_below_file split: option.splits if_splits)

definition root_images :: "str \<times> dir_entry list \<Rightarrow> (str \<times> str \<times> dir_entry list) list \<Rightarrow> iso_image set" where
  "root_images iso_dir roots =
     set (isos_below ''local'' 0 (fst iso_dir) (snd iso_dir)) \<union>
     (\<Union>(name, root, es) \<in> set roots. set (isos_below name ISO_SCAN_DEPTH root es))"

lemma set_scan: "set (scan_iso_dir root es storage n out) = set out \<union> set (isos_below storage n root es)"
  by (metis scan_mset set_mset_mset set_mset_union)

lemma set_list_isos: "set (list_isos iso_dir roots) = root_images iso_dir roots"
proof -
  have "set (foldl (\<lambda>isos (name, root, es). scan_iso_dir root es name ISO_SCAN_DEPTH isos) out roots) =
      set out \<union> (\<Union>(name, root, es) \<in> set roots. set (isos_below name ISO_SCAN_DEPTH root es))" for out
    by (induction roots arbitrary: out) (auto simp: set_scan)
  then show ?thesis by (simp add: list_isos_def root_images_def set_scan)
qed

text \<open>
  C21. The installation medium of a machine is one of the images the node offers. When \<open>resolve_iso\<close> accepts a path, it is
  the requested one, and it names an \<open>.iso\<close> file directly in the built-in library or at most four directories below the mount
  point of a share, by names that are not \<open>..\<close>: a machine cannot be pointed at any other file of the host. Conversely every
  such image is accepted.
\<close>

theorem cdrom_confined:
  assumes "list_all entry_wf (snd iso_dir)" and "list_all (\<lambda>(_, _, es). list_all entry_wf es) roots"
  shows "(resolve_iso iso_dir roots requested = Inr p \<longleftrightarrow>
      p = trim requested \<and> p \<noteq> [] \<and> p \<in> im_path ` root_images iso_dir roots) \<and>
    (p \<in> im_path ` root_images iso_dir roots \<longrightarrow>
      image_below (fst iso_dir) 0 p \<or> (\<exists>(_, root, _) \<in> set roots. image_below root ISO_SCAN_DEPTH p))"
proof (intro conjI impI)
  let ?found = "find (\<lambda>i. im_path i = trim requested) (list_isos iso_dir roots)"
  have f: "?found = None \<longleftrightarrow> trim requested \<notin> im_path ` root_images iso_dir roots"
    by (auto simp: find_None_iff set_list_isos image_iff)
  have g: "?found = Some i \<Longrightarrow> im_path i = trim requested" for i
    by (auto simp: find_Some_iff)
  show "resolve_iso iso_dir roots requested = Inr p \<longleftrightarrow> p = trim requested \<and> p \<noteq> [] \<and> p \<in> im_path ` root_images iso_dir roots"
  proof (cases ?found)
    case None
    then have "trim requested \<notin> im_path ` root_images iso_dir roots" using f by blast
    with None show ?thesis by (auto simp: resolve_iso_def Let_def ok_or_def)
  next
    case (Some i)
    then have "trim requested \<in> im_path ` root_images iso_dir roots" "im_path i = trim requested" using f g by auto
    with Some show ?thesis by (auto simp: resolve_iso_def Let_def ok_or_def)
  qed
next
  assume "p \<in> im_path ` root_images iso_dir roots"
  then show "image_below (fst iso_dir) 0 p \<or> (\<exists>(_, root, _) \<in> set roots. image_below root ISO_SCAN_DEPTH p)"
    using assms isos_below_paths unfolding root_images_def list_all_iff by fastforce
qed

definition sample_library :: "str \<times> dir_entry list" where
  "sample_library = (''/iso'', [EntryFile ''debian.ISO'' (Some 7), EntryOther ''link.iso''])"

definition sample_roots :: "(str \<times> str \<times> dir_entry list) list" where
  "sample_roots = [(''nas'', ''/mnt/nas'', [EntryDir ''template'' [EntryFile ''a.iso'' (Some 5)]])]"

theorem cdrom_confined_witness:
  "resolve_iso sample_library sample_roots '' /mnt/nas/template/a.iso '' = Inr ''/mnt/nas/template/a.iso'' \<and>
   \<not> is_ok (resolve_iso sample_library sample_roots ''/iso/link.iso'') \<and>
   (image_below (fst sample_library) 0 ''/mnt/nas/template/a.iso'' \<or>
    (\<exists>(_, root, _) \<in> set sample_roots. image_below root ISO_SCAN_DEPTH ''/mnt/nas/template/a.iso''))"
proof -
  have h: "list_all entry_wf (snd sample_library)" "list_all (\<lambda>(_, _, es). list_all entry_wf es) sample_roots" by code_simp+
  have r: "resolve_iso sample_library sample_roots '' /mnt/nas/template/a.iso '' = Inr ''/mnt/nas/template/a.iso''"
    "\<not> is_ok (resolve_iso sample_library sample_roots ''/iso/link.iso'')" by code_simp+
  with cdrom_confined [OF h, of "'' /mnt/nas/template/a.iso ''" "''/mnt/nas/template/a.iso''"] show ?thesis by blast
qed

end
