(* ===== verification/Spec2Isabelle.thy ===== *)
theory Spec2Isabelle
  imports Broker_Server Acl Auth_Invariant Throttle Operations_Safety Audit_Log Control_Plane_Safety Broker_Client Zfs_Safety
    Backup_Jobs Firewall Network Containers_Safety Containers_Config Vm_Guards Vm_Iso
begin

text \<open>
  DaygleVE-backend, verified.

  The program is the control plane of a virtualisation host, written in Rust. It has two processes. The \<^emph>\<open>broker\<close>
  (src/src/broker/) runs as root behind a local socket, accepts a fixed set of operations and checks every argument again. The
  \<^emph>\<open>backend\<close> (src/src/services/, src/src/api/, src/src/auth/) keeps JSON records under its state directory,
  authenticates and authorises HTTP requests, and reaches the host only through the broker (or, on a development machine without a
  broker socket, by running the same programs itself).

  \<^bold>\<open>Conventions.\<close> A Rust string is its UTF-8 byte list (\<open>Prelude\<close>), an integer whose overflow matters is a word of its
  width, \<open>Result\<close> is a sum with the error on the left, and a method that changes its service is a function that returns the new
  service beside its result. What is not code of the repository comes from outside as an argument or as part of a state: the
  answers of the host to each command (\<open>host\<close> in \<open>Command\<close>, a list of answers, so that a property about every list is a property about every
  host), the faults of the file system (\<open>Store\<close>), the clock, fresh identifiers, hashes, \<open>serde_json\<close> and the time formats.
  Loops are structural recursions over the frames, answers or records they consume, so no definition needs fuel. Witnesses evaluate
  the definitions on concrete inputs.

  \<^bold>\<open>Theories, and the source they model.\<close>
  \<^item> \<open>Prelude\<close>: bytes, UTF-8 characters, trimming, splitting, results and their automation.
  \<^item> \<open>Broker_Protocol\<close>, \<open>Broker_Validate\<close>, \<open>Broker_Safety\<close> (src/src/broker/mod.rs): frames and messages, every validator of a
    request, and that accepted commands name only paths, devices and datasets they may.
  \<^item> \<open>Broker_Server\<close> (src/src/broker/server.rs): one connection from the peer check to the reply; every action on the host is
    authorised and confined, a refused connection does nothing, the rewrite of a container's root file system line is exact.
  \<^item> \<open>Broker_Client\<close> (src/src/broker/client.rs), \<open>Command\<close> and \<open>Arguments\<close> (src/src/services/command.rs): the way back; the outcome the
    client reports is the server's, end to end, for unary calls and streams. The locale \<open>command_log\<close> is the contract the services use:
    what they ask of the host (\<open>only\<close>, \<open>script\<close>), and that the broker accepts it (\<open>asks\<close>).
  \<^item> \<open>Service_Base\<close>, \<open>Net_Text\<close> (src/src/error.rs, src/src/services/mod.rs): errors, identifiers, addresses.
  \<^item> \<open>Store\<close> (src/src/services/store.rs): the record store with a fault at any file system call; the locale
    \<open>record_store\<close> is its contract (an update is atomic), interpreted on the model and used by every service.
  \<^item> \<open>Throttle\<close>, \<open>Totp\<close>, \<open>Rbac\<close>, \<open>Acl\<close>, \<open>Auth\<close>, \<open>Auth_Invariant\<close>, \<open>Api_Token\<close>, \<open>Audit_Log\<close> (src/src/services/login_throttle.rs, totp.rs, acl.rs,
    auth.rs, api_token.rs, audit.rs, src/src/auth/mod.rs): identity. \<open>Control_Plane\<close> and \<open>Control_Plane_Safety\<close> (src/src/api/auth.rs, users.rs, tokens.rs, acl.rs,
    audit.rs) put them into one state: whatever sequence of requests arrives, credentials change only for who may change them.
  \<^item> \<open>Operations\<close>, \<open>Operations_Safety\<close> (src/src/services/operations.rs): the operations journal as an inductive step relation; history
    is kept, an approval is spent once, only approved findings are repaired.
  \<^item> \<open>Zfs\<close>, \<open>Zfs_Safety\<close> (src/src/services/zfs.rs): pools, disks, datasets; every command is one the broker accepts, and
    destructive ones are guarded.
  \<^item> \<open>Backup\<close>, \<open>Backup_Run\<close>, \<open>Backup_Restore\<close>, \<open>Backup_Jobs\<close> (src/src/services/backup.rs): plans, runs, restores and the jobs as a step relation.
  \<^item> \<open>Firewall\<close> (src/src/services/firewall.rs), \<open>Network\<close> (src/src/services/network.rs): the nftables batch, read back to the rules it
    was made from; bridges created whole or not at all.
  \<^item> \<open>Containers\<close>, \<open>Containers_Safety\<close>, \<open>Containers_Config\<close> (src/src/services/lxc.rs): life cycle, migration, snapshots, console
    tickets, and the configuration block, which the broker's own check accepts.

  \<^bold>\<open>What the properties show.\<close> Confinement and authorisation at the broker and the API; atomicity of records and of multi-step
  changes of the host, with the exact list of commands on every path; that the checks of the two processes agree; round trips of frames and
  of rendered rulesets; invariants of accounts, operations and backup jobs over arbitrary sequences of steps; and, as theorems of kind
  error, what the code does where it does not do what its comments say. Hypotheses on lengths (\<open>short\<close>) keep an argument within the broker's limit
  of 4096 bytes per argument; hypotheses on hashes and codecs are that they are functions and that decoding inverts encoding.

  \<^bold>\<open>Not modelled.\<close> The virtual machine service (src/src/services/kvm.rs) except the helpers containers share, network shares, power and
  snapshot schedules, alerts, pools and the remaining HTTP handlers are planned, in this order after the virtual machines. Metrics, the GPU, PCI and USB
  inventory and notifications read counters or deliver messages; the ACME client and the image library transfer data with external
  services; configuration and start-up are process glue. Where a modelled service calls one of these, what it returns is an argument.
\<close>

end
